(* ===== verification/Prelude.thy ===== *)
theory Prelude
  imports Main "HOL-Library.Word" "HOL-Library.AList"
begin

text \<open>
  Shared vocabulary of the development: the machine types of the Rust code as words, the
  \<open>?\<close> operator of Rust on sums, slicing with Rust's bounds check, association lists for the
  hash maps whose entries the code enumerates, and the generic list facts the component
  theories use. Three collections carry the automation: \<open>codec\<close> (decoding what was encoded),
  \<open>frame\<close> (which fields a state update leaves alone) and \<open>wf_intros\<close> (preservation of the
  components' invariants).
\<close>

named_theorems codec \<open>decoding an encoding gives the value back\<close>
named_theorems frame \<open>fields an operation does not touch\<close>
named_theorems wf_intros \<open>operations keep the components' invariants\<close>

unbundle bit_operations_syntax

section \<open>Machine types\<close>

type_synonym byte = "8 word"
type_synonym u8 = "8 word"
type_synonym u16 = "16 word"
type_synonym u32 = "32 word"
type_synonym u64 = "64 word"
type_synonym i8 = "8 word"
type_synonym i16 = "16 word"
type_synonym i32 = "32 word"
type_synonym i64 = "64 word"

section \<open>Results\<close>

text \<open>
  A fallible Rust function returns a value of \<open>'e + 'a\<close>; \<open>and_then\<close> is the \<open>?\<close> operator:
  the first error ends the computation.
\<close>

definition and_then :: "'e + 'a \<Rightarrow> ('a \<Rightarrow> 'e + 'b) \<Rightarrow> 'e + 'b" where
  "and_then r f = (case r of Inl e \<Rightarrow> Inl e | Inr v \<Rightarrow> f v)"

lemma and_then_Inl [simp]: "and_then (Inl e) f = Inl e"
  by (simp add: and_then_def)

lemma and_then_Inr [simp]: "and_then (Inr v) f = f v"
  by (simp add: and_then_def)

lemma and_then_eq_Inr_iff: "and_then r f = Inr y \<longleftrightarrow> (\<exists>v. r = Inr v \<and> f v = Inr y)"
  by (cases r) simp_all

lemma and_then_eq_Inl_iff:
  "and_then r f = Inl e \<longleftrightarrow> r = Inl e \<or> (\<exists>v. r = Inr v \<and> f v = Inl e)"
  by (cases r) simp_all

lemma and_then_cong [fundef_cong]:
  "r = r' \<Longrightarrow> (\<And>v. r' = Inr v \<Longrightarrow> f v = f' v) \<Longrightarrow> and_then r f = and_then r' f'"
  by (cases r') simp_all

text \<open>A fallible value of \<open>'a option\<close> turned into a result (\<open>ok_or\<close>, \<open>map_err\<close>).\<close>

definition ok_or :: "'e \<Rightarrow> 'a option \<Rightarrow> 'e + 'a" where
  "ok_or e x = (case x of None \<Rightarrow> Inl e | Some v \<Rightarrow> Inr v)"

lemma ok_or_simps [simp]: "ok_or e None = Inl e" "ok_or e (Some v) = Inr v"
  by (simp_all add: ok_or_def)

lemma ok_or_eq_Inr_iff [simp]: "ok_or e x = Inr v \<longleftrightarrow> x = Some v"
  by (cases x) simp_all

lemma ok_or_eq_Inl_iff [simp]: "ok_or e x = Inl e' \<longleftrightarrow> x = None \<and> e' = e"
  by (cases x) auto

text \<open>Mapping a result's value (\<open>Result::map\<close>, or building the value after \<open>?\<close>).\<close>

definition map_ok :: "('a \<Rightarrow> 'b) \<Rightarrow> 'e + 'a \<Rightarrow> 'e + 'b" where
  "map_ok f r = (case r of Inl e \<Rightarrow> Inl e | Inr v \<Rightarrow> Inr (f v))"

lemma map_ok_simps [simp]: "map_ok f (Inl e) = Inl e" "map_ok f (Inr v) = Inr (f v)"
  by (simp_all add: map_ok_def)

lemma map_ok_eq_Inr_iff [simp]: "map_ok f r = Inr y \<longleftrightarrow> (\<exists>v. r = Inr v \<and> y = f v)"
  by (cases r) auto

lemma map_ok_eq_Inl_iff [simp]: "map_ok f r = Inl e \<longleftrightarrow> r = Inl e"
  by (cases r) auto

text \<open>The values of a sequence of results, or its first error.\<close>

fun first_error :: "('e + 'a) list \<Rightarrow> 'e + 'a list" where
  "first_error [] = Inr []"
| "first_error (x # xs) = and_then x (\<lambda>v. map_ok ((#) v) (first_error xs))"

lemma first_error_Inr: "first_error xs = Inr ys \<Longrightarrow> xs = map Inr ys"
  by (induction xs arbitrary: ys) (auto simp: and_then_eq_Inr_iff)

lemma first_error_map_Inr [simp]: "first_error (map Inr ys) = Inr ys"
  by (induction ys) simp_all

lemma first_error_append:
  "first_error (xs @ ys) = and_then (first_error xs) (\<lambda>vs. map_ok ((@) vs) (first_error ys))"
  by (induction xs) (auto simp: and_then_def map_ok_def split: sum.splits)

text \<open>
  Feeding a sequence of inputs to a fallible step, stopping at the first error; and the
  contract of a step that keeps an invariant and only fails with tolerated errors.
\<close>

fun exec_all :: "('s \<Rightarrow> 'b \<Rightarrow> 'e + 's) \<Rightarrow> 's \<Rightarrow> 'b list \<Rightarrow> 'e + 's" where
  "exec_all step s [] = Inr s"
| "exec_all step s (b # bs) = and_then (step s b) (\<lambda>s'. exec_all step s' bs)"

lemma exec_all_append:
  "exec_all step s (xs @ ys) = and_then (exec_all step s xs) (\<lambda>s'. exec_all step s' ys)"
  by (induction xs arbitrary: s) (auto simp: and_then_def split: sum.splits)

locale invariant_step =
  fixes step :: "'s \<Rightarrow> 'b \<Rightarrow> 'e + 's"
    and good_input :: "'b \<Rightarrow> bool"
    and inv :: "'s \<Rightarrow> bool"
    and tolerated :: "'e \<Rightarrow> bool"
  assumes step_inv: "inv s \<Longrightarrow> good_input b \<Longrightarrow> step s b = Inr s' \<Longrightarrow> inv s'"
    and step_error: "inv s \<Longrightarrow> good_input b \<Longrightarrow> step s b = Inl e \<Longrightarrow> tolerated e"
begin

lemma exec_inv: "inv s \<Longrightarrow> \<forall>b \<in> set bs. good_input b \<Longrightarrow> exec_all step s bs = Inr s' \<Longrightarrow> inv s'"
proof (induction bs arbitrary: s)
  case Nil
  then show ?case by simp
next
  case (Cons b bs)
  then show ?case using step_inv by (auto simp: and_then_eq_Inr_iff)
qed

lemma exec_error: "inv s \<Longrightarrow> \<forall>b \<in> set bs. good_input b \<Longrightarrow> exec_all step s bs = Inl e \<Longrightarrow> tolerated e"
proof (induction bs arbitrary: s)
  case Nil
  then show ?case by simp
next
  case (Cons b bs)
  then show ?case using step_inv step_error by (auto simp: and_then_eq_Inl_iff)
qed

end

section \<open>Slices\<close>

text \<open>\<open>&v[start..start + count]\<close>: \<open>None\<close> is the panic of an out-of-range slice.\<close>

definition slice_at :: "'a list \<Rightarrow> nat \<Rightarrow> nat \<Rightarrow> 'a list option" where
  "slice_at v start count =
     (if start + count \<le> length v then Some (take count (drop start v)) else None)"

lemma slice_at_Some: "start + count \<le> length v \<Longrightarrow> slice_at v start count = Some (take count (drop start v))"
  by (simp add: slice_at_def)

lemma slice_at_eq_Some_iff:
  "slice_at v start count = Some s \<longleftrightarrow> start + count \<le> length v \<and> s = take count (drop start v)"
  by (auto simp: slice_at_def)

lemma length_slice_at: "slice_at v start count = Some s \<Longrightarrow> length s = count"
  by (auto simp: slice_at_def split: if_splits)

lemma slice_at_map: "slice_at (map f v) start count = map_option (map f) (slice_at v start count)"
  by (simp add: slice_at_def take_map drop_map)

lemma slice_at_0_length [simp]: "slice_at v 0 (length v) = Some v"
  by (simp add: slice_at_def)

text \<open>Taking a list apart in consecutive chunks and gluing it together again.\<close>

lemma take_drop_append:
  "take m (drop n xs) @ drop (n + m) xs = drop n xs"
  by (metis append_take_drop_id add.commute drop_drop)

section \<open>Association lists for hash maps\<close>

text \<open>
  The code only inserts into, looks up in and counts over its hash maps. \<open>AList.update\<close>
  keeps one entry per key; \<open>entry_or\<close> is \<open>entry(k).or_default()\<close>.
\<close>

definition entry_or :: "'v \<Rightarrow> ('k \<times> 'v) list \<Rightarrow> 'k \<Rightarrow> 'v" where
  "entry_or d m k = (case map_of m k of None \<Rightarrow> d | Some v \<Rightarrow> v)"

lemma entry_or_Some [simp]: "map_of m k = Some v \<Longrightarrow> entry_or d m k = v"
  by (simp add: entry_or_def)

lemma entry_or_None [simp]: "map_of m k = None \<Longrightarrow> entry_or d m k = d"
  by (simp add: entry_or_def)

lemma entry_or_update:
  "entry_or d (AList.update k v m) j = (if j = k then v else entry_or d m j)"
  by (simp add: entry_or_def AList.update_conv)

lemma sum_list_update_entry:
  fixes f :: "'v \<Rightarrow> nat"
  assumes "distinct (map fst m)" and "map_of m k = Some v"
  shows "(\<Sum>x\<leftarrow>AList.update k w m. f (snd x)) + f v = (\<Sum>x\<leftarrow>m. f (snd x)) + f w"
  using assms by (induction m) (auto split: if_splits)

lemma sum_list_update_fresh:
  fixes f :: "'v \<Rightarrow> nat"
  assumes "map_of m k = None"
  shows "(\<Sum>x\<leftarrow>AList.update k w m. f (snd x)) = (\<Sum>x\<leftarrow>m. f (snd x)) + f w"
  using assms by (induction m) (auto split: if_splits)

end
