(* ===== verification/Types.thy ===== *)
theory Types
  imports Prelude
begin

text \<open>
  The data the components exchange: \<open>types.rs\<close>, the enumerations of \<open>block.rs\<close>,
  \<open>integrity.rs\<close> and \<open>header.rs\<close>, and the error type of \<open>error.rs\<close>.
  Constructors carry a prefix where Rust enums share a variant name (\<open>Dt\<close> for
  \<open>DataType\<close>, \<open>Np\<close>, \<open>Tp\<close>, \<open>Rp\<close>, \<open>Nv\<close> for the payload and storage enums).
  A Rust \<open>String\<close> is the \<open>string\<close> of its UTF-8 bytes; \<open>f32\<close> and \<open>f64\<close> are their
  bit patterns.
\<close>

type_synonym f32 = "32 word"
type_synonym f64 = "64 word"

section \<open>Datatypes, channel types, versions, integrity levels\<close>

datatype data_type =
    DtBool | DtInt8 | DtInt16 | DtInt32 | DtInt64
  | DtUInt8 | DtUInt16 | DtUInt32 | DtUInt64
  | DtFloat | DtDouble
  | DtString | DtBinary | DtByteArray
  | DtGpsLocation
  | DtUnsupported string

fun is_unsupported :: "data_type \<Rightarrow> bool" where
  "is_unsupported (DtUnsupported _) = True"
| "is_unsupported _ = False"

datatype channel_type = CtScalar | CtVector | CtMatrix | CtBinary | CtUnsupported string

fun is_unsupported_channel_type :: "channel_type \<Rightarrow> bool" where
  "is_unsupported_channel_type (CtUnsupported _) = True"
| "is_unsupported_channel_type _ = False"

datatype osf_version = Osf4 | Osf5

datatype integrity_profile = IpNone | IpCrc32c | IpEd25519

text \<open>The levels are ordered by what they protect: none, crc, signed.\<close>

primrec integrity_level :: "integrity_profile \<Rightarrow> nat" where
  "integrity_level IpNone = 0"
| "integrity_level IpCrc32c = 1"
| "integrity_level IpEd25519 = 2"

lemma integrity_level_inject: "integrity_level a = integrity_level b \<longleftrightarrow> a = b"
  by (cases a; cases b) simp_all

instantiation integrity_profile :: linorder
begin

definition less_eq_integrity_profile :: "integrity_profile \<Rightarrow> integrity_profile \<Rightarrow> bool" where
  "a \<le> b \<longleftrightarrow> integrity_level a \<le> integrity_level b"

definition less_integrity_profile :: "integrity_profile \<Rightarrow> integrity_profile \<Rightarrow> bool" where
  "a < b \<longleftrightarrow> integrity_level a < integrity_level b"

instance
  by intro_classes (auto simp: less_eq_integrity_profile_def less_integrity_profile_def integrity_level_inject)

end

lemma crc_level: "IpCrc32c \<le> p \<longleftrightarrow> p \<noteq> IpNone"
  by (cases p) (simp_all add: less_eq_integrity_profile_def)

section \<open>Errors\<close>

text \<open>
  \<open>OsfError\<close>, its variants in the source's order. A free-text message is represented by its
  fixed part. \<open>Panic\<close> is the model's own: it stands for an unwinding panic (an index out of
  range, a failed \<open>expect\<close>, \<open>unreachable!\<close>), so that the absence of panics is a statement.
\<close>

datatype io_error = UnexpectedEof | OtherIo

datatype osf_error =
    Io io_error
  | InvalidMagicHeader string
  | UnsupportedVersion string
  | UnknownHeaderToken string
  | MetablockCrcMismatch (expected: u32) (actual: u32)
  | MagicHeaderTooLong nat
  | InvalidMetablock string
  | RemovedInSpec2026_05_04 string string "string option"
  | JsonError
  | XmlError string
  | UnknownChannelIndex u16
  | InvalidBlock string
  | ChannelMixedBlockTypes u16
  | ContinuedDataWithoutStart u16
  | RelStampWithoutAnchor u16
  | DataTypeMismatch u16 data_type data_type
  | ChannelNotFound string
  | DataTypeAccessMismatch u16 data_type data_type
  | WriterEmpty
  | Panic string

section \<open>Blocks\<close>

record gps_location =
  latitude :: f64
  longitude :: f64
  altitude :: f64

datatype numeric_payload =
    NpBool "bool list"
  | NpInt8 "i8 list" | NpInt16 "i16 list" | NpInt32 "i32 list" | NpInt64 "i64 list"
  | NpUInt8 "u8 list" | NpUInt16 "u16 list" | NpUInt32 "u32 list" | NpUInt64 "u64 list"
  | NpFloat "f32 list" | NpDouble "f64 list"

fun np_len :: "numeric_payload \<Rightarrow> nat" where
  "np_len (NpBool v) = length v"
| "np_len (NpInt8 v) = length v"
| "np_len (NpInt16 v) = length v"
| "np_len (NpInt32 v) = length v"
| "np_len (NpInt64 v) = length v"
| "np_len (NpUInt8 v) = length v"
| "np_len (NpUInt16 v) = length v"
| "np_len (NpUInt32 v) = length v"
| "np_len (NpUInt64 v) = length v"
| "np_len (NpFloat v) = length v"
| "np_len (NpDouble v) = length v"

datatype timestamped_payload =
    TpBool "(i64 \<times> bool) list"
  | TpInt8 "(i64 \<times> i8) list" | TpInt16 "(i64 \<times> i16) list"
  | TpInt32 "(i64 \<times> i32) list" | TpInt64 "(i64 \<times> i64) list"
  | TpUInt8 "(i64 \<times> u8) list" | TpUInt16 "(i64 \<times> u16) list"
  | TpUInt32 "(i64 \<times> u32) list" | TpUInt64 "(i64 \<times> u64) list"
  | TpFloat "(i64 \<times> f32) list" | TpDouble "(i64 \<times> f64) list"
  | TpString "(i64 \<times> string) list"
  | TpBinary "(i64 \<times> byte list) list"
  | TpGpsLocation "(i64 \<times> gps_location) list"

fun tp_len :: "timestamped_payload \<Rightarrow> nat" where
  "tp_len (TpBool v) = length v"
| "tp_len (TpInt8 v) = length v"
| "tp_len (TpInt16 v) = length v"
| "tp_len (TpInt32 v) = length v"
| "tp_len (TpInt64 v) = length v"
| "tp_len (TpUInt8 v) = length v"
| "tp_len (TpUInt16 v) = length v"
| "tp_len (TpUInt32 v) = length v"
| "tp_len (TpUInt64 v) = length v"
| "tp_len (TpFloat v) = length v"
| "tp_len (TpDouble v) = length v"
| "tp_len (TpString v) = length v"
| "tp_len (TpBinary v) = length v"
| "tp_len (TpGpsLocation v) = length v"

datatype rel_timestamped_payload =
    RpBool "(u32 \<times> bool) list"
  | RpInt8 "(u32 \<times> i8) list" | RpInt16 "(u32 \<times> i16) list"
  | RpInt32 "(u32 \<times> i32) list" | RpInt64 "(u32 \<times> i64) list"
  | RpUInt8 "(u32 \<times> u8) list" | RpUInt16 "(u32 \<times> u16) list"
  | RpUInt32 "(u32 \<times> u32) list" | RpUInt64 "(u32 \<times> u64) list"
  | RpFloat "(u32 \<times> f32) list" | RpDouble "(u32 \<times> f64) list"

fun rp_len :: "rel_timestamped_payload \<Rightarrow> nat" where
  "rp_len (RpBool v) = length v"
| "rp_len (RpInt8 v) = length v"
| "rp_len (RpInt16 v) = length v"
| "rp_len (RpInt32 v) = length v"
| "rp_len (RpInt64 v) = length v"
| "rp_len (RpUInt8 v) = length v"
| "rp_len (RpUInt16 v) = length v"
| "rp_len (RpUInt32 v) = length v"
| "rp_len (RpUInt64 v) = length v"
| "rp_len (RpFloat v) = length v"
| "rp_len (RpDouble v) = length v"

datatype skip_reason =
    UnsupportedDataType
  | UnsupportedChannelType
  | DeprecatedBlockType u8
  | StatusEventBlock
  | ReservedBlockType u8
  | CrcFailed
  | SignatureBlock
  | ZeroLengthBlock

text \<open>\<open>Skipped\<close> holds the reason, \<open>bytes_skipped\<close> and the captured payload.\<close>

datatype block_kind =
    StartData i64 f64 numeric_payload
  | ContinuedData numeric_payload
  | AbsTimestampData timestamped_payload
  | ContinuedRelStampData rel_timestamped_payload
  | Skipped skip_reason nat "byte list option"

record block =
  blk_channel_index :: u16
  blk_kind :: block_kind

section \<open>The control byte\<close>

datatype control_kind =
    CkReserved | CkTrustedTimestamp | CkTimebaseRealign | CkStatusEvent | CkMessageEvent
  | CkContinuedData | CkStartData | CkContinuedRelStampData | CkAbsTimeStampData
  | CkUnknown u8

record control_byte =
  cb_kind :: control_kind
  cb_multi_sample :: bool

definition decode_control_byte :: "u8 \<Rightarrow> control_byte" where
  "decode_control_byte byte =
     (let multi = (byte AND 0x80 \<noteq> 0);
          low = byte AND 0x7F;
          kind =
            (if low = 0 then CkReserved
             else if low = 1 then CkTrustedTimestamp
             else if low = 2 then CkTimebaseRealign
             else if low = 3 then CkStatusEvent
             else if low = 4 then CkMessageEvent
             else if low = 5 then CkContinuedData
             else if low = 6 then CkStartData
             else if low = 7 then CkContinuedRelStampData
             else if low = 8 then CkAbsTimeStampData
             else CkUnknown low)
      in \<lparr>cb_kind = kind, cb_multi_sample = multi\<rparr>)"

text \<open>The control bytes the writer emits decode to their block types.\<close>

lemma decode_control_byte_values [simp]:
  "decode_control_byte 0x05 = \<lparr>cb_kind = CkContinuedData, cb_multi_sample = False\<rparr>"
  "decode_control_byte 0x85 = \<lparr>cb_kind = CkContinuedData, cb_multi_sample = True\<rparr>"
  "decode_control_byte 0x06 = \<lparr>cb_kind = CkStartData, cb_multi_sample = False\<rparr>"
  "decode_control_byte 0x86 = \<lparr>cb_kind = CkStartData, cb_multi_sample = True\<rparr>"
  "decode_control_byte 0x08 = \<lparr>cb_kind = CkAbsTimeStampData, cb_multi_sample = False\<rparr>"
  "decode_control_byte 0x88 = \<lparr>cb_kind = CkAbsTimeStampData, cb_multi_sample = True\<rparr>"
  by (simp_all add: decode_control_byte_def)

end
