(* ===== verification/Float64.thy ===== *)
theory Float64
  imports Types
begin

text \<open>
  The \<open>f64\<close> arithmetic of the code: comparison with zero, the NaN test, multiplication,
  division, the casts \<open>usize as f64\<close> and \<open>f64 as i64\<close>, and \<open>i64::saturating_add\<close>. An
  \<open>f64\<close> is its IEEE-754 binary64 bit pattern. A finite magnitude is an integer number of
  units of \<open>2 ^ -1074\<close> (\<open>mag\<close>), and every operation is the exact rational result rounded
  to nearest, ties to even (\<open>round_bits\<close>). The lemmas show that rounding is monotone, which
  makes the reconstructed timestamps of an equidistant segment monotone.
\<close>

section \<open>Representation\<close>

text \<open>Exponent and fraction bits, without the sign; infinity is \<open>inf_bits\<close>, larger is NaN.\<close>

definition inf_bits :: nat where
  "inf_bits = 2047 * 2 ^ 52"

definition abs_bits :: "f64 \<Rightarrow> nat" where
  "abs_bits x = unat x mod 2 ^ 63"

definition f64_sign :: "f64 \<Rightarrow> bool" where
  "f64_sign x \<longleftrightarrow> 2 ^ 63 \<le> unat x"

definition f64_is_nan :: "f64 \<Rightarrow> bool" where
  "f64_is_nan x \<longleftrightarrow> inf_bits < abs_bits x"

definition f64_is_inf :: "f64 \<Rightarrow> bool" where
  "f64_is_inf x \<longleftrightarrow> abs_bits x = inf_bits"

definition f64_is_zero :: "f64 \<Rightarrow> bool" where
  "f64_is_zero x \<longleftrightarrow> abs_bits x = 0"

text \<open>The finite magnitude in units of \<open>2 ^ -1074\<close>.\<close>

definition mag_of_bits :: "nat \<Rightarrow> nat" where
  "mag_of_bits b =
     (if b div 2 ^ 52 = 0 then b mod 2 ^ 52
      else (2 ^ 52 + b mod 2 ^ 52) * 2 ^ (b div 2 ^ 52 - 1))"

definition f64_mag :: "f64 \<Rightarrow> nat" where
  "f64_mag x = mag_of_bits (abs_bits x)"

definition unit_scale :: nat where
  "unit_scale = 2 ^ 1074"

definition f64_make :: "bool \<Rightarrow> nat \<Rightarrow> f64" where
  "f64_make sign bits = of_nat (bits + (if sign then 2 ^ 63 else 0))"

definition f64_nan :: f64 where
  "f64_nan = 0x7FF8000000000000"

section \<open>Rounding\<close>

fun bitlen :: "nat \<Rightarrow> nat" where
  "bitlen n = (if n = 0 then 0 else Suc (bitlen (n div 2)))"

declare bitlen.simps [simp del]

lemma bitlen_0 [simp]: "bitlen 0 = 0"
  by (simp add: bitlen.simps)

text \<open>The exact quotient \<open>p / d\<close> rounded to an integer, ties to even.\<close>

definition rne :: "nat \<Rightarrow> nat \<Rightarrow> nat" where
  "rne p d =
     (let q = p div d; r = p mod d
      in if d < 2 * r \<or> (2 * r = d \<and> odd q) then q + 1 else q)"

text \<open>
  The bits of the magnitude \<open>p / q\<close> units: \<open>k\<close> binary digits are dropped so that 53 remain.
  A carry out of the significand moves into the exponent by itself, and overflow is infinity.
\<close>

definition round_bits :: "nat \<Rightarrow> nat \<Rightarrow> nat" where
  "round_bits p q =
     (let k = bitlen (p div q) - 53
      in min (k * 2 ^ 52 + rne p (q * 2 ^ k)) inf_bits)"

section \<open>Operations\<close>

definition f64_of_nat :: "nat \<Rightarrow> f64" where
  "f64_of_nat n = f64_make False (round_bits (n * unit_scale) 1)"

definition f64_mul :: "f64 \<Rightarrow> f64 \<Rightarrow> f64" where
  "f64_mul a b =
     (if f64_is_nan a \<or> f64_is_nan b then f64_nan
      else (let sign = (f64_sign a \<noteq> f64_sign b)
            in if f64_is_inf a \<or> f64_is_inf b
               then (if f64_is_zero a \<or> f64_is_zero b then f64_nan else f64_make sign inf_bits)
               else f64_make sign (round_bits (f64_mag a * f64_mag b) unit_scale)))"

definition f64_div :: "f64 \<Rightarrow> f64 \<Rightarrow> f64" where
  "f64_div a b =
     (if f64_is_nan a \<or> f64_is_nan b then f64_nan
      else (let sign = (f64_sign a \<noteq> f64_sign b)
            in if f64_is_inf a then (if f64_is_inf b then f64_nan else f64_make sign inf_bits)
               else if f64_is_inf b then f64_make sign 0
               else if f64_is_zero b
                 then (if f64_is_zero a then f64_nan else f64_make sign inf_bits)
               else f64_make sign (round_bits (f64_mag a * unit_scale) (f64_mag b))))"

text \<open>\<open>x > 0.0\<close> and \<open>x <= 0.0\<close>; both are false for NaN.\<close>

definition f64_gt_zero :: "f64 \<Rightarrow> bool" where
  "f64_gt_zero x \<longleftrightarrow> \<not> f64_is_nan x \<and> \<not> f64_is_zero x \<and> \<not> f64_sign x"

definition f64_le_zero :: "f64 \<Rightarrow> bool" where
  "f64_le_zero x \<longleftrightarrow> \<not> f64_is_nan x \<and> (f64_is_zero x \<or> f64_sign x)"

text \<open>\<open>x as i64\<close>: towards zero, saturating, and 0 for NaN.\<close>

definition f64_to_i64 :: "f64 \<Rightarrow> i64" where
  "f64_to_i64 x =
     (if f64_is_nan x then 0
      else (let v = (if f64_is_inf x then 2 ^ 63 else int (f64_mag x div unit_scale))
            in word_of_int (if f64_sign x then max (- (2 ^ 63)) (- v) else min (2 ^ 63 - 1) v)))"

definition i64_saturating_add :: "i64 \<Rightarrow> i64 \<Rightarrow> i64" where
  "i64_saturating_add a b = word_of_int (max (- (2 ^ 63)) (min (2 ^ 63 - 1) (sint a + sint b)))"

text \<open>The literal \<open>1.0e9\<close>.\<close>

definition f64_1e9 :: f64 where
  "f64_1e9 = 0x41CDCD6500000000"

section \<open>Rounding is monotone\<close>

lemma bitlen_mono: "m \<le> n \<Longrightarrow> bitlen m \<le> bitlen n"
proof (induction n arbitrary: m rule: bitlen.induct)
  case (1 n)
  show ?case
  proof (cases "m = 0")
    case True
    then show ?thesis by (simp add: bitlen.simps)
  next
    case False
    with 1 have "bitlen (m div 2) \<le> bitlen (n div 2)" by (intro "1.IH" div_le_mono) auto
    with False 1 show ?thesis by (simp add: bitlen.simps [of m] bitlen.simps [of n])
  qed
qed

lemma bitlen_upper: "n < 2 ^ bitlen n"
proof (induction n rule: bitlen.induct)
  case (1 n)
  then show ?case by (cases "n = 0") (auto simp: bitlen.simps [of n])
qed

lemma bitlen_lower: "0 < n \<Longrightarrow> 2 ^ (bitlen n - 1) \<le> n"
proof (induction n rule: bitlen.induct)
  case (1 n)
  show ?case
  proof (cases "n div 2 = 0")
    case True
    then show ?thesis using "1.prems" by (simp add: bitlen.simps [of n] bitlen.simps [of 0])
  next
    case False
    then have "2 ^ (bitlen (n div 2) - 1) \<le> n div 2" using "1.IH" "1.prems" by simp
    moreover have "bitlen (n div 2) \<noteq> 0" using False by (simp add: bitlen.simps [of "n div 2"])
    ultimately show ?thesis
      using "1.prems" by (cases "bitlen (n div 2)") (auto simp: bitlen.simps [of n])
  qed
qed

lemma rne_bounds: "0 < d \<Longrightarrow> p div d \<le> rne p d \<and> rne p d \<le> p div d + 1"
  by (simp add: rne_def Let_def)

lemma rne_exact: "0 < d \<Longrightarrow> rne (m * d) d = m"
  by (simp add: rne_def)

text \<open>Monotone in the quotient: compare \<open>p / d \<le> p' / d'\<close> crosswise.\<close>

lemma rne_mono:
  assumes d: "0 < d" "0 < d'" and le: "p * d' \<le> p' * d"
  shows "rne p d \<le> rne p' d'"
proof -
  let ?q = "p div d" and ?r = "p mod d" and ?q' = "p' div d'" and ?r' = "p' mod d'"
  have p: "p = ?q * d + ?r" and p': "p' = ?q' * d' + ?r'" by simp_all
  have r: "?r < d" "?r' < d'" using d by simp_all
  have q_le: "?q \<le> ?q'"
  proof (rule ccontr)
    assume "\<not> ?q \<le> ?q'"
    then have "(?q' + 1) * (d * d') \<le> ?q * (d * d')" by (intro mult_le_mono1) simp
    also have "\<dots> \<le> p * d'" using p by (metis add_leD1 le_refl mult.assoc mult_le_mono1)
    also have "\<dots> \<le> p' * d" by (rule le)
    also have "\<dots> = ?q' * (d * d') + ?r' * d" using p' by (metis add_mult_distrib mult.assoc mult.commute)
    also have "\<dots> < ?q' * (d * d') + d' * d" using r d by simp
    finally show False by (simp add: algebra_simps)
  qed
  show ?thesis
  proof (cases "?q < ?q'")
    case True
    then have "rne p d \<le> ?q'" using rne_bounds [OF d(1), of p] by simp
    also have "\<dots> \<le> rne p' d'" using rne_bounds [OF d(2), of p'] by simp
    finally show ?thesis .
  next
    case False
    with q_le have q: "?q' = ?q" by simp
    have "p * d' = ?q * d * d' + ?r * d'" using p by (metis add_mult_distrib)
    moreover have "p' * d = ?q * d' * d + ?r' * d" using p' q by (metis add_mult_distrib)
    moreover have "?q * d * d' = ?q * d' * d" by (simp only: mult.assoc mult.commute mult.left_commute)
    ultimately have "?r * d' \<le> ?r' * d" using le by linarith
    then have rr: "(2 * ?r) * d' \<le> (2 * ?r') * d" by simp
    have up: "d' < 2 * ?r'" if "d < 2 * ?r"
    proof (rule ccontr)
      assume "\<not> d' < 2 * ?r'"
      then have le2: "(2 * ?r') * d \<le> d' * d" by (intro mult_le_mono1) simp
      have "d * d' < (2 * ?r) * d'" using that d by (metis mult_less_mono1)
      also have "\<dots> \<le> (2 * ?r') * d" by (rule rr)
      also have "\<dots> \<le> d' * d" by (rule le2)
      finally show False by (simp only: mult.commute [of d d'] less_irrefl)
    qed
    have half: "d' \<le> 2 * ?r'" if "2 * ?r = d"
    proof (rule ccontr)
      assume "\<not> d' \<le> 2 * ?r'"
      then have "2 * ?r' < d'" by simp
      then have "(2 * ?r') * d < d' * d" using d by (metis mult_less_mono1)
      also have "\<dots> = (2 * ?r) * d'" using that by (simp only: mult.commute)
      also have "\<dots> \<le> (2 * ?r') * d" by (rule rr)
      finally show False by simp
    qed
    show ?thesis using up half q by (auto simp: rne_def Let_def)
  qed
qed

lemma round_bits_mono:
  assumes q: "0 < q" "0 < q'" and le: "p * q' \<le> p' * q"
  shows "round_bits p q \<le> round_bits p' q'"
proof -
  let ?k = "bitlen (p div q) - 53" and ?k' = "bitlen (p' div q') - 53"
  have n_le: "p div q \<le> p' div q'"
  proof -
    have "(p div q * q') * q = (p div q * q) * q'" by (simp only: mult.assoc mult.commute mult.left_commute)
    also have "\<dots> \<le> p * q'" by (intro mult_le_mono1) simp
    also have "\<dots> \<le> p' * q" by (rule le)
    finally have "p div q * q' \<le> p'" using q by (metis mult_le_cancel2)
    then show ?thesis using q by (simp add: less_eq_div_iff_mult_less_eq)
  qed
  then have k_le: "?k \<le> ?k'" using bitlen_mono by (intro diff_le_mono)
  have "?k * 2 ^ 52 + rne p (q * 2 ^ ?k) \<le> ?k' * 2 ^ 52 + rne p' (q' * 2 ^ ?k')"
  proof (cases "?k = ?k'")
    case True
    have "p * (q' * 2 ^ ?k) \<le> p' * (q * 2 ^ ?k)" using le by (simp add: mult.assoc [symmetric])
    then have "rne p (q * 2 ^ ?k) \<le> rne p' (q' * 2 ^ ?k)" using q by (intro rne_mono) simp_all
    with True show ?thesis by simp
  next
    case False
    with k_le have lt: "?k < ?k'" by simp
    have "p div (q * 2 ^ ?k) < 2 ^ 53"
    proof -
      have "p div q < 2 ^ (?k + 53)"
        using bitlen_upper [of "p div q"] by (rule less_le_trans) (simp add: power_increasing)
      then have "p div q div 2 ^ ?k < 2 ^ 53"
        by (simp add: less_mult_imp_div_less power_add mult.commute)
      then show ?thesis by (simp add: div_mult2_eq)
    qed
    then have up: "rne p (q * 2 ^ ?k) \<le> 2 ^ 53"
      using rne_bounds [of "q * 2 ^ ?k" p] q by simp
    have "2 ^ 52 \<le> p' div (q' * 2 ^ ?k')"
    proof -
      have "p' div q' \<noteq> 0"
      proof
        assume z: "p' div q' = 0"
        show False using lt unfolding z by simp
      qed
      then have pos: "0 < p' div q'" by (rule neq0_conv [THEN iffD1])
      have "2 ^ 52 * 2 ^ ?k' \<le> p' div q'"
      proof -
        have "bitlen (p' div q') - 1 = 52 + ?k'" using lt by simp
        then show ?thesis using bitlen_lower [OF pos] by (simp only: power_add)
      qed
      then show ?thesis by (simp add: div_mult2_eq less_eq_div_iff_mult_less_eq)
    qed
    then have low: "2 ^ 52 \<le> rne p' (q' * 2 ^ ?k')"
      using rne_bounds [of "q' * 2 ^ ?k'" p'] q by simp
    have "?k * 2 ^ 52 + 2 ^ 53 \<le> ?k' * 2 ^ 52 + (2 ^ 52 :: nat)" using lt by simp
    with up low show ?thesis by linarith
  qed
  then show ?thesis by (simp add: round_bits_def Let_def)
qed

lemma round_bits_le_inf: "round_bits p q \<le> inf_bits"
  by (simp add: round_bits_def Let_def)

section \<open>Operations on non-negative values\<close>

text \<open>
  The order of the values of non-negative, non-NaN bit patterns is the order of the patterns
  themselves; \<open>mag_of_bits\<close> agrees with it.
\<close>

lemma inf_bits_less: "inf_bits < 2 ^ 63"
  by (simp add: inf_bits_def)

lemma f64_make_bits [simp]:
  assumes "b \<le> inf_bits"
  shows "abs_bits (f64_make s b) = b" and "f64_sign (f64_make s b) = s"
proof -
  have "b < 2 ^ 63" using assms inf_bits_less by simp
  then have u: "unat (f64_make s b) = b + (if s then 2 ^ 63 else 0)"
    unfolding f64_make_def by (simp only: unat_of_nat) simp
  show "abs_bits (f64_make s b) = b" using u \<open>b < 2 ^ 63\<close> by (simp add: abs_bits_def)
  show "f64_sign (f64_make s b) = s" using u \<open>b < 2 ^ 63\<close> by (simp add: f64_sign_def)
qed

lemma f64_make_not_nan [simp]: "b \<le> inf_bits \<Longrightarrow> \<not> f64_is_nan (f64_make s b)"
  by (simp add: f64_is_nan_def)

lemma f64_make_inf_iff [simp]: "b \<le> inf_bits \<Longrightarrow> f64_is_inf (f64_make s b) \<longleftrightarrow> b = inf_bits"
  by (simp add: f64_is_inf_def)

lemma f64_make_zero_iff [simp]: "b \<le> inf_bits \<Longrightarrow> f64_is_zero (f64_make s b) \<longleftrightarrow> b = 0"
  by (simp add: f64_is_zero_def)

lemma mag_of_bits_mono: "b \<le> b' \<Longrightarrow> mag_of_bits b \<le> mag_of_bits b'"
proof -
  assume le: "b \<le> b'"
  let ?e = "b div 2 ^ 52" and ?f = "b mod 2 ^ 52" and ?e' = "b' div 2 ^ 52" and ?f' = "b' mod 2 ^ 52"
  have f: "?f < 2 ^ 52" "?f' < 2 ^ 52" by simp_all
  have b: "b = ?e * 2 ^ 52 + ?f" "b' = ?e' * 2 ^ 52 + ?f'" by simp_all
  have e: "?e \<le> ?e'" using le by (rule div_le_mono)
  show ?thesis
  proof (cases "?e = ?e'")
    case True
    then have "?f \<le> ?f'" using le by (metis add_le_cancel_left div_mult_mod_eq)
    then show ?thesis using True le by (simp add: mag_of_bits_def)
  next
    case False
    with e have lt: "?e < ?e'" by simp
    then have low: "2 ^ 52 * 2 ^ (?e' - 1) \<le> mag_of_bits b'"
      by (auto simp: mag_of_bits_def intro: mult_le_mono1)
    show ?thesis
    proof (cases "?e = 0")
      case True
      have "mag_of_bits b < 2 ^ 52" using True f by (simp add: mag_of_bits_def)
      also have "\<dots> \<le> 2 ^ 52 * 2 ^ (?e' - 1)" by simp
      finally show ?thesis using low by simp
    next
      case False
      have "mag_of_bits b \<le> 2 ^ 53 * 2 ^ (?e - 1)"
        using False f by (auto simp: mag_of_bits_def intro!: mult_le_mono1)
      also have "\<dots> = 2 ^ 52 * 2 ^ ?e" using False by (cases ?e) simp_all
      also have "\<dots> \<le> 2 ^ 52 * 2 ^ (?e' - 1)" using lt by (simp add: power_increasing)
      finally show ?thesis using low by simp
    qed
  qed
qed

text \<open>Non-negative numbers (not NaN), and their order.\<close>

definition f64_nonneg :: "f64 \<Rightarrow> bool" where
  "f64_nonneg x \<longleftrightarrow> \<not> f64_is_nan x \<and> \<not> f64_sign x"

lemma f64_nonneg_make [simp]: "b \<le> inf_bits \<Longrightarrow> f64_nonneg (f64_make False b)"
  by (simp add: f64_nonneg_def)

lemma f64_of_nat_mono:
  "m \<le> n \<Longrightarrow> abs_bits (f64_of_nat m) \<le> abs_bits (f64_of_nat n)"
  using round_bits_mono [of 1 1 "m * unit_scale" "n * unit_scale"]
  by (simp add: f64_of_nat_def round_bits_le_inf)

lemma f64_nonneg_of_nat [simp]: "f64_nonneg (f64_of_nat n)"
  by (simp add: f64_of_nat_def round_bits_le_inf)

lemma unit_scale_pos [simp]: "0 < unit_scale"
  by (simp add: unit_scale_def)

text \<open>Multiplying by a positive finite constant, and dividing by a positive number.\<close>

lemma f64_inf_not_zero [simp]: "f64_is_inf x \<Longrightarrow> \<not> f64_is_zero x"
  by (simp add: f64_is_inf_def f64_is_zero_def inf_bits_def)

lemma f64_mag_pos: "\<not> f64_is_zero c \<Longrightarrow> 0 < f64_mag c"
proof -
  assume "\<not> f64_is_zero c"
  then have nz: "abs_bits c \<noteq> 0" by (simp add: f64_is_zero_def)
  show ?thesis
  proof (cases "abs_bits c div 2 ^ 52 = 0")
    case True
    then have "abs_bits c mod 2 ^ 52 = abs_bits c" by (metis add_0 div_mult_mod_eq mult_0)
    with nz show ?thesis unfolding f64_mag_def mag_of_bits_def if_P [OF True] by (simp only: neq0_conv)
  next
    case False
    show ?thesis unfolding f64_mag_def mag_of_bits_def if_not_P [OF False] by simp
  qed
qed

lemma f64_mul_nonneg:
  assumes "f64_nonneg x" "f64_gt_zero c" "\<not> f64_is_inf c"
  shows "f64_mul x c =
    f64_make False (if f64_is_inf x then inf_bits else round_bits (f64_mag x * f64_mag c) unit_scale)"
  using assms by (simp add: f64_mul_def f64_nonneg_def f64_gt_zero_def)

lemma f64_div_nonneg:
  assumes "f64_nonneg x" "f64_gt_zero c" "\<not> f64_is_inf x"
  shows "f64_div x c =
    f64_make False (if f64_is_inf c then 0 else round_bits (f64_mag x * unit_scale) (f64_mag c))"
  using assms by (simp add: f64_div_def f64_nonneg_def f64_gt_zero_def)

lemma f64_inf_upward:
  "f64_nonneg x \<Longrightarrow> f64_nonneg y \<Longrightarrow> abs_bits x \<le> abs_bits y \<Longrightarrow> f64_is_inf x \<Longrightarrow> f64_is_inf y"
  by (simp add: f64_nonneg_def f64_is_nan_def f64_is_inf_def)

lemma f64_mul_mono:
  assumes x: "f64_nonneg x" "f64_nonneg y" "abs_bits x \<le> abs_bits y"
    and c: "f64_gt_zero c" "\<not> f64_is_inf c"
  shows "f64_nonneg (f64_mul x c) \<and> f64_nonneg (f64_mul y c)
         \<and> abs_bits (f64_mul x c) \<le> abs_bits (f64_mul y c)"
proof -
  have "round_bits (f64_mag x * f64_mag c) unit_scale \<le> round_bits (f64_mag y * f64_mag c) unit_scale"
    using x by (intro round_bits_mono mult_le_mono1) (simp_all add: f64_mag_def mag_of_bits_mono)
  then show ?thesis
    using x c f64_inf_upward [OF x] by (simp add: f64_mul_nonneg round_bits_le_inf)
qed

lemma f64_div_mono:
  assumes x: "f64_nonneg x" "f64_nonneg y" "abs_bits x \<le> abs_bits y"
    and fin: "\<not> f64_is_inf y" and c: "f64_gt_zero c"
  shows "f64_nonneg (f64_div x c) \<and> f64_nonneg (f64_div y c)
         \<and> abs_bits (f64_div x c) \<le> abs_bits (f64_div y c)"
proof -
  have "0 < f64_mag c" using c by (intro f64_mag_pos) (simp add: f64_gt_zero_def)
  then have "round_bits (f64_mag x * unit_scale) (f64_mag c) \<le> round_bits (f64_mag y * unit_scale) (f64_mag c)"
    using x by (intro round_bits_mono mult_le_mono1) (simp_all add: f64_mag_def mag_of_bits_mono)
  moreover have "\<not> f64_is_inf x" using f64_inf_upward [OF x] fin by blast
  ultimately show ?thesis
    using x c fin by (simp add: f64_div_nonneg round_bits_le_inf)
qed

section \<open>Casts and saturation\<close>

lemma sint_word_of_int_i64:
  "- (2 ^ 63) \<le> v \<Longrightarrow> v < 2 ^ 63 \<Longrightarrow> sint (word_of_int v :: i64) = v"
  by (simp add: sint_sbintrunc' signed_take_bit_int_eq_self)

lemma f64_to_i64_mono:
  assumes "f64_nonneg x" "f64_nonneg y" "abs_bits x \<le> abs_bits y"
  shows "0 \<le> sint (f64_to_i64 x) \<and> sint (f64_to_i64 x) \<le> sint (f64_to_i64 y)"
proof -
  define v where "v z = (if f64_is_inf z then 2 ^ 63 else int (f64_mag z div unit_scale))" for z
  have val: "sint (f64_to_i64 z) = min (2 ^ 63 - 1) (v z)" if "f64_nonneg z" for z
    using that by (simp add: f64_to_i64_def f64_nonneg_def Let_def v_def sint_word_of_int_i64)
  have "v x \<le> v y \<or> 2 ^ 63 \<le> v y"
    using assms by (auto simp: v_def f64_is_inf_def f64_is_nan_def f64_nonneg_def f64_mag_def
                         mag_of_bits_mono div_le_mono)
  moreover have "0 \<le> v x" by (simp add: v_def)
  ultimately show ?thesis using assms by (auto simp: val)
qed

lemma sint_saturating_add:
  "sint (i64_saturating_add a b) = max (- (2 ^ 63)) (min (2 ^ 63 - 1) (sint a + sint b))"
  by (simp add: i64_saturating_add_def sint_word_of_int_i64)

lemma saturating_add_mono:
  "sint b \<le> sint c \<Longrightarrow> sint (i64_saturating_add a b) \<le> sint (i64_saturating_add a c)"
  by (simp add: sint_saturating_add)

lemma saturating_add_nonneg:
  assumes "0 \<le> sint b" shows "sint a \<le> sint (i64_saturating_add a b)"
  using assms sint_ge [of a] sint_lt [of a] by (simp add: sint_saturating_add)

lemma f64_1e9_props [simp]: "f64_gt_zero f64_1e9" "\<not> f64_is_inf f64_1e9"
  by (simp_all add: f64_1e9_def f64_gt_zero_def f64_is_nan_def f64_is_zero_def f64_sign_def
        f64_is_inf_def abs_bits_def inf_bits_def)

text \<open>
  The offset \<open>(x / c) as i64\<close> is monotone in \<open>x\<close>, whatever the positive divisor: an infinite
  divisor gives 0 on both sides, and an infinite dividend saturates.
\<close>

lemma f64_to_i64_nan [simp]: "f64_to_i64 f64_nan = 0"
  by (simp add: f64_to_i64_def f64_is_nan_def f64_nan_def abs_bits_def inf_bits_def)

lemma f64_to_i64_zero [simp]: "f64_to_i64 (f64_make False 0) = 0"
  by (simp add: f64_to_i64_def f64_mag_def mag_of_bits_def inf_bits_def)

lemma f64_to_i64_div_mono:
  assumes x: "f64_nonneg x" "f64_nonneg y" "abs_bits x \<le> abs_bits y" and c: "f64_gt_zero c"
  shows "0 \<le> sint (f64_to_i64 (f64_div x c))
         \<and> sint (f64_to_i64 (f64_div x c)) \<le> sint (f64_to_i64 (f64_div y c))"
proof (cases "f64_is_inf c")
  case True
  have "f64_to_i64 (f64_div z c) = 0" if "f64_nonneg z" for z
    using that True c by (simp add: f64_div_def f64_nonneg_def f64_gt_zero_def)
  with x show ?thesis by simp
next
  case c_fin: False
  have inf: "f64_div z c = f64_make False inf_bits" if "f64_is_inf z" "f64_nonneg z" for z
    using that c_fin c by (simp add: f64_div_def f64_nonneg_def f64_gt_zero_def)
  show ?thesis
  proof (cases "f64_is_inf y")
    case False
    then show ?thesis using f64_div_mono [OF x False c] f64_to_i64_mono by blast
  next
    case True
    then have y: "f64_div y c = f64_make False inf_bits" using x by (simp add: inf)
    have fx: "f64_nonneg (f64_div x c)"
    proof (cases "f64_is_inf x")
      case True
      then show ?thesis using x inf by simp
    next
      case False
      then show ?thesis using f64_div_mono [OF x(1,1) order.refl False c] by blast
    qed
    then have "abs_bits (f64_div x c) \<le> abs_bits (f64_make False inf_bits)"
      by (simp add: f64_nonneg_def f64_is_nan_def)
    with fx y show ?thesis using f64_to_i64_mono [of "f64_div x c" "f64_div y c"] by simp
  qed
qed

end
