(* ===== verification/Text.thy ===== *)
theory Text
  imports Prelude
begin

text \<open>
  The text operations of the Rust standard library the code uses: UTF-8 validation
  (\<open>String::from_utf8\<close>), splitting at a separator, decimal and hexadecimal formatting and
  parsing. A Rust \<open>String\<close> is the HOL \<open>string\<close> of its UTF-8 bytes.
\<close>

section \<open>Bytes and strings\<close>

definition bytes_of_string :: "string \<Rightarrow> byte list" where
  "bytes_of_string s = map of_char s"

definition string_of_bytes :: "byte list \<Rightarrow> string" where
  "string_of_bytes bs = map (\<lambda>b. char_of (unat b)) bs"

lemma of_char_less_256: "(of_char c :: nat) < 256"
proof -
  have "(of_char c :: nat) = of_char (char_of (of_char c :: nat))" by simp
  then show ?thesis by (metis mod_less_divisor of_char_of zero_less_numeral)
qed

lemma unat_of_char [simp]: "unat (of_char c :: byte) = of_char c"
proof -
  have "(of_char c :: byte) = of_nat (of_char c)" by (simp add: of_nat_of_char)
  then show ?thesis using of_char_less_256 [of c] by (simp only: unat_of_nat) simp
qed

lemma string_of_bytes_of_string [codec]: "string_of_bytes (bytes_of_string s) = s"
  by (induction s) (simp_all add: bytes_of_string_def string_of_bytes_def)

lemma bytes_of_string_of_bytes [codec]: "bytes_of_string (string_of_bytes bs) = bs"
proof -
  have "unat b < 256" for b :: byte using unsigned_less [of b, where 'a = nat] by simp
  then have "unat (of_char (char_of (unat b)) :: byte) = unat b" for b :: byte by simp
  then show ?thesis by (induction bs) (simp_all add: bytes_of_string_def string_of_bytes_def word_unat_eq_iff)
qed

lemma length_bytes_of_string [simp]: "length (bytes_of_string s) = length s"
  by (simp add: bytes_of_string_def)

text \<open>Well-formed UTF-8 byte sequences (Unicode, table 3-7), as \<open>str::from_utf8\<close> checks them.\<close>

definition utf8_cont :: "byte \<Rightarrow> bool" where
  "utf8_cont b \<longleftrightarrow> 0x80 \<le> b \<and> b \<le> 0xBF"

definition utf8_second :: "byte \<Rightarrow> byte \<Rightarrow> bool" where
  "utf8_second b c \<longleftrightarrow>
     (if b = 0xE0 then 0xA0 \<le> c \<and> c \<le> 0xBF
      else if b = 0xED then 0x80 \<le> c \<and> c \<le> 0x9F
      else if b = 0xF0 then 0x90 \<le> c \<and> c \<le> 0xBF
      else if b = 0xF4 then 0x80 \<le> c \<and> c \<le> 0x8F
      else utf8_cont c)"

fun utf8_valid :: "byte list \<Rightarrow> bool" where
  "utf8_valid [] \<longleftrightarrow> True"
| "utf8_valid (b # bs) \<longleftrightarrow>
     (if b \<le> 0x7F then utf8_valid bs
      else if 0xC2 \<le> b \<and> b \<le> 0xDF then
        (case bs of c # cs \<Rightarrow> utf8_cont c \<and> utf8_valid cs | _ \<Rightarrow> False)
      else if 0xE0 \<le> b \<and> b \<le> 0xEF then
        (case bs of c # d # ds \<Rightarrow> utf8_second b c \<and> utf8_cont d \<and> utf8_valid ds | _ \<Rightarrow> False)
      else if 0xF0 \<le> b \<and> b \<le> 0xF4 then
        (case bs of c # d # e # es \<Rightarrow>
            utf8_second b c \<and> utf8_cont d \<and> utf8_cont e \<and> utf8_valid es
         | _ \<Rightarrow> False)
      else False)"

text \<open>A Rust \<open>String\<close>: its bytes are well-formed.\<close>

definition rust_string :: "string \<Rightarrow> bool" where
  "rust_string s \<longleftrightarrow> utf8_valid (bytes_of_string s)"

definition from_utf8 :: "byte list \<Rightarrow> string option" where
  "from_utf8 bs = (if utf8_valid bs then Some (string_of_bytes bs) else None)"

lemma from_utf8_bytes_of_string [codec]:
  "rust_string s \<Longrightarrow> from_utf8 (bytes_of_string s) = Some s"
  by (simp add: from_utf8_def rust_string_def codec)

definition ascii_char :: "char \<Rightarrow> bool" where
  "ascii_char c \<longleftrightarrow> (of_char c :: byte) \<le> 0x7F"

lemma rust_string_ascii: "(\<forall>c \<in> set s. ascii_char c) \<Longrightarrow> rust_string s"
  by (induction s) (simp_all add: rust_string_def bytes_of_string_def ascii_char_def)

section \<open>Splitting\<close>

text \<open>\<open>s.split_once(c)\<close> and \<open>s.split(c)\<close>.\<close>

definition split_once :: "char \<Rightarrow> string \<Rightarrow> (string \<times> string) option" where
  "split_once c s =
     (case dropWhile (\<lambda>x. x \<noteq> c) s of
        [] \<Rightarrow> None
      | _ # rest \<Rightarrow> Some (takeWhile (\<lambda>x. x \<noteq> c) s, rest))"

lemma split_once_append [codec]: "c \<notin> set a \<Longrightarrow> split_once c (a @ c # b) = Some (a, b)"
proof -
  assume "c \<notin> set a"
  then have "\<And>x. x \<in> set a \<Longrightarrow> x \<noteq> c" by blast
  then show ?thesis
    by (simp add: split_once_def dropWhile_append2 takeWhile_append2)
qed

fun split_on :: "char \<Rightarrow> string \<Rightarrow> string list" where
  "split_on c [] = [[]]"
| "split_on c (x # xs) =
     (if x = c then [] # split_on c xs
      else (case split_on c xs of f # fs \<Rightarrow> (x # f) # fs | [] \<Rightarrow> [[x]]))"

lemma split_on_nonempty [simp]: "split_on c s \<noteq> []"
  by (induction s) (auto split: list.splits)

lemma split_on_none: "c \<notin> set a \<Longrightarrow> split_on c a = [a]"
  by (induction a) auto

lemma split_on_append: "c \<notin> set a \<Longrightarrow> split_on c (a @ c # b) = a # split_on c b"
  by (induction a) auto

section \<open>Decimal numbers\<close>

definition digit_char :: "nat \<Rightarrow> char" where
  "digit_char d = char_of (48 + d)"

definition is_ascii_digit :: "char \<Rightarrow> bool" where
  "is_ascii_digit c \<longleftrightarrow> (48::nat) \<le> of_char c \<and> (of_char c :: nat) \<le> 57"

definition digit_value :: "char \<Rightarrow> nat" where
  "digit_value c = of_char c - 48"

lemma of_char_digit_char: "d < 10 \<Longrightarrow> (of_char (digit_char d) :: nat) = 48 + d"
  by (simp add: digit_char_def)

lemma is_ascii_digit_digit_char [simp]: "d < 10 \<Longrightarrow> is_ascii_digit (digit_char d)"
  by (simp add: is_ascii_digit_def of_char_digit_char)

lemma digit_value_digit_char [simp]: "d < 10 \<Longrightarrow> digit_value (digit_char d) = d"
  by (simp add: digit_value_def of_char_digit_char)

text \<open>\<open>format!("{n}")\<close> for an unsigned integer.\<close>

fun show_nat :: "nat \<Rightarrow> string" where
  "show_nat n = (if n < 10 then [digit_char n] else show_nat (n div 10) @ [digit_char (n mod 10)])"

declare show_nat.simps [simp del]

text \<open>\<open>format!("{n}")\<close> for a signed integer.\<close>

definition show_int :: "int \<Rightarrow> string" where
  "show_int i = (if i < 0 then CHR ''-'' # show_nat (nat (- i)) else show_nat (nat i))"

definition digits_value :: "string \<Rightarrow> nat" where
  "digits_value s = foldl (\<lambda>acc c. acc * 10 + digit_value c) 0 s"

lemma show_nat_digits: "\<forall>c \<in> set (show_nat n). is_ascii_digit c"
proof (induction n rule: show_nat.induct)
  case (1 n)
  then show ?case by (subst show_nat.simps) (auto simp: show_nat.simps [of n])
qed

lemma show_nat_nonempty [simp]: "show_nat n \<noteq> []"
  by (subst show_nat.simps) simp

lemma digits_value_show_nat: "digits_value (show_nat n) = n"
proof (induction n rule: show_nat.induct)
  case (1 n)
  show ?case
  proof (cases "n < 10")
    case True
    then show ?thesis by (simp add: show_nat.simps [of n] digits_value_def)
  next
    case False
    with 1 have "digits_value (show_nat (n div 10)) = n div 10" by simp
    with False show ?thesis by (simp add: show_nat.simps [of n] digits_value_def)
  qed
qed

text \<open>
  \<open>s.parse::<uN>()\<close> with \<open>2^N\<close> as the bound: one optional \<open>+\<close>, at least one digit, nothing
  else, and no overflow.
\<close>

definition parse_unsigned :: "nat \<Rightarrow> string \<Rightarrow> nat option" where
  "parse_unsigned bound s =
     (let ds = (case s of c # rest \<Rightarrow> if c = CHR ''+'' then rest else s | [] \<Rightarrow> s)
      in if ds \<noteq> [] \<and> (\<forall>c \<in> set ds. is_ascii_digit c) \<and> digits_value ds < bound
         then Some (digits_value ds) else None)"

lemma parse_unsigned_show_nat [codec]: "n < bound \<Longrightarrow> parse_unsigned bound (show_nat n) = Some n"
proof -
  assume n: "n < bound"
  obtain c cs where s: "show_nat n = c # cs" using show_nat_nonempty by (cases "show_nat n") auto
  have "is_ascii_digit c" using show_nat_digits [of n] s by simp
  then have "c \<noteq> CHR ''+''" by (auto simp: is_ascii_digit_def)
  then show ?thesis
    using n s show_nat_digits [of n] digits_value_show_nat [of n] by (simp add: parse_unsigned_def)
qed

text \<open>\<open>format!("{n:0w}")\<close> pads with zeros on the left.\<close>

definition pad_left :: "nat \<Rightarrow> string \<Rightarrow> string" where
  "pad_left w s = replicate (w - length s) (CHR ''0'') @ s"

section \<open>Hexadecimal numbers\<close>

definition hex_char_upper :: "nat \<Rightarrow> char" where
  "hex_char_upper d = (if d < 10 then char_of (48 + d) else char_of (55 + d))"

definition is_upper_hex :: "char \<Rightarrow> bool" where
  "is_upper_hex c \<longleftrightarrow> is_ascii_digit c \<or> (65::nat) \<le> of_char c \<and> (of_char c :: nat) \<le> 70"

definition is_lower_hex :: "char \<Rightarrow> bool" where
  "is_lower_hex c \<longleftrightarrow> is_ascii_digit c \<or> (97::nat) \<le> of_char c \<and> (of_char c :: nat) \<le> 102"

text \<open>\<open>char::to_digit(16)\<close>: digits and letters of either case.\<close>

definition hex_value :: "char \<Rightarrow> nat option" where
  "hex_value c =
     (if is_ascii_digit c then Some (of_char c - 48)
      else if is_upper_hex c then Some (of_char c - 55)
      else if is_lower_hex c then Some (of_char c - 87)
      else None)"

lemma hex_char_upper_props:
  assumes "d < 16"
  shows "is_upper_hex (hex_char_upper d)" and "hex_value (hex_char_upper d) = Some d"
  using assms
  by (auto simp: hex_char_upper_def is_upper_hex_def is_ascii_digit_def hex_value_def)

text \<open>\<open>format!("{x:0nX}")\<close> for a number below \<open>16^n\<close>: exactly \<open>n\<close> uppercase digits.\<close>

fun show_hex_upper :: "nat \<Rightarrow> nat \<Rightarrow> string" where
  "show_hex_upper 0 v = []"
| "show_hex_upper (Suc n) v = show_hex_upper n (v div 16) @ [hex_char_upper (v mod 16)]"

lemma length_show_hex_upper [simp]: "length (show_hex_upper n v) = n"
  by (induction n arbitrary: v) simp_all

lemma show_hex_upper_chars: "\<forall>c \<in> set (show_hex_upper n v). is_upper_hex c"
  by (induction n arbitrary: v) (auto intro: hex_char_upper_props)

text \<open>\<open>u32::from_str_radix(s, 16)\<close>.\<close>

definition hex_step :: "nat option \<Rightarrow> char \<Rightarrow> nat option" where
  "hex_step acc c =
     (case acc of None \<Rightarrow> None | Some a \<Rightarrow>
        (case hex_value c of None \<Rightarrow> None | Some d \<Rightarrow> Some (a * 16 + d)))"

definition parse_hex :: "nat \<Rightarrow> string \<Rightarrow> nat option" where
  "parse_hex bound s =
     (let ds = (case s of c # rest \<Rightarrow> if c = CHR ''+'' then rest else s | [] \<Rightarrow> s)
      in if ds = [] then None
         else (case foldl hex_step (Some 0) ds of
                 None \<Rightarrow> None
               | Some v \<Rightarrow> if v < bound then Some v else None))"

lemma foldl_show_hex_upper: "foldl hex_step (Some 0) (show_hex_upper n v) = Some (v mod 16 ^ n)"
proof (induction n arbitrary: v)
  case 0
  show ?case by simp
next
  case (Suc n)
  have "v mod 16 ^ Suc n = v mod 16 + 16 * (v div 16 mod 16 ^ n)"
    using mod_mult2_eq [of v 16 "16 ^ n"] by simp
  with Suc show ?case by (simp add: hex_step_def hex_char_upper_props)
qed

lemma parse_hex_show_hex [codec]:
  assumes "v < 16 ^ Suc n" and "v < bound"
  shows "parse_hex bound (show_hex_upper (Suc n) v) = Some v"
proof -
  obtain c cs where s: "show_hex_upper (Suc n) v = c # cs"
    by (metis length_Suc_conv length_show_hex_upper)
  have "is_upper_hex c" using show_hex_upper_chars [of "Suc n" v] unfolding s by simp
  then have "c \<noteq> CHR ''+''" by (auto simp: is_upper_hex_def is_ascii_digit_def)
  with assms s show ?thesis
    using foldl_show_hex_upper [of "Suc n" v] by (simp add: parse_hex_def)
qed

end
