(* ===== verification/Meta.thy ===== *)
theory Meta
  imports Text Types
begin

text \<open>
  The version-independent metablock model of \<open>meta.rs\<close>: file information, channel
  definitions, the wire spellings of datatypes, channel types and spectrum types, and the
  check of \<open>sizeoflengthvalue\<close>; and the spellings the writer emits (\<open>data_type_to_wire\<close> and
  its siblings in \<open>writer.rs\<close>). Log output is left out.
\<close>

section \<open>Data\<close>

datatype spectrum_type = Amplitude | RealImag | AmpPhaseRad | AmpPhaseDeg

record file_info =
  fi_version :: u32
  fi_created_utc :: "string option"
  fi_creator :: "string option"
  fi_created_at_latitude :: "f64 option"
  fi_created_at_longitude :: "f64 option"
  fi_created_at_altitude :: "f64 option"
  fi_reason :: "string option"
  fi_namespace_sep :: "string option"
  fi_tag :: "string option"
  fi_comment :: "string option"

definition file_info_default :: file_info where
  "file_info_default =
     \<lparr>fi_version = 0, fi_created_utc = None, fi_creator = None, fi_created_at_latitude = None,
      fi_created_at_longitude = None, fi_created_at_altitude = None, fi_reason = None,
      fi_namespace_sep = None, fi_tag = None, fi_comment = None\<rparr>"

record meta_channel =
  mc_index :: u16
  mc_name :: string
  mc_reference :: "string option"
  mc_channel_type :: channel_type
  mc_data_type :: data_type
  mc_time_increment_ns :: "i64 option"
  mc_size_of_length_value :: u8
  mc_mime_type :: "string option"
  mc_spectrum_type :: "spectrum_type option"
  mc_physical_unit :: "string option"
  mc_physical_dimension :: "string option"
  mc_display_name :: "string option"
  mc_comment :: "string option"

record meta_info =
  in_name :: string
  in_value :: string
  in_data_type :: data_type
  in_physical_unit :: "string option"

record meta_block =
  mb_file_info :: file_info
  mb_channels :: "meta_channel list"
  mb_infos :: "meta_info list"

section \<open>Wire spellings\<close>

definition spectrum_from_wire :: "string \<Rightarrow> spectrum_type" where
  "spectrum_from_wire raw =
     (if raw = ''amplitude'' then Amplitude
      else if raw = ''realimag'' then RealImag
      else if raw = ''ampphaserad'' then AmpPhaseRad
      else if raw = ''ampphasedeg'' then AmpPhaseDeg
      else Amplitude)"

definition REMOVED_CHANNEL_FIELDS :: "string list" where
  "REMOVED_CHANNEL_FIELDS =
     [''scale'', ''offset'', ''physicalunit1'', ''physicalunit2'', ''physicalunit3'',
      ''physicaldimension1'', ''physicaldimension2'', ''physicaldimension3'']"

definition parse_data_type :: "string \<Rightarrow> osf_error + data_type" where
  "parse_data_type raw =
     (if raw = ''bool'' then Inr DtBool
      else if raw = ''int8'' then Inr DtInt8
      else if raw = ''int16'' then Inr DtInt16
      else if raw = ''int32'' then Inr DtInt32
      else if raw = ''int64'' then Inr DtInt64
      else if raw = ''uint8'' then Inr DtUInt8
      else if raw = ''uint16'' then Inr DtUInt16
      else if raw = ''uint32'' then Inr DtUInt32
      else if raw = ''uint64'' then Inr DtUInt64
      else if raw = ''float'' then Inr DtFloat
      else if raw = ''double'' then Inr DtDouble
      else if raw = ''string'' then Inr DtString
      else if raw = ''binary'' then Inr DtBinary
      else if raw = ''gpslocation'' then Inr DtGpsLocation
      else if raw = ''bytearray'' then Inr DtBinary
      else if raw = ''gpsdata''
        then Inl (RemovedInSpec2026_05_04 ''datatype'' raw (Some ''gpslocation''))
      else if raw = ''pair'' \<or> raw = ''triple''
        then Inl (RemovedInSpec2026_05_04 ''datatype'' raw
                    (Some ''two or three separate double channels''))
      else if raw = ''candata''
        then Inl (RemovedInSpec2026_05_04 ''datatype'' raw
                    (Some ''binary with an application-specific MIME type''))
      else Inr (DtUnsupported raw))"

definition parse_channel_type :: "string \<Rightarrow> osf_error + channel_type" where
  "parse_channel_type raw =
     (if raw = ''scalar'' then Inr CtScalar
      else if raw = ''vector'' then Inr CtVector
      else if raw = ''matrix'' then Inr CtMatrix
      else if raw = ''binary'' then Inr CtBinary
      else Inr (CtUnsupported raw))"

definition validate_size_of_length_value :: "u32 \<Rightarrow> osf_error + u8" where
  "validate_size_of_length_value raw =
     (if raw = 2 \<or> raw = 4 then Inr (ucast raw)
      else Inl (InvalidMetablock ''sizeoflengthvalue must be 2 or 4''))"

section \<open>The writer's spellings\<close>

fun channel_type_to_wire :: "channel_type \<Rightarrow> string" where
  "channel_type_to_wire CtScalar = ''scalar''"
| "channel_type_to_wire CtVector = ''vector''"
| "channel_type_to_wire CtMatrix = ''matrix''"
| "channel_type_to_wire CtBinary = ''binary''"
| "channel_type_to_wire (CtUnsupported _) = ''scalar''"

fun data_type_to_wire :: "data_type \<Rightarrow> string" where
  "data_type_to_wire DtBool = ''bool''"
| "data_type_to_wire DtInt8 = ''int8''"
| "data_type_to_wire DtInt16 = ''int16''"
| "data_type_to_wire DtInt32 = ''int32''"
| "data_type_to_wire DtInt64 = ''int64''"
| "data_type_to_wire DtUInt8 = ''uint8''"
| "data_type_to_wire DtUInt16 = ''uint16''"
| "data_type_to_wire DtUInt32 = ''uint32''"
| "data_type_to_wire DtUInt64 = ''uint64''"
| "data_type_to_wire DtFloat = ''float''"
| "data_type_to_wire DtDouble = ''double''"
| "data_type_to_wire DtString = ''string''"
| "data_type_to_wire DtBinary = ''binary''"
| "data_type_to_wire DtByteArray = ''binary''"
| "data_type_to_wire DtGpsLocation = ''gpslocation''"
| "data_type_to_wire (DtUnsupported _) = ''double''"

fun spectrum_type_to_wire :: "spectrum_type \<Rightarrow> string" where
  "spectrum_type_to_wire Amplitude = ''amplitude''"
| "spectrum_type_to_wire RealImag = ''realimag''"
| "spectrum_type_to_wire AmpPhaseRad = ''ampphaserad''"
| "spectrum_type_to_wire AmpPhaseDeg = ''ampphasedeg''"

section \<open>Properties of the spellings\<close>

lemma spectrum_wire_roundtrip [codec]: "spectrum_from_wire (spectrum_type_to_wire t) = t"
  by (cases t) (simp_all add: spectrum_from_wire_def)

lemma channel_type_wire_roundtrip [codec]:
  "\<not> is_unsupported_channel_type t \<Longrightarrow> parse_channel_type (channel_type_to_wire t) = Inr t"
  by (cases t) (simp_all add: parse_channel_type_def)

lemma data_type_wire_roundtrip [codec]:
  "\<not> is_unsupported t \<Longrightarrow> t \<noteq> DtByteArray \<Longrightarrow> parse_data_type (data_type_to_wire t) = Inr t"
  by (cases t) (simp_all add: parse_data_type_def)

lemma parse_data_type_not_bytearray: "parse_data_type raw \<noteq> Inr DtByteArray"
  by (simp add: parse_data_type_def)

lemma validate_size_range:
  "validate_size_of_length_value raw = Inr s \<Longrightarrow> s = 2 \<or> s = 4"
  by (auto simp: validate_size_of_length_value_def split: if_splits)

text \<open>
  The wire spellings round-trip: every datatype, channel type and spectrum type the writer
  accepts is spelled so that the metablock parsers read it back as the same value, and no
  spelling is ever read as the alias type \<open>ByteArray\<close>.
\<close>

theorem wire_spellings_roundtrip:
  "parse_data_type (data_type_to_wire t) =
     (if is_unsupported t then Inr DtDouble else if t = DtByteArray then Inr DtBinary else Inr t)
   \<and> parse_channel_type (channel_type_to_wire c) =
     (if is_unsupported_channel_type c then Inr CtScalar else Inr c)
   \<and> spectrum_from_wire (spectrum_type_to_wire s) = s
   \<and> parse_data_type raw \<noteq> Inr DtByteArray"
proof (intro conjI)
  show "parse_data_type (data_type_to_wire t) =
     (if is_unsupported t then Inr DtDouble else if t = DtByteArray then Inr DtBinary else Inr t)"
    by (cases t) (simp_all add: parse_data_type_def)
  show "parse_channel_type (channel_type_to_wire c) =
     (if is_unsupported_channel_type c then Inr CtScalar else Inr c)"
    by (cases c) (simp_all add: parse_channel_type_def)
  show "spectrum_from_wire (spectrum_type_to_wire s) = s" by (rule spectrum_wire_roundtrip)
  show "parse_data_type raw \<noteq> Inr DtByteArray" by (rule parse_data_type_not_bytearray)
qed

end
