(* ===== verification/DataChannel.thy ===== *)
theory DataChannel
  imports Float64 Meta
begin

text \<open>
  The in-memory channels of \<open>data_channel.rs\<close>: sample storage, segments, the timestamps
  reconstructed from them, and the typed accessors. An iterator is the list of what it yields;
  an index out of range inside it is the model's \<open>Panic\<close>. The \<open>Nv\<close> constructors are
  \<open>NumericValues\<close>, the \<open>Vr\<close> ones \<open>NumericValueRef\<close>.
\<close>

section \<open>Data\<close>

record segment =
  start_timestamp_ns :: i64
  sample_rate_hz :: f64
  start_index :: nat
  sample_count :: nat

record channel_meta =
  cm_channel_type :: channel_type
  cm_size_of_length_value :: u8
  cm_time_increment_ns :: "i64 option"
  cm_reference :: "string option"
  cm_physical_dimension :: "string option"
  cm_comment :: "string option"
  cm_spectrum_type :: "spectrum_type option"

datatype numeric_values =
    NvBool "bool list"
  | NvInt8 "i8 list"
  | NvInt16 "i16 list"
  | NvInt32 "i32 list"
  | NvInt64 "i64 list"
  | NvUInt8 "u8 list"
  | NvUInt16 "u16 list"
  | NvUInt32 "u32 list"
  | NvUInt64 "u64 list"
  | NvFloat "f32 list"
  | NvDouble "f64 list"
  | NvGpsLocation "gps_location list"

fun nv_len :: "numeric_values \<Rightarrow> nat" where
  "nv_len (NvBool v) = length v"
| "nv_len (NvInt8 v) = length v"
| "nv_len (NvInt16 v) = length v"
| "nv_len (NvInt32 v) = length v"
| "nv_len (NvInt64 v) = length v"
| "nv_len (NvUInt8 v) = length v"
| "nv_len (NvUInt16 v) = length v"
| "nv_len (NvUInt32 v) = length v"
| "nv_len (NvUInt64 v) = length v"
| "nv_len (NvFloat v) = length v"
| "nv_len (NvDouble v) = length v"
| "nv_len (NvGpsLocation v) = length v"

fun nv_data_type :: "numeric_values \<Rightarrow> data_type" where
  "nv_data_type (NvBool _) = DtBool"
| "nv_data_type (NvInt8 _) = DtInt8"
| "nv_data_type (NvInt16 _) = DtInt16"
| "nv_data_type (NvInt32 _) = DtInt32"
| "nv_data_type (NvInt64 _) = DtInt64"
| "nv_data_type (NvUInt8 _) = DtUInt8"
| "nv_data_type (NvUInt16 _) = DtUInt16"
| "nv_data_type (NvUInt32 _) = DtUInt32"
| "nv_data_type (NvUInt64 _) = DtUInt64"
| "nv_data_type (NvFloat _) = DtFloat"
| "nv_data_type (NvDouble _) = DtDouble"
| "nv_data_type (NvGpsLocation _) = DtGpsLocation"

fun empty_for :: "data_type \<Rightarrow> numeric_values option" where
  "empty_for DtBool = Some (NvBool [])"
| "empty_for DtInt8 = Some (NvInt8 [])"
| "empty_for DtInt16 = Some (NvInt16 [])"
| "empty_for DtInt32 = Some (NvInt32 [])"
| "empty_for DtInt64 = Some (NvInt64 [])"
| "empty_for DtUInt8 = Some (NvUInt8 [])"
| "empty_for DtUInt16 = Some (NvUInt16 [])"
| "empty_for DtUInt32 = Some (NvUInt32 [])"
| "empty_for DtUInt64 = Some (NvUInt64 [])"
| "empty_for DtFloat = Some (NvFloat [])"
| "empty_for DtDouble = Some (NvDouble [])"
| "empty_for DtGpsLocation = Some (NvGpsLocation [])"
| "empty_for _ = None"

datatype numeric_value_ref =
    VrBool bool
  | VrInt8 i8
  | VrInt16 i16
  | VrInt32 i32
  | VrInt64 i64
  | VrUInt8 u8
  | VrUInt16 u16
  | VrUInt32 u32
  | VrUInt64 u64
  | VrFloat f32
  | VrDouble f64
  | VrGpsLocation gps_location

text \<open>\<open>v[idx]\<close>.\<close>

definition index_at :: "'a list \<Rightarrow> nat \<Rightarrow> osf_error + 'a" where
  "index_at v idx = (if idx < length v then Inr (v ! idx) else Inl (Panic ''index out of bounds''))"

fun numeric_value_ref_at :: "numeric_values \<Rightarrow> nat \<Rightarrow> osf_error + numeric_value_ref" where
  "numeric_value_ref_at (NvBool v) idx = map_ok VrBool (index_at v idx)"
| "numeric_value_ref_at (NvInt8 v) idx = map_ok VrInt8 (index_at v idx)"
| "numeric_value_ref_at (NvInt16 v) idx = map_ok VrInt16 (index_at v idx)"
| "numeric_value_ref_at (NvInt32 v) idx = map_ok VrInt32 (index_at v idx)"
| "numeric_value_ref_at (NvInt64 v) idx = map_ok VrInt64 (index_at v idx)"
| "numeric_value_ref_at (NvUInt8 v) idx = map_ok VrUInt8 (index_at v idx)"
| "numeric_value_ref_at (NvUInt16 v) idx = map_ok VrUInt16 (index_at v idx)"
| "numeric_value_ref_at (NvUInt32 v) idx = map_ok VrUInt32 (index_at v idx)"
| "numeric_value_ref_at (NvUInt64 v) idx = map_ok VrUInt64 (index_at v idx)"
| "numeric_value_ref_at (NvFloat v) idx = map_ok VrFloat (index_at v idx)"
| "numeric_value_ref_at (NvDouble v) idx = map_ok VrDouble (index_at v idx)"
| "numeric_value_ref_at (NvGpsLocation v) idx = map_ok VrGpsLocation (index_at v idx)"

record equidistant_channel =
  ec_index :: u16
  ec_name :: string
  ec_data_type :: data_type
  ec_physical_unit :: "string option"
  ec_display_name :: "string option"
  ec_channel_def :: channel_meta
  ec_samples :: numeric_values
  ec_segments :: "segment list"

record timestamped_channel =
  tc_index :: u16
  tc_name :: string
  tc_data_type :: data_type
  tc_physical_unit :: "string option"
  tc_display_name :: "string option"
  tc_channel_def :: channel_meta
  tc_timestamps_ns :: "i64 list"
  tc_values :: numeric_values

record variable_channel =
  vc_index :: u16
  vc_name :: string
  vc_data_type :: data_type
  vc_physical_unit :: "string option"
  vc_display_name :: "string option"
  vc_mime_type :: "string option"
  vc_channel_def :: channel_meta
  vc_timestamps_ns :: "i64 list"
  vc_string_values :: "string list option"
  vc_binary_values :: "byte list list option"

datatype channel =
    Equidistant equidistant_channel
  | Timestamped timestamped_channel
  | VariableChannel variable_channel

section \<open>Samples with their time\<close>

definition segment_timestamp :: "segment \<Rightarrow> nat \<Rightarrow> i64" where
  "segment_timestamp seg i =
     (if f64_gt_zero (sample_rate_hz seg) \<and> 0 < i
      then i64_saturating_add (start_timestamp_ns seg)
             (f64_to_i64 (f64_div (f64_mul (f64_of_nat i) f64_1e9) (sample_rate_hz seg)))
      else start_timestamp_ns seg)"

definition segment_samples :: "numeric_values \<Rightarrow> segment \<Rightarrow> (osf_error + (i64 \<times> numeric_value_ref)) list" where
  "segment_samples samples seg =
     map (\<lambda>i. map_ok (Pair (segment_timestamp seg i)) (numeric_value_ref_at samples (start_index seg + i)))
       [0..<sample_count seg]"

definition ec_samples_with_time :: "equidistant_channel \<Rightarrow> osf_error + (i64 \<times> numeric_value_ref) list" where
  "ec_samples_with_time c =
     first_error (concat (map (segment_samples (ec_samples c)) (ec_segments c)))"

definition tc_samples_with_time :: "timestamped_channel \<Rightarrow> osf_error + (i64 \<times> numeric_value_ref) list" where
  "tc_samples_with_time c =
     first_error (map (\<lambda>(i, ts). map_ok (Pair ts) (numeric_value_ref_at (tc_values c) i))
       (List.enumerate 0 (tc_timestamps_ns c)))"

datatype variable_value_ref = VrString string | VrBinary "byte list"

definition vc_samples_with_time :: "variable_channel \<Rightarrow> osf_error + (i64 \<times> variable_value_ref) list" where
  "vc_samples_with_time c =
     first_error (map (\<lambda>(i, ts). map_ok (Pair ts)
         (case vc_string_values c of
            Some s \<Rightarrow> map_ok VrString (index_at s i)
          | None \<Rightarrow> (case vc_binary_values c of
                      Some b \<Rightarrow> map_ok VrBinary (index_at b i)
                    | None \<Rightarrow> Inl (Panic ''VariableChannel must have either string_values or binary_values''))))
       (List.enumerate 0 (vc_timestamps_ns c)))"

section \<open>Typed access\<close>

definition as_strings :: "variable_channel \<Rightarrow> osf_error + string list" where
  "as_strings c =
     ok_or (DataTypeAccessMismatch (vc_index c) DtString (vc_data_type c)) (vc_string_values c)"

definition as_binaries :: "variable_channel \<Rightarrow> osf_error + byte list list" where
  "as_binaries c =
     ok_or (DataTypeAccessMismatch (vc_index c) DtBinary (vc_data_type c)) (vc_binary_values c)"

text \<open>
  The macro \<open>impl_numeric_flat_access\<close>: its \<open>match\<close> on the storage variant is the selector
  \<open>sel\<close>, its datatype argument \<open>dt\<close>.
\<close>

definition ec_flat_access ::
  "(numeric_values \<Rightarrow> 'a list option) \<Rightarrow> data_type \<Rightarrow> equidistant_channel \<Rightarrow> osf_error + 'a list"
where
  "ec_flat_access sel dt c =
     ok_or (DataTypeAccessMismatch (ec_index c) dt (nv_data_type (ec_samples c))) (sel (ec_samples c))"

definition tc_flat_access ::
  "(numeric_values \<Rightarrow> 'a list option) \<Rightarrow> data_type \<Rightarrow> timestamped_channel \<Rightarrow> osf_error + (i64 \<times> 'a) list"
where
  "tc_flat_access sel dt c =
     map_ok (zip (tc_timestamps_ns c))
       (ok_or (DataTypeAccessMismatch (tc_index c) dt (nv_data_type (tc_values c))) (sel (tc_values c)))"

fun the_Bool :: "numeric_values \<Rightarrow> bool list option" where
  "the_Bool (NvBool v) = Some v"
| "the_Bool _ = None"

fun the_Int8 :: "numeric_values \<Rightarrow> i8 list option" where
  "the_Int8 (NvInt8 v) = Some v"
| "the_Int8 _ = None"

fun the_Int16 :: "numeric_values \<Rightarrow> i16 list option" where
  "the_Int16 (NvInt16 v) = Some v"
| "the_Int16 _ = None"

fun the_Int32 :: "numeric_values \<Rightarrow> i32 list option" where
  "the_Int32 (NvInt32 v) = Some v"
| "the_Int32 _ = None"

fun the_Int64 :: "numeric_values \<Rightarrow> i64 list option" where
  "the_Int64 (NvInt64 v) = Some v"
| "the_Int64 _ = None"

fun the_UInt8 :: "numeric_values \<Rightarrow> u8 list option" where
  "the_UInt8 (NvUInt8 v) = Some v"
| "the_UInt8 _ = None"

fun the_UInt16 :: "numeric_values \<Rightarrow> u16 list option" where
  "the_UInt16 (NvUInt16 v) = Some v"
| "the_UInt16 _ = None"

fun the_UInt32 :: "numeric_values \<Rightarrow> u32 list option" where
  "the_UInt32 (NvUInt32 v) = Some v"
| "the_UInt32 _ = None"

fun the_UInt64 :: "numeric_values \<Rightarrow> u64 list option" where
  "the_UInt64 (NvUInt64 v) = Some v"
| "the_UInt64 _ = None"

fun the_Float :: "numeric_values \<Rightarrow> f32 list option" where
  "the_Float (NvFloat v) = Some v"
| "the_Float _ = None"

fun the_Double :: "numeric_values \<Rightarrow> f64 list option" where
  "the_Double (NvDouble v) = Some v"
| "the_Double _ = None"

fun the_GpsLocation :: "numeric_values \<Rightarrow> gps_location list option" where
  "the_GpsLocation (NvGpsLocation v) = Some v"
| "the_GpsLocation _ = None"

definition ec_as_bools_flat :: "equidistant_channel \<Rightarrow> osf_error + bool list" where
  "ec_as_bools_flat = ec_flat_access the_Bool DtBool"

definition tc_as_bools_flat :: "timestamped_channel \<Rightarrow> osf_error + (i64 \<times> bool) list" where
  "tc_as_bools_flat = tc_flat_access the_Bool DtBool"

definition ec_as_int8_flat :: "equidistant_channel \<Rightarrow> osf_error + i8 list" where
  "ec_as_int8_flat = ec_flat_access the_Int8 DtInt8"

definition tc_as_int8_flat :: "timestamped_channel \<Rightarrow> osf_error + (i64 \<times> i8) list" where
  "tc_as_int8_flat = tc_flat_access the_Int8 DtInt8"

definition ec_as_int16_flat :: "equidistant_channel \<Rightarrow> osf_error + i16 list" where
  "ec_as_int16_flat = ec_flat_access the_Int16 DtInt16"

definition tc_as_int16_flat :: "timestamped_channel \<Rightarrow> osf_error + (i64 \<times> i16) list" where
  "tc_as_int16_flat = tc_flat_access the_Int16 DtInt16"

definition ec_as_int32_flat :: "equidistant_channel \<Rightarrow> osf_error + i32 list" where
  "ec_as_int32_flat = ec_flat_access the_Int32 DtInt32"

definition tc_as_int32_flat :: "timestamped_channel \<Rightarrow> osf_error + (i64 \<times> i32) list" where
  "tc_as_int32_flat = tc_flat_access the_Int32 DtInt32"

definition ec_as_int64_flat :: "equidistant_channel \<Rightarrow> osf_error + i64 list" where
  "ec_as_int64_flat = ec_flat_access the_Int64 DtInt64"

definition tc_as_int64_flat :: "timestamped_channel \<Rightarrow> osf_error + (i64 \<times> i64) list" where
  "tc_as_int64_flat = tc_flat_access the_Int64 DtInt64"

definition ec_as_uint8_flat :: "equidistant_channel \<Rightarrow> osf_error + u8 list" where
  "ec_as_uint8_flat = ec_flat_access the_UInt8 DtUInt8"

definition tc_as_uint8_flat :: "timestamped_channel \<Rightarrow> osf_error + (i64 \<times> u8) list" where
  "tc_as_uint8_flat = tc_flat_access the_UInt8 DtUInt8"

definition ec_as_uint16_flat :: "equidistant_channel \<Rightarrow> osf_error + u16 list" where
  "ec_as_uint16_flat = ec_flat_access the_UInt16 DtUInt16"

definition tc_as_uint16_flat :: "timestamped_channel \<Rightarrow> osf_error + (i64 \<times> u16) list" where
  "tc_as_uint16_flat = tc_flat_access the_UInt16 DtUInt16"

definition ec_as_uint32_flat :: "equidistant_channel \<Rightarrow> osf_error + u32 list" where
  "ec_as_uint32_flat = ec_flat_access the_UInt32 DtUInt32"

definition tc_as_uint32_flat :: "timestamped_channel \<Rightarrow> osf_error + (i64 \<times> u32) list" where
  "tc_as_uint32_flat = tc_flat_access the_UInt32 DtUInt32"

definition ec_as_uint64_flat :: "equidistant_channel \<Rightarrow> osf_error + u64 list" where
  "ec_as_uint64_flat = ec_flat_access the_UInt64 DtUInt64"

definition tc_as_uint64_flat :: "timestamped_channel \<Rightarrow> osf_error + (i64 \<times> u64) list" where
  "tc_as_uint64_flat = tc_flat_access the_UInt64 DtUInt64"

definition ec_as_floats_flat :: "equidistant_channel \<Rightarrow> osf_error + f32 list" where
  "ec_as_floats_flat = ec_flat_access the_Float DtFloat"

definition tc_as_floats_flat :: "timestamped_channel \<Rightarrow> osf_error + (i64 \<times> f32) list" where
  "tc_as_floats_flat = tc_flat_access the_Float DtFloat"

definition ec_as_doubles_flat :: "equidistant_channel \<Rightarrow> osf_error + f64 list" where
  "ec_as_doubles_flat = ec_flat_access the_Double DtDouble"

definition tc_as_doubles_flat :: "timestamped_channel \<Rightarrow> osf_error + (i64 \<times> f64) list" where
  "tc_as_doubles_flat = tc_flat_access the_Double DtDouble"

definition ec_as_gps_flat :: "equidistant_channel \<Rightarrow> osf_error + gps_location list" where
  "ec_as_gps_flat = ec_flat_access the_GpsLocation DtGpsLocation"

definition tc_as_gps_flat :: "timestamped_channel \<Rightarrow> osf_error + (i64 \<times> gps_location) list" where
  "tc_as_gps_flat = tc_flat_access the_GpsLocation DtGpsLocation"

section \<open>Common accessors\<close>

fun channel_index :: "channel \<Rightarrow> u16" where
  "channel_index (Equidistant c) = ec_index c"
| "channel_index (Timestamped c) = tc_index c"
| "channel_index (VariableChannel c) = vc_index c"

fun channel_name :: "channel \<Rightarrow> string" where
  "channel_name (Equidistant c) = ec_name c"
| "channel_name (Timestamped c) = tc_name c"
| "channel_name (VariableChannel c) = vc_name c"

fun channel_data_type :: "channel \<Rightarrow> data_type" where
  "channel_data_type (Equidistant c) = ec_data_type c"
| "channel_data_type (Timestamped c) = tc_data_type c"
| "channel_data_type (VariableChannel c) = vc_data_type c"

fun channel_physical_unit :: "channel \<Rightarrow> string option" where
  "channel_physical_unit (Equidistant c) = ec_physical_unit c"
| "channel_physical_unit (Timestamped c) = tc_physical_unit c"
| "channel_physical_unit (VariableChannel c) = vc_physical_unit c"

fun channel_display_name :: "channel \<Rightarrow> string option" where
  "channel_display_name (Equidistant c) = ec_display_name c"
| "channel_display_name (Timestamped c) = tc_display_name c"
| "channel_display_name (VariableChannel c) = vc_display_name c"

fun channel_sample_count :: "channel \<Rightarrow> nat" where
  "channel_sample_count (Equidistant c) = nv_len (ec_samples c)"
| "channel_sample_count (Timestamped c) = nv_len (tc_values c)"
| "channel_sample_count (VariableChannel c) =
     (case vc_string_values c of
        Some v \<Rightarrow> length v
      | None \<Rightarrow> (case vc_binary_values c of Some v \<Rightarrow> length v | None \<Rightarrow> 0))"

definition channel_is_empty :: "channel \<Rightarrow> bool" where
  "channel_is_empty c = (channel_sample_count c = 0)"

fun channel_def_of :: "channel \<Rightarrow> channel_meta" where
  "channel_def_of (Equidistant c) = ec_channel_def c"
| "channel_def_of (Timestamped c) = tc_channel_def c"
| "channel_def_of (VariableChannel c) = vc_channel_def c"

section \<open>Storage as a list of samples\<close>

fun refs_of :: "numeric_values \<Rightarrow> numeric_value_ref list" where
  "refs_of (NvBool v) = map VrBool v"
| "refs_of (NvInt8 v) = map VrInt8 v"
| "refs_of (NvInt16 v) = map VrInt16 v"
| "refs_of (NvInt32 v) = map VrInt32 v"
| "refs_of (NvInt64 v) = map VrInt64 v"
| "refs_of (NvUInt8 v) = map VrUInt8 v"
| "refs_of (NvUInt16 v) = map VrUInt16 v"
| "refs_of (NvUInt32 v) = map VrUInt32 v"
| "refs_of (NvUInt64 v) = map VrUInt64 v"
| "refs_of (NvFloat v) = map VrFloat v"
| "refs_of (NvDouble v) = map VrDouble v"
| "refs_of (NvGpsLocation v) = map VrGpsLocation v"

lemma length_refs_of [simp]: "length (refs_of nv) = nv_len nv"
  by (cases nv) simp_all

lemma numeric_value_ref_at_refs:
  "numeric_value_ref_at nv i =
     (if i < nv_len nv then Inr (refs_of nv ! i) else Inl (Panic ''index out of bounds''))"
  by (cases nv) (simp_all add: index_at_def)

text \<open>Segments that cover the flat storage one after the other.\<close>

fun segments_tile :: "nat \<Rightarrow> segment list \<Rightarrow> nat \<Rightarrow> bool" where
  "segments_tile b [] n \<longleftrightarrow> b = n"
| "segments_tile b (seg # segs) n \<longleftrightarrow>
     start_index seg = b \<and> segments_tile (b + sample_count seg) segs n"

lemma segments_tile_snoc:
  "segments_tile b (segs @ [seg]) n \<longleftrightarrow>
     segments_tile b segs (start_index seg) \<and> n = start_index seg + sample_count seg"
  by (induction segs arbitrary: b) auto

lemma segments_tile_le: "segments_tile b segs n \<Longrightarrow> b \<le> n"
  by (induction segs arbitrary: b) fastforce+

definition segment_times :: "segment list \<Rightarrow> i64 list" where
  "segment_times segs = concat (map (\<lambda>seg. map (segment_timestamp seg) [0..<sample_count seg]) segs)"

lemma segment_samples_tiled:
  assumes "start_index seg + sample_count seg \<le> nv_len nv"
  shows "segment_samples nv seg =
    map Inr (zip (map (segment_timestamp seg) [0..<sample_count seg])
                 (take (sample_count seg) (drop (start_index seg) (refs_of nv))))"
  using assms
  by (intro nth_equalityI)
     (auto simp: segment_samples_def numeric_value_ref_at_refs)

lemma tiled_samples:
  "segments_tile b segs (nv_len nv) \<Longrightarrow>
   concat (map (segment_samples nv) segs) = map Inr (zip (segment_times segs) (drop b (refs_of nv)))
   \<and> length (segment_times segs) + b = nv_len nv"
proof (induction segs arbitrary: b)
  case Nil
  then show ?case by (simp add: segment_times_def)
next
  case (Cons seg segs)
  let ?n = "sample_count seg" and ?rest = "drop (b + sample_count seg) (refs_of nv)"
  let ?t = "map (segment_timestamp seg) [0..<?n]" and ?v = "take ?n (drop b (refs_of nv))"
  have fits: "b + ?n \<le> nv_len nv" using Cons.prems segments_tile_le by fastforce
  have times: "segment_times (seg # segs) = ?t @ segment_times segs"
    by (simp add: segment_times_def)
  have "zip (?t @ segment_times segs) (?v @ ?rest) = zip ?t ?v @ zip (segment_times segs) ?rest"
    using fits by (intro zip_append) simp
  then have "zip (segment_times (seg # segs)) (drop b (refs_of nv))
      = zip ?t ?v @ zip (segment_times segs) ?rest"
    by (simp only: times take_drop_append)
  moreover have "segment_samples nv seg = map Inr (zip ?t ?v)"
    using segment_samples_tiled [of seg nv] Cons.prems fits by simp
  ultimately show ?case using Cons.IH [of "b + ?n"] Cons.prems times by simp
qed

text \<open>
  C25. Iterating an equidistant channel whose segments tile its sample storage yields every
  stored sample exactly once, in storage order, with the reconstructed times of its segment, and
  never indexes out of range.
\<close>

theorem equidistant_iteration_complete:
  assumes "segments_tile 0 (ec_segments c) (nv_len (ec_samples c))"
  shows "ec_samples_with_time c = Inr (zip (segment_times (ec_segments c)) (refs_of (ec_samples c)))
    \<and> length (segment_times (ec_segments c)) = channel_sample_count (Equidistant c)"
  using tiled_samples [OF assms] by (simp add: ec_samples_with_time_def)

theorem equidistant_iteration_complete_witness:
  "map_ok length (ec_samples_with_time
     \<lparr>ec_index = 3, ec_name = ''a'', ec_data_type = DtInt8, ec_physical_unit = None,
      ec_display_name = None,
      ec_channel_def = \<lparr>cm_channel_type = CtScalar, cm_size_of_length_value = 2,
        cm_time_increment_ns = None, cm_reference = None, cm_physical_dimension = None,
        cm_comment = None, cm_spectrum_type = None\<rparr>,
      ec_samples = NvInt8 [1, 2, 3],
      ec_segments = [\<lparr>start_timestamp_ns = 0, sample_rate_hz = f64_1e9, start_index = 0, sample_count = 2\<rparr>,
                     \<lparr>start_timestamp_ns = 9, sample_rate_hz = 0, start_index = 2, sample_count = 1\<rparr>]\<rparr>)
   = Inr 3"
  by (subst equidistant_iteration_complete [THEN conjunct1])
     (simp_all add: segment_times_def)

text \<open>
  C36. Within a segment the reconstructed timestamps never run backwards and never lie before the
  segment's start, for every start time, every sample rate (zero, negative, infinite and NaN
  included) and every index: rounding and saturation keep the order.
\<close>

theorem segment_timestamps_monotone:
  "sint (segment_timestamp seg i) \<le> sint (segment_timestamp seg (i + k))
   \<and> sint (start_timestamp_ns seg) \<le> sint (segment_timestamp seg i)
   \<and> segment_timestamp seg 0 = start_timestamp_ns seg"
proof -
  let ?off = "\<lambda>i. f64_to_i64 (f64_div (f64_mul (f64_of_nat i) f64_1e9) (sample_rate_hz seg))"
  have off: "0 \<le> sint (?off i) \<and> sint (?off i) \<le> sint (?off j)"
    if "f64_gt_zero (sample_rate_hz seg)" "i \<le> j" for i j
    using f64_mul_mono [OF f64_nonneg_of_nat f64_nonneg_of_nat f64_of_nat_mono [OF that(2)] f64_1e9_props]
    by (intro f64_to_i64_div_mono that) simp_all
  show ?thesis
    using off [of i "i + k"] off [of 0 k]
    by (auto simp: segment_timestamp_def saturating_add_nonneg intro: saturating_add_mono)
qed

end
