(* ===== verification/Bytes.thy ===== *)
theory Bytes
  imports Prelude
begin

text \<open>
  Little-endian integers on the wire: \<open>binary_write.rs\<close> and the \<open>from_le_bytes\<close> /
  \<open>to_le_bytes\<close> conversions of the reader and the writer. Signed and unsigned integers of one
  width share a representation (a word), and floats travel as their bit patterns. A reader over
  a byte slice (the Rust cursor \<open>&mut &[u8]\<close>) returns the value and the rest of the slice, or
  \<open>None\<close> when the slice is too short.
\<close>

section \<open>Digits to base 256\<close>

fun le_encode :: "nat \<Rightarrow> nat \<Rightarrow> byte list" where
  "le_encode 0 v = []"
| "le_encode (Suc n) v = of_nat v # le_encode n (v div 256)"

fun le_decode :: "byte list \<Rightarrow> nat" where
  "le_decode [] = 0"
| "le_decode (b # bs) = unat b + 256 * le_decode bs"

lemma unat_bound: "unat (w :: 'a::len word) < 2 ^ LENGTH('a)"
  by (rule unsigned_less)

lemma length_le_encode [simp]: "length (le_encode n v) = n"
  by (induction n arbitrary: v) simp_all

lemma unat_of_nat_byte [simp]: "unat (of_nat v :: byte) = v mod 256"
  by (simp add: unat_of_nat)

lemma le_decode_encode: "le_decode (le_encode n v) = v mod 256 ^ n"
proof (induction n arbitrary: v)
  case 0
  show ?case by simp
next
  case (Suc n)
  have "v mod 256 ^ Suc n = v mod 256 + 256 * (v div 256 mod 256 ^ n)"
    using mod_mult2_eq [of v 256 "256 ^ n"] by (simp add: mult.commute)
  with Suc show ?case by simp
qed

lemma le_encode_decode: "le_encode (length bs) (le_decode bs) = bs"
proof (induction bs)
  case Nil
  show ?case by simp
next
  case (Cons b bs)
  have "unat b < 256" using unat_bound [of b] by simp
  then have "(unat b + 256 * le_decode bs) div 256 = le_decode bs" by simp
  moreover have "(of_nat (unat b + 256 * le_decode bs) :: byte) = b"
  proof -
    have "(256 :: byte) = 0" by simp
    then show ?thesis by (simp only: of_nat_add of_nat_mult of_nat_numeral mult_zero_left) simp
  qed
  ultimately show ?case using Cons by simp
qed

lemma le_decode_less: "le_decode bs < 256 ^ length bs"
proof (induction bs)
  case Nil
  show ?case by simp
next
  case (Cons b bs)
  have "unat b < 256" using unat_bound [of b] by simp
  with Cons show ?case by simp
qed

section \<open>Integers of a width\<close>

text \<open>\<open>x.to_le_bytes()\<close>; the width in bytes is a quarter of the hexadecimal width.\<close>

definition u16_le :: "u16 \<Rightarrow> byte list" where "u16_le w = le_encode 2 (unat w)"
definition u32_le :: "u32 \<Rightarrow> byte list" where "u32_le w = le_encode 4 (unat w)"
definition u64_le :: "u64 \<Rightarrow> byte list" where "u64_le w = le_encode 8 (unat w)"

lemma length_le [simp]:
  "length (u16_le a) = 2" "length (u32_le b) = 4" "length (u64_le c) = 8"
  by (simp_all add: u16_le_def u32_le_def u64_le_def)

definition from_le :: "byte list \<Rightarrow> 'a::len word" where
  "from_le bs = of_nat (le_decode bs)"

lemma from_le_u16 [codec]: "from_le (u16_le w) = w"
  using unat_bound [of w] by (simp add: from_le_def u16_le_def le_decode_encode)

lemma from_le_u32 [codec]: "from_le (u32_le w) = w"
  using unat_bound [of w] by (simp add: from_le_def u32_le_def le_decode_encode)

lemma from_le_u64 [codec]: "from_le (u64_le w) = w"
  using unat_bound [of w] by (simp add: from_le_def u64_le_def le_decode_encode)

section \<open>The write helpers of \<open>binary_write.rs\<close>\<close>

text \<open>
  The sink is the byte list written so far; a helper returns the bytes it appends. Only
  \<open>write_length_field\<close> can fail by itself, on a width other than 2 and 4.
\<close>

definition write_u8 :: "u8 \<Rightarrow> byte list" where "write_u8 v = [v]"
definition write_i8 :: "i8 \<Rightarrow> byte list" where "write_i8 v = [v]"
definition write_u16 :: "u16 \<Rightarrow> byte list" where "write_u16 v = u16_le v"
definition write_i16 :: "i16 \<Rightarrow> byte list" where "write_i16 v = u16_le v"
definition write_u32 :: "u32 \<Rightarrow> byte list" where "write_u32 v = u32_le v"
definition write_i32 :: "i32 \<Rightarrow> byte list" where "write_i32 v = u32_le v"
definition write_u64 :: "u64 \<Rightarrow> byte list" where "write_u64 v = u64_le v"
definition write_i64 :: "i64 \<Rightarrow> byte list" where "write_i64 v = u64_le v"
definition write_f32 :: "32 word \<Rightarrow> byte list" where "write_f32 v = u32_le v"
definition write_f64 :: "64 word \<Rightarrow> byte list" where "write_f64 v = u64_le v"

definition write_bool :: "bool \<Rightarrow> byte list" where
  "write_bool v = write_u8 (if v then 1 else 0)"

lemmas write_defs =
  write_u8_def write_i8_def write_u16_def write_i16_def write_u32_def write_i32_def
  write_u64_def write_i64_def write_f32_def write_f64_def write_bool_def

text \<open>\<open>value as u16\<close> keeps the low 16 bits; \<open>None\<close> is the \<open>InvalidInput\<close> error.\<close>

definition write_length_field :: "u8 \<Rightarrow> u32 \<Rightarrow> byte list option" where
  "write_length_field size_of_length_value value =
     (if size_of_length_value = 2 then Some (write_u16 (ucast value))
      else if size_of_length_value = 4 then Some (write_u32 value)
      else None)"

section \<open>Reading from a slice\<close>

definition split_exact :: "nat \<Rightarrow> byte list \<Rightarrow> (byte list \<times> byte list) option" where
  "split_exact n cur = (if n \<le> length cur then Some (take n cur, drop n cur) else None)"

lemma split_exact_append [codec]: "length xs = n \<Longrightarrow> split_exact n (xs @ ys) = Some (xs, ys)"
  by (simp add: split_exact_def)

lemma split_exact_eq_Some_iff:
  "split_exact n cur = Some (xs, ys) \<longleftrightarrow> cur = xs @ ys \<and> length xs = n"
  by (auto simp: split_exact_def)

definition read_le :: "nat \<Rightarrow> byte list \<Rightarrow> ('a::len word \<times> byte list) option" where
  "read_le n cur = map_option (\<lambda>(bs, rest). (from_le bs, rest)) (split_exact n cur)"

lemma read_le_eq_Some_iff:
  "read_le n cur = Some (w, rest) \<longleftrightarrow> (\<exists>bs. cur = bs @ rest \<and> length bs = n \<and> w = from_le bs)"
  by (auto simp: read_le_def split_exact_eq_Some_iff)

definition read_u8 :: "byte list \<Rightarrow> (u8 \<times> byte list) option" where
  "read_u8 cur = (case cur of [] \<Rightarrow> None | b # rest \<Rightarrow> Some (b, rest))"

definition read_u16 :: "byte list \<Rightarrow> (u16 \<times> byte list) option" where "read_u16 = read_le 2"
definition read_u32 :: "byte list \<Rightarrow> (u32 \<times> byte list) option" where "read_u32 = read_le 4"
definition read_u64 :: "byte list \<Rightarrow> (u64 \<times> byte list) option" where "read_u64 = read_le 8"

definition read_bool :: "byte list \<Rightarrow> (bool \<times> byte list) option" where
  "read_bool cur = map_option (\<lambda>(b, rest). (b \<noteq> 0, rest)) (read_u8 cur)"

lemma read_u8_write [codec]: "read_u8 (write_u8 v @ rest) = Some (v, rest)"
  by (simp add: read_u8_def write_defs)

lemma read_u16_le [codec]: "read_u16 (u16_le v @ rest) = Some (v, rest)"
  by (simp add: read_u16_def read_le_def codec)

lemma read_u32_le [codec]: "read_u32 (u32_le v @ rest) = Some (v, rest)"
  by (simp add: read_u32_def read_le_def codec)

lemma read_u64_le [codec]: "read_u64 (u64_le v @ rest) = Some (v, rest)"
  by (simp add: read_u64_def read_le_def codec)

lemma read_bool_write [codec]: "read_bool (write_bool v @ rest) = Some (v, rest)"
  by (simp add: read_bool_def read_u8_def write_defs)

end
