(* ===== verification/Codec.thy ===== *)
theory Codec
  imports Bytes Types
begin

text \<open>
  The contract between the sample encoders of the writer and the sample decoders of the
  reader, as locales. A \<open>codec\<close> decodes a prefix of what it encoded and hands back the rest;
  a \<open>fixed_codec\<close> also writes a fixed number of bytes per value, which is what the writer's
  block-size arithmetic relies on. Pairing a value with a 64-bit timestamp or a 32-bit delta
  gives a codec again. The sample loops of the reader (\<open>read_run\<close>) decode whole runs.
  Every sample type of the format is an interpretation.
\<close>

section \<open>Sample loops\<close>

text \<open>\<open>for _ in 0..n { v.push(reader(cur)?) }\<close>\<close>

fun read_run ::
  "(byte list \<Rightarrow> osf_error + ('a \<times> byte list)) \<Rightarrow> nat \<Rightarrow> byte list \<Rightarrow> osf_error + ('a list \<times> byte list)"
where
  "read_run rd 0 cur = Inr ([], cur)"
| "read_run rd (Suc n) cur =
     and_then (rd cur) (\<lambda>(v, cur').
       and_then (read_run rd n cur') (\<lambda>(vs, cur''). Inr (v # vs, cur'')))"

text \<open>A key (timestamp or delta) followed by a value.\<close>

definition read_keyed ::
  "osf_error \<Rightarrow> (byte list \<Rightarrow> ('k \<times> byte list) option) \<Rightarrow> osf_error \<Rightarrow>
   (byte list \<Rightarrow> ('a \<times> byte list) option) \<Rightarrow> byte list \<Rightarrow> osf_error + (('k \<times> 'a) \<times> byte list)"
where
  "read_keyed key_err rd_key val_err rd_val cur =
     and_then (ok_or key_err (rd_key cur)) (\<lambda>(k, cur').
       and_then (ok_or val_err (rd_val cur')) (\<lambda>(v, cur''). Inr ((k, v), cur'')))"

lemma read_run_length: "read_run rd n cur = Inr (vs, cur') \<Longrightarrow> length vs = n"
  by (induction n arbitrary: cur vs) (auto simp: and_then_eq_Inr_iff)

lemma read_run_error: "read_run rd n cur = Inl e \<Longrightarrow> \<exists>c. rd c = Inl e"
  by (induction n arbitrary: cur) (auto simp: and_then_eq_Inl_iff)

text \<open>A run of readers that each take at least \<open>w\<close> bytes takes at least \<open>n * w\<close>.\<close>

lemma read_run_consumes:
  assumes "\<And>c v c'. rd c = Inr (v, c') \<Longrightarrow> w + length c' \<le> length c"
    and "read_run rd n cur = Inr (vs, cur')"
  shows "n * w + length cur' \<le> length cur"
  using assms(2)
proof (induction n arbitrary: cur vs)
  case 0
  then show ?case by simp
next
  case (Suc n)
  then obtain v c vs' where rd: "rd cur = Inr (v, c)" and run: "read_run rd n c = Inr (vs', cur')"
    by (auto simp: and_then_eq_Inr_iff)
  from Suc.IH [OF run] assms(1) [OF rd] show ?case by simp
qed

section \<open>The contract\<close>

locale codec =
  fixes enc :: "'a \<Rightarrow> byte list"
    and dec :: "byte list \<Rightarrow> ('a \<times> byte list) option"
  assumes dec_enc: "dec (enc x @ rest) = Some (x, rest)"
begin

lemma run_enc:
  "read_run (\<lambda>c. ok_or e (dec c)) (length xs) (concat (map enc xs) @ rest) = Inr (xs, rest)"
  by (induction xs) (simp_all add: dec_enc)

lemma keyed_enc:
  assumes "\<And>k r. rd_key (enc_key k @ r) = Some (k, r)"
  shows "read_keyed ke rd_key ve dec (enc_key k @ enc v @ rest) = Inr ((k, v), rest)"
  by (simp add: read_keyed_def assms dec_enc)

lemma keyed_run_enc:
  assumes "\<And>k r. rd_key (enc_key k @ r) = Some (k, r)"
  shows "read_run (read_keyed ke rd_key ve dec) (length xs)
           (concat (map (\<lambda>(k, v). enc_key k @ enc v) xs) @ rest) = Inr (xs, rest)"
  by (induction xs) (auto simp: keyed_enc [OF assms])

lemma enc_inject: "enc x = enc y \<longleftrightarrow> x = y"
  by (metis dec_enc option.inject prod.inject)

end

locale fixed_codec = codec +
  fixes width :: nat
  assumes length_enc: "length (enc x) = width"
    and dec_length: "dec c = Some (x, c') \<Longrightarrow> length c = width + length c'"
begin

lemma length_run: "length (concat (map enc xs)) = length xs * width"
  by (induction xs) (simp_all add: length_enc)

lemma length_keyed_run:
  assumes "\<And>k. length (enc_key k) = m"
  shows "length (concat (map (\<lambda>(k, v). enc_key k @ enc v) xs)) = length xs * (m + width)"
  by (induction xs) (auto simp: assms length_enc)

lemma run_length:
  assumes "read_run (\<lambda>c. ok_or e (dec c)) n cur = Inr (xs, cur')"
  shows "length cur = n * width + length cur'"
  using assms
proof (induction n arbitrary: cur xs)
  case 0
  then show ?case by simp
next
  case (Suc n)
  then show ?case by (fastforce simp: and_then_eq_Inr_iff dest: dec_length)
qed

lemma keyed_run_length:
  assumes key: "\<And>c k c'. rd_key c = Some (k, c') \<Longrightarrow> length c = m + length c'"
    and run: "read_run (read_keyed ke rd_key ve dec) n cur = Inr (xs, cur')"
  shows "length cur = n * (m + width) + length cur'"
  using run
proof (induction n arbitrary: cur xs)
  case 0
  then show ?case by simp
next
  case (Suc n)
  then obtain p c ys where one: "read_keyed ke rd_key ve dec cur = Inr (p, c)"
    and rest: "read_run (read_keyed ke rd_key ve dec) n c = Inr (ys, cur')"
    by (auto simp: and_then_eq_Inr_iff)
  have "length cur = m + width + length c"
    using one by (auto simp: read_keyed_def and_then_eq_Inr_iff dest!: dec_length key)
  with Suc.IH [OF rest] show ?case by simp
qed

end

section \<open>The sample types of the format\<close>

definition write_gps :: "gps_location \<Rightarrow> byte list" where
  "write_gps g = write_f64 (latitude g) @ write_f64 (longitude g) @ write_f64 (altitude g)"

definition read_gps :: "byte list \<Rightarrow> (gps_location \<times> byte list) option" where
  "read_gps cur =
     (case read_u64 cur of None \<Rightarrow> None | Some (lat, c1) \<Rightarrow>
     (case read_u64 c1 of None \<Rightarrow> None | Some (lon, c2) \<Rightarrow>
     (case read_u64 c2 of None \<Rightarrow> None | Some (alt, c3) \<Rightarrow>
        Some (\<lparr>latitude = lat, longitude = lon, altitude = alt\<rparr>, c3))))"

lemma read_le_length: "read_le n c = Some (x, c') \<Longrightarrow> length c = n + length c'"
  by (auto simp: read_le_eq_Some_iff)

lemma read_lengths:
  "read_u8 c = Some (a, c') \<Longrightarrow> length c = 1 + length c'"
  "read_u16 c = Some (x, c') \<Longrightarrow> length c = 2 + length c'"
  "read_u32 c = Some (y, c') \<Longrightarrow> length c = 4 + length c'"
  "read_u64 c = Some (z, c') \<Longrightarrow> length c = 8 + length c'"
  by (auto simp: read_u8_def read_u16_def read_u32_def read_u64_def dest: read_le_length
           split: list.splits)

interpretation u8_codec: fixed_codec write_u8 read_u8 1
  by unfold_locales (auto simp: codec write_defs dest: read_lengths, simp add: read_u8_def)

interpretation i8_codec: fixed_codec write_i8 read_u8 1
  by unfold_locales (auto simp: codec write_defs dest: read_lengths, simp add: read_u8_def)

interpretation bool_codec: fixed_codec write_bool read_bool 1
  by unfold_locales (auto simp: read_bool_def read_u8_def write_defs split: list.splits)

interpretation u16_codec: fixed_codec write_u16 read_u16 2
  by unfold_locales (auto simp: codec write_defs dest: read_lengths)

interpretation i16_codec: fixed_codec write_i16 read_u16 2
  by unfold_locales (auto simp: codec write_defs dest: read_lengths)

interpretation u32_codec: fixed_codec write_u32 read_u32 4
  by unfold_locales (auto simp: codec write_defs dest: read_lengths)

interpretation i32_codec: fixed_codec write_i32 read_u32 4
  by unfold_locales (auto simp: codec write_defs dest: read_lengths)

interpretation f32_codec: fixed_codec write_f32 read_u32 4
  by unfold_locales (auto simp: codec write_defs dest: read_lengths)

interpretation u64_codec: fixed_codec write_u64 read_u64 8
  by unfold_locales (auto simp: codec write_defs dest: read_lengths)

interpretation i64_codec: fixed_codec write_i64 read_u64 8
  by unfold_locales (auto simp: codec write_defs dest: read_lengths)

interpretation f64_codec: fixed_codec write_f64 read_u64 8
  by unfold_locales (auto simp: codec write_defs dest: read_lengths)

interpretation gps_codec: fixed_codec write_gps read_gps 24
  by unfold_locales
     (auto simp: codec write_gps_def write_defs read_gps_def dest!: read_lengths split: option.splits)

end
