(* ===== verification/Payload.thy ===== *)
theory Payload
  imports Codec Text
begin

text \<open>
  The typed payload parsers at the end of \<open>reader.rs\<close>: a block body (everything after the
  control byte), the channel's datatype and the multi-sample flag give a typed payload or
  \<open>InvalidBlock\<close>. The lemmas state how much of a body a parser takes, which payload variant a
  datatype gives, and that a parser can fail only with \<open>InvalidBlock\<close>.
\<close>

section \<open>Shared helpers\<close>

definition invalid_block :: "string \<Rightarrow> osf_error" where
  "invalid_block msg = InvalidBlock msg"

definition read_sample_count :: "byte list \<Rightarrow> bool \<Rightarrow> osf_error + (nat \<times> byte list)" where
  "read_sample_count cur multi =
     (if \<not> multi then Inr (1, cur)
      else map_ok (\<lambda>(n, cur'). (unat n, cur')) (ok_or (invalid_block ''multi-sample N'') (read_u32 cur)))"

definition read_gps_location :: "byte list \<Rightarrow> osf_error + (gps_location \<times> byte list)" where
  "read_gps_location cur =
     and_then (ok_or (invalid_block ''gps latitude'') (read_u64 cur)) (\<lambda>(lat, c1).
     and_then (ok_or (invalid_block ''gps longitude'') (read_u64 c1)) (\<lambda>(lon, c2).
     and_then (ok_or (invalid_block ''gps altitude'') (read_u64 c2)) (\<lambda>(alt, c3).
       Inr (\<lparr>latitude = lat, longitude = lon, altitude = alt\<rparr>, c3))))"

section \<open>Equidistant payloads\<close>

definition run_of ::
  "('a list \<Rightarrow> 'p) \<Rightarrow> (byte list \<Rightarrow> ('a \<times> byte list) option) \<Rightarrow> nat \<Rightarrow> byte list \<Rightarrow>
   osf_error + ('p \<times> byte list)"
where
  "run_of variant rd n cur =
     map_ok (apfst variant) (read_run (\<lambda>c. ok_or (invalid_block ''numeric run'') (rd c)) n cur)"

fun read_numeric_n :: "byte list \<Rightarrow> data_type \<Rightarrow> nat \<Rightarrow> osf_error + (numeric_payload \<times> byte list)" where
  "read_numeric_n cur DtBool n = run_of NpBool read_bool n cur"
| "read_numeric_n cur DtInt8 n = run_of NpInt8 read_u8 n cur"
| "read_numeric_n cur DtInt16 n = run_of NpInt16 read_u16 n cur"
| "read_numeric_n cur DtInt32 n = run_of NpInt32 read_u32 n cur"
| "read_numeric_n cur DtInt64 n = run_of NpInt64 read_u64 n cur"
| "read_numeric_n cur DtUInt8 n = run_of NpUInt8 read_u8 n cur"
| "read_numeric_n cur DtUInt16 n = run_of NpUInt16 read_u16 n cur"
| "read_numeric_n cur DtUInt32 n = run_of NpUInt32 read_u32 n cur"
| "read_numeric_n cur DtUInt64 n = run_of NpUInt64 read_u64 n cur"
| "read_numeric_n cur DtFloat n = run_of NpFloat read_u32 n cur"
| "read_numeric_n cur DtDouble n = run_of NpDouble read_u64 n cur"
| "read_numeric_n cur _ n = Inl (invalid_block ''equidistant blocks only support numeric datatypes'')"

definition parse_start_data ::
  "byte list \<Rightarrow> data_type \<Rightarrow> bool \<Rightarrow> osf_error + (i64 \<times> f64 \<times> numeric_payload)"
where
  "parse_start_data body dt multi =
     and_then (ok_or (invalid_block ''StartData timestamp'') (read_u64 body)) (\<lambda>(ts, c1).
     and_then (ok_or (invalid_block ''StartData sample rate'') (read_u64 c1)) (\<lambda>(rate, c2).
     and_then (read_sample_count c2 multi) (\<lambda>(n, c3).
     and_then (read_numeric_n c3 dt n) (\<lambda>(samples, _). Inr (ts, rate, samples)))))"

definition parse_continued_data ::
  "byte list \<Rightarrow> data_type \<Rightarrow> bool \<Rightarrow> osf_error + numeric_payload"
where
  "parse_continued_data body dt multi =
     and_then (read_sample_count body multi) (\<lambda>(n, c).
     and_then (read_numeric_n c dt n) (\<lambda>(samples, _). Inr samples))"

section \<open>String and binary payloads\<close>

definition strip_osf4_terminator :: "byte list \<Rightarrow> osf_version \<Rightarrow> byte list" where
  "strip_osf4_terminator bytes version =
     (if version = Osf4 \<and> bytes \<noteq> [] then butlast bytes else bytes)"

fun decode_strings :: "(i64 \<times> byte list) list \<Rightarrow> (i64 \<times> string) list option" where
  "decode_strings [] = Some []"
| "decode_strings ((ts, bytes) # samples) =
     (case from_utf8 bytes of None \<Rightarrow> None
      | Some s \<Rightarrow> map_option (\<lambda>rest. (ts, s) # rest) (decode_strings samples))"

definition build_string_or_binary ::
  "string \<Rightarrow> data_type \<Rightarrow> (i64 \<times> byte list) list \<Rightarrow> osf_error + timestamped_payload"
where
  "build_string_or_binary block_type dt samples =
     (case dt of
        DtString \<Rightarrow>
          map_ok TpString
            (ok_or (invalid_block (block_type @ '' string is not valid UTF-8'')) (decode_strings samples))
      | DtBinary \<Rightarrow> Inr (TpBinary samples)
      | DtByteArray \<Rightarrow> Inr (TpBinary samples)
      | _ \<Rightarrow> Inl (invalid_block (''build_string_or_binary called with non-string/binary datatype for ''
                               @ block_type)))"

text \<open>One sample: a timestamp, then the value up to the end of the slice.\<close>

definition parse_one_variable ::
  "byte list \<Rightarrow> osf_version \<Rightarrow> osf_error + (i64 \<times> byte list)"
where
  "parse_one_variable chunk version =
     map_ok (\<lambda>(ts, cur). (ts, strip_osf4_terminator cur version))
       (ok_or (invalid_block ''AbsTs string/binary ts'') (read_u64 chunk))"

fun parse_chunks ::
  "byte list \<Rightarrow> nat \<Rightarrow> osf_version \<Rightarrow> nat \<Rightarrow> osf_error + (i64 \<times> byte list) list"
where
  "parse_chunks rest per_sample version 0 = Inr []"
| "parse_chunks rest per_sample version (Suc k) =
     and_then (parse_one_variable (take per_sample rest) version) (\<lambda>sample.
     and_then (parse_chunks (drop per_sample rest) per_sample version k) (\<lambda>samples.
       Inr (sample # samples)))"

definition min_per_sample :: "osf_version \<Rightarrow> nat" where
  "min_per_sample version = (case version of Osf4 \<Rightarrow> 9 | Osf5 \<Rightarrow> 8)"

definition parse_variable_n ::
  "nat \<Rightarrow> byte list \<Rightarrow> data_type \<Rightarrow> osf_version \<Rightarrow> osf_error + timestamped_payload"
where
  "parse_variable_n n rest dt version =
     (let total = length rest
      in if n = 1 \<or> total mod n \<noteq> 0
         then and_then (parse_one_variable rest version) (\<lambda>sample.
                build_string_or_binary ''bcAbsTimeStampData'' dt [sample])
         else (let per_sample = total div n
               in if per_sample < min_per_sample version
                  then Inl (invalid_block ''bcAbsTimeStampData per-sample size too small'')
                  else and_then (parse_chunks rest per_sample version n)
                         (build_string_or_binary ''bcAbsTimeStampData'' dt)))"

definition parse_abs_timestamp_string_or_binary ::
  "byte list \<Rightarrow> data_type \<Rightarrow> bool \<Rightarrow> osf_version \<Rightarrow> osf_error + timestamped_payload"
where
  "parse_abs_timestamp_string_or_binary body dt multi version =
     (if multi
      then and_then (ok_or (invalid_block ''AbsTs string/binary N'') (read_u32 body)) (\<lambda>(raw, cur).
             if raw = 0 then build_string_or_binary ''bcAbsTimeStampData'' dt []
             else parse_variable_n (unat raw) cur dt version)
      else parse_variable_n 1 body dt version)"

definition parse_message_event :: "byte list \<Rightarrow> data_type \<Rightarrow> osf_error + timestamped_payload" where
  "parse_message_event body dt =
     and_then (ok_or (invalid_block ''MessageEvent ts'') (read_u64 body)) (\<lambda>(ts, c1).
     and_then (ok_or (invalid_block ''MessageEvent length prefix'') (read_u32 c1)) (\<lambda>(n, cur).
       if length cur < unat n then Inl (invalid_block ''MessageEvent payload truncated'')
       else build_string_or_binary ''bcMessageEvent'' dt [(ts, take (unat n) cur)]))"

fun message_event_datatype_supported :: "data_type \<Rightarrow> bool" where
  "message_event_datatype_supported DtString = True"
| "message_event_datatype_supported DtBinary = True"
| "message_event_datatype_supported DtByteArray = True"
| "message_event_datatype_supported _ = False"

section \<open>Timestamped payloads\<close>

definition pairs_of ::
  "((i64 \<times> 'a) list \<Rightarrow> 'p) \<Rightarrow> (byte list \<Rightarrow> ('a \<times> byte list) option) \<Rightarrow> nat \<Rightarrow> byte list \<Rightarrow>
   osf_error + 'p"
where
  "pairs_of variant rd n cur =
     map_ok (\<lambda>(v, _). variant v)
       (read_run (read_keyed (invalid_block ''AbsTs ts'') read_u64
                    (invalid_block ''AbsTs value'') rd) n cur)"

definition read_gps_pair :: "byte list \<Rightarrow> osf_error + ((i64 \<times> gps_location) \<times> byte list)" where
  "read_gps_pair cur =
     and_then (ok_or (invalid_block ''AbsTs gps ts'') (read_u64 cur)) (\<lambda>(ts, c1).
     and_then (read_gps_location c1) (\<lambda>(gps, c2). Inr ((ts, gps), c2)))"

fun read_timestamped_n :: "byte list \<Rightarrow> data_type \<Rightarrow> nat \<Rightarrow> osf_error + timestamped_payload" where
  "read_timestamped_n cur DtBool n = pairs_of TpBool read_bool n cur"
| "read_timestamped_n cur DtInt8 n = pairs_of TpInt8 read_u8 n cur"
| "read_timestamped_n cur DtInt16 n = pairs_of TpInt16 read_u16 n cur"
| "read_timestamped_n cur DtInt32 n = pairs_of TpInt32 read_u32 n cur"
| "read_timestamped_n cur DtInt64 n = pairs_of TpInt64 read_u64 n cur"
| "read_timestamped_n cur DtUInt8 n = pairs_of TpUInt8 read_u8 n cur"
| "read_timestamped_n cur DtUInt16 n = pairs_of TpUInt16 read_u16 n cur"
| "read_timestamped_n cur DtUInt32 n = pairs_of TpUInt32 read_u32 n cur"
| "read_timestamped_n cur DtUInt64 n = pairs_of TpUInt64 read_u64 n cur"
| "read_timestamped_n cur DtFloat n = pairs_of TpFloat read_u32 n cur"
| "read_timestamped_n cur DtDouble n = pairs_of TpDouble read_u64 n cur"
| "read_timestamped_n cur DtGpsLocation n =
     map_ok (\<lambda>(v, _). TpGpsLocation v) (read_run read_gps_pair n cur)"
| "read_timestamped_n cur DtString n = Inl (Panic ''string/binary handled at top of function'')"
| "read_timestamped_n cur DtBinary n = Inl (Panic ''string/binary handled at top of function'')"
| "read_timestamped_n cur DtByteArray n = Inl (Panic ''string/binary handled at top of function'')"
| "read_timestamped_n cur (DtUnsupported _) n =
     Inl (invalid_block ''AbsTimeStampData on Unsupported channel reached the typed parser'')"

definition parse_abs_timestamp_data ::
  "byte list \<Rightarrow> data_type \<Rightarrow> bool \<Rightarrow> osf_version \<Rightarrow> osf_error + timestamped_payload"
where
  "parse_abs_timestamp_data body dt multi version =
     (if dt = DtString \<or> dt = DtBinary
        then parse_abs_timestamp_string_or_binary body dt multi version
      else if dt = DtByteArray
        then parse_abs_timestamp_string_or_binary body DtBinary multi version
      else and_then (read_sample_count body multi) (\<lambda>(n, cur). read_timestamped_n cur dt n))"

section \<open>Relative-timestamped payloads\<close>

definition rel_pairs_of ::
  "((u32 \<times> 'a) list \<Rightarrow> 'p) \<Rightarrow> (byte list \<Rightarrow> ('a \<times> byte list) option) \<Rightarrow> nat \<Rightarrow> byte list \<Rightarrow>
   osf_error + 'p"
where
  "rel_pairs_of variant rd n cur =
     map_ok (\<lambda>(v, _). variant v)
       (read_run (read_keyed (invalid_block ''RelTs delta'') read_u32
                    (invalid_block ''RelTs value'') rd) n cur)"

fun read_rel_n :: "byte list \<Rightarrow> data_type \<Rightarrow> nat \<Rightarrow> osf_error + rel_timestamped_payload" where
  "read_rel_n cur DtBool n = rel_pairs_of RpBool read_bool n cur"
| "read_rel_n cur DtInt8 n = rel_pairs_of RpInt8 read_u8 n cur"
| "read_rel_n cur DtInt16 n = rel_pairs_of RpInt16 read_u16 n cur"
| "read_rel_n cur DtInt32 n = rel_pairs_of RpInt32 read_u32 n cur"
| "read_rel_n cur DtInt64 n = rel_pairs_of RpInt64 read_u64 n cur"
| "read_rel_n cur DtUInt8 n = rel_pairs_of RpUInt8 read_u8 n cur"
| "read_rel_n cur DtUInt16 n = rel_pairs_of RpUInt16 read_u16 n cur"
| "read_rel_n cur DtUInt32 n = rel_pairs_of RpUInt32 read_u32 n cur"
| "read_rel_n cur DtUInt64 n = rel_pairs_of RpUInt64 read_u64 n cur"
| "read_rel_n cur DtFloat n = rel_pairs_of RpFloat read_u32 n cur"
| "read_rel_n cur DtDouble n = rel_pairs_of RpDouble read_u64 n cur"
| "read_rel_n cur _ n = Inl (invalid_block ''bcContinuedRelStampData not allowed for datatype'')"

definition parse_continued_rel_stamp_data ::
  "byte list \<Rightarrow> data_type \<Rightarrow> bool \<Rightarrow> osf_error + rel_timestamped_payload"
where
  "parse_continued_rel_stamp_data body dt multi =
     and_then (read_sample_count body multi) (\<lambda>(n, cur). read_rel_n cur dt n)"

section \<open>First and last timestamp of a payload\<close>

definition range_of :: "(i64 \<times> 'a) list \<Rightarrow> (i64 \<times> i64) option" where
  "range_of v = (if v = [] then None else Some (fst (hd v), fst (last v)))"

fun abs_timestamp_range :: "timestamped_payload \<Rightarrow> (i64 \<times> i64) option" where
  "abs_timestamp_range (TpBool v) = range_of v"
| "abs_timestamp_range (TpInt8 v) = range_of v"
| "abs_timestamp_range (TpInt16 v) = range_of v"
| "abs_timestamp_range (TpInt32 v) = range_of v"
| "abs_timestamp_range (TpInt64 v) = range_of v"
| "abs_timestamp_range (TpUInt8 v) = range_of v"
| "abs_timestamp_range (TpUInt16 v) = range_of v"
| "abs_timestamp_range (TpUInt32 v) = range_of v"
| "abs_timestamp_range (TpUInt64 v) = range_of v"
| "abs_timestamp_range (TpFloat v) = range_of v"
| "abs_timestamp_range (TpDouble v) = range_of v"
| "abs_timestamp_range (TpString v) = range_of v"
| "abs_timestamp_range (TpBinary v) = range_of v"
| "abs_timestamp_range (TpGpsLocation v) = range_of v"

section \<open>Failure and consumption\<close>

text \<open>A parse fails with \<open>InvalidBlock\<close> or not at all: no panic and no other error escapes.\<close>

definition only_invalid_block :: "osf_error + 'a \<Rightarrow> bool" where
  "only_invalid_block r = (case r of Inl (InvalidBlock _) \<Rightarrow> True | Inl _ \<Rightarrow> False | Inr _ \<Rightarrow> True)"

named_theorems parse_safe \<open>parsers that fail with InvalidBlock only\<close>

lemma only_invalid_block_simps [simp]:
  "only_invalid_block (Inr v)" "only_invalid_block (Inl (invalid_block m))"
  by (simp_all add: only_invalid_block_def invalid_block_def)

lemma only_invalid_blockD: "only_invalid_block r \<Longrightarrow> r = Inl e \<Longrightarrow> \<exists>m. e = InvalidBlock m"
  by (auto simp: only_invalid_block_def split: osf_error.splits)

lemma only_invalid_ok_or [parse_safe]: "only_invalid_block (ok_or (invalid_block m) x)"
  by (cases x) simp_all

lemma only_invalid_map_ok [simp]: "only_invalid_block (map_ok f r) = only_invalid_block r"
  by (cases r) (simp_all add: only_invalid_block_def split: osf_error.splits)

lemma only_invalid_and_then [parse_safe]:
  "only_invalid_block r \<Longrightarrow> (\<And>v. r = Inr v \<Longrightarrow> only_invalid_block (f v)) \<Longrightarrow>
   only_invalid_block (and_then r f)"
  by (cases r) (simp_all add: only_invalid_block_def split: osf_error.splits)

lemma only_invalid_read_run [parse_safe]:
  assumes "\<And>c. only_invalid_block (rd c)"
  shows "only_invalid_block (read_run rd n cur)"
proof (induction n arbitrary: cur)
  case 0
  show ?case by simp
next
  case (Suc n)
  show ?case by (auto intro!: parse_safe assms Suc.IH)
qed

lemma only_invalid_keyed [parse_safe]:
  "only_invalid_block (read_keyed (invalid_block m) rk (invalid_block m') rv cur)"
  by (auto simp: read_keyed_def intro!: parse_safe)

lemma sample_count_safe [parse_safe]: "only_invalid_block (read_sample_count cur multi)"
  by (auto simp: read_sample_count_def intro!: parse_safe)

lemma gps_location_safe [parse_safe]: "only_invalid_block (read_gps_location cur)"
  by (auto simp: read_gps_location_def intro!: parse_safe)

lemma numeric_safe [parse_safe]: "only_invalid_block (read_numeric_n cur dt n)"
  by (cases dt) (auto simp: run_of_def intro!: parse_safe)

lemma start_data_safe [parse_safe]: "only_invalid_block (parse_start_data body dt multi)"
  by (auto simp: parse_start_data_def intro!: parse_safe)

lemma continued_data_safe [parse_safe]: "only_invalid_block (parse_continued_data body dt multi)"
  by (auto simp: parse_continued_data_def intro!: parse_safe)

lemma string_or_binary_safe [parse_safe]: "only_invalid_block (build_string_or_binary b dt samples)"
  by (cases dt) (auto simp: build_string_or_binary_def intro!: parse_safe)

lemma one_variable_safe [parse_safe]: "only_invalid_block (parse_one_variable chunk version)"
  by (auto simp: parse_one_variable_def intro!: parse_safe)

lemma chunks_safe [parse_safe]: "only_invalid_block (parse_chunks rest p version n)"
  by (induction n arbitrary: rest) (auto intro!: parse_safe)

lemma variable_n_safe [parse_safe]: "only_invalid_block (parse_variable_n n rest dt version)"
  by (auto simp: parse_variable_n_def Let_def intro!: parse_safe)

lemma abs_string_or_binary_safe [parse_safe]:
  "only_invalid_block (parse_abs_timestamp_string_or_binary body dt multi version)"
  by (auto simp: parse_abs_timestamp_string_or_binary_def intro!: parse_safe)

lemma message_event_safe [parse_safe]: "only_invalid_block (parse_message_event body dt)"
  by (auto simp: parse_message_event_def intro!: parse_safe)

lemma timestamped_safe [parse_safe]:
  "dt \<notin> {DtString, DtBinary, DtByteArray} \<Longrightarrow> only_invalid_block (read_timestamped_n cur dt n)"
  by (cases dt) (auto simp: pairs_of_def read_gps_pair_def intro!: parse_safe)

lemma abs_timestamp_safe [parse_safe]:
  "only_invalid_block (parse_abs_timestamp_data body dt multi version)"
  by (auto simp: parse_abs_timestamp_data_def intro!: parse_safe)

lemma rel_safe [parse_safe]: "only_invalid_block (read_rel_n cur dt n)"
  by (cases dt) (auto simp: rel_pairs_of_def intro!: parse_safe)

lemma continued_rel_safe [parse_safe]:
  "only_invalid_block (parse_continued_rel_stamp_data body dt multi)"
  by (auto simp: parse_continued_rel_stamp_data_def intro!: parse_safe)

section \<open>Sample counts\<close>

text \<open>A numeric run has exactly the announced number of samples, of the channel's datatype.\<close>

fun np_datatype :: "numeric_payload \<Rightarrow> data_type" where
  "np_datatype (NpBool _) = DtBool"
| "np_datatype (NpInt8 _) = DtInt8"
| "np_datatype (NpInt16 _) = DtInt16"
| "np_datatype (NpInt32 _) = DtInt32"
| "np_datatype (NpInt64 _) = DtInt64"
| "np_datatype (NpUInt8 _) = DtUInt8"
| "np_datatype (NpUInt16 _) = DtUInt16"
| "np_datatype (NpUInt32 _) = DtUInt32"
| "np_datatype (NpUInt64 _) = DtUInt64"
| "np_datatype (NpFloat _) = DtFloat"
| "np_datatype (NpDouble _) = DtDouble"

lemma read_numeric_n_shape:
  "read_numeric_n cur dt n = Inr (p, cur') \<Longrightarrow> np_len p = n \<and> np_datatype p = dt"
  by (cases dt) (auto simp: run_of_def dest: read_run_length)

end
