(* ===== verification/Stats.thy ===== *)
theory Stats
  imports Types
begin

text \<open>
  The telemetry of \<open>stats.rs\<close>: the per-channel and per-file counters, and
  \<open>verification_status\<close>. Counters are natural numbers: none can reach \<open>2 ^ 64\<close>
  before the input has that many bytes. The wall-clock field \<open>elapsed\<close> is left out.
\<close>

datatype compression_format = CfNone | CfZlib | CfGzip

record channel_stats =
  cs_name :: string
  cs_blocks_read :: nat
  cs_blocks_skipped :: nat
  cs_samples_total :: nat
  cs_bytes_payload :: nat
  cs_segments :: nat
  cs_time_range_ns :: "(i64 \<times> i64) option"

definition channel_stats_default :: channel_stats where
  "channel_stats_default =
     \<lparr>cs_name = [], cs_blocks_read = 0, cs_blocks_skipped = 0, cs_samples_total = 0,
      cs_bytes_payload = 0, cs_segments = 0, cs_time_range_ns = None\<rparr>"

definition observe_timestamp :: "i64 \<Rightarrow> channel_stats \<Rightarrow> channel_stats" where
  "observe_timestamp ts c =
     (case cs_time_range_ns c of
        Some (lo, hi) \<Rightarrow>
          c\<lparr>cs_time_range_ns := Some (if sint ts < sint lo then ts else lo,
                                      if sint ts > sint hi then ts else hi)\<rparr>
      | None \<Rightarrow> c\<lparr>cs_time_range_ns := Some (ts, ts)\<rparr>)"

record reader_stats =
  rs_file_size_bytes :: "nat option"
  rs_header_size_bytes :: nat
  rs_metablock_size_bytes :: nat
  rs_data_section_size_bytes :: nat
  rs_channels_total :: nat
  rs_channels_with_data :: nat
  rs_channels_unsupported :: nat
  rs_blocks_total :: nat
  rs_blocks_read :: nat
  rs_blocks_skipped_unsupported :: nat
  rs_blocks_skipped_deprecated_type :: nat
  rs_blocks_skipped_status_event :: nat
  rs_blocks_skipped_reserved_type :: nat
  rs_blocks_skipped_zero_length :: nat
  rs_blocks_truncated :: nat
  rs_trailer_seen :: bool
  rs_compressed :: bool
  rs_compression_format :: compression_format
  rs_integrity :: integrity_profile
  rs_blocks_crc_failed :: nat
  rs_blocks_signature_skipped :: nat
  rs_per_channel :: "(u16 \<times> channel_stats) list"

definition reader_stats_default :: reader_stats where
  "reader_stats_default =
     \<lparr>rs_file_size_bytes = None, rs_header_size_bytes = 0, rs_metablock_size_bytes = 0,
      rs_data_section_size_bytes = 0, rs_channels_total = 0, rs_channels_with_data = 0,
      rs_channels_unsupported = 0, rs_blocks_total = 0, rs_blocks_read = 0,
      rs_blocks_skipped_unsupported = 0, rs_blocks_skipped_deprecated_type = 0,
      rs_blocks_skipped_status_event = 0, rs_blocks_skipped_reserved_type = 0,
      rs_blocks_skipped_zero_length = 0, rs_blocks_truncated = 0, rs_trailer_seen = False,
      rs_compressed = False, rs_compression_format = CfNone, rs_integrity = IpNone,
      rs_blocks_crc_failed = 0, rs_blocks_signature_skipped = 0, rs_per_channel = []\<rparr>"

definition verification_status :: "reader_stats \<Rightarrow> string" where
  "verification_status s =
     (case rs_integrity s of
        IpNone \<Rightarrow> ''none''
      | IpEd25519 \<Rightarrow> ''signature_unverifiable''
      | IpCrc32c \<Rightarrow> if rs_blocks_crc_failed s > 0 then ''invalid'' else ''crc_valid'')"

section \<open>The observed time range\<close>

definition range_covers :: "channel_stats \<Rightarrow> i64 \<Rightarrow> bool" where
  "range_covers c ts \<longleftrightarrow>
     (case cs_time_range_ns c of None \<Rightarrow> False | Some (a, b) \<Rightarrow> sint a \<le> sint ts \<and> sint ts \<le> sint b)"

lemma observe_covers: "range_covers (observe_timestamp ts c) ts"
  by (auto simp: range_covers_def observe_timestamp_def split: option.splits)

lemma observe_keeps: "range_covers c t \<Longrightarrow> range_covers (observe_timestamp ts c) t"
  by (auto simp: range_covers_def observe_timestamp_def split: option.splits)

lemma observe_frame [frame]:
  "cs_name (observe_timestamp ts c) = cs_name c"
  "cs_blocks_read (observe_timestamp ts c) = cs_blocks_read c"
  "cs_blocks_skipped (observe_timestamp ts c) = cs_blocks_skipped c"
  "cs_samples_total (observe_timestamp ts c) = cs_samples_total c"
  "cs_bytes_payload (observe_timestamp ts c) = cs_bytes_payload c"
  "cs_segments (observe_timestamp ts c) = cs_segments c"
  by (simp_all add: observe_timestamp_def split: option.splits)

end
