(* ===== verification/Stream.thy ===== *)
theory Stream
  imports Types
begin

text \<open>
  The byte source a reader consumes (\<open>R: Read\<close>): the bytes still to come, and whether the
  source fails with an I/O error or reports end of file once they are used up. The three
  operations are those the code performs on it: \<open>read_exact\<close>, draining a number of bytes
  (\<open>io::copy\<close> of a \<open>take\<close> into a sink) and the single-byte \<open>read\<close> of the header parser.
\<close>

record stream =
  pending :: "byte list"
  faulty :: bool

datatype 'a io = Got 'a | AtEof | IoFault

definition exhausted :: "stream \<Rightarrow> 'a io" where
  "exhausted s = (if faulty s then IoFault else AtEof)"

definition read_exact :: "nat \<Rightarrow> stream \<Rightarrow> byte list io \<times> stream" where
  "read_exact n s =
     (if n \<le> length (pending s)
      then (Got (take n (pending s)), s\<lparr>pending := drop n (pending s)\<rparr>)
      else (exhausted s, s\<lparr>pending := []\<rparr>))"

text \<open>\<open>Ok(true)\<close>: all \<open>n\<close> bytes were there; \<open>Ok(false)\<close>: the stream ended before.\<close>

definition drain :: "nat \<Rightarrow> stream \<Rightarrow> unit io \<times> stream" where
  "drain n s =
     (if n \<le> length (pending s) then (Got (), s\<lparr>pending := drop n (pending s)\<rparr>)
      else (exhausted s, s\<lparr>pending := []\<rparr>))"

text \<open>A reader over a known good stretch of bytes.\<close>

definition source :: "byte list \<Rightarrow> stream" where
  "source bs = \<lparr>pending = bs, faulty = False\<rparr>"

lemma source_simps [simp]: "pending (source bs) = bs" "faulty (source bs) = False"
  by (simp_all add: source_def)

lemma read_exact_append [codec]:
  "pending s = xs @ ys \<Longrightarrow> length xs = n \<Longrightarrow> read_exact n s = (Got xs, s\<lparr>pending := ys\<rparr>)"
  by (simp add: read_exact_def)

lemma drain_append [codec]:
  "pending s = xs @ ys \<Longrightarrow> length xs = n \<Longrightarrow> drain n s = (Got (), s\<lparr>pending := ys\<rparr>)"
  by (simp add: drain_def)

lemma read_exact_short:
  "length (pending s) < n \<Longrightarrow> read_exact n s = (exhausted s, s\<lparr>pending := []\<rparr>)"
  by (simp add: read_exact_def)

lemma drain_short:
  "length (pending s) < n \<Longrightarrow> drain n s = (exhausted s, s\<lparr>pending := []\<rparr>)"
  by (simp add: drain_def)

lemma read_exact_Got:
  assumes "read_exact n s = (Got bs, s')"
  shows "pending s = bs @ pending s'" and "length bs = n" and "faulty s' = faulty s"
  using assms by (auto simp: read_exact_def exhausted_def split: if_splits)

lemma read_exact_not_Got:
  "read_exact n s = (r, s') \<Longrightarrow> r \<noteq> Got bs \<Longrightarrow> (\<forall>bs. r \<noteq> Got bs) \<Longrightarrow> pending s' = []"
  by (auto simp: read_exact_def split: if_splits)

lemma read_exact_pending_le:
  "read_exact n s = (r, s') \<Longrightarrow> length (pending s') \<le> length (pending s)"
  by (auto simp: read_exact_def split: if_splits)

lemma drain_pending_le:
  "drain n s = (r, s') \<Longrightarrow> length (pending s') \<le> length (pending s)"
  by (auto simp: drain_def split: if_splits)

lemma read_exact_faulty [frame]: "read_exact n s = (r, s') \<Longrightarrow> faulty s' = faulty s"
  by (auto simp: read_exact_def split: if_splits)

lemma drain_faulty [frame]: "drain n s = (r, s') \<Longrightarrow> faulty s' = faulty s"
  by (auto simp: drain_def split: if_splits)

lemma drain_Got:
  assumes "drain n s = (Got u, s')"
  shows "length (pending s) = n + length (pending s')" and "pending s' = drop n (pending s)"
  using assms by (auto simp: drain_def exhausted_def split: if_splits)

text \<open>A sound source never reports an I/O error.\<close>

lemma read_exact_sound: "\<not> faulty s \<Longrightarrow> read_exact n s \<noteq> (IoFault, s')"
  by (auto simp: read_exact_def exhausted_def)

lemma drain_sound: "\<not> faulty s \<Longrightarrow> drain n s \<noteq> (IoFault, s')"
  by (auto simp: drain_def exhausted_def)

end
