(* ===== verification/Header.thy ===== *)
theory Header
  imports Text Types Stream
begin

text \<open>
  The magic-header line of \<open>header.rs\<close> (\<open>parse_magic_header\<close> and its helpers) and the line
  the writer emits (\<open>write_magic_header\<close> of \<open>writer.rs\<close>). The lemmas show how the version,
  the integrity level and the metablock CRC depend on each other, how much input the line
  parser can consume, and that what the writer emits is read back.
\<close>

section \<open>Reading the line\<close>

definition MAX_MAGIC_HEADER_LEN :: nat where
  "MAX_MAGIC_HEADER_LEN = 128"

record magic_header =
  mh_version :: osf_version
  mh_metablock_len :: nat
  mh_integrity :: integrity_profile
  mh_metablock_crc :: "u32 option"

text \<open>The byte loop of \<open>read_first_line\<close>, over the bytes still to come.\<close>

fun first_line_loop ::
  "bool \<Rightarrow> byte list \<Rightarrow> byte list \<Rightarrow> (osf_error + byte list) \<times> byte list"
where
  "first_line_loop flt buf [] =
     (Inl (if flt then Io OtherIo
           else InvalidMagicHeader ''unexpected end of input before newline''), [])"
| "first_line_loop flt buf (b # bs) =
     (if b = 10 then (Inr buf, bs)
      else if length (buf @ [b]) > MAX_MAGIC_HEADER_LEN
           then (Inl (MagicHeaderTooLong MAX_MAGIC_HEADER_LEN), bs)
           else first_line_loop flt (buf @ [b]) bs)"

definition trim_cr :: "byte list \<Rightarrow> byte list" where
  "trim_cr buf = (if buf \<noteq> [] \<and> last buf = 13 then butlast buf else buf)"

definition read_first_line :: "stream \<Rightarrow> (osf_error + string) \<times> stream" where
  "read_first_line s =
     (let (r, rest) = first_line_loop (faulty s) [] (pending s)
      in (and_then r (\<lambda>buf.
            ok_or (InvalidMagicHeader ''magic header is not valid UTF-8'')
              (from_utf8 (trim_cr buf))),
          s\<lparr>pending := rest\<rparr>))"

section \<open>Parsing the line\<close>

definition identifier_to_version :: "string \<Rightarrow> osf_error + osf_version" where
  "identifier_to_version identifier =
     (if identifier = ''OSF4'' \<or> identifier = ''OCEAN_STREAM_FORMAT4''
         \<or> identifier = ''OCEAN_STREAMING_FORMAT4'' then Inr Osf4
      else if identifier = ''OSF5'' then Inr Osf5
      else Inl (UnsupportedVersion identifier))"

definition parse_crc32c_token :: "string \<Rightarrow> osf_error + u32" where
  "parse_crc32c_token val =
     (if length val \<noteq> 8 \<or> \<not> (\<forall>c \<in> set val. is_upper_hex c)
      then Inl (InvalidMagicHeader ''crc32c token value must be 8 uppercase hex digits'')
      else map_ok of_nat
             (ok_or (InvalidMagicHeader ''crc32c token value is not valid hex'')
                (parse_hex (2 ^ 32) val)))"

definition validate_ed25519_keyid :: "string \<Rightarrow> osf_error + unit" where
  "validate_ed25519_keyid val =
     (if length val \<noteq> 16 \<or> \<not> (\<forall>c \<in> set val. is_lower_hex c)
      then Inl (InvalidMagicHeader ''ed25519 keyid must be 16 lowercase hex digits'')
      else Inr ())"

definition is_key_char :: "char \<Rightarrow> bool" where
  "is_key_char c \<longleftrightarrow>
     (97::nat) \<le> of_char c \<and> (of_char c :: nat) \<le> 122 \<or> is_ascii_digit c \<or> c = CHR ''-''"

text \<open>
  The loop variables of the token loop: the level, the metablock CRC and \<open>saw_crc\<close>.
\<close>

record token_state =
  ts_integrity :: integrity_profile
  ts_metablock_crc :: "u32 option"
  ts_saw_crc :: bool

definition token_step :: "osf_version \<Rightarrow> string \<Rightarrow> token_state \<Rightarrow> osf_error + token_state" where
  "token_step version token st =
     (if token = [] then Inl (InvalidMagicHeader ''malformed magic header'')
      else if version \<noteq> Osf5
        then Inl (InvalidMagicHeader ''header tokens are only allowed for OSF5'')
      else (case split_once (CHR '':'') token of
          None \<Rightarrow> Inl (InvalidMagicHeader ''malformed header token'')
        | Some (key, val) \<Rightarrow>
            if key = [] \<or> \<not> (\<forall>c \<in> set key. is_key_char c)
              then Inl (InvalidMagicHeader ''malformed header token key'')
            else if key = ''crc32c'' then
              and_then (parse_crc32c_token val) (\<lambda>crc.
                Inr (st\<lparr>ts_metablock_crc := Some crc, ts_integrity := IpCrc32c,
                       ts_saw_crc := True\<rparr>))
            else if key = ''ed25519'' then
              and_then (validate_ed25519_keyid val) (\<lambda>_.
                if \<not> ts_saw_crc st
                  then Inl (InvalidMagicHeader ''ed25519 token is only valid after a crc32c token'')
                  else Inr (st\<lparr>ts_integrity := IpEd25519\<rparr>))
            else Inl (UnknownHeaderToken key)))"

fun parse_tokens :: "osf_version \<Rightarrow> string list \<Rightarrow> token_state \<Rightarrow> osf_error + token_state" where
  "parse_tokens version [] st = Inr st"
| "parse_tokens version (token # toks) st =
     and_then (token_step version token st) (parse_tokens version toks)"

definition token_init :: token_state where
  "token_init = \<lparr>ts_integrity = IpNone, ts_metablock_crc = None, ts_saw_crc = False\<rparr>"

definition parse_magic_header_line :: "string \<Rightarrow> osf_error + magic_header" where
  "parse_magic_header_line line =
     (case split_once (CHR '' '') line of
        None \<Rightarrow> Inl (InvalidMagicHeader ''expected <identifier> <length>'')
      | Some (identifier, rest) \<Rightarrow>
          and_then (identifier_to_version identifier) (\<lambda>version.
            (let parts = split_on (CHR '' '') rest; len_field = hd parts
             in if len_field = []
                then Inl (InvalidMagicHeader ''missing metablock length after identifier'')
                else and_then (ok_or (InvalidMagicHeader ''metablock length is not a valid u64'')
                         (parse_unsigned (2 ^ 64) len_field)) (\<lambda>metablock_len.
                       and_then (parse_tokens version (tl parts) token_init) (\<lambda>st.
                         Inr \<lparr>mh_version = version, mh_metablock_len = metablock_len,
                              mh_integrity = ts_integrity st,
                              mh_metablock_crc = ts_metablock_crc st\<rparr>)))))"

definition parse_magic_header :: "stream \<Rightarrow> (osf_error + magic_header) \<times> stream" where
  "parse_magic_header s =
     (let (r, s') = read_first_line s in (and_then r parse_magic_header_line, s'))"

section \<open>Writing the line\<close>

definition OSF5_IDENTIFIER :: string where
  "OSF5_IDENTIFIER = ''OSF5''"

definition write_magic_header :: "nat \<Rightarrow> u32 option \<Rightarrow> byte list" where
  "write_magic_header metablock_len metablock_crc =
     bytes_of_string
       (case metablock_crc of
          Some crc \<Rightarrow> OSF5_IDENTIFIER @ '' '' @ show_nat metablock_len @ '' crc32c:''
                      @ show_hex_upper 8 (unat crc) @ [CHR 0x0A]
        | None \<Rightarrow> OSF5_IDENTIFIER @ '' '' @ show_nat metablock_len @ [CHR 0x0A])"

section \<open>Properties of the parser\<close>

text \<open>The token loop keeps level, CRC and \<open>saw_crc\<close> in step, and is empty for OSF4.\<close>

definition token_inv :: "osf_version \<Rightarrow> token_state \<Rightarrow> bool" where
  "token_inv version st \<longleftrightarrow>
     (ts_integrity st = IpNone \<longleftrightarrow> ts_metablock_crc st = None)
     \<and> (ts_saw_crc st \<longleftrightarrow> ts_metablock_crc st \<noteq> None)
     \<and> (version = Osf4 \<longrightarrow> ts_metablock_crc st = None)"

lemma token_inv_init [wf_intros]: "token_inv version token_init"
  by (simp add: token_inv_def token_init_def)

lemma token_step_inv [wf_intros]:
  assumes "token_inv version st" and "token_step version token st = Inr st'"
  shows "token_inv version st'"
  using assms
  by (cases version)
     (auto simp: token_step_def token_inv_def and_then_eq_Inr_iff
           split: if_splits option.splits prod.splits)

lemma parse_tokens_inv [wf_intros]:
  "token_inv version st \<Longrightarrow> parse_tokens version toks st = Inr st' \<Longrightarrow> token_inv version st'"
  by (induction toks arbitrary: st) (auto simp: and_then_eq_Inr_iff intro: token_step_inv)

lemma parse_magic_header_line_inv:
  assumes "parse_magic_header_line line = Inr h"
  shows "(mh_integrity h = IpNone \<longleftrightarrow> mh_metablock_crc h = None)
         \<and> (mh_version h = Osf4 \<longrightarrow> mh_integrity h = IpNone)
         \<and> mh_metablock_len h < 2 ^ 64"
proof -
  obtain version len toks st where
    "parse_unsigned (2 ^ 64) len = Some (mh_metablock_len h)"
    and st: "parse_tokens version toks token_init = Inr st"
    and h: "mh_version h = version" "mh_integrity h = ts_integrity st"
           "mh_metablock_crc h = ts_metablock_crc st"
    using assms
    by (auto simp: parse_magic_header_line_def and_then_eq_Inr_iff Let_def
             split: option.splits prod.splits if_splits)
  moreover have "token_inv version st" using token_inv_init st by (rule parse_tokens_inv)
  ultimately show ?thesis
    by (auto simp: token_inv_def parse_unsigned_def Let_def split: if_splits)
qed

text \<open>
  The \<open>crc32c\<close> tokens of a line, by their spelling, and the checksum an accepted line declares: the value of
  the last of them, wherever it stands and whatever the other tokens are.
\<close>

definition crc_tokens :: "string \<Rightarrow> string list" where
  "crc_tokens line = filter (\<lambda>t. take 7 t = ''crc32c:'') (drop 2 (split_on (CHR '' '') line))"

definition declared_crc :: "string \<Rightarrow> nat option" where
  "declared_crc line = (if crc_tokens line = [] then None else parse_hex (2 ^ 32) (drop 7 (last (crc_tokens line))))"

lemma split_once_key:
  assumes "split_once c token = Some (key, val)"
  shows "token = key @ c # val \<and> c \<notin> set key"
proof -
  obtain d where d: "dropWhile (\<lambda>x. x \<noteq> c) token = d # val" and key: "key = takeWhile (\<lambda>x. x \<noteq> c) token"
    using assms by (auto simp: split_once_def split: list.splits)
  have "d = c" using hd_dropWhile [of "\<lambda>x. x \<noteq> c" token] d by simp
  moreover have "token = key @ d # val" using takeWhile_dropWhile_id [of "\<lambda>x. x \<noteq> c" token] unfolding d key by simp
  moreover have "c \<notin> set key" unfolding key by (auto dest: set_takeWhileD)
  ultimately show ?thesis by blast
qed

lemma crc_token_key:
  assumes "split_once (CHR '':'') token = Some (key, val)"
  shows "take 7 token = ''crc32c:'' \<longleftrightarrow> key = ''crc32c''"
proof
  note t = split_once_key [OF assms]
  assume crc: "take 7 token = ''crc32c:''"
  have "token = ''crc32c'' @ CHR '':'' # drop 7 token"
    using append_take_drop_id [of 7 token, unfolded crc, symmetric] by (simp only: append_Cons append_Nil)
  then have "split_once (CHR '':'') token = Some (''crc32c'', drop 7 token)"
    using split_once_append [of "CHR '':''" "''crc32c''" "drop 7 token"] by simp
  then show "key = ''crc32c''" using assms by simp
qed (use split_once_key [OF assms] in simp)

lemma parse_hex_less: "parse_hex bound s = Some n \<Longrightarrow> n < bound"
  by (auto simp: parse_hex_def Let_def split: if_splits option.splits list.splits)

lemma token_step_crc:
  assumes "token_step version token st = Inr st'"
  shows "map_option unat (ts_metablock_crc st') =
    (if take 7 token = ''crc32c:'' then parse_hex (2 ^ 32) (drop 7 token) else map_option unat (ts_metablock_crc st))"
proof -
  obtain key val where kv: "split_once (CHR '':'') token = Some (key, val)"
    using assms by (auto simp: token_step_def split: if_splits option.splits)
  note shape = split_once_key [OF kv] and key = crc_token_key [OF kv]
  show ?thesis
  proof (cases "key = ''crc32c''")
    case True
    then have "drop 7 token = val" using shape by simp
    moreover obtain n where "parse_hex (2 ^ 32) val = Some n" "ts_metablock_crc st' = Some (of_nat n)"
      using assms True kv
      by (auto simp: token_step_def parse_crc32c_token_def and_then_eq_Inr_iff map_ok_eq_Inr_iff split: if_splits option.splits)
    moreover have "n < 2 ^ 32" using calculation(2) by (rule parse_hex_less)
    ultimately show ?thesis using True key by (simp add: unat_of_nat take_bit_nat_eq_self)
  next
    case False
    then have "ts_metablock_crc st' = ts_metablock_crc st"
      using assms kv by (auto simp: token_step_def and_then_eq_Inr_iff split: if_splits)
    then show ?thesis using False key by simp
  qed
qed

lemma parse_tokens_crc:
  assumes "parse_tokens version toks st = Inr st'"
  shows "map_option unat (ts_metablock_crc st') =
    (let crcs = filter (\<lambda>t. take 7 t = ''crc32c:'') toks
     in if crcs = [] then map_option unat (ts_metablock_crc st) else parse_hex (2 ^ 32) (drop 7 (last crcs)))"
  using assms
proof (induction toks arbitrary: st)
  case (Cons token toks)
  then obtain st1 where "token_step version token st = Inr st1" "parse_tokens version toks st1 = Inr st'"
    by (auto simp: and_then_eq_Inr_iff)
  then show ?case using Cons.IH [of st1] token_step_crc [of version token st st1] by (simp add: Let_def)
qed simp

lemma declared_crc_kept:
  assumes "parse_magic_header_line line = Inr h"
  shows "map_option unat (mh_metablock_crc h) = declared_crc line"
proof -
  obtain ident rest where line: "split_once (CHR '' '') line = Some (ident, rest)"
    using assms by (auto simp: parse_magic_header_line_def split: option.splits)
  then obtain version st where "parse_tokens version (tl (split_on (CHR '' '') rest)) token_init = Inr st"
      "mh_metablock_crc h = ts_metablock_crc st"
    using assms by (auto simp: parse_magic_header_line_def and_then_eq_Inr_iff Let_def split: if_splits)
  moreover have "drop 2 (split_on (CHR '' '') line) = tl (split_on (CHR '' '') rest)"
    using split_once_key [OF line] by (simp add: split_on_append numeral_2_eq_2 drop_Suc)
  ultimately show ?thesis
    using parse_tokens_crc by (simp add: declared_crc_def crc_tokens_def token_init_def Let_def)
qed

lemma declared_crc_found:
  assumes "parse_magic_header_line line = Inr h" and "crc_tokens line \<noteq> []"
  obtains crc where "mh_metablock_crc h = Some crc"
proof -
  have set: "take 7 t = ''crc32c:'' \<Longrightarrow> token_step version t st = Inr st' \<Longrightarrow> ts_metablock_crc st' \<noteq> None" for version t st st'
  proof -
    assume t: "take 7 t = ''crc32c:''" "token_step version t st = Inr st'"
    obtain key val where kv: "split_once (CHR '':'') t = Some (key, val)"
      using t(2) by (auto simp: token_step_def split: if_splits option.splits)
    then have "key = ''crc32c''" using crc_token_key [OF kv] t(1) by simp
    then show "ts_metablock_crc st' \<noteq> None"
      using t(2) kv by (auto simp: token_step_def and_then_eq_Inr_iff split: if_splits)
  qed
  have keep: "token_step version t st = Inr st' \<Longrightarrow> ts_metablock_crc st \<noteq> None \<Longrightarrow> ts_metablock_crc st' \<noteq> None" for version t st st'
    by (auto simp: token_step_def and_then_eq_Inr_iff split: if_splits option.splits)
  have all: "parse_tokens version toks st = Inr st' \<Longrightarrow>
      ts_metablock_crc st \<noteq> None \<or> (\<exists>t \<in> set toks. take 7 t = ''crc32c:'') \<Longrightarrow> ts_metablock_crc st' \<noteq> None" for version toks st st'
  proof (induction toks arbitrary: st)
    case (Cons token toks)
    then show ?case using set keep by (auto simp: and_then_eq_Inr_iff)
  qed simp
  obtain t where "t \<in> set (drop 2 (split_on (CHR '' '') line))" "take 7 t = ''crc32c:''"
    using assms(2) by (auto simp: crc_tokens_def filter_empty_conv)
  moreover obtain ident rest where line: "split_once (CHR '' '') line = Some (ident, rest)"
    using assms(1) by (auto simp: parse_magic_header_line_def split: option.splits)
  moreover have "drop 2 (split_on (CHR '' '') line) = tl (split_on (CHR '' '') rest)"
    using split_once_key [OF line] by (simp add: split_on_append numeral_2_eq_2 drop_Suc)
  moreover obtain version st where "parse_tokens version (tl (split_on (CHR '' '') rest)) token_init = Inr st"
      "mh_metablock_crc h = ts_metablock_crc st"
    using assms(1) line by (auto simp: parse_magic_header_line_def and_then_eq_Inr_iff Let_def split: if_splits)
  ultimately have "mh_metablock_crc h \<noteq> None" using all by metis
  then show ?thesis using that by blast
qed

section \<open>How much input the line takes\<close>

lemma first_line_loop_no_newline:
  assumes "10 \<notin> set line" and "length buf + length line \<le> 128"
  shows "first_line_loop flt buf (line @ 10 # rest) = (Inr (buf @ line), rest)"
  using assms by (induction line arbitrary: buf) (auto simp: MAX_MAGIC_HEADER_LEN_def)

lemma first_line_loop_consumed:
  assumes "first_line_loop flt buf bs = (r, rest)" and "length buf \<le> 128"
  shows "\<exists>consumed. bs = consumed @ rest \<and> length buf + length consumed \<le> 129"
  using assms
proof (induction flt buf bs rule: first_line_loop.induct)
  case (1 flt buf)
  then show ?case by simp
next
  case (2 flt buf b bs)
  show ?case
  proof (cases "b = 10 \<or> length (buf @ [b]) > 128")
    case True
    with 2 have "rest = bs" by (auto simp: MAX_MAGIC_HEADER_LEN_def split: if_splits)
    with 2 show ?thesis by (intro exI [of _ "[b]"]) simp
  next
    case False
    with 2 obtain c where "bs = c @ rest" "length (buf @ [b]) + length c \<le> 129"
      by (auto simp: MAX_MAGIC_HEADER_LEN_def)
    then show ?thesis by (intro exI [of _ "b # c"]) simp
  qed
qed

lemma first_line_loop_too_long:
  assumes "10 \<notin> set line" and "length buf \<le> 128" and "length buf + length line > 128"
  shows "\<exists>rest'. first_line_loop flt buf (line @ rest) = (Inl (MagicHeaderTooLong 128), rest')"
  using assms by (induction line arbitrary: buf) (auto simp: MAX_MAGIC_HEADER_LEN_def)

section \<open>Round trip\<close>

lemma show_nat_no_char: "\<not> is_ascii_digit c \<Longrightarrow> c \<notin> set (show_nat n)"
  using show_nat_digits by blast

lemma show_hex_no_char: "\<not> is_upper_hex c \<Longrightarrow> c \<notin> set (show_hex_upper k n)"
  using show_hex_upper_chars by blast

lemma not_digit_chars [simp]:
  "\<not> is_ascii_digit (CHR '' '')" "\<not> is_ascii_digit (CHR '':'')" "\<not> is_ascii_digit (CHR 0x0A)"
  "\<not> is_upper_hex (CHR '' '')" "\<not> is_upper_hex (CHR '':'')" "\<not> is_upper_hex (CHR 0x0A)"
  by (simp_all add: is_ascii_digit_def is_upper_hex_def)

lemma length_show_nat: "0 < k \<Longrightarrow> n < 10 ^ k \<Longrightarrow> length (show_nat n) \<le> k"
proof (induction n arbitrary: k rule: show_nat.induct)
  case (1 n)
  show ?case
  proof (cases "n < 10")
    case True
    with 1 show ?thesis by (subst show_nat.simps) simp
  next
    case False
    obtain j where k: "k = Suc j" using "1.prems" by (cases k) auto
    with "1.prems" False have "0 < j" by (cases j) auto
    moreover have "n div 10 < 10 ^ j" using "1.prems" k by simp
    ultimately have "length (show_nat (n div 10)) \<le> j" using "1.IH" False by blast
    then show ?thesis using False k by (subst show_nat.simps) simp
  qed
qed

text \<open>The line without its newline, as the writer formats it.\<close>

definition header_line :: "nat \<Rightarrow> u32 option \<Rightarrow> string" where
  "header_line len crc =
     ''OSF5 '' @ show_nat len
     @ (case crc of None \<Rightarrow> [] | Some c \<Rightarrow> '' crc32c:'' @ show_hex_upper 8 (unat c))"

lemma write_magic_header_line:
  "write_magic_header len crc = bytes_of_string (header_line len crc) @ [10]"
  by (cases crc)
     (simp_all add: write_magic_header_def header_line_def OSF5_IDENTIFIER_def bytes_of_string_def)

lemma parse_crc32c_token_show [codec]: "parse_crc32c_token (show_hex_upper 8 (unat c)) = Inr c"
proof -
  have "unat c < 4294967296" using unsigned_less [of c] by simp
  then have "parse_hex 4294967296 (show_hex_upper 8 (unat c)) = Some (unat c)"
    using parse_hex_show_hex [of "unat c" 7 4294967296] by simp
  then show ?thesis using show_hex_upper_chars by (simp add: parse_crc32c_token_def)
qed

lemma parse_header_line [codec]:
  assumes "len < 2 ^ 64"
  shows "parse_magic_header_line (header_line len crc) =
     Inr \<lparr>mh_version = Osf5, mh_metablock_len = len,
          mh_integrity = (if crc = None then IpNone else IpCrc32c), mh_metablock_crc = crc\<rparr>"
proof -
  have one: "split_once (CHR '' '') (header_line len crc) =
      Some (''OSF5'', show_nat len
        @ (case crc of None \<Rightarrow> [] | Some c \<Rightarrow> '' crc32c:'' @ show_hex_upper 8 (unat c)))"
    using split_once_append [of "CHR '' ''" "''OSF5''"] by (simp add: header_line_def)
  have len: "parse_unsigned (2 ^ 64) (show_nat len) = Some len"
    using assms by (rule parse_unsigned_show_nat)
  show ?thesis
  proof (cases crc)
    case None
    then show ?thesis using one len
      by (simp add: parse_magic_header_line_def identifier_to_version_def token_init_def
                    split_on_none show_nat_no_char)
  next
    case (Some c)
    have "split_on (CHR '' '') (show_nat len @ '' crc32c:'' @ show_hex_upper 8 (unat c)) =
        [show_nat len, ''crc32c:'' @ show_hex_upper 8 (unat c)]"
      using split_on_append [of "CHR '' ''" "show_nat len"]
      by (simp add: show_nat_no_char split_on_none show_hex_no_char)
    moreover have "split_once (CHR '':'') (''crc32c:'' @ show_hex_upper 8 (unat c)) =
        Some (''crc32c'', show_hex_upper 8 (unat c))"
      using split_once_append [of "CHR '':''" "''crc32c''"] by simp
    ultimately show ?thesis using one len Some
      by (simp add: parse_magic_header_line_def identifier_to_version_def token_init_def
                    token_step_def is_key_char_def is_ascii_digit_def codec)
  qed
qed

text \<open>Lines of printable ASCII characters are read as they are.\<close>

definition printable :: "char \<Rightarrow> bool" where
  "printable c \<longleftrightarrow> (32::nat) \<le> of_char c \<and> (of_char c :: nat) < 128"

lemma printable_digits: "\<forall>c \<in> set (show_nat n). printable c"
  using show_nat_digits [of n] by (fastforce simp: printable_def is_ascii_digit_def)

lemma printable_hex: "\<forall>c \<in> set (show_hex_upper k n). printable c"
  using show_hex_upper_chars [of k n] by (fastforce simp: printable_def is_ascii_digit_def is_upper_hex_def)

lemma printable_header_line: "\<forall>c \<in> set (header_line len crc). printable c"
proof -
  have "\<forall>c \<in> set (''OSF5 '' @ '' crc32c:''). printable c" by (simp add: printable_def)
  then show ?thesis using printable_digits printable_hex
    unfolding header_line_def by (cases crc) (simp_all only: option.case set_append ball_Un, simp_all)
qed

lemma line_read:
  assumes line: "\<forall>c \<in> set line. printable c" and short: "length line \<le> 128"
    and pend: "pending s = bytes_of_string line @ 10 # rest"
  shows "read_first_line s = (Inr line, s\<lparr>pending := rest\<rparr>)"
proof -
  let ?b = "bytes_of_string line"
  have bytes: "of_nat k \<notin> set ?b" if "k < 32" for k
  proof
    assume "of_nat k \<in> set ?b"
    then obtain c where c: "c \<in> set line" and "of_char c = (of_nat k :: byte)"
      by (auto simp: bytes_of_string_def)
    then have "unat (of_char c :: byte) = unat (of_nat k :: byte)" by simp
    then have "(of_char c :: nat) = k" using that by (simp add: unat_of_nat)
    with c that line show False by (auto simp: printable_def)
  qed
  have "10 \<notin> set ?b" using bytes [of 10] by simp
  then have "first_line_loop (faulty s) [] (pending s) = (Inr ?b, rest)"
    using pend short first_line_loop_no_newline [of ?b "[]"] by simp
  moreover have "trim_cr ?b = ?b"
  proof -
    have "13 \<notin> set ?b" using bytes [of 13] by simp
    then have "\<not> (?b \<noteq> [] \<and> last ?b = 13)" by (metis last_in_set)
    then show ?thesis by (simp only: trim_cr_def if_False)
  qed
  moreover have "from_utf8 ?b = Some line"
  proof -
    have "\<forall>c \<in> set line. ascii_char c"
      using line by (auto simp: printable_def ascii_char_def word_le_nat_alt)
    then show ?thesis by (intro from_utf8_bytes_of_string rust_string_ascii)
  qed
  ultimately show ?thesis by (simp add: read_first_line_def)
qed

lemma length_header_line: "len < 2 ^ 64 \<Longrightarrow> length (header_line len crc) \<le> 128"
proof -
  assume "len < 2 ^ 64"
  then have "length (show_nat len) \<le> 20" by (intro length_show_nat) simp_all
  then show ?thesis by (cases crc) (simp_all add: header_line_def)
qed

lemma read_first_line_write [codec]:
  assumes "len < 2 ^ 64" and "pending s = write_magic_header len crc @ rest"
  shows "read_first_line s = (Inr (header_line len crc), s\<lparr>pending := rest\<rparr>)"
  using assms by (intro line_read printable_header_line length_header_line) (simp_all add: write_magic_header_line)

lemma parse_magic_header_write [codec]:
  assumes "len < 2 ^ 64" and "pending s = write_magic_header len crc @ rest"
  shows "parse_magic_header s =
     (Inr \<lparr>mh_version = Osf5, mh_metablock_len = len,
           mh_integrity = (if crc = None then IpNone else IpCrc32c), mh_metablock_crc = crc\<rparr>,
      s\<lparr>pending := rest\<rparr>)"
  using assms by (simp add: parse_magic_header_def codec)

text \<open>The line of an OSF4 file.\<close>

lemma parse_osf4_header:
  assumes len: "len < 2 ^ 64" and pend: "pending s = bytes_of_string (''OSF4 '' @ show_nat len) @ 10 # rest"
  shows "parse_magic_header s =
     (Inr \<lparr>mh_version = Osf4, mh_metablock_len = len, mh_integrity = IpNone, mh_metablock_crc = None\<rparr>,
      s\<lparr>pending := rest\<rparr>)"
proof -
  have "\<forall>c \<in> set (''OSF4 '' @ show_nat len). printable c"
    using printable_digits by (simp add: printable_def)
  moreover have "length (''OSF4 '' @ show_nat len) \<le> 128" using length_show_nat [of 20 len] len by simp
  ultimately have line: "read_first_line s = (Inr (''OSF4 '' @ show_nat len), s\<lparr>pending := rest\<rparr>)"
    using pend by (rule line_read)
  have "split_once (CHR '' '') (''OSF4 '' @ show_nat len) = Some (''OSF4'', show_nat len)"
    using split_once_append [of "CHR '' ''" "''OSF4''"] by simp
  then have "parse_magic_header_line (''OSF4 '' @ show_nat len) = Inr
      \<lparr>mh_version = Osf4, mh_metablock_len = len, mh_integrity = IpNone, mh_metablock_crc = None\<rparr>"
    using parse_unsigned_show_nat [OF len]
    by (simp add: parse_magic_header_line_def identifier_to_version_def token_init_def split_on_none show_nat_no_char)
  then show ?thesis by (simp only: parse_magic_header_def line) simp
qed

section \<open>Claims\<close>

text \<open>
  C35. Every magic-header line the writer emits is read back by \<open>parse_magic_header\<close> as OSF5
  with the same metablock length, level \<open>crc\<close> exactly when a metablock CRC was written, and
  that CRC; the stream is left at the first byte of the metablock.
\<close>

theorem magic_header_roundtrip:
  assumes "len < 2 ^ 64"
  shows "parse_magic_header (source (write_magic_header len crc @ body)) =
     (Inr \<lparr>mh_version = Osf5, mh_metablock_len = len,
           mh_integrity = (if crc = None then IpNone else IpCrc32c), mh_metablock_crc = crc\<rparr>,
      source body)"
  using parse_magic_header_write [OF assms, of "source (write_magic_header len crc @ body)"]
  by (simp add: source_def)

theorem magic_header_roundtrip_witness:
  "(1234::nat) < 2 ^ 64 \<and>
   parse_magic_header (source (write_magic_header 1234 (Some 0xE3069283) @ [123, 125])) =
     (Inr \<lparr>mh_version = Osf5, mh_metablock_len = 1234, mh_integrity = IpCrc32c,
           mh_metablock_crc = Some 0xE3069283\<rparr>, source [123, 125])"
  using magic_header_roundtrip [of 1234 "Some 0xE3069283" "[123, 125]"] by simp

text \<open>
  Whatever the input, an accepted magic header has an integrity level other than \<open>none\<close>
  exactly when it carries a metablock CRC, and only OSF5 identifiers can carry one: a file
  that starts with one of the OSF4 identifiers is never taken for an integrity-protected one.
\<close>

theorem magic_header_levels:
  assumes "parse_magic_header s = (Inr h, s')"
  shows "(mh_integrity h = IpNone \<longleftrightarrow> mh_metablock_crc h = None)
         \<and> (mh_version h = Osf4 \<longrightarrow> mh_integrity h = IpNone)
         \<and> mh_metablock_len h < 2 ^ 64"
  using assms
  by (auto simp: parse_magic_header_def and_then_eq_Inr_iff Let_def
           dest: parse_magic_header_line_inv split: prod.splits)

theorem magic_header_levels_witness:
  "\<exists>h s'. parse_magic_header (source (bytes_of_string ''OSF4 7'' @ [10])) = (Inr h, s')
     \<and> mh_version h = Osf4 \<and> mh_integrity h = IpNone"
proof -
  have h: "parse_magic_header (source (bytes_of_string ''OSF4 7'' @ [10])) =
    (Inr \<lparr>mh_version = Osf4, mh_metablock_len = 7, mh_integrity = IpNone,
          mh_metablock_crc = None\<rparr>, source [])"
    by (simp add: parse_magic_header_def read_first_line_def bytes_of_string_def
          MAX_MAGIC_HEADER_LEN_def trim_cr_def from_utf8_def string_of_bytes_def
          parse_magic_header_line_def split_once_def identifier_to_version_def
          parse_unsigned_def is_ascii_digit_def digits_value_def digit_value_def
          token_init_def source_def char_of_def bit_Suc_0_iff)
  then show ?thesis using magic_header_levels [OF h] by auto
qed

text \<open>
  The header parser never runs away on a file that is not OSF: whatever the input and
  whatever the outcome, it takes at most 129 bytes, a prefix of the stream, and a first line
  of more than 128 bytes is the error \<open>MagicHeaderTooLong\<close>.
\<close>

theorem magic_header_bounded:
  assumes "parse_magic_header s = (r, s')"
  shows "(\<exists>consumed. pending s = consumed @ pending s' \<and> length consumed \<le> 129)
         \<and> (128 < length line \<and> 10 \<notin> set line \<and> (\<exists>more. pending s = line @ more)
            \<longrightarrow> r = Inl (MagicHeaderTooLong 128))"
proof -
  obtain l rest where l: "first_line_loop (faulty s) [] (pending s) = (l, rest)"
    by (cases "first_line_loop (faulty s) [] (pending s)")
  with assms have s': "pending s' = rest"
    and r: "r = and_then (and_then l (\<lambda>buf.
              ok_or (InvalidMagicHeader ''magic header is not valid UTF-8'')
                (from_utf8 (trim_cr buf)))) parse_magic_header_line"
    by (auto simp: parse_magic_header_def read_first_line_def)
  have "r = Inl (MagicHeaderTooLong 128)"
    if line: "128 < length line" "10 \<notin> set line" and more: "pending s = line @ more" for more
  proof -
    obtain rest' where "first_line_loop (faulty s) [] (line @ more) = (Inl (MagicHeaderTooLong 128), rest')"
      using first_line_loop_too_long [of line "[]" "faulty s" more] line by auto
    with l more have "l = Inl (MagicHeaderTooLong 128)" by simp
    with r show ?thesis by simp
  qed
  then show ?thesis using first_line_loop_consumed [OF l] s' by auto
qed

theorem magic_header_bounded_witness:
  "\<exists>s'. parse_magic_header (source (replicate 200 65)) = (Inl (MagicHeaderTooLong 128), s')
     \<and> (\<exists>consumed. replicate 200 65 = consumed @ pending s' \<and> length consumed \<le> 129)"
proof -
  obtain r s' where p: "parse_magic_header (source (replicate 200 65)) = (r, s')"
    by (cases "parse_magic_header (source (replicate 200 65))")
  show ?thesis using magic_header_bounded [OF p, of "replicate 200 65"] p by auto
qed

text \<open>
  The token loop has no memory of the strongest level seen: a \<open>crc32c\<close> token after an
  \<open>ed25519\<close> token is accepted and lowers the declared level from signed to crc, although the
  grammar admits the tokens only once and in the order crc32c, ed25519.
\<close>

theorem crc_token_after_signature_downgrades:
  assumes "parse_tokens Osf5 toks token_init = Inr st" and "ts_integrity st = IpEd25519"
  shows "parse_tokens Osf5 (toks @ [''crc32c:'' @ show_hex_upper 8 (unat crc)]) token_init =
         Inr \<lparr>ts_integrity = IpCrc32c, ts_metablock_crc = Some crc, ts_saw_crc = True\<rparr>
       \<and> IpCrc32c < ts_integrity st"
proof -
  have append: "parse_tokens v (xs @ ys) s = and_then (parse_tokens v xs s) (parse_tokens v ys)"
    for v xs ys s
  proof (induction xs arbitrary: s)
    case (Cons x xs)
    then show ?case by (cases "token_step v x s") simp_all
  qed simp
  have "split_once (CHR '':'') (''crc32c:'' @ show_hex_upper 8 (unat crc)) =
      Some (''crc32c'', show_hex_upper 8 (unat crc))"
    using split_once_append [of "CHR '':''" "''crc32c''"] by simp
  then show ?thesis using assms
    by (simp add: append token_step_def is_key_char_def is_ascii_digit_def codec less_integrity_profile_def)
qed

theorem crc_token_after_signature_downgrades_witness:
  "parse_tokens Osf5 [''crc32c:0000ABCD'', ''ed25519:0123456789abcdef''] token_init =
     Inr \<lparr>ts_integrity = IpEd25519, ts_metablock_crc = Some 0xABCD, ts_saw_crc = True\<rparr>
   \<and> parse_tokens Osf5 ([''crc32c:0000ABCD'', ''ed25519:0123456789abcdef'']
       @ [''crc32c:'' @ show_hex_upper 8 (unat (0xABCD :: u32))]) token_init =
     Inr \<lparr>ts_integrity = IpCrc32c, ts_metablock_crc = Some 0xABCD, ts_saw_crc = True\<rparr>
   \<and> IpCrc32c < IpEd25519"
proof -
  have h: "parse_tokens Osf5 [''crc32c:0000ABCD'', ''ed25519:0123456789abcdef''] token_init =
     Inr \<lparr>ts_integrity = IpEd25519, ts_metablock_crc = Some 0xABCD, ts_saw_crc = True\<rparr>"
    by (simp add: token_step_def split_once_def is_key_char_def is_ascii_digit_def
          parse_crc32c_token_def is_upper_hex_def parse_hex_def hex_step_def hex_value_def
          validate_ed25519_keyid_def is_lower_hex_def token_init_def)
  show ?thesis
    using h crc_token_after_signature_downgrades [OF h, where crc = "0xABCD"] by simp
qed

end
