(* ===== verification/Reader.thy ===== *)
theory Reader
  imports Payload Stats Meta Header Float64
begin

text \<open>
  The block-stream reader of \<open>reader.rs\<close>: the state of a \<open>BlockReader\<close>, its builders and
  \<open>next\<close>, split where the code has its numbered steps. The CRC32C function of the \<open>crc\<close>
  crate is the parameter \<open>crc32c\<close> of the definitions that use it. \<open>next\<close> returns the item
  it yields (\<open>None\<close> at the end) and the reader after the call.
\<close>

section \<open>State\<close>

definition TRAILER_CHANNEL_INDEX :: u16 where "TRAILER_CHANNEL_INDEX = 0xFFFF"
definition SIGNATURE_CHANNEL_INDEX :: u16 where "SIGNATURE_CHANNEL_INDEX = 0xFFFE"
definition MAGIC_TRAILER_LEN :: nat where "MAGIC_TRAILER_LEN = 40"

record channel_info =
  ci_data_type :: data_type
  ci_size_of_length_value :: u8

record block_reader =
  br_inner :: stream
  br_osf_version :: osf_version
  br_channels :: "u16 \<rightharpoonup> channel_info"
  br_finished :: bool
  br_capture_skipped :: bool
  br_integrity :: integrity_profile
  br_stats :: reader_stats

type_synonym item = "(osf_error + block) option"

text \<open>The loop of \<open>BlockReader::new\<close> over the channels of the metablock.\<close>

fun register_channels ::
  "meta_channel list \<Rightarrow> (u16 \<rightharpoonup> channel_info) \<times> reader_stats \<Rightarrow> (u16 \<rightharpoonup> channel_info) \<times> reader_stats"
where
  "register_channels [] acc = acc"
| "register_channels (chan # chans) (channels, stats) =
     register_channels chans
       (channels(mc_index chan \<mapsto>
          \<lparr>ci_data_type = mc_data_type chan,
           ci_size_of_length_value = mc_size_of_length_value chan\<rparr>),
        stats\<lparr>rs_channels_unsupported :=
                (if is_unsupported (mc_data_type chan)
                 then rs_channels_unsupported stats + 1 else rs_channels_unsupported stats),
              rs_per_channel := AList.update (mc_index chan)
                (channel_stats_default\<lparr>cs_name := mc_name chan\<rparr>) (rs_per_channel stats)\<rparr>)"

definition block_reader_new :: "stream \<Rightarrow> meta_block \<Rightarrow> block_reader" where
  "block_reader_new inner meta =
     (let (channels, stats) =
        register_channels (mb_channels meta)
          (Map.empty, reader_stats_default\<lparr>rs_channels_total := length (mb_channels meta)\<rparr>)
      in \<lparr>br_inner = inner,
          br_osf_version = (if fi_version (mb_file_info meta) = 4 then Osf4 else Osf5),
          br_channels = channels, br_finished = False, br_capture_skipped = False,
          br_integrity = IpNone, br_stats = stats\<rparr>)"

definition with_integrity :: "integrity_profile \<Rightarrow> block_reader \<Rightarrow> block_reader" where
  "with_integrity profile r =
     r\<lparr>br_integrity := profile, br_stats := br_stats r\<lparr>rs_integrity := profile\<rparr>\<rparr>"

definition with_capture_skipped_payload :: "bool \<Rightarrow> block_reader \<Rightarrow> block_reader" where
  "with_capture_skipped_payload enabled r = r\<lparr>br_capture_skipped := enabled\<rparr>"

definition with_file_size :: "nat \<Rightarrow> block_reader \<Rightarrow> block_reader" where
  "with_file_size n r = r\<lparr>br_stats := br_stats r\<lparr>rs_file_size_bytes := Some n\<rparr>\<rparr>"

text \<open>The public view of the counters: totals are computed on demand.\<close>

definition final_stats :: "block_reader \<Rightarrow> reader_stats" where
  "final_stats r =
     (let s = br_stats r in
      s\<lparr>rs_blocks_total :=
          rs_blocks_read s + rs_blocks_skipped_unsupported s + rs_blocks_skipped_deprecated_type s
          + rs_blocks_skipped_status_event s + rs_blocks_skipped_reserved_type s
          + rs_blocks_skipped_zero_length s + rs_blocks_crc_failed s
          + rs_blocks_signature_skipped s,
        rs_channels_with_data :=
          length (filter (\<lambda>(_, c). 0 < cs_blocks_read c + cs_blocks_skipped c) (rs_per_channel s))\<rparr>)"

section \<open>Counters\<close>

definition add_bytes :: "nat \<Rightarrow> block_reader \<Rightarrow> block_reader" where
  "add_bytes n r =
     r\<lparr>br_stats := br_stats r\<lparr>rs_data_section_size_bytes := rs_data_section_size_bytes (br_stats r) + n\<rparr>\<rparr>"

definition finish :: "block_reader \<Rightarrow> block_reader" where
  "finish r = r\<lparr>br_finished := True\<rparr>"

text \<open>\<open>blocks_truncated = blocks_truncated.max(1)\<close>.\<close>

definition note_truncated :: "block_reader \<Rightarrow> block_reader" where
  "note_truncated r =
     r\<lparr>br_stats := br_stats r\<lparr>rs_blocks_truncated := max (rs_blocks_truncated (br_stats r)) 1\<rparr>\<rparr>"

definition update_channel :: "u16 \<Rightarrow> (channel_stats \<Rightarrow> channel_stats) \<Rightarrow> reader_stats \<Rightarrow> reader_stats" where
  "update_channel channel f s =
     s\<lparr>rs_per_channel :=
         AList.update channel (f (entry_or channel_stats_default (rs_per_channel s) channel))
           (rs_per_channel s)\<rparr>"

fun count_skip :: "skip_reason \<Rightarrow> reader_stats \<Rightarrow> reader_stats" where
  "count_skip UnsupportedDataType s =
     s\<lparr>rs_blocks_skipped_unsupported := rs_blocks_skipped_unsupported s + 1\<rparr>"
| "count_skip UnsupportedChannelType s =
     s\<lparr>rs_blocks_skipped_unsupported := rs_blocks_skipped_unsupported s + 1\<rparr>"
| "count_skip (DeprecatedBlockType _) s =
     s\<lparr>rs_blocks_skipped_deprecated_type := rs_blocks_skipped_deprecated_type s + 1\<rparr>"
| "count_skip StatusEventBlock s =
     s\<lparr>rs_blocks_skipped_status_event := rs_blocks_skipped_status_event s + 1\<rparr>"
| "count_skip (ReservedBlockType _) s =
     s\<lparr>rs_blocks_skipped_reserved_type := rs_blocks_skipped_reserved_type s + 1\<rparr>"
| "count_skip CrcFailed s = s\<lparr>rs_blocks_crc_failed := rs_blocks_crc_failed s + 1\<rparr>"
| "count_skip SignatureBlock s =
     s\<lparr>rs_blocks_signature_skipped := rs_blocks_signature_skipped s + 1\<rparr>"
| "count_skip ZeroLengthBlock s =
     s\<lparr>rs_blocks_skipped_zero_length := rs_blocks_skipped_zero_length s + 1\<rparr>"

definition record_skip :: "u16 \<Rightarrow> u32 \<Rightarrow> skip_reason \<Rightarrow> block_reader \<Rightarrow> block_reader" where
  "record_skip channel len reason r =
     r\<lparr>br_stats := update_channel channel
         (\<lambda>e. e\<lparr>cs_blocks_skipped := cs_blocks_skipped e + 1,
                cs_bytes_payload := cs_bytes_payload e + unat len\<rparr>)
         (count_skip reason (br_stats r))\<rparr>"

text \<open>A decoded block: the counters every typed arm of \<open>next\<close> bumps, then its own (\<open>f\<close>).\<close>

definition record_read ::
  "u16 \<Rightarrow> u32 \<Rightarrow> nat \<Rightarrow> (channel_stats \<Rightarrow> channel_stats) \<Rightarrow> block_reader \<Rightarrow> block_reader"
where
  "record_read channel len n f r =
     (let s = update_channel channel
         (\<lambda>e. f (e\<lparr>cs_blocks_read := cs_blocks_read e + 1,
                   cs_bytes_payload := cs_bytes_payload e + unat len,
                   cs_samples_total := cs_samples_total e + n\<rparr>)) (br_stats r)
      in r\<lparr>br_stats := s\<lparr>rs_blocks_read := rs_blocks_read s + 1\<rparr>\<rparr>)"

definition skipped_item :: "u16 \<Rightarrow> skip_reason \<Rightarrow> nat \<Rightarrow> byte list option \<Rightarrow> item" where
  "skipped_item channel reason n payload =
     Some (Inr \<lparr>blk_channel_index = channel, blk_kind = Skipped reason n payload\<rparr>)"

section \<open>Reading from the source\<close>

definition inner_exact :: "nat \<Rightarrow> block_reader \<Rightarrow> byte list io \<times> block_reader" where
  "inner_exact n r = (let (res, s) = read_exact n (br_inner r) in (res, r\<lparr>br_inner := s\<rparr>))"

definition inner_drain :: "nat \<Rightarrow> block_reader \<Rightarrow> unit io \<times> block_reader" where
  "inner_drain n r = (let (res, s) = drain n (br_inner r) in (res, r\<lparr>br_inner := s\<rparr>))"

text \<open>\<open>read_length_field\<close>: \<open>Ok(None)\<close> is \<open>AtEof\<close>; other widths are an error.\<close>

definition read_length_field :: "u8 \<Rightarrow> block_reader \<Rightarrow> (osf_error + u32 option) \<times> block_reader" where
  "read_length_field sizeof r =
     (if sizeof = 2 \<or> sizeof = 4
      then (case inner_exact (unat sizeof) r of
              (Got bs, r') \<Rightarrow> (Inr (Some (from_le bs)), r')
            | (AtEof, r') \<Rightarrow> (Inr None, r')
            | (IoFault, r') \<Rightarrow> (Inl (Io OtherIo), r'))
      else (Inl (InvalidMetablock ''channel sizeoflengthvalue reached the block reader''), r))"

text \<open>The end of a truncated block, and of an I/O failure.\<close>

definition stop_truncated :: "block_reader \<Rightarrow> item \<times> block_reader" where
  "stop_truncated r = (None, finish (note_truncated r))"

definition stop_error :: "osf_error \<Rightarrow> block_reader \<Rightarrow> item \<times> block_reader" where
  "stop_error e r = (Some (Inl e), finish r)"

section \<open>Trailer and signature blocks\<close>

definition consume_magic_trailer :: "block_reader \<Rightarrow> block_reader" where
  "consume_magic_trailer r =
     (case inner_exact MAGIC_TRAILER_LEN r of
        (Got tail, r') \<Rightarrow> add_bytes MAGIC_TRAILER_LEN r'
      | (_, r') \<Rightarrow> r')"

definition trailer_done :: "block_reader \<Rightarrow> block_reader" where
  "trailer_done r = finish (r\<lparr>br_stats := br_stats r\<lparr>rs_trailer_seen := True\<rparr>\<rparr>)"

definition consume_trailer :: "block_reader \<Rightarrow> osf_error option \<times> block_reader" where
  "consume_trailer r0 =
     (let r1 = add_bytes 4 r0 in
      case inner_exact 4 r1 of
        (AtEof, r2) \<Rightarrow> (None, trailer_done (note_truncated r2))
      | (IoFault, r2) \<Rightarrow> (Some (Io OtherIo), r2)
      | (Got bs, r2) \<Rightarrow>
          (let len = unat (from_le bs :: u32) in
           case inner_drain len r2 of
             (IoFault, r3) \<Rightarrow> (Some (Io OtherIo), r3)
           | (AtEof, r3) \<Rightarrow> (None, trailer_done (consume_magic_trailer (note_truncated r3)))
           | (Got _, r3) \<Rightarrow> (None, trailer_done (consume_magic_trailer (add_bytes len r3)))))"

definition next_trailer :: "block_reader \<Rightarrow> item \<times> block_reader" where
  "next_trailer r =
     (case consume_trailer r of
        (Some e, r') \<Rightarrow> stop_error e r'
      | (None, r') \<Rightarrow> (None, r'))"

definition next_signature :: "u16 \<Rightarrow> block_reader \<Rightarrow> item \<times> block_reader" where
  "next_signature channel r =
     (case inner_exact 4 r of
        (AtEof, r1) \<Rightarrow> stop_truncated r1
      | (IoFault, r1) \<Rightarrow> stop_error (Io OtherIo) r1
      | (Got bs, r1) \<Rightarrow>
          (let len = (from_le bs :: u32); r2 = add_bytes 4 r1 in
           if br_capture_skipped r2
           then (case inner_exact (unat len) r2 of
                   (Got buf, r3) \<Rightarrow>
                     (skipped_item channel SignatureBlock (unat len) (Some buf),
                      record_skip channel len SignatureBlock (add_bytes (unat len) r3))
                 | (AtEof, r3) \<Rightarrow> stop_truncated r3
                 | (IoFault, r3) \<Rightarrow> stop_error (Io OtherIo) r3)
           else (case inner_drain (unat len) r2 of
                   (Got _, r3) \<Rightarrow>
                     (skipped_item channel SignatureBlock (unat len) None,
                      record_skip channel len SignatureBlock (add_bytes (unat len) r3))
                 | (AtEof, r3) \<Rightarrow> stop_truncated r3
                 | (IoFault, r3) \<Rightarrow> stop_error (Io OtherIo) r3)))"

section \<open>Unsupported channels\<close>

definition unsupported_reason :: "channel_info \<Rightarrow> skip_reason option" where
  "unsupported_reason info =
     (if is_unsupported (ci_data_type info) then Some UnsupportedDataType else None)"

text \<open>\<open>skip_block\<close>: unlike every other truncation, running out of bytes here is an error.\<close>

definition skip_block :: "u16 \<Rightarrow> u32 \<Rightarrow> skip_reason \<Rightarrow> block_reader \<Rightarrow> item \<times> block_reader" where
  "skip_block channel len reason r =
     (if br_capture_skipped r
      then (case inner_exact (unat len) r of
              (Got buf, r1) \<Rightarrow>
                (skipped_item channel reason (unat len) (Some buf),
                 record_skip channel len reason (add_bytes (unat len) r1))
            | (AtEof, r1) \<Rightarrow> (Some (Inl (Io UnexpectedEof)), finish (note_truncated r1))
            | (IoFault, r1) \<Rightarrow> (Some (Inl (Io OtherIo)), r1))
      else (case inner_drain (unat len) r of
              (Got _, r1) \<Rightarrow>
                (skipped_item channel reason (unat len) None,
                 record_skip channel len reason (add_bytes (unat len) r1))
            | (AtEof, r1) \<Rightarrow> (Some (Inl (Io UnexpectedEof)), finish (note_truncated r1))
            | (IoFault, r1) \<Rightarrow> (Some (Inl (Io OtherIo)), r1)))"

section \<open>The frame CRC\<close>

definition crc32c_of_parts :: "(byte list \<Rightarrow> u32) \<Rightarrow> byte list list \<Rightarrow> u32" where
  "crc32c_of_parts crc32c parts = crc32c (concat parts)"

definition length_field_bytes :: "u8 \<Rightarrow> u32 \<Rightarrow> byte list" where
  "length_field_bytes size_of_length_value len =
     (if size_of_length_value = 2 then take 2 (u32_le len) else take 4 (u32_le len))"

text \<open>
  Step 6b: \<open>Inr\<close> is the payload without its CRC, \<open>Inl\<close> the payload captured for a block that
  is dropped as \<open>CrcFailed\<close>.
\<close>

definition strip_frame_crc ::
  "(byte list \<Rightarrow> u32) \<Rightarrow> u16 \<Rightarrow> u8 \<Rightarrow> u32 \<Rightarrow> bool \<Rightarrow> byte list \<Rightarrow> byte list option + byte list"
where
  "strip_frame_crc crc32c channel width len capture payload =
     (if length payload < 5 then Inl None
      else (let split = length payload - 4;
                stored = (from_le (drop split payload) :: u32);
                computed = crc32c_of_parts crc32c
                  [u16_le channel, length_field_bytes width len, take split payload]
            in if computed \<noteq> stored
               then Inl (if capture then Some (take split payload) else None)
               else Inr (take split payload)))"

section \<open>Dispatch on the control byte\<close>

definition observe_start :: "i64 \<Rightarrow> f64 \<Rightarrow> nat \<Rightarrow> channel_stats \<Rightarrow> channel_stats" where
  "observe_start ts rate n e =
     (let e1 = observe_timestamp ts (e\<lparr>cs_segments := cs_segments e + 1\<rparr>)
      in if 0 < n \<and> f64_gt_zero rate
         then observe_timestamp
                (i64_saturating_add ts
                   (f64_to_i64 (f64_mul (f64_div (f64_of_nat (n - 1)) rate) f64_1e9))) e1
         else e1)"

definition observe_range :: "timestamped_payload \<Rightarrow> channel_stats \<Rightarrow> channel_stats" where
  "observe_range samples e =
     (case abs_timestamp_range samples of
        Some (lo, hi) \<Rightarrow> observe_timestamp hi (observe_timestamp lo e)
      | None \<Rightarrow> e)"

definition block_item :: "u16 \<Rightarrow> block_kind \<Rightarrow> item" where
  "block_item channel kind = Some (Inr \<lparr>blk_channel_index = channel, blk_kind = kind\<rparr>)"

definition dispatch ::
  "u16 \<Rightarrow> channel_info \<Rightarrow> u32 \<Rightarrow> u8 \<Rightarrow> byte list \<Rightarrow> block_reader \<Rightarrow> item \<times> block_reader"
where
  "dispatch channel info len control_byte body r =
     (let control = decode_control_byte control_byte;
          dt = ci_data_type info;
          multi = cb_multi_sample control;
          captured = (if br_capture_skipped r then Some body else None);
          skip = (\<lambda>reason. (skipped_item channel reason (unat len) captured,
                            record_skip channel len reason r))
      in case cb_kind control of
           CkReserved \<Rightarrow> skip (ReservedBlockType (control_byte AND 0x7F))
         | CkTimebaseRealign \<Rightarrow> skip (ReservedBlockType (control_byte AND 0x7F))
         | CkTrustedTimestamp \<Rightarrow> skip (DeprecatedBlockType (control_byte AND 0x7F))
         | CkStatusEvent \<Rightarrow> skip StatusEventBlock
         | CkMessageEvent \<Rightarrow>
             if multi \<or> \<not> message_event_datatype_supported dt
             then skip (ReservedBlockType (control_byte AND 0x7F))
             else (case parse_message_event body dt of
                     Inr samples \<Rightarrow>
                       (block_item channel (AbsTimestampData samples),
                        record_read channel len (tp_len samples) (observe_range samples) r)
                   | Inl e \<Rightarrow> (Some (Inl e), r))
         | CkUnknown raw \<Rightarrow> skip (ReservedBlockType raw)
         | CkStartData \<Rightarrow>
             (case parse_start_data body dt multi of
                Inr (ts, rate, samples) \<Rightarrow>
                  (block_item channel (StartData ts rate samples),
                   record_read channel len (np_len samples) (observe_start ts rate (np_len samples)) r)
              | Inl e \<Rightarrow> (Some (Inl e), r))
         | CkContinuedData \<Rightarrow>
             (case parse_continued_data body dt multi of
                Inr samples \<Rightarrow>
                  (block_item channel (ContinuedData samples),
                   record_read channel len (np_len samples) (\<lambda>e. e) r)
              | Inl e \<Rightarrow> (Some (Inl e), r))
         | CkAbsTimeStampData \<Rightarrow>
             (case parse_abs_timestamp_data body dt multi (br_osf_version r) of
                Inr samples \<Rightarrow>
                  (block_item channel (AbsTimestampData samples),
                   record_read channel len (tp_len samples) (observe_range samples) r)
              | Inl e \<Rightarrow> (Some (Inl e), r))
         | CkContinuedRelStampData \<Rightarrow>
             (case parse_continued_rel_stamp_data body dt multi of
                Inr samples \<Rightarrow>
                  (block_item channel (ContinuedRelStampData samples),
                   record_read channel len (rp_len samples) (\<lambda>e. e) r)
              | Inl e \<Rightarrow> (Some (Inl e), r)))"

definition decode_payload ::
  "u16 \<Rightarrow> channel_info \<Rightarrow> u32 \<Rightarrow> byte list \<Rightarrow> block_reader \<Rightarrow> item \<times> block_reader"
where
  "decode_payload channel info len payload r =
     (case payload of
        [] \<Rightarrow> (Some (Inl (Panic ''length > 0 guaranteed above'')), r)
      | control_byte # body \<Rightarrow> dispatch channel info len control_byte body r)"

section \<open>\<open>next\<close>\<close>

definition next_payload ::
  "(byte list \<Rightarrow> u32) \<Rightarrow> u16 \<Rightarrow> channel_info \<Rightarrow> u32 \<Rightarrow> block_reader \<Rightarrow> item \<times> block_reader"
where
  "next_payload crc32c channel info len r =
     (case inner_exact (unat len) r of
        (AtEof, r1) \<Rightarrow> stop_truncated r1
      | (IoFault, r1) \<Rightarrow> stop_error (Io OtherIo) r1
      | (Got payload, r1) \<Rightarrow>
          (let r2 = add_bytes (unat len) r1 in
           if br_integrity r2 = IpNone then decode_payload channel info len payload r2
           else (case strip_frame_crc crc32c channel (ci_size_of_length_value info) len
                        (br_capture_skipped r2) payload of
                   Inl captured \<Rightarrow>
                     (skipped_item channel CrcFailed (unat len) captured,
                      record_skip channel len CrcFailed r2)
                 | Inr stripped \<Rightarrow> decode_payload channel info len stripped r2)))"

definition next_channel_block ::
  "(byte list \<Rightarrow> u32) \<Rightarrow> u16 \<Rightarrow> block_reader \<Rightarrow> item \<times> block_reader"
where
  "next_channel_block crc32c channel r =
     (case br_channels r channel of
        None \<Rightarrow> stop_error (UnknownChannelIndex channel) r
      | Some info \<Rightarrow>
          (case read_length_field (ci_size_of_length_value info) r of
             (Inl e, r1) \<Rightarrow> stop_error e r1
           | (Inr None, r1) \<Rightarrow> stop_truncated r1
           | (Inr (Some len), r1) \<Rightarrow>
               (let r2 = add_bytes (unat (ci_size_of_length_value info)) r1 in
                if len = 0
                then (skipped_item channel ZeroLengthBlock 0 None,
                      record_skip channel 0 ZeroLengthBlock r2)
                else (case unsupported_reason info of
                        Some reason \<Rightarrow> skip_block channel len reason r2
                      | None \<Rightarrow> next_payload crc32c channel info len r2))))"

definition next_block :: "(byte list \<Rightarrow> u32) \<Rightarrow> block_reader \<Rightarrow> item \<times> block_reader" where
  "next_block crc32c r =
     (if br_finished r then (None, r)
      else (case inner_exact 2 r of
              (AtEof, r1) \<Rightarrow> (None, finish r1)
            | (IoFault, r1) \<Rightarrow> stop_error (Io OtherIo) r1
            | (Got bs, r1) \<Rightarrow>
                (let channel = (from_le bs :: u16); r2 = add_bytes 2 r1 in
                 if channel = TRAILER_CHANNEL_INDEX then next_trailer r2
                 else if br_integrity r2 \<noteq> IpNone \<and> channel = SIGNATURE_CHANNEL_INDEX
                   then next_signature channel r2
                 else next_channel_block crc32c channel r2)))"

end
