(* ===== verification/Encoder.thy ===== *)
theory Encoder
  imports DataChannel Codec Reader
begin

text \<open>
  The block writer of \<open>writer.rs\<close>: framing, chunking of equidistant and timestamped channels,
  the variable-length blocks and the width bump. A function that writes to a sink returns the
  bytes it appends; an error drops them, as no caller looks at a partly written file. The
  CRC32C function is the parameter \<open>crc32c\<close>.
\<close>

section \<open>Data\<close>

record channel_def =
  cd_name :: string
  cd_data_type :: data_type
  cd_channel_type :: channel_type
  cd_size_of_length_value :: u8
  cd_physical_unit :: "string option"
  cd_physical_dimension :: "string option"
  cd_display_name :: "string option"
  cd_mime_type :: "string option"
  cd_spectrum_type :: "spectrum_type option"
  cd_reference :: "string option"
  cd_comment :: "string option"
  cd_time_increment_ns :: "i64 option"

definition channel_def_default :: channel_def where
  "channel_def_default =
     \<lparr>cd_name = [], cd_data_type = DtDouble, cd_channel_type = CtScalar,
      cd_size_of_length_value = 2, cd_physical_unit = None, cd_physical_dimension = None,
      cd_display_name = None, cd_mime_type = None, cd_spectrum_type = None, cd_reference = None,
      cd_comment = None, cd_time_increment_ns = None\<rparr>"

record segment_draft =
  sd_start_timestamp_ns :: i64
  sd_sample_rate_hz :: f64
  sd_values :: numeric_values

datatype channel_data =
    CdEmpty
  | CdEquidistant "segment_draft list"
  | CdTimestamped "i64 list" numeric_values
  | CdVariable "i64 list" "string list option" "byte list list option"

section \<open>Limits\<close>

definition MAX_BLOCK_PAYLOAD_U16 :: nat where "MAX_BLOCK_PAYLOAD_U16 = 65535"
definition MAX_BLOCK_PAYLOAD_U32 :: nat where "MAX_BLOCK_PAYLOAD_U32 = 2147483647 - 1024"

definition CONTROL_CONTINUED_DATA :: u8 where "CONTROL_CONTINUED_DATA = 0x05"
definition CONTROL_START_DATA :: u8 where "CONTROL_START_DATA = 0x06"
definition CONTROL_ABS_TIMESTAMP :: u8 where "CONTROL_ABS_TIMESTAMP = 0x08"
definition MULTI_SAMPLE_FLAG :: u8 where "MULTI_SAMPLE_FLAG = 0x80"

definition crc_reserve :: "bool \<Rightarrow> nat" where
  "crc_reserve frame_crc = (if frame_crc then 4 else 0)"

definition max_block_payload :: "u8 \<Rightarrow> nat" where
  "max_block_payload width =
     (if width = 2 then MAX_BLOCK_PAYLOAD_U16
      else if width = 4 then MAX_BLOCK_PAYLOAD_U32
      else MAX_BLOCK_PAYLOAD_U16)"

definition max_block_payload_reserved :: "u8 \<Rightarrow> bool \<Rightarrow> nat" where
  "max_block_payload_reserved width frame_crc = max_block_payload width - crc_reserve frame_crc"

fun numeric_byte_size :: "data_type \<Rightarrow> osf_error + nat" where
  "numeric_byte_size DtBool = Inr 1"
| "numeric_byte_size DtInt8 = Inr 1"
| "numeric_byte_size DtUInt8 = Inr 1"
| "numeric_byte_size DtInt16 = Inr 2"
| "numeric_byte_size DtUInt16 = Inr 2"
| "numeric_byte_size DtInt32 = Inr 4"
| "numeric_byte_size DtUInt32 = Inr 4"
| "numeric_byte_size DtFloat = Inr 4"
| "numeric_byte_size DtInt64 = Inr 8"
| "numeric_byte_size DtUInt64 = Inr 8"
| "numeric_byte_size DtDouble = Inr 8"
| "numeric_byte_size DtGpsLocation = Inr 24"
| "numeric_byte_size DtString = Inl (InvalidBlock ''string / binary do not have a fixed sample size'')"
| "numeric_byte_size DtBinary = Inl (InvalidBlock ''string / binary do not have a fixed sample size'')"
| "numeric_byte_size DtByteArray = Inl (InvalidBlock ''string / binary do not have a fixed sample size'')"
| "numeric_byte_size (DtUnsupported _) = Inl (InvalidBlock ''Unsupported data type cannot be written'')"

section \<open>Framing\<close>

definition write_block ::
  "(byte list \<Rightarrow> u32) \<Rightarrow> u16 \<Rightarrow> u8 \<Rightarrow> byte list \<Rightarrow> bool \<Rightarrow> osf_error + byte list"
where
  "write_block crc32c channel width payload frame_crc =
     (let on_wire = length payload + crc_reserve frame_crc in
      if 2 ^ 32 \<le> on_wire then Inl (InvalidBlock ''block length overflows u32 length field'')
      else if width = 2 \<and> MAX_BLOCK_PAYLOAD_U16 < on_wire
        then Inl (InvalidBlock ''block length exceeds u16 length field'')
      else (let len = (of_nat on_wire :: u32) in
            and_then (ok_or (Io OtherIo) (write_length_field width len)) (\<lambda>len_bytes.
              Inr (write_u16 channel @ len_bytes @ payload
                   @ (if frame_crc
                      then write_u32 (crc32c_of_parts crc32c
                             [u16_le channel, length_field_bytes width len, payload])
                      else [])))))"

section \<open>Samples\<close>

text \<open>\<open>for &x in &v[start..start + count]\<close>.\<close>

definition write_slice :: "('a \<Rightarrow> byte list) \<Rightarrow> 'a list \<Rightarrow> nat \<Rightarrow> nat \<Rightarrow> osf_error + byte list" where
  "write_slice enc v start count =
     map_ok (\<lambda>xs. concat (map enc xs))
       (ok_or (Panic ''range end index out of range'') (slice_at v start count))"

fun write_numeric_values_slice :: "numeric_values \<Rightarrow> nat \<Rightarrow> nat \<Rightarrow> osf_error + byte list" where
  "write_numeric_values_slice (NvBool v) start count = write_slice write_bool v start count"
| "write_numeric_values_slice (NvInt8 v) start count = write_slice write_i8 v start count"
| "write_numeric_values_slice (NvInt16 v) start count = write_slice write_i16 v start count"
| "write_numeric_values_slice (NvInt32 v) start count = write_slice write_i32 v start count"
| "write_numeric_values_slice (NvInt64 v) start count = write_slice write_i64 v start count"
| "write_numeric_values_slice (NvUInt8 v) start count = write_slice write_u8 v start count"
| "write_numeric_values_slice (NvUInt16 v) start count = write_slice write_u16 v start count"
| "write_numeric_values_slice (NvUInt32 v) start count = write_slice write_u32 v start count"
| "write_numeric_values_slice (NvUInt64 v) start count = write_slice write_u64 v start count"
| "write_numeric_values_slice (NvFloat v) start count = write_slice write_f32 v start count"
| "write_numeric_values_slice (NvDouble v) start count = write_slice write_f64 v start count"
| "write_numeric_values_slice (NvGpsLocation v) start count = write_slice write_gps v start count"

text \<open>\<open>for i in start..start + count\<close> over the timestamps and the values.\<close>

definition write_pairs ::
  "('a \<Rightarrow> byte list) \<Rightarrow> i64 list \<Rightarrow> 'a list \<Rightarrow> nat \<Rightarrow> nat \<Rightarrow> osf_error + byte list"
where
  "write_pairs enc ts v start count =
     map_ok concat (first_error (map (\<lambda>i.
       and_then (index_at ts i) (\<lambda>t. map_ok (\<lambda>x. write_i64 t @ enc x) (index_at v i)))
       [start..<start + count]))"

fun write_timestamped_numeric_run ::
  "i64 list \<Rightarrow> numeric_values \<Rightarrow> nat \<Rightarrow> nat \<Rightarrow> osf_error + byte list"
where
  "write_timestamped_numeric_run ts (NvBool v) start count = write_pairs write_bool ts v start count"
| "write_timestamped_numeric_run ts (NvInt8 v) start count = write_pairs write_i8 ts v start count"
| "write_timestamped_numeric_run ts (NvInt16 v) start count = write_pairs write_i16 ts v start count"
| "write_timestamped_numeric_run ts (NvInt32 v) start count = write_pairs write_i32 ts v start count"
| "write_timestamped_numeric_run ts (NvInt64 v) start count = write_pairs write_i64 ts v start count"
| "write_timestamped_numeric_run ts (NvUInt8 v) start count = write_pairs write_u8 ts v start count"
| "write_timestamped_numeric_run ts (NvUInt16 v) start count = write_pairs write_u16 ts v start count"
| "write_timestamped_numeric_run ts (NvUInt32 v) start count = write_pairs write_u32 ts v start count"
| "write_timestamped_numeric_run ts (NvUInt64 v) start count = write_pairs write_u64 ts v start count"
| "write_timestamped_numeric_run ts (NvFloat v) start count = write_pairs write_f32 ts v start count"
| "write_timestamped_numeric_run ts (NvDouble v) start count = write_pairs write_f64 ts v start count"
| "write_timestamped_numeric_run ts (NvGpsLocation v) start count = write_pairs write_gps ts v start count"

section \<open>Equidistant segments\<close>

definition write_start_data_block ::
  "(byte list \<Rightarrow> u32) \<Rightarrow> u16 \<Rightarrow> u8 \<Rightarrow> i64 \<Rightarrow> f64 \<Rightarrow> numeric_values \<Rightarrow> nat \<Rightarrow> nat \<Rightarrow> bool \<Rightarrow>
   osf_error + byte list"
where
  "write_start_data_block crc32c channel width start_ns rate nv start count frame_crc =
     (let multi = (count \<noteq> 1) in
      and_then (write_numeric_values_slice nv start count) (\<lambda>samples.
        write_block crc32c channel width
          (write_u8 (if multi then CONTROL_START_DATA OR MULTI_SAMPLE_FLAG else CONTROL_START_DATA)
           @ write_i64 start_ns @ write_f64 rate
           @ (if multi then write_u32 (of_nat count) else [])
           @ samples) frame_crc))"

definition write_continued_data_block ::
  "(byte list \<Rightarrow> u32) \<Rightarrow> u16 \<Rightarrow> u8 \<Rightarrow> numeric_values \<Rightarrow> nat \<Rightarrow> nat \<Rightarrow> bool \<Rightarrow>
   osf_error + byte list"
where
  "write_continued_data_block crc32c channel width nv start count frame_crc =
     (let multi = (count \<noteq> 1) in
      and_then (write_numeric_values_slice nv start count) (\<lambda>samples.
        write_block crc32c channel width
          (write_u8 (if multi then CONTROL_CONTINUED_DATA OR MULTI_SAMPLE_FLAG
                     else CONTROL_CONTINUED_DATA)
           @ (if multi then write_u32 (of_nat count) else [])
           @ samples) frame_crc))"

text \<open>The loop over the rest of a segment; \<open>m\<close> is the quotient before \<open>.max(1)\<close>.\<close>

function continued_loop ::
  "(byte list \<Rightarrow> u32) \<Rightarrow> u16 \<Rightarrow> u8 \<Rightarrow> numeric_values \<Rightarrow> nat \<Rightarrow> bool \<Rightarrow> nat \<Rightarrow> nat \<Rightarrow>
   osf_error + byte list"
where
  "continued_loop crc32c channel width nv m frame_crc written len =
     (if written < len
      then (let chunk = min (len - written) (max m 1) in
            and_then (write_continued_data_block crc32c channel width nv written chunk frame_crc) (\<lambda>bs.
              map_ok ((@) bs)
                (continued_loop crc32c channel width nv m frame_crc (written + chunk) len)))
      else Inr [])"
  by pat_completeness auto

termination
  by (relation "measure (\<lambda>(_, _, _, _, _, _, written, len). len - written)") auto

declare continued_loop.simps [simp del]

definition write_equidistant_segment ::
  "(byte list \<Rightarrow> u32) \<Rightarrow> u16 \<Rightarrow> channel_def \<Rightarrow> segment_draft \<Rightarrow> bool \<Rightarrow> osf_error + byte list"
where
  "write_equidistant_segment crc32c channel def seg frame_crc =
     and_then (numeric_byte_size (cd_data_type def)) (\<lambda>sample_size.
       let width = cd_size_of_length_value def;
           len = nv_len (sd_values seg);
           max_payload = max_block_payload_reserved width frame_crc;
           start_overhead = 1 + 8 + 8 + 4;
           max_samples_start = max ((max_payload - start_overhead) div sample_size) 1;
           continued_overhead = 1 + 4;
           first_chunk = min len max_samples_start
       in and_then (write_start_data_block crc32c channel width (sd_start_timestamp_ns seg)
                      (sd_sample_rate_hz seg) (sd_values seg) 0 first_chunk frame_crc) (\<lambda>bs.
            map_ok ((@) bs)
              (continued_loop crc32c channel width (sd_values seg)
                 ((max_payload - continued_overhead) div sample_size) frame_crc first_chunk len)))"

section \<open>Timestamped channels\<close>

function abs_loop ::
  "(byte list \<Rightarrow> u32) \<Rightarrow> u16 \<Rightarrow> u8 \<Rightarrow> i64 list \<Rightarrow> numeric_values \<Rightarrow> nat \<Rightarrow> bool \<Rightarrow> nat \<Rightarrow> nat \<Rightarrow>
   osf_error + byte list"
where
  "abs_loop crc32c channel width ts nv m frame_crc written len =
     (if written < len
      then (let chunk = min (len - written) (max m 1) in
            and_then (write_timestamped_numeric_run ts nv written chunk) (\<lambda>samples.
            and_then (write_block crc32c channel width
                (write_u8 (CONTROL_ABS_TIMESTAMP OR MULTI_SAMPLE_FLAG)
                 @ write_u32 (of_nat chunk) @ samples) frame_crc) (\<lambda>bs.
              map_ok ((@) bs) (abs_loop crc32c channel width ts nv m frame_crc (written + chunk) len))))
      else Inr [])"
  by pat_completeness auto

termination
  by (relation "measure (\<lambda>(_, _, _, _, _, _, _, written, len). len - written)") auto

declare abs_loop.simps [simp del]

definition write_abs_timestamp_numeric ::
  "(byte list \<Rightarrow> u32) \<Rightarrow> u16 \<Rightarrow> channel_def \<Rightarrow> i64 list \<Rightarrow> numeric_values \<Rightarrow> bool \<Rightarrow> osf_error + byte list"
where
  "write_abs_timestamp_numeric crc32c channel def ts nv frame_crc =
     and_then (numeric_byte_size (cd_data_type def)) (\<lambda>sample_size.
       let len = length ts;
           max_payload = max_block_payload_reserved (cd_size_of_length_value def) frame_crc;
           per_sample = 8 + sample_size;
           overhead = 1 + 4
       in if len = 0 then Inr []
          else abs_loop crc32c channel (cd_size_of_length_value def) ts nv
                 ((max_payload - overhead) div per_sample) frame_crc 0 len)"

section \<open>Variable-length channels\<close>

definition variable_payload_size :: "nat \<Rightarrow> nat" where
  "variable_payload_size sample_bytes = 1 + 8 + sample_bytes"

definition write_variable_header :: "i64 \<Rightarrow> byte list" where
  "write_variable_header timestamp_ns = write_u8 CONTROL_ABS_TIMESTAMP @ write_i64 timestamp_ns"

definition check_variable_block_fits :: "u8 \<Rightarrow> nat \<Rightarrow> bool \<Rightarrow> osf_error + unit" where
  "check_variable_block_fits width payload_len frame_crc =
     (if width = 2 \<and> MAX_BLOCK_PAYLOAD_U16 < payload_len + crc_reserve frame_crc
      then Inl (InvalidBlock ''variable sample exceeds u16 block limit'') else Inr ())"

definition write_variable_one_binary ::
  "(byte list \<Rightarrow> u32) \<Rightarrow> u16 \<Rightarrow> channel_def \<Rightarrow> bool \<Rightarrow> i64 \<Rightarrow> byte list \<Rightarrow> osf_error + byte list"
where
  "write_variable_one_binary crc32c channel def frame_crc timestamp_ns bytes =
     and_then (check_variable_block_fits (cd_size_of_length_value def)
                 (variable_payload_size (length bytes)) frame_crc) (\<lambda>_.
       write_block crc32c channel (cd_size_of_length_value def)
         (write_variable_header timestamp_ns @ bytes) frame_crc)"

definition write_variable_one_string ::
  "(byte list \<Rightarrow> u32) \<Rightarrow> u16 \<Rightarrow> channel_def \<Rightarrow> bool \<Rightarrow> i64 \<Rightarrow> string \<Rightarrow> osf_error + byte list"
where
  "write_variable_one_string crc32c channel def frame_crc timestamp_ns s =
     and_then (check_variable_block_fits (cd_size_of_length_value def)
                 (variable_payload_size (length s)) frame_crc) (\<lambda>_.
       write_block crc32c channel (cd_size_of_length_value def)
         (write_variable_header timestamp_ns @ bytes_of_string s) frame_crc)"

definition write_abs_timestamp_variable ::
  "(byte list \<Rightarrow> u32) \<Rightarrow> u16 \<Rightarrow> channel_def \<Rightarrow> i64 list \<Rightarrow> string list option \<Rightarrow> byte list list option \<Rightarrow>
   bool \<Rightarrow> osf_error + byte list"
where
  "write_abs_timestamp_variable crc32c channel def ts strings binaries frame_crc =
     (if ts = [] then Inr []
      else (case strings of
              Some ss \<Rightarrow> map_ok concat (first_error
                 (map (\<lambda>(t, s). write_variable_one_string crc32c channel def frame_crc t s) (zip ts ss)))
            | None \<Rightarrow>
                (case binaries of
                   Some bs \<Rightarrow> map_ok concat (first_error
                     (map (\<lambda>(t, b). write_variable_one_binary crc32c channel def frame_crc t b) (zip ts bs)))
                 | None \<Rightarrow> Inr [])))"

section \<open>The width bump and the data section\<close>

text \<open>\<open>iter().map(len).max().unwrap_or(0)\<close> of an optional vector.\<close>

definition longest :: "'a list list option \<Rightarrow> nat" where
  "longest v = (case v of None \<Rightarrow> 0 | Some xs \<Rightarrow> foldr (\<lambda>x. max (length x)) xs 0)"

definition bump_one :: "bool \<Rightarrow> channel_def \<Rightarrow> channel_data \<Rightarrow> channel_def" where
  "bump_one frame_crc def dat =
     (if cd_size_of_length_value def = 4 then def
      else (let needed = crc_reserve frame_crc
              + (case dat of
                   CdVariable _ strings binaries \<Rightarrow> 9 + max (longest strings) (longest binaries)
                 | _ \<Rightarrow> 0)
            in if MAX_BLOCK_PAYLOAD_U16 < needed then def\<lparr>cd_size_of_length_value := 4\<rparr> else def))"

definition autobump_size_of_length_value ::
  "channel_def list \<Rightarrow> channel_data list \<Rightarrow> bool \<Rightarrow> osf_error + channel_def list"
where
  "autobump_size_of_length_value defs datas frame_crc =
     first_error (map (\<lambda>(i, def). map_ok (bump_one frame_crc def) (index_at datas i))
                    (List.enumerate 0 defs))"

definition write_channel ::
  "(byte list \<Rightarrow> u32) \<Rightarrow> u16 \<Rightarrow> channel_def \<Rightarrow> channel_data \<Rightarrow> bool \<Rightarrow> osf_error + byte list"
where
  "write_channel crc32c channel def dat frame_crc =
     (case dat of
        CdEmpty \<Rightarrow> Inr []
      | CdEquidistant segments \<Rightarrow> map_ok concat (first_error
          (map (\<lambda>seg. write_equidistant_segment crc32c channel def seg frame_crc) segments))
      | CdTimestamped ts nv \<Rightarrow> write_abs_timestamp_numeric crc32c channel def ts nv frame_crc
      | CdVariable ts strings binaries \<Rightarrow>
          write_abs_timestamp_variable crc32c channel def ts strings binaries frame_crc)"

definition write_data_blocks ::
  "(byte list \<Rightarrow> u32) \<Rightarrow> channel_def list \<Rightarrow> channel_data list \<Rightarrow> bool \<Rightarrow> osf_error + byte list"
where
  "write_data_blocks crc32c defs datas frame_crc =
     map_ok concat (first_error
       (map (\<lambda>(index, def).
          if 65536 \<le> index then Inl (Panic ''channel index validated earlier'')
          else and_then (index_at datas index) (\<lambda>dat.
                 write_channel crc32c (of_nat index) def dat frame_crc))
        (List.enumerate 0 defs)))"

end
