(* ===== verification/Writer.thy ===== *)
theory Writer
  imports Encoder
begin

text \<open>
  \<open>WriterBuilder\<close> of \<open>writer.rs\<close>: the channels and samples collected before a file is written,
  and the calls that fill it. A call that takes \<open>&mut self\<close> returns the builder after it; the
  code mutates nothing before its last check, so an error leaves the builder as it was.
\<close>

section \<open>Data\<close>

record file_info_draft =
  fd_creator :: "string option"
  fd_tag :: "string option"
  fd_reason :: "string option"
  fd_created_at_latitude :: "f64 option"
  fd_created_at_longitude :: "f64 option"
  fd_created_at_altitude :: "f64 option"
  fd_namespace_sep :: "string option"
  fd_comment :: "string option"

definition file_info_draft_default :: file_info_draft where
  "file_info_draft_default =
     \<lparr>fd_creator = None, fd_tag = None, fd_reason = None, fd_created_at_latitude = None,
      fd_created_at_longitude = None, fd_created_at_altitude = None, fd_namespace_sep = None,
      fd_comment = None\<rparr>"

record writer_builder =
  wb_file_info :: file_info_draft
  wb_channels :: "channel_def list"
  wb_channel_data :: "channel_data list"
  wb_name_to_index :: "string \<rightharpoonup> u16"
  wb_integrity :: integrity_profile

definition writer_builder_new :: writer_builder where
  "writer_builder_new =
     \<lparr>wb_file_info = file_info_draft_default, wb_channels = [], wb_channel_data = [],
      wb_name_to_index = Map.empty, wb_integrity = IpNone\<rparr>"

section \<open>File metadata\<close>

definition writer_with_integrity :: "integrity_profile \<Rightarrow> writer_builder \<Rightarrow> writer_builder" where
  "writer_with_integrity profile b = b\<lparr>wb_integrity := profile\<rparr>"

definition set_creator :: "string \<Rightarrow> writer_builder \<Rightarrow> writer_builder" where
  "set_creator v b = b\<lparr>wb_file_info := wb_file_info b\<lparr>fd_creator := Some v\<rparr>\<rparr>"

definition set_tag :: "string \<Rightarrow> writer_builder \<Rightarrow> writer_builder" where
  "set_tag v b = b\<lparr>wb_file_info := wb_file_info b\<lparr>fd_tag := Some v\<rparr>\<rparr>"

definition set_reason :: "string \<Rightarrow> writer_builder \<Rightarrow> writer_builder" where
  "set_reason v b = b\<lparr>wb_file_info := wb_file_info b\<lparr>fd_reason := Some v\<rparr>\<rparr>"

definition set_location :: "f64 \<Rightarrow> f64 \<Rightarrow> f64 \<Rightarrow> writer_builder \<Rightarrow> writer_builder" where
  "set_location lat lon alt b =
     b\<lparr>wb_file_info := wb_file_info b
         \<lparr>fd_created_at_latitude := Some lat, fd_created_at_longitude := Some lon,
          fd_created_at_altitude := Some alt\<rparr>\<rparr>"

definition set_namespace_sep :: "string \<Rightarrow> writer_builder \<Rightarrow> writer_builder" where
  "set_namespace_sep v b = b\<lparr>wb_file_info := wb_file_info b\<lparr>fd_namespace_sep := Some v\<rparr>\<rparr>"

definition set_comment :: "string \<Rightarrow> writer_builder \<Rightarrow> writer_builder" where
  "set_comment v b = b\<lparr>wb_file_info := wb_file_info b\<lparr>fd_comment := Some v\<rparr>\<rparr>"

section \<open>Channels\<close>

definition add_channel :: "channel_def \<Rightarrow> writer_builder \<Rightarrow> osf_error + (u16 \<times> writer_builder)" where
  "add_channel def b =
     (if cd_size_of_length_value def \<noteq> 2 \<and> cd_size_of_length_value def \<noteq> 4
      then Inl (InvalidMetablock ''size_of_length_value must be 2 or 4'')
      else if is_unsupported (cd_data_type def)
        then Inl (InvalidMetablock ''data type Unsupported(_) cannot be written'')
      else if cd_data_type def = DtByteArray
        then Inl (InvalidMetablock ''bytearray is a read-side alias'')
      else if is_unsupported_channel_type (cd_channel_type def)
        then Inl (InvalidMetablock ''channel type Unsupported(_) cannot be written'')
      else if 65536 \<le> length (wb_channels b)
        then Inl (InvalidMetablock ''writer reached the channel limit'')
      else (let index = of_nat (length (wb_channels b))
            in Inr (index,
                 b\<lparr>wb_name_to_index := (wb_name_to_index b)(cd_name def \<mapsto> index),
                   wb_channels := wb_channels b @ [def],
                   wb_channel_data := wb_channel_data b @ [CdEmpty]\<rparr>)))"

definition writer_channel_count :: "writer_builder \<Rightarrow> nat" where
  "writer_channel_count b = length (wb_channels b)"

definition writer_channel_index :: "string \<Rightarrow> writer_builder \<Rightarrow> u16 option" where
  "writer_channel_index name b = wb_name_to_index b name"

definition channel_def_at :: "writer_builder \<Rightarrow> u16 \<Rightarrow> osf_error + channel_def" where
  "channel_def_at b index =
     (if unat index < length (wb_channels b) then Inr (wb_channels b ! unat index)
      else Inl (ChannelNotFound ''(index)''))"

text \<open>\<open>*data = ...\<close> with \<open>data = &mut self.channel_data[channel as usize]\<close>.\<close>

definition update_data ::
  "u16 \<Rightarrow> (channel_data \<Rightarrow> osf_error + channel_data) \<Rightarrow> writer_builder \<Rightarrow> osf_error + writer_builder"
where
  "update_data channel f b =
     and_then (index_at (wb_channel_data b) (unat channel)) (\<lambda>dat.
       map_ok (\<lambda>dat'. b\<lparr>wb_channel_data := (wb_channel_data b)[unat channel := dat']\<rparr>) (f dat))"

section \<open>Equidistant samples\<close>

definition add_equidistant_segment_inner ::
  "u16 \<Rightarrow> data_type \<Rightarrow> i64 \<Rightarrow> f64 \<Rightarrow> numeric_values \<Rightarrow> writer_builder \<Rightarrow> osf_error + writer_builder"
where
  "add_equidistant_segment_inner channel want start_ns rate_hz nv b =
     and_then (channel_def_at b channel) (\<lambda>def.
       if cd_data_type def \<noteq> DtFloat \<and> cd_data_type def \<noteq> DtDouble
       then Inl (InvalidBlock ''equidistant blocks support only float and double'')
       else if cd_data_type def \<noteq> want then Inl (DataTypeMismatch channel (cd_data_type def) want)
       else if f64_is_nan rate_hz \<or> f64_le_zero rate_hz
         then Inl (InvalidBlock ''equidistant sample_rate_hz must be > 0'')
       else (let seg = \<lparr>sd_start_timestamp_ns = start_ns, sd_sample_rate_hz = rate_hz, sd_values = nv\<rparr>
             in update_data channel (\<lambda>dat.
                  case dat of
                    CdEmpty \<Rightarrow> Inr (CdEquidistant [seg])
                  | CdEquidistant segments \<Rightarrow> Inr (CdEquidistant (segments @ [seg]))
                  | CdTimestamped _ _ \<Rightarrow> Inl (ChannelMixedBlockTypes channel)
                  | CdVariable _ _ _ \<Rightarrow> Inl (ChannelMixedBlockTypes channel)) b))"

definition add_equidistant_segment_f64 ::
  "u16 \<Rightarrow> i64 \<Rightarrow> f64 \<Rightarrow> f64 list \<Rightarrow> writer_builder \<Rightarrow> osf_error + writer_builder"
where
  "add_equidistant_segment_f64 channel start_ns rate_hz vs b =
     add_equidistant_segment_inner channel DtDouble start_ns rate_hz (NvDouble vs) b"

definition add_equidistant_segment_f32 ::
  "u16 \<Rightarrow> i64 \<Rightarrow> f64 \<Rightarrow> f32 list \<Rightarrow> writer_builder \<Rightarrow> osf_error + writer_builder"
where
  "add_equidistant_segment_f32 channel start_ns rate_hz vs b =
     add_equidistant_segment_inner channel DtFloat start_ns rate_hz (NvFloat vs) b"

section \<open>Timestamped samples\<close>

definition append_timestamped_numeric ::
  "u16 \<Rightarrow> data_type \<Rightarrow> i64 list \<Rightarrow> nat \<Rightarrow> (numeric_values \<Rightarrow> numeric_values) \<Rightarrow> numeric_values \<Rightarrow>
   writer_builder \<Rightarrow> osf_error + writer_builder"
where
  "append_timestamped_numeric channel want timestamps_ns values_len extend_values fresh_storage b =
     and_then (channel_def_at b channel) (\<lambda>def.
       if cd_data_type def \<noteq> want then Inl (DataTypeMismatch channel (cd_data_type def) want)
       else if length timestamps_ns \<noteq> values_len
         then Inl (InvalidBlock ''timestamp len != values len'')
       else update_data channel (\<lambda>dat.
              case dat of
                CdEmpty \<Rightarrow> Inr (CdTimestamped timestamps_ns fresh_storage)
              | CdTimestamped ts v \<Rightarrow> Inr (CdTimestamped (ts @ timestamps_ns) (extend_values v))
              | CdEquidistant _ \<Rightarrow> Inl (ChannelMixedBlockTypes channel)
              | CdVariable _ _ _ \<Rightarrow> Inl (ChannelMixedBlockTypes channel)) b)"

text \<open>The macro \<open>impl_add_timestamped_numeric\<close>; the closure ignores storage of another type.\<close>

definition add_timestamped ::
  "(numeric_values \<Rightarrow> 'a list option) \<Rightarrow> ('a list \<Rightarrow> numeric_values) \<Rightarrow> data_type \<Rightarrow>
   u16 \<Rightarrow> i64 list \<Rightarrow> 'a list \<Rightarrow> writer_builder \<Rightarrow> osf_error + writer_builder"
where
  "add_timestamped sel wrap want channel timestamps_ns vs b =
     append_timestamped_numeric channel want timestamps_ns (length vs)
       (\<lambda>storage. case sel storage of Some target \<Rightarrow> wrap (target @ vs) | None \<Rightarrow> storage)
       (wrap vs) b"

text \<open>The twelve instances of the macro, by the storage variant of the samples.\<close>

fun add_timestamped_samples ::
  "u16 \<Rightarrow> i64 list \<Rightarrow> numeric_values \<Rightarrow> writer_builder \<Rightarrow> osf_error + writer_builder"
where
  "add_timestamped_samples ch ts (NvBool v) b = add_timestamped the_Bool NvBool DtBool ch ts v b"
| "add_timestamped_samples ch ts (NvInt8 v) b = add_timestamped the_Int8 NvInt8 DtInt8 ch ts v b"
| "add_timestamped_samples ch ts (NvInt16 v) b = add_timestamped the_Int16 NvInt16 DtInt16 ch ts v b"
| "add_timestamped_samples ch ts (NvInt32 v) b = add_timestamped the_Int32 NvInt32 DtInt32 ch ts v b"
| "add_timestamped_samples ch ts (NvInt64 v) b = add_timestamped the_Int64 NvInt64 DtInt64 ch ts v b"
| "add_timestamped_samples ch ts (NvUInt8 v) b = add_timestamped the_UInt8 NvUInt8 DtUInt8 ch ts v b"
| "add_timestamped_samples ch ts (NvUInt16 v) b = add_timestamped the_UInt16 NvUInt16 DtUInt16 ch ts v b"
| "add_timestamped_samples ch ts (NvUInt32 v) b = add_timestamped the_UInt32 NvUInt32 DtUInt32 ch ts v b"
| "add_timestamped_samples ch ts (NvUInt64 v) b = add_timestamped the_UInt64 NvUInt64 DtUInt64 ch ts v b"
| "add_timestamped_samples ch ts (NvFloat v) b = add_timestamped the_Float NvFloat DtFloat ch ts v b"
| "add_timestamped_samples ch ts (NvDouble v) b = add_timestamped the_Double NvDouble DtDouble ch ts v b"
| "add_timestamped_samples ch ts (NvGpsLocation v) b =
     add_timestamped the_GpsLocation NvGpsLocation DtGpsLocation ch ts v b"

section \<open>Variable-length samples\<close>

datatype variable_insert = ViStrings "string list" | ViBinaries "byte list list"

definition insert_variable ::
  "u16 \<Rightarrow> data_type \<Rightarrow> data_type \<Rightarrow> i64 list \<Rightarrow> variable_insert \<Rightarrow> channel_data \<Rightarrow> osf_error + channel_data"
where
  "insert_variable channel channel_dt want timestamps_ns ins dat =
     (case dat of
        CdEmpty \<Rightarrow>
          (case ins of
             ViStrings v \<Rightarrow> Inr (CdVariable timestamps_ns (Some v) None)
           | ViBinaries v \<Rightarrow> Inr (CdVariable timestamps_ns None (Some v)))
      | CdVariable ts strings binaries \<Rightarrow>
          (case (ins, strings, binaries) of
             (ViStrings v, Some target, _) \<Rightarrow> Inr (CdVariable (ts @ timestamps_ns) (Some (target @ v)) binaries)
           | (ViBinaries v, _, Some target) \<Rightarrow> Inr (CdVariable (ts @ timestamps_ns) strings (Some (target @ v)))
           | _ \<Rightarrow> Inl (DataTypeMismatch channel channel_dt want))
      | CdEquidistant _ \<Rightarrow> Inl (ChannelMixedBlockTypes channel)
      | CdTimestamped _ _ \<Rightarrow> Inl (ChannelMixedBlockTypes channel))"

definition append_variable ::
  "u16 \<Rightarrow> data_type \<Rightarrow> i64 list \<Rightarrow> nat \<Rightarrow> variable_insert \<Rightarrow> writer_builder \<Rightarrow> osf_error + writer_builder"
where
  "append_variable channel want timestamps_ns values_len ins b =
     and_then (channel_def_at b channel) (\<lambda>def.
       if cd_data_type def \<noteq> want then Inl (DataTypeMismatch channel (cd_data_type def) want)
       else if length timestamps_ns \<noteq> values_len
         then Inl (InvalidBlock ''timestamp len != values len'')
       else update_data channel (insert_variable channel (cd_data_type def) want timestamps_ns ins) b)"

definition add_string_samples ::
  "u16 \<Rightarrow> i64 list \<Rightarrow> string list \<Rightarrow> writer_builder \<Rightarrow> osf_error + writer_builder"
where
  "add_string_samples channel timestamps_ns vs b =
     append_variable channel DtString timestamps_ns (length vs) (ViStrings vs) b"

definition add_binary_samples ::
  "u16 \<Rightarrow> i64 list \<Rightarrow> byte list list \<Rightarrow> writer_builder \<Rightarrow> osf_error + writer_builder"
where
  "add_binary_samples channel timestamps_ns vs b =
     append_variable channel DtBinary timestamps_ns (length vs) (ViBinaries vs) b"

section \<open>Copying a manager's channels\<close>

definition channel_def_from_manager_channel :: "channel \<Rightarrow> channel_def" where
  "channel_def_from_manager_channel chan =
     (let def = channel_def_of chan
      in \<lparr>cd_name = channel_name chan, cd_data_type = channel_data_type chan,
          cd_channel_type = cm_channel_type def,
          cd_size_of_length_value = cm_size_of_length_value def,
          cd_physical_unit = channel_physical_unit chan,
          cd_physical_dimension = cm_physical_dimension def,
          cd_display_name = channel_display_name chan,
          cd_mime_type = (case chan of VariableChannel v \<Rightarrow> vc_mime_type v | _ \<Rightarrow> None),
          cd_spectrum_type = cm_spectrum_type def, cd_reference = cm_reference def,
          cd_comment = cm_comment def, cd_time_increment_ns = cm_time_increment_ns def\<rparr>)"

definition copy_equidistant_segment ::
  "u16 \<Rightarrow> segment \<Rightarrow> numeric_values \<Rightarrow> writer_builder \<Rightarrow> osf_error + writer_builder"
where
  "copy_equidistant_segment channel seg nv b =
     (case nv of
        NvFloat v \<Rightarrow>
          and_then (ok_or (Panic ''range end index out of range'')
                      (slice_at v (start_index seg) (sample_count seg))) (\<lambda>vs.
            add_equidistant_segment_f32 channel (start_timestamp_ns seg) (sample_rate_hz seg) vs b)
      | NvDouble v \<Rightarrow>
          and_then (ok_or (Panic ''range end index out of range'')
                      (slice_at v (start_index seg) (sample_count seg))) (\<lambda>vs.
            add_equidistant_segment_f64 channel (start_timestamp_ns seg) (sample_rate_hz seg) vs b)
      | _ \<Rightarrow> Inl (InvalidBlock ''equidistant data type is not float or double''))"

definition copy_timestamped ::
  "u16 \<Rightarrow> i64 list \<Rightarrow> numeric_values \<Rightarrow> writer_builder \<Rightarrow> osf_error + writer_builder"
where
  "copy_timestamped channel timestamps nv b = add_timestamped_samples channel timestamps nv b"

definition copy_channel_data :: "channel \<Rightarrow> u16 \<Rightarrow> writer_builder \<Rightarrow> osf_error + writer_builder" where
  "copy_channel_data chan target_index b =
     (case chan of
        Equidistant eq \<Rightarrow>
          exec_all (\<lambda>b seg. copy_equidistant_segment target_index seg (ec_samples eq) b) b (ec_segments eq)
      | Timestamped ts \<Rightarrow> copy_timestamped target_index (tc_timestamps_ns ts) (tc_values ts) b
      | VariableChannel var \<Rightarrow>
          (case as_strings var of
             Inr strings \<Rightarrow> add_string_samples target_index (vc_timestamps_ns var) strings b
           | Inl _ \<Rightarrow>
               (case as_binaries var of
                  Inr binaries \<Rightarrow> add_binary_samples target_index (vc_timestamps_ns var) binaries b
                | Inl _ \<Rightarrow> Inr b)))"

text \<open>\<open>from_manager\<close>, over the two fields of the manager it reads.\<close>

definition copy_channel :: "writer_builder \<Rightarrow> channel \<Rightarrow> osf_error + writer_builder" where
  "copy_channel b chan =
     and_then (add_channel (channel_def_from_manager_channel chan) b) (\<lambda>(target_index, b').
       copy_channel_data chan target_index b')"

definition copied_file_info :: "file_info \<Rightarrow> file_info_draft" where
  "copied_file_info info =
     \<lparr>fd_creator = fi_creator info, fd_tag = fi_tag info, fd_reason = fi_reason info,
      fd_created_at_latitude = fi_created_at_latitude info,
      fd_created_at_longitude = fi_created_at_longitude info,
      fd_created_at_altitude = fi_created_at_altitude info,
      fd_namespace_sep = fi_namespace_sep info, fd_comment = fi_comment info\<rparr>"

definition from_manager :: "meta_block \<Rightarrow> channel list \<Rightarrow> osf_error + writer_builder" where
  "from_manager meta channels =
     exec_all copy_channel
       (writer_builder_new\<lparr>wb_file_info := copied_file_info (mb_file_info meta)\<rparr>) channels"

end
