(* ===== verification/BlockStream.thy ===== *)
theory BlockStream
  imports Reader
begin

text \<open>
  The block reader as an iterator: what one call of \<open>next\<close> can do, the loops that drive it
  (\<open>read_file\<close> in \<open>lib.rs\<close>, \<open>build_channels\<close> in \<open>manager.rs\<close>) and the progress every call
  makes, whose invariants hold of every reachable reader state.
\<close>

section \<open>Fields an operation leaves alone\<close>

lemma add_bytes_frame [frame, simp]:
  "br_inner (add_bytes n r) = br_inner r"
  "br_osf_version (add_bytes n r) = br_osf_version r"
  "br_channels (add_bytes n r) = br_channels r"
  "br_finished (add_bytes n r) = br_finished r"
  "br_capture_skipped (add_bytes n r) = br_capture_skipped r"
  "br_integrity (add_bytes n r) = br_integrity r"
  by (simp_all add: add_bytes_def)

lemma finish_frame [frame, simp]:
  "br_inner (finish r) = br_inner r"
  "br_osf_version (finish r) = br_osf_version r"
  "br_channels (finish r) = br_channels r"
  "br_finished (finish r)"
  "br_capture_skipped (finish r) = br_capture_skipped r"
  "br_integrity (finish r) = br_integrity r"
  "br_stats (finish r) = br_stats r"
  by (simp_all add: finish_def)

lemma note_truncated_frame [frame, simp]:
  "br_inner (note_truncated r) = br_inner r"
  "br_osf_version (note_truncated r) = br_osf_version r"
  "br_channels (note_truncated r) = br_channels r"
  "br_finished (note_truncated r) = br_finished r"
  "br_capture_skipped (note_truncated r) = br_capture_skipped r"
  "br_integrity (note_truncated r) = br_integrity r"
  by (simp_all add: note_truncated_def)

lemma record_skip_frame [frame, simp]:
  "br_inner (record_skip c n reason r) = br_inner r"
  "br_osf_version (record_skip c n reason r) = br_osf_version r"
  "br_channels (record_skip c n reason r) = br_channels r"
  "br_finished (record_skip c n reason r) = br_finished r"
  "br_capture_skipped (record_skip c n reason r) = br_capture_skipped r"
  "br_integrity (record_skip c n reason r) = br_integrity r"
  by (simp_all add: record_skip_def)

lemma record_read_frame [frame, simp]:
  "br_inner (record_read c n m f r) = br_inner r"
  "br_osf_version (record_read c n m f r) = br_osf_version r"
  "br_channels (record_read c n m f r) = br_channels r"
  "br_finished (record_read c n m f r) = br_finished r"
  "br_capture_skipped (record_read c n m f r) = br_capture_skipped r"
  "br_integrity (record_read c n m f r) = br_integrity r"
  by (simp_all add: record_read_def Let_def)

section \<open>One call of \<open>next\<close>\<close>

text \<open>The samples a decoded block carries.\<close>

fun kind_samples :: "block_kind \<Rightarrow> nat" where
  "kind_samples (StartData _ _ v) = np_len v"
| "kind_samples (ContinuedData v) = np_len v"
| "kind_samples (AbsTimestampData v) = tp_len v"
| "kind_samples (ContinuedRelStampData v) = rp_len v"
| "kind_samples (Skipped _ _ _) = 0"

fun is_skipped :: "block_kind \<Rightarrow> bool" where
  "is_skipped (Skipped _ _ _) = True"
| "is_skipped _ = False"

text \<open>Updates of a channel's counters that only touch its segments and its time range.\<close>

definition keeps_counts :: "(channel_stats \<Rightarrow> channel_stats) \<Rightarrow> bool" where
  "keeps_counts f \<longleftrightarrow>
     (\<forall>e. cs_blocks_read (f e) = cs_blocks_read e \<and> cs_blocks_skipped (f e) = cs_blocks_skipped e
        \<and> cs_samples_total (f e) = cs_samples_total e \<and> cs_bytes_payload (f e) = cs_bytes_payload e)"

lemma keeps_counts_updates [intro]:
  "keeps_counts (\<lambda>e. e)" "keeps_counts (observe_range samples)" "keeps_counts (observe_start ts rate n)"
  by (auto simp: keeps_counts_def observe_range_def observe_start_def Let_def frame split: option.splits)

text \<open>
  The control byte of a block either makes it a skipped block, or its payload is decoded, or
  the payload is malformed.
\<close>

inductive dispatched :: "u16 \<Rightarrow> u32 \<Rightarrow> block_reader \<Rightarrow> item \<times> block_reader \<Rightarrow> bool"
  for channel len r
where
  skipped: "dispatched channel len r
     (skipped_item channel reason (unat len) payload, record_skip channel len reason r)"
| decoded: "\<not> is_skipped kind \<Longrightarrow> n = kind_samples kind \<Longrightarrow> keeps_counts f \<Longrightarrow>
     dispatched channel len r (block_item channel kind, record_read channel len n f r)"
| malformed: "dispatched channel len r (Some (Inl (InvalidBlock m)), r)"

lemma decoded_arm:
  assumes "only_invalid_block p"
    and "\<And>v. p = Inr v \<Longrightarrow> dispatched channel len r (good v)"
  shows "dispatched channel len r (case p of Inl e \<Rightarrow> (Some (Inl e), r) | Inr v \<Rightarrow> good v)"
  using assms only_invalid_blockD [OF assms(1)] by (cases p) (auto intro: dispatched.malformed)

lemma dispatch_outcome: "dispatched channel len r (dispatch channel info len cb body r)"
proof (cases "cb_kind (decode_control_byte cb)")
  case CkMessageEvent
  then show ?thesis
    by (auto simp: dispatch_def Let_def intro!: dispatched.skipped decoded_arm dispatched.decoded parse_safe)
next
  case CkStartData
  then show ?thesis
    by (auto simp: dispatch_def Let_def intro!: decoded_arm dispatched.decoded parse_safe)
next
  case CkContinuedData
  then show ?thesis
    by (auto simp: dispatch_def Let_def intro!: decoded_arm dispatched.decoded parse_safe)
next
  case CkAbsTimeStampData
  then show ?thesis
    by (auto simp: dispatch_def Let_def intro!: decoded_arm dispatched.decoded parse_safe)
next
  case CkContinuedRelStampData
  then show ?thesis
    by (auto simp: dispatch_def Let_def intro!: decoded_arm dispatched.decoded parse_safe)
qed (simp_all add: dispatch_def Let_def dispatched.skipped)

section \<open>Progress\<close>

text \<open>
  What a caller relies on: whether the reader has ended, the bytes left, the blocks decoded and
  skipped, the truncation counter, the data-section bytes accounted for, and the sums of the
  per-channel counters of blocks and samples. The rules are the inequalities the counters and the
  iteration rest on; which of them applies and where exactly the cursor goes is the contract of
  \<open>FrameMachine\<close>. One call may do this:

  \<^item> \<open>over\<close>: an ended reader yields nothing and does not change;
  \<^item> \<open>took\<close>: a decoded block of at least five bytes; every byte is accounted for;
  \<^item> \<open>passed\<close>: a skipped block of at least four bytes;
  \<^item> \<open>broke\<close>: a malformed payload is an error that does not end the reader;
  \<^item> \<open>faulted\<close>: an I/O error inside a block of an unsupported channel, which does not end the
    reader;
  \<^item> \<open>failed\<close>: an error that ends the reader;
  \<^item> \<open>closed\<close>: a clean end; at most 39 bytes (a lone byte, or a partial magic trailer) are lost;
  \<^item> \<open>cut\<close>: the end of a truncated stream, which uses up the source.
\<close>

record progress =
  pg_done :: bool
  pg_left :: nat
  pg_read :: nat
  pg_skipped :: nat
  pg_truncated :: nat
  pg_accounted :: nat
  pg_channel_read :: nat
  pg_channel_skipped :: nat
  pg_channel_samples :: nat

text \<open>The errors that end the reader.\<close>

fun reader_fatal :: "osf_error \<Rightarrow> bool" where
  "reader_fatal (Io _) = True"
| "reader_fatal (UnknownChannelIndex _) = True"
| "reader_fatal (InvalidMetablock _) = True"
| "reader_fatal _ = False"

inductive advances :: "progress \<Rightarrow> item \<Rightarrow> progress \<Rightarrow> bool" where
  over: "pg_done s \<Longrightarrow> advances s None s"
| took: "\<not> pg_done s \<Longrightarrow> \<not> is_skipped (blk_kind b) \<Longrightarrow> 5 \<le> n \<Longrightarrow> n + left' = pg_left s \<Longrightarrow>
    advances s (Some (Inr b))
      (s\<lparr>pg_left := left', pg_read := pg_read s + 1, pg_accounted := pg_accounted s + n,
         pg_channel_read := pg_channel_read s + 1,
         pg_channel_samples := pg_channel_samples s + kind_samples (blk_kind b)\<rparr>)"
| passed: "\<not> pg_done s \<Longrightarrow> is_skipped (blk_kind b) \<Longrightarrow> 4 \<le> n \<Longrightarrow> n + left' = pg_left s \<Longrightarrow>
    advances s (Some (Inr b))
      (s\<lparr>pg_left := left', pg_skipped := pg_skipped s + 1, pg_accounted := pg_accounted s + n,
         pg_channel_skipped := pg_channel_skipped s + 1\<rparr>)"
| broke: "\<not> pg_done s \<Longrightarrow> 5 \<le> n \<Longrightarrow> n + left' = pg_left s \<Longrightarrow>
    advances s (Some (Inl (InvalidBlock m)))
      (s\<lparr>pg_left := left', pg_accounted := pg_accounted s + n\<rparr>)"
| faulted: "\<not> pg_done s \<Longrightarrow> 4 \<le> n \<Longrightarrow> n \<le> pg_left s \<Longrightarrow>
    advances s (Some (Inl (Io OtherIo)))
      (s\<lparr>pg_left := 0, pg_accounted := pg_accounted s + n\<rparr>)"
| failed: "\<not> pg_done s \<Longrightarrow> n + left' \<le> pg_left s + 4 \<Longrightarrow> left' \<le> pg_left s \<Longrightarrow>
    t = pg_truncated s \<or> t = max (pg_truncated s) 1 \<Longrightarrow> reader_fatal e \<Longrightarrow>
    advances s (Some (Inl e))
      (s\<lparr>pg_done := True, pg_left := left', pg_truncated := t, pg_accounted := pg_accounted s + n\<rparr>)"
| closed: "\<not> pg_done s \<Longrightarrow> n + left' + lost = pg_left s \<Longrightarrow> lost \<le> 39 \<Longrightarrow>
    advances s None
      (s\<lparr>pg_done := True, pg_left := left', pg_accounted := pg_accounted s + n\<rparr>)"
| cut: "\<not> pg_done s \<Longrightarrow> n \<le> pg_left s + 4 \<Longrightarrow>
    advances s None
      (s\<lparr>pg_done := True, pg_left := 0, pg_truncated := max (pg_truncated s) 1,
         pg_accounted := pg_accounted s + n\<rparr>)"

definition skipped_total :: "reader_stats \<Rightarrow> nat" where
  "skipped_total s =
     rs_blocks_skipped_unsupported s + rs_blocks_skipped_deprecated_type s
     + rs_blocks_skipped_status_event s + rs_blocks_skipped_reserved_type s
     + rs_blocks_skipped_zero_length s + rs_blocks_crc_failed s + rs_blocks_signature_skipped s"

text \<open>The sum of a counter over the channels of the statistics.\<close>

definition channel_total :: "(channel_stats \<Rightarrow> nat) \<Rightarrow> (u16 \<times> channel_stats) list \<Rightarrow> nat" where
  "channel_total f m = (\<Sum>k \<in> dom (map_of m). f (the (map_of m k)))"

lemma update_channel_frame [frame, simp]:
  "rs_blocks_read (update_channel k g s) = rs_blocks_read s"
  "rs_blocks_truncated (update_channel k g s) = rs_blocks_truncated s"
  "rs_data_section_size_bytes (update_channel k g s) = rs_data_section_size_bytes s"
  "skipped_total (update_channel k g s) = skipped_total s"
  by (simp_all add: update_channel_def skipped_total_def)

lemma channel_total_update:
  assumes g: "\<And>e. f (g e) = f e + n" and d: "f channel_stats_default = 0"
  shows "channel_total f (rs_per_channel (update_channel k g s)) = channel_total f (rs_per_channel s) + n"
proof -
  let ?m = "rs_per_channel s"
  let ?e = "entry_or channel_stats_default ?m k"
  let ?h = "\<lambda>j. f (the (map_of ?m j))" and ?u = "(map_of ?m)(k \<mapsto> g ?e)"
  have "channel_total f (rs_per_channel (update_channel k g s)) = (\<Sum>j \<in> dom ?u. f (the (?u j)))"
    by (simp add: channel_total_def AList.update_conv' update_channel_def)
  also have "\<dots> = (\<Sum>j \<in> insert k (dom (map_of ?m)). if j = k then f ?e + n else ?h j)"
    using g by (intro sum.cong) auto
  also have "\<dots> = f ?e + n + (\<Sum>j \<in> dom (map_of ?m) - {k}. ?h j)"
    by (subst sum.insert_remove) (auto simp: finite_dom_map_of intro!: sum.cong)
  also have "\<dots> = channel_total f ?m + n"
  proof (cases "map_of ?m k")
    case None
    then have "dom (map_of ?m) - {k} = dom (map_of ?m)" by auto
    with None show ?thesis using d by (simp add: channel_total_def)
  next
    case (Some v)
    then have "k \<in> dom (map_of ?m)" by auto
    from sum.remove [OF finite_dom_map_of this, of ?h] Some show ?thesis
      by (simp add: channel_total_def)
  qed
  finally show ?thesis .
qed

lemma channel_total_same:
  assumes "\<And>e. f (g e) = f e" and "f channel_stats_default = 0"
  shows "channel_total f (rs_per_channel (update_channel k g s)) = channel_total f (rs_per_channel s)"
  using channel_total_update [of f g 0 k s] assms by simp

lemma default_counters [simp]:
  "cs_blocks_read channel_stats_default = 0"
  "cs_blocks_skipped channel_stats_default = 0"
  "cs_samples_total channel_stats_default = 0"
  by (simp_all add: channel_stats_default_def)

definition progress_of :: "block_reader \<Rightarrow> progress" where
  "progress_of r =
     \<lparr>pg_done = br_finished r, pg_left = length (pending (br_inner r)),
      pg_read = rs_blocks_read (br_stats r), pg_skipped = skipped_total (br_stats r),
      pg_truncated = rs_blocks_truncated (br_stats r),
      pg_accounted = rs_data_section_size_bytes (br_stats r),
      pg_channel_read = channel_total cs_blocks_read (rs_per_channel (br_stats r)),
      pg_channel_skipped = channel_total cs_blocks_skipped (rs_per_channel (br_stats r)),
      pg_channel_samples = channel_total cs_samples_total (rs_per_channel (br_stats r))\<rparr>"

lemma skipped_total_count_skip: "skipped_total (count_skip reason s) = skipped_total s + 1"
  by (cases reason) (simp_all add: skipped_total_def)

lemma count_skip_frame [frame, simp]:
  "rs_blocks_read (count_skip reason s) = rs_blocks_read s"
  "rs_blocks_truncated (count_skip reason s) = rs_blocks_truncated s"
  "rs_data_section_size_bytes (count_skip reason s) = rs_data_section_size_bytes s"
  "rs_per_channel (count_skip reason s) = rs_per_channel s"
  by (cases reason; simp)+

lemma skipped_total_frame [simp]:
  "skipped_total (s\<lparr>rs_per_channel := x\<rparr>) = skipped_total s"
  "skipped_total (s\<lparr>rs_blocks_read := n\<rparr>) = skipped_total s"
  "skipped_total (s\<lparr>rs_data_section_size_bytes := n\<rparr>) = skipped_total s"
  "skipped_total (s\<lparr>rs_blocks_truncated := n\<rparr>) = skipped_total s"
  "skipped_total (s\<lparr>rs_trailer_seen := b\<rparr>) = skipped_total s"
  by (simp_all add: skipped_total_def)

lemma progress_updates [simp]:
  "progress_of (add_bytes n r) = (progress_of r)\<lparr>pg_accounted := pg_accounted (progress_of r) + n\<rparr>"
  "progress_of (finish r) = (progress_of r)\<lparr>pg_done := True\<rparr>"
  "progress_of (note_truncated r) =
     (progress_of r)\<lparr>pg_truncated := max (pg_truncated (progress_of r)) 1\<rparr>"
  "progress_of (r\<lparr>br_inner := i\<rparr>) = (progress_of r)\<lparr>pg_left := length (pending i)\<rparr>"
  "progress_of (trailer_done r) = (progress_of r)\<lparr>pg_done := True\<rparr>"
  by (simp_all add: progress_of_def add_bytes_def finish_def note_truncated_def trailer_done_def)

lemma progress_record_skip [simp]:
  "progress_of (record_skip c len reason r) =
     (progress_of r)\<lparr>pg_skipped := pg_skipped (progress_of r) + 1,
                     pg_channel_skipped := pg_channel_skipped (progress_of r) + 1\<rparr>"
  by (simp add: progress_of_def record_skip_def skipped_total_count_skip channel_total_same
        channel_total_update [where f = cs_blocks_skipped and n = 1])

lemma progress_record_read [simp]:
  "keeps_counts f \<Longrightarrow> progress_of (record_read c len k f r) =
     (progress_of r)\<lparr>pg_read := pg_read (progress_of r) + 1,
                     pg_channel_read := pg_channel_read (progress_of r) + 1,
                     pg_channel_samples := pg_channel_samples (progress_of r) + k\<rparr>"
  by (simp add: progress_of_def record_read_def Let_def keeps_counts_def
        channel_total_same [where f = cs_blocks_skipped]
        channel_total_update [where f = cs_blocks_read and n = 1]
        channel_total_update [where f = cs_samples_total and n = k])

lemma progress_fields:
  "pg_done (progress_of r) = br_finished r"
  "pg_left (progress_of r) = length (pending (br_inner r))"
  by (simp_all add: progress_of_def)

section \<open>Every call makes progress\<close>

text \<open>The three results of a read of \<open>n\<close> bytes.\<close>

lemma inner_exact_cases:
  obtains (got) bs i where "inner_exact n r = (Got bs, r\<lparr>br_inner := i\<rparr>)" "length bs = n"
      "pending (br_inner r) = bs @ pending i" "faulty i = faulty (br_inner r)"
  | (eof) i where "inner_exact n r = (AtEof, r\<lparr>br_inner := i\<rparr>)"
      "length (pending (br_inner r)) < n" "pending i = []" "\<not> faulty (br_inner r)"
  | (fault) i where "inner_exact n r = (IoFault, r\<lparr>br_inner := i\<rparr>)"
      "length (pending (br_inner r)) < n" "pending i = []" "faulty (br_inner r)"
proof (cases "n \<le> length (pending (br_inner r))")
  case True
  then show ?thesis
    by (intro got [of "take n (pending (br_inner r))"
                      "br_inner r\<lparr>pending := drop n (pending (br_inner r))\<rparr>"])
       (simp_all add: inner_exact_def read_exact_def)
next
  case False
  then show ?thesis using eof fault
    by (cases "faulty (br_inner r)") (auto simp: inner_exact_def read_exact_def exhausted_def)
qed

lemma inner_drain_cases:
  obtains (got) i where "inner_drain n r = (Got (), r\<lparr>br_inner := i\<rparr>)"
      "length (pending (br_inner r)) = n + length (pending i)" "faulty i = faulty (br_inner r)"
  | (eof) i where "inner_drain n r = (AtEof, r\<lparr>br_inner := i\<rparr>)"
      "length (pending (br_inner r)) < n" "pending i = []" "\<not> faulty (br_inner r)"
  | (fault) i where "inner_drain n r = (IoFault, r\<lparr>br_inner := i\<rparr>)"
      "length (pending (br_inner r)) < n" "pending i = []" "faulty (br_inner r)"
  by (cases "n \<le> length (pending (br_inner r))"; cases "faulty (br_inner r)")
     (auto simp: inner_drain_def drain_def exhausted_def)

text \<open>
  A call that has so far taken \<open>m\<close> bytes and accounted for them, starting from progress \<open>s\<close>.
\<close>

definition begun :: "progress \<Rightarrow> block_reader \<Rightarrow> nat \<Rightarrow> bool" where
  "begun s r m \<longleftrightarrow>
     \<not> pg_done s \<and> m + length (pending (br_inner r)) = pg_left s
     \<and> progress_of r = s\<lparr>pg_left := length (pending (br_inner r)), pg_accounted := pg_accounted s + m\<rparr>"

lemma begun_start: "\<not> br_finished r \<Longrightarrow> begun (progress_of r) r 0"
  by (simp add: begun_def progress_of_def)

lemma begun_more:
  "begun s r m \<Longrightarrow> length (pending (br_inner r)) = n + length (pending i) \<Longrightarrow>
   begun s (add_bytes n (r\<lparr>br_inner := i\<rparr>)) (m + n)"
  by (simp add: begun_def)

lemma begun_cut:
  "begun s r m \<Longrightarrow> pending i = [] \<Longrightarrow>
   advances s None (progress_of (finish (note_truncated (r\<lparr>br_inner := i\<rparr>))))"
  using advances.cut [of s m] by - (cases s, simp add: begun_def)

lemma begun_failed:
  assumes "begun s r m" and "reader_fatal e"
  shows "advances s (Some (Inl e)) (progress_of (finish r))"
  using assms advances.failed [of s m "length (pending (br_inner r))" "pg_truncated s" e]
  by - (cases s, simp add: begun_def)

lemma begun_failed_empty:
  assumes "begun s r m" and "reader_fatal e" and "pending i = []"
  shows "advances s (Some (Inl e)) (progress_of (finish (r\<lparr>br_inner := i\<rparr>)))"
  using assms advances.failed [of s m 0 "pg_truncated s" e] by - (cases s, simp add: begun_def)

lemma begun_failed_truncated:
  assumes "begun s r m" and "reader_fatal e" and "pending i = []"
  shows "advances s (Some (Inl e)) (progress_of (finish (note_truncated (r\<lparr>br_inner := i\<rparr>))))"
  using assms advances.failed [of s m 0 "max (pg_truncated s) 1" e] by - (cases s, simp add: begun_def)

lemma begun_passed:
  "begun s r m \<Longrightarrow> 4 \<le> m \<Longrightarrow>
   advances s (skipped_item channel reason n payload) (progress_of (record_skip channel len reason r))"
  using advances.passed [of s "\<lparr>blk_channel_index = channel, blk_kind = Skipped reason n payload\<rparr>" m
                            "length (pending (br_inner r))"]
  by - (cases s, simp add: begun_def skipped_item_def)

lemma begun_dispatched:
  assumes "begun s r m" "5 \<le> m" "dispatched channel len r (it, r')"
  shows "advances s it (progress_of r')"
  using assms(3)
proof (cases rule: dispatched.cases)
  case (skipped reason payload)
  then show ?thesis using begun_passed [OF assms(1)] assms(2) by simp
next
  case (decoded kind n f)
  then show ?thesis
    using assms(1,2) advances.took [of s "\<lparr>blk_channel_index = channel, blk_kind = kind\<rparr>" m
                            "length (pending (br_inner r))"]
    by - (cases s, simp add: begun_def block_item_def)
next
  case (malformed msg)
  then show ?thesis
    using assms(1,2) advances.broke [of s m "length (pending (br_inner r))"] by - (cases s, simp add: begun_def)
qed

lemmas begun_intros =
  begun_more begun_cut begun_failed begun_failed_empty begun_failed_truncated begun_passed

lemma magic_trailer_progress:
  "begun s r m \<Longrightarrow> \<exists>k lost.
     progress_of (consume_magic_trailer r)
       = s\<lparr>pg_left := length (pending (br_inner (consume_magic_trailer r))), pg_accounted := pg_accounted s + k\<rparr>
     \<and> k + length (pending (br_inner (consume_magic_trailer r))) + lost = pg_left s \<and> lost \<le> 39"
proof (cases rule: inner_exact_cases [of MAGIC_TRAILER_LEN r])
  case (got bs i)
  assume "begun s r m"
  then show ?thesis using got
    by (intro exI [of _ "m + 40"] exI [of _ 0])
       (cases s, auto simp: consume_magic_trailer_def begun_def MAGIC_TRAILER_LEN_def)
next
  case (eof i)
  assume "begun s r m"
  then show ?thesis using eof
    by (intro exI [of _ m] exI [of _ "length (pending (br_inner r))"])
       (cases s, auto simp: consume_magic_trailer_def begun_def MAGIC_TRAILER_LEN_def)
next
  case (fault i)
  assume "begun s r m"
  then show ?thesis using fault
    by (intro exI [of _ m] exI [of _ "length (pending (br_inner r))"])
       (cases s, auto simp: consume_magic_trailer_def begun_def MAGIC_TRAILER_LEN_def)
qed

lemma consume_magic_trailer_empty:
  "pending (br_inner r) = [] \<Longrightarrow>
     progress_of (consume_magic_trailer r) = progress_of r"
  by (cases rule: inner_exact_cases [of MAGIC_TRAILER_LEN r])
     (auto simp: consume_magic_trailer_def MAGIC_TRAILER_LEN_def progress_of_def)

lemma trailer_advances:
  assumes b: "begun s r m" and step: "next_trailer r = (it, r')"
  shows "advances s it (progress_of r')"
proof (cases rule: inner_exact_cases [of 4 "add_bytes 4 r"])
  case len: (got bs i)
  let ?r = "add_bytes 4 r\<lparr>br_inner := i\<rparr>" and ?n = "unat (from_le bs :: u32)"
  have b': "begun s ?r (m + 4)" using b len by - (cases s, auto simp: begun_def)
  show ?thesis
  proof (cases rule: inner_drain_cases [of ?n ?r])
    case (got j)
    from begun_more [OF b', of ?n j] got(2)
    have b'': "begun s (add_bytes ?n (?r\<lparr>br_inner := j\<rparr>)) (m + 4 + ?n)" by simp
    obtain k lost where k: "progress_of (consume_magic_trailer (add_bytes ?n (?r\<lparr>br_inner := j\<rparr>)))
       = s\<lparr>pg_left := length (pending (br_inner (consume_magic_trailer (add_bytes ?n (?r\<lparr>br_inner := j\<rparr>))))),
            pg_accounted := pg_accounted s + k\<rparr>"
      "k + length (pending (br_inner (consume_magic_trailer (add_bytes ?n (?r\<lparr>br_inner := j\<rparr>))))) + lost = pg_left s"
      "lost \<le> 39"
      using magic_trailer_progress [OF b''] by blast
    have nd: "\<not> pg_done s" using b by (simp add: begun_def)
    show ?thesis
      using step len got advances.closed [OF nd k(2,3)] k(1)
      by - (cases s, auto simp: next_trailer_def consume_trailer_def)
  next
    case (eof j)
    then show ?thesis
      using step len begun_cut [OF b', of j]
        consume_magic_trailer_empty [of "note_truncated (?r\<lparr>br_inner := j\<rparr>)"]
      by (auto simp: next_trailer_def consume_trailer_def)
  next
    case (fault j)
    then show ?thesis using step len begun_failed_empty [OF b', of "Io OtherIo" j]
      by (auto simp: next_trailer_def consume_trailer_def stop_error_def)
  qed
next
  case (eof i)
  then show ?thesis using step b advances.cut [of s "m + 4"]
    by - (cases s, auto simp: next_trailer_def consume_trailer_def begun_def add.assoc)
next
  case (fault i)
  then show ?thesis
    using step b advances.failed [of s "m + 4" 0 "pg_truncated s" "Io OtherIo"]
    by - (cases s, auto simp: next_trailer_def consume_trailer_def stop_error_def begun_def add.assoc)
qed

lemma signature_advances:
  assumes b: "begun s r m" and step: "next_signature channel r = (it, r')"
  shows "advances s it (progress_of r')"
proof (cases rule: inner_exact_cases [of 4 r])
  case (got bs i)
  note len = this
  let ?r = "add_bytes 4 (r\<lparr>br_inner := i\<rparr>)" and ?n = "unat (from_le bs :: u32)"
  have b': "begun s ?r (m + 4)" using begun_more [OF b, of 4 i] len by simp
  show ?thesis
  proof (cases "br_capture_skipped ?r")
    case True
    show ?thesis
      by (cases rule: inner_exact_cases [of ?n ?r])
         (use step len True b' in
          \<open>auto simp: next_signature_def Let_def stop_truncated_def stop_error_def intro: begun_intros
             intro!: begun_passed [where m = "m + 4 + ?n"] begun_more [where m = "m + 4"]\<close>)
  next
    case False
    show ?thesis
      by (cases rule: inner_drain_cases [of ?n ?r])
         (use step len False b' in
          \<open>auto simp: next_signature_def Let_def stop_truncated_def stop_error_def intro: begun_intros
             intro!: begun_passed [where m = "m + 4 + ?n"] begun_more [where m = "m + 4"]\<close>)
  qed
qed (use step in \<open>auto simp: next_signature_def stop_truncated_def stop_error_def intro: begun_intros b\<close>)

lemma skip_block_advances:
  assumes b: "begun s r m" and m: "4 \<le> m" and step: "skip_block channel len reason r = (it, r')"
  shows "advances s it (progress_of r')"
proof -
  have fault: "advances s (Some (Inl (Io OtherIo))) (progress_of (r\<lparr>br_inner := i\<rparr>))"
    if "pending i = []" for i
    using that b m advances.faulted [of s m] by - (cases s, auto simp: begun_def)
  show ?thesis
  proof (cases "br_capture_skipped r")
    case True
    show ?thesis
      by (cases rule: inner_exact_cases [of "unat len" r])
         (use step True b m fault in
          \<open>auto simp: skip_block_def intro: begun_intros
             intro!: begun_passed [where m = "m + unat len"] begun_more [where m = m]\<close>)
  next
    case False
    show ?thesis
      by (cases rule: inner_drain_cases [of "unat len" r])
         (use step False b m fault in
          \<open>auto simp: skip_block_def intro: begun_intros
             intro!: begun_passed [where m = "m + unat len"] begun_more [where m = m]\<close>)
  qed
qed

lemma decode_payload_advances:
  assumes "begun s r m" "5 \<le> m" "payload \<noteq> []" "decode_payload channel info len payload r = (it, r')"
  shows "advances s it (progress_of r')"
proof -
  obtain cb body where "payload = cb # body" using assms(3) by (cases payload) auto
  then show ?thesis
    using assms(4) dispatch_outcome [of channel len r info cb body]
    by (intro begun_dispatched [OF assms(1,2), of channel len]) (simp add: decode_payload_def)
qed

lemma strip_frame_crc_nonempty: "strip_frame_crc c ch w len cap p = Inr q \<Longrightarrow> q \<noteq> []"
  by (auto simp: strip_frame_crc_def Let_def split: if_splits)

lemma payload_advances:
  assumes b: "begun s r m" and m: "4 \<le> m" and len: "len \<noteq> 0"
    and step: "next_payload crc32c channel info len r = (it, r')"
  shows "advances s it (progress_of r')"
proof (cases rule: inner_exact_cases [of "unat len" r])
  case (got payload i)
  let ?r = "add_bytes (unat len) (r\<lparr>br_inner := i\<rparr>)"
  have pos: "0 < unat len" using len by (simp add: unat_gt_0)
  have b': "begun s ?r (m + unat len)" using begun_more [OF b, of "unat len" i] got by simp
  have m': "5 \<le> m + unat len" using m pos by simp
  have decode: "advances s it (progress_of r')"
    if "decode_payload channel info len q ?r = (it, r')" "q \<noteq> []" for q
    using decode_payload_advances [OF b' m' that(2,1)] .
  have p: "payload \<noteq> []" using got pos by auto
  show ?thesis
  proof (cases "br_integrity r = IpNone")
    case True
    then show ?thesis using step got decode p by (auto simp: next_payload_def)
  next
    case False
    then show ?thesis
      using step got decode begun_passed [OF b'] m'
      by (auto simp: next_payload_def Let_def dest: strip_frame_crc_nonempty split: sum.splits)
  qed
qed (use step in \<open>auto simp: next_payload_def stop_truncated_def stop_error_def intro: begun_intros b\<close>)

lemma length_field_cases:
  obtains (width) e where "read_length_field w r = (Inl e, r)" "reader_fatal e"
  | (got) len i where "read_length_field w r = (Inr (Some len), r\<lparr>br_inner := i\<rparr>)" "w = 2 \<or> w = 4"
      "length (pending (br_inner r)) = unat w + length (pending i)"
  | (eof) i where "read_length_field w r = (Inr None, r\<lparr>br_inner := i\<rparr>)" "pending i = []"
  | (fault) e i where "read_length_field w r = (Inl e, r\<lparr>br_inner := i\<rparr>)" "pending i = []" "reader_fatal e"
  by (cases rule: inner_exact_cases [of "unat w" r]; cases "w = 2 \<or> w = 4")
     (auto simp: read_length_field_def)

lemma channel_block_advances:
  assumes b: "begun s r 2" and step: "next_channel_block crc32c channel r = (it, r')"
  shows "advances s it (progress_of r')"
proof (cases "br_channels r channel")
  case None
  then show ?thesis using step begun_failed [OF b] by (auto simp: next_channel_block_def stop_error_def)
next
  case (Some info)
  let ?w = "ci_size_of_length_value info"
  show ?thesis
  proof (cases rule: length_field_cases [of ?w r])
    case (got len i)
    let ?r = "add_bytes (unat ?w) (r\<lparr>br_inner := i\<rparr>)"
    have b': "begun s ?r (2 + unat ?w)" using begun_more [OF b got(3)] .
    have m: "4 \<le> 2 + unat ?w" using got(2) by auto
    show ?thesis
    proof (cases "len = 0")
      case True
      then show ?thesis using step Some got begun_passed [OF b' m]
        by (auto simp: next_channel_block_def)
    next
      case False
      then show ?thesis
        using step Some got skip_block_advances [OF b' m] payload_advances [OF b' m False]
        by (auto simp: next_channel_block_def Let_def split: option.splits)
    qed
  qed (use step Some in \<open>auto simp: next_channel_block_def stop_error_def stop_truncated_def intro: begun_intros b\<close>)
qed

lemma next_block_advances:
  assumes step: "next_block crc32c r = (it, r')"
  shows "advances (progress_of r) it (progress_of r')"
proof (cases "br_finished r")
  case True
  then show ?thesis using step by (auto simp: next_block_def progress_fields intro: advances.over)
next
  case False
  note b = begun_start [OF False]
  show ?thesis
  proof (cases rule: inner_exact_cases [of 2 r])
    case (got bs i)
    have b': "begun (progress_of r) (add_bytes 2 (r\<lparr>br_inner := i\<rparr>)) 2"
      using begun_more [OF b, of 2 i] got by (simp del: add_2_eq_Suc add_2_eq_Suc')
    show ?thesis
      using step False got trailer_advances [OF b'] signature_advances [OF b'] channel_block_advances [OF b']
      by (auto simp: next_block_def Let_def split: if_splits)
  next
    case (eof i)
    then show ?thesis
      using step False advances.closed [of "progress_of r" 0 0 "length (pending (br_inner r))"]
      by (auto simp: next_block_def progress_of_def finish_def)
  next
    case (fault i)
    then show ?thesis using step False begun_failed_empty [OF b, of "Io OtherIo"]
      by (auto simp: next_block_def stop_error_def)
  qed
qed

section \<open>Iterating the reader\<close>

text \<open>
  \<open>for block in &mut reader\<close>: call \<open>next\<close> until it yields \<open>None\<close>. An item that is an error does
  not stop the iterator, so the loops that use \<open>?\<close> stop at the first one themselves.
  Every call that yields something ends the reader or takes at least four bytes.
\<close>

definition stream_measure :: "progress \<Rightarrow> nat" where
  "stream_measure s = (if pg_done s then 0 else Suc (pg_left s))"

inductive_cases advancesE: "advances s it s'"
inductive_cases advances_endE: "advances s None s'"

lemma advances_decreases: "advances s (Some x) s' \<Longrightarrow> stream_measure s' < stream_measure s"
  by (erule advancesE) (auto simp: stream_measure_def)

function items ::
  "(byte list \<Rightarrow> u32) \<Rightarrow> block_reader \<Rightarrow> (osf_error + block) list \<times> block_reader"
where
  "items crc32c r =
     (case next_block crc32c r of
        (None, r') \<Rightarrow> ([], r')
      | (Some x, r') \<Rightarrow> (case items crc32c r' of (xs, r'') \<Rightarrow> (x # xs, r'')))"
  by pat_completeness auto

termination
  by (relation "measure (\<lambda>(_, r). stream_measure (progress_of r))")
     (auto dest!: sym [of _ "next_block _ _"] next_block_advances advances_decreases)

declare items.simps [simp del]

text \<open>\<open>let block = block?; blocks.push(block)\<close>.\<close>

definition collect_blocks ::
  "(byte list \<Rightarrow> u32) \<Rightarrow> block_reader \<Rightarrow> osf_error + (block list \<times> reader_stats)"
where
  "collect_blocks crc32c r =
     (let (xs, r') = items crc32c r in map_ok (\<lambda>bs. (bs, final_stats r')) (first_error xs))"

inductive run :: "progress \<Rightarrow> (osf_error + block) list \<Rightarrow> progress \<Rightarrow> bool" where
  stop: "advances s None s' \<Longrightarrow> run s [] s'"
| next_item: "advances s (Some x) s' \<Longrightarrow> run s' xs s'' \<Longrightarrow> run s (x # xs) s''"

lemma items_run: "items crc32c r = (xs, r') \<Longrightarrow> run (progress_of r) xs (progress_of r')"
proof (induction crc32c r arbitrary: xs r' rule: items.induct)
  case (1 crc32c r)
  obtain it r1 where step: "next_block crc32c r = (it, r1)" by fastforce
  note adv = next_block_advances [OF step]
  show ?case
  proof (cases it)
    case None
    then show ?thesis using 1(2) step adv by (auto simp: items.simps [of crc32c r] intro: run.stop)
  next
    case (Some x)
    then show ?thesis
      using 1(2) step adv 1(1) [OF step [symmetric] Some]
      by (auto simp: items.simps [of crc32c r] intro: run.next_item split: prod.splits)
  qed
qed

section \<open>Invariants of a run\<close>

definition decoded_items :: "(osf_error + block) list \<Rightarrow> nat" where
  "decoded_items xs = length (filter (\<lambda>x. case x of Inr b \<Rightarrow> \<not> is_skipped (blk_kind b) | Inl _ \<Rightarrow> False) xs)"

definition skipped_items :: "(osf_error + block) list \<Rightarrow> nat" where
  "skipped_items xs = length (filter (\<lambda>x. case x of Inr b \<Rightarrow> is_skipped (blk_kind b) | Inl _ \<Rightarrow> False) xs)"

lemma decoded_items_simps [simp]:
  "decoded_items [] = 0"
  "decoded_items (Inl e # xs) = decoded_items xs"
  "decoded_items (Inr b # xs) = (if is_skipped (blk_kind b) then 0 else 1) + decoded_items xs"
  by (simp_all add: decoded_items_def)

lemma skipped_items_simps [simp]:
  "skipped_items [] = 0"
  "skipped_items (Inl e # xs) = skipped_items xs"
  "skipped_items (Inr b # xs) = (if is_skipped (blk_kind b) then 1 else 0) + skipped_items xs"
  by (simp_all add: skipped_items_def)

lemma run_done: "run s xs s' \<Longrightarrow> pg_done s'"
  by (induction rule: run.induct) (auto elim: advances_endE)

definition item_samples :: "(osf_error + block) list \<Rightarrow> nat" where
  "item_samples xs = (\<Sum>x\<leftarrow>xs. case x of Inr b \<Rightarrow> kind_samples (blk_kind b) | Inl _ \<Rightarrow> 0)"

lemma item_samples_simps [simp]:
  "item_samples [] = 0"
  "item_samples (Inl e # xs) = item_samples xs"
  "item_samples (Inr b # xs) = kind_samples (blk_kind b) + item_samples xs"
  by (simp_all add: item_samples_def)

lemma is_skipped_samples: "is_skipped k \<Longrightarrow> kind_samples k = 0"
  by (cases k) simp_all

lemma run_counts:
  "run s xs s' \<Longrightarrow> pg_read s' = pg_read s + decoded_items xs
                 \<and> pg_skipped s' = pg_skipped s + skipped_items xs
                 \<and> pg_channel_read s' = pg_channel_read s + decoded_items xs
                 \<and> pg_channel_skipped s' = pg_channel_skipped s + skipped_items xs
                 \<and> pg_channel_samples s' = pg_channel_samples s + item_samples xs"
proof (induction rule: run.induct)
  case (stop s s')
  then show ?case by (auto elim: advances_endE)
next
  case (next_item s x s' xs s'')
  from next_item(1) show ?case by cases (use next_item(3) in \<open>auto simp: is_skipped_samples\<close>)
qed

lemma run_truncated:
  "run s xs s' \<Longrightarrow> pg_truncated s' \<in> {pg_truncated s, max (pg_truncated s) 1}"
proof (induction rule: run.induct)
  case (stop s s')
  then show ?case by (auto elim: advances_endE)
next
  case (next_item s x s' xs s'')
  from next_item(1) show ?case by cases (use next_item(3) in auto)
qed

text \<open>The iterator yields at most one item per four bytes, and one more.\<close>

lemma advances_bytes: "advances s (Some x) s' \<Longrightarrow> pg_done s' \<and> pg_left s' \<le> pg_left s \<or> pg_left s' + 4 \<le> pg_left s"
  by (erule advancesE) auto

lemma run_from_done: "run s xs s' \<Longrightarrow> pg_done s \<Longrightarrow> xs = [] \<and> s' = s"
  by (erule run.cases) (auto elim: advancesE)

lemma run_length_bound: "run s xs s' \<Longrightarrow> 4 * length xs \<le> pg_left s + 4"
proof (induction rule: run.induct)
  case (stop s s')
  then show ?case by simp
next
  case (next_item s x s' xs s'')
  then show ?case using advances_bytes [OF next_item(1)] run_from_done [OF next_item(2)] by auto
qed

text \<open>
  If every item is a block and no truncation was noted, every byte up to the lost tail is
  accounted for; in any case at most four bytes too many are.
\<close>

lemma run_bytes:
  "run s xs s' \<Longrightarrow> \<not> pg_done s \<Longrightarrow> pg_truncated s = 0 \<Longrightarrow> pg_truncated s' = 0 \<Longrightarrow> (\<forall>x \<in> set xs. \<not> isl x) \<Longrightarrow>
   \<exists>lost. lost \<le> 39 \<and> pg_accounted s' + pg_left s' + lost = pg_accounted s + pg_left s"
proof (induction rule: run.induct)
  case (stop s s')
  from stop(1) show ?case by cases (use stop in auto)
next
  case (next_item s x s' xs s'')
  from next_item(1) show ?case by cases (use next_item in auto)
qed

lemma run_bytes_bound: "run s xs s' \<Longrightarrow> pg_accounted s' + pg_left s' \<le> pg_accounted s + pg_left s + 4"
proof (induction rule: run.induct)
  case (stop s s')
  from stop(1) show ?case by cases auto
next
  case (next_item s x s' xs s'')
  from next_item(1) show ?case
    by cases (use next_item(2,3) in \<open>auto dest: run_from_done\<close>)
qed

section \<open>Properties of the block stream\<close>

lemma new_reader_progress:
  "progress_of (with_integrity p (with_capture_skipped_payload c (block_reader_new i meta)))
     = \<lparr>pg_done = False, pg_left = length (pending i), pg_read = 0, pg_skipped = 0,
        pg_truncated = 0, pg_accounted = 0, pg_channel_read = 0, pg_channel_skipped = 0,
        pg_channel_samples = 0\<rparr>"
proof -
  define idle :: "reader_stats \<Rightarrow> bool" where
    "idle st \<longleftrightarrow> rs_blocks_read st = 0 \<and> skipped_total st = 0 \<and> rs_blocks_truncated st = 0
       \<and> rs_data_section_size_bytes st = 0
       \<and> (\<forall>k x. map_of (rs_per_channel st) k = Some x \<longrightarrow>
            cs_blocks_read x = 0 \<and> cs_blocks_skipped x = 0 \<and> cs_samples_total x = 0)" for st
  have step: "idle (snd acc) \<Longrightarrow> idle (snd (register_channels chans acc))" for chans acc
  proof (induction chans acc rule: register_channels.induct)
    case (1 acc)
    then show ?case by simp
  next
    case (2 chan chans channels stats)
    let ?stats = "stats\<lparr>rs_channels_unsupported :=
                (if is_unsupported (mc_data_type chan)
                 then rs_channels_unsupported stats + 1 else rs_channels_unsupported stats),
              rs_per_channel := AList.update (mc_index chan)
                (channel_stats_default\<lparr>cs_name := mc_name chan\<rparr>) (rs_per_channel stats)\<rparr>"
    have "idle ?stats"
      using 2(2) unfolding idle_def skipped_total_def
      by (simp add: AList.update_conv' channel_stats_default_def)
    then show ?case using 2(1) by simp
  qed
  have zero: "channel_total f (rs_per_channel st) = 0"
    if "idle st" "\<And>x. cs_blocks_read x = 0 \<and> cs_blocks_skipped x = 0 \<and> cs_samples_total x = 0 \<Longrightarrow> f x = 0"
    for st and f :: "channel_stats \<Rightarrow> nat"
    using that by (auto simp: channel_total_def idle_def dom_def)
  have start: "idle (reader_stats_default\<lparr>rs_channels_total := n\<rparr>)" for n
    by (simp add: idle_def reader_stats_default_def skipped_total_def)
  have "idle (br_stats (block_reader_new i meta))"
    using step [of "(Map.empty, reader_stats_default\<lparr>rs_channels_total := length (mb_channels meta)\<rparr>)"
                   "mb_channels meta"] start
    by (auto simp: block_reader_new_def split: prod.splits)
  then have idle: "idle (br_stats (block_reader_new i meta)\<lparr>rs_integrity := p\<rparr>)"
    by (simp add: idle_def skipped_total_def)
  have shape: "br_finished (block_reader_new i meta) = False" "br_inner (block_reader_new i meta) = i"
    by (simp_all add: block_reader_new_def split: prod.splits)
  have tot: "channel_total cs_blocks_read (rs_per_channel (br_stats (block_reader_new i meta))) = 0"
    "channel_total cs_blocks_skipped (rs_per_channel (br_stats (block_reader_new i meta))) = 0"
    "channel_total cs_samples_total (rs_per_channel (br_stats (block_reader_new i meta))) = 0"
    using zero [OF idle, of cs_blocks_read] zero [OF idle, of cs_blocks_skipped]
      zero [OF idle, of cs_samples_total] by simp_all
  have cnt: "rs_blocks_read (br_stats (block_reader_new i meta)) = 0"
    "skipped_total (br_stats (block_reader_new i meta)\<lparr>rs_integrity := p\<rparr>) = 0"
    "rs_blocks_truncated (br_stats (block_reader_new i meta)) = 0"
    "rs_data_section_size_bytes (br_stats (block_reader_new i meta)) = 0"
    using idle by (simp_all add: idle_def)
  show ?thesis
    by (simp add: progress_of_def with_integrity_def with_capture_skipped_payload_def shape tot cnt)
qed

text \<open>
  C16. Iterating a reader over any source terminates: after at most one item per four bytes of
  input and one more, the reader has ended, and calling it again yields nothing and changes
  nothing.
\<close>

theorem reader_iteration_ends:
  "case items crc32c r of (xs, r') \<Rightarrow>
     4 * length xs \<le> length (pending (br_inner r)) + 4
     \<and> br_finished r' \<and> next_block crc32c r' = (None, r')"
proof (cases "items crc32c r")
  case (Pair xs r')
  note run = items_run [OF Pair]
  have "br_finished r'" using run_done [OF run] by (simp add: progress_of_def)
  then show ?thesis
    using run_length_bound [OF run] by (simp add: Pair next_block_def progress_of_def)
qed

text \<open>
  C24. The telemetry adds up: for a fresh reader driven to its end, \<open>blocks_total\<close> is the number
  of blocks the iterator yielded; decoded blocks, skipped blocks and samples are each the sums of
  the per-channel counters; and at most one truncation is recorded, whatever the input.
\<close>

theorem reader_stats_add_up:
  "case items crc32c (with_integrity p (with_capture_skipped_payload c (block_reader_new i meta))) of
     (xs, r') \<Rightarrow>
       let st = final_stats r' in
       rs_blocks_total st = length (filter (\<lambda>x. \<not> isl x) xs)
       \<and> rs_blocks_read st = decoded_items xs
       \<and> rs_blocks_total st - rs_blocks_read st = skipped_items xs
       \<and> channel_total cs_blocks_read (rs_per_channel st) = decoded_items xs
       \<and> channel_total cs_blocks_skipped (rs_per_channel st) = skipped_items xs
       \<and> channel_total cs_samples_total (rs_per_channel st)
           = item_samples xs
       \<and> rs_blocks_truncated st \<le> 1"
proof (cases "items crc32c (with_integrity p (with_capture_skipped_payload c (block_reader_new i meta)))")
  case (Pair xs r')
  have run: "run \<lparr>pg_done = False, pg_left = length (pending i), pg_read = 0, pg_skipped = 0,
        pg_truncated = 0, pg_accounted = 0, pg_channel_read = 0, pg_channel_skipped = 0,
        pg_channel_samples = 0\<rparr> xs (progress_of r')"
    using items_run [OF Pair] by (simp add: new_reader_progress)
  have total: "length (filter (\<lambda>x. \<not> isl x) xs) = decoded_items xs + skipped_items xs"
    by (induction xs) (auto simp: decoded_items_def skipped_items_def split: sum.splits)
  show ?thesis
    using run_counts [OF run] run_truncated [OF run] total
    by (auto simp: Pair final_stats_def Let_def progress_of_def skipped_total_def)
qed

end
