(* ===== verification/Frames.thy ===== *)
theory Frames
  imports BlockStream
begin

text \<open>
  What \<open>next\<close> does on a well-delimited frame \<open>[u16 channel][length][data]\<close>: the lemmas that
  take the reader to the data area, and the behaviour on frames that are cut short, fail their
  CRC or belong to channels the reader does not decode.
\<close>

section \<open>Up to the data area\<close>

definition frame_prefix :: "u16 \<Rightarrow> u8 \<Rightarrow> u32 \<Rightarrow> byte list" where
  "frame_prefix channel width len = u16_le channel @ length_field_bytes width len"

text \<open>The reader once the prefix is read.\<close>

definition at_data :: "u8 \<Rightarrow> byte list \<Rightarrow> block_reader \<Rightarrow> block_reader" where
  "at_data width rest r =
     add_bytes (unat width) (add_bytes 2 (r\<lparr>br_inner := (br_inner r)\<lparr>pending := rest\<rparr>\<rparr>))"

lemma at_data_frame [frame, simp]:
  "br_inner (at_data w rest r) = (br_inner r)\<lparr>pending := rest\<rparr>"
  "br_osf_version (at_data w rest r) = br_osf_version r"
  "br_channels (at_data w rest r) = br_channels r"
  "br_finished (at_data w rest r) = br_finished r"
  "br_capture_skipped (at_data w rest r) = br_capture_skipped r"
  "br_integrity (at_data w rest r) = br_integrity r"
  "rs_blocks_crc_failed (br_stats (at_data w rest r)) = rs_blocks_crc_failed (br_stats r)"
  "rs_blocks_read (br_stats (at_data w rest r)) = rs_blocks_read (br_stats r)"
  by (simp_all add: at_data_def add_bytes_def)

text \<open>A frame \<open>next\<close> treats as a block of a declared channel.\<close>

definition data_frame :: "block_reader \<Rightarrow> u16 \<Rightarrow> channel_info \<Rightarrow> u32 \<Rightarrow> byte list \<Rightarrow> bool" where
  "data_frame r channel info len rest \<longleftrightarrow>
     \<not> br_finished r \<and> br_channels r channel = Some info
     \<and> channel \<noteq> TRAILER_CHANNEL_INDEX
     \<and> (br_integrity r = IpNone \<or> channel \<noteq> SIGNATURE_CHANNEL_INDEX)
     \<and> (ci_size_of_length_value info = 2 \<and> unat len < 65536 \<or> ci_size_of_length_value info = 4)
     \<and> pending (br_inner r) = frame_prefix channel (ci_size_of_length_value info) len @ rest"

lemma take_le_encode: "m \<le> n \<Longrightarrow> take m (le_encode n v) = le_encode m v"
proof (induction n arbitrary: m v)
  case 0
  then show ?case by simp
next
  case (Suc n)
  then show ?case by (cases m) simp_all
qed

lemma from_le_take2:
  assumes "unat (len :: u32) < 65536" shows "from_le (take 2 (u32_le len)) = len"
proof -
  have "take 2 (u32_le len) = le_encode 2 (unat len)"
    by (simp add: u32_le_def take_le_encode)
  then show ?thesis using assms by (simp add: from_le_def le_decode_encode)
qed

lemma length_field_from_le:
  "w = 2 \<and> unat len < 65536 \<or> w = 4 \<Longrightarrow> from_le (length_field_bytes w len) = len"
  by (auto simp: length_field_bytes_def from_le_take2 from_le_u32)

lemma length_field_length: "w = 2 \<or> w = 4 \<Longrightarrow> length (length_field_bytes w len) = unat w"
  by (auto simp: length_field_bytes_def)

lemma add_bytes_inner [simp]: "add_bytes n r\<lparr>br_inner := i\<rparr> = add_bytes n (r\<lparr>br_inner := i\<rparr>)"
  by (simp add: add_bytes_def)

lemma inner_exact_append:
  "pending (br_inner r) = xs @ ys \<Longrightarrow> length xs = n \<Longrightarrow>
   inner_exact n r = (Got xs, r\<lparr>br_inner := (br_inner r)\<lparr>pending := ys\<rparr>\<rparr>)"
  by (simp add: inner_exact_def codec)

lemma inner_drain_append:
  "pending (br_inner r) = xs @ ys \<Longrightarrow> length xs = n \<Longrightarrow>
   inner_drain n r = (Got (), r\<lparr>br_inner := (br_inner r)\<lparr>pending := ys\<rparr>\<rparr>)"
  by (simp add: inner_drain_def codec)

lemma next_block_data_frame:
  assumes "data_frame r channel info len rest"
  shows "next_block crc32c r =
     (if len = 0
      then (skipped_item channel ZeroLengthBlock 0 None,
            record_skip channel 0 ZeroLengthBlock (at_data (ci_size_of_length_value info) rest r))
      else (case unsupported_reason info of
              Some reason \<Rightarrow> skip_block channel len reason (at_data (ci_size_of_length_value info) rest r)
            | None \<Rightarrow> next_payload crc32c channel info len (at_data (ci_size_of_length_value info) rest r)))"
proof -
  let ?w = "ci_size_of_length_value info"
  have w: "?w = 2 \<and> unat len < 65536 \<or> ?w = 4" and w': "?w = 2 \<or> ?w = 4"
    using assms by (auto simp: data_frame_def)
  have p: "pending (br_inner r) = u16_le channel @ (length_field_bytes ?w len @ rest)"
    using assms by (simp add: data_frame_def frame_prefix_def)
  let ?r = "add_bytes 2 (r\<lparr>br_inner := (br_inner r)\<lparr>pending := length_field_bytes ?w len @ rest\<rparr>\<rparr>)"
  have first: "inner_exact 2 r =
      (Got (u16_le channel), r\<lparr>br_inner := (br_inner r)\<lparr>pending := length_field_bytes ?w len @ rest\<rparr>\<rparr>)"
    by (rule inner_exact_append [OF p]) simp
  have second: "read_length_field ?w ?r = (Inr (Some len), ?r\<lparr>br_inner := (br_inner r)\<lparr>pending := rest\<rparr>\<rparr>)"
    using w' inner_exact_append [of ?r "length_field_bytes ?w len" rest "unat ?w"]
    by (simp add: read_length_field_def length_field_length length_field_from_le [OF w])
  have "next_block crc32c r = next_channel_block crc32c channel ?r"
    using assms by (auto simp: next_block_def first from_le_u16 data_frame_def Let_def)
  also have "\<dots> = (let r2 = at_data ?w rest r in
      if len = 0 then (skipped_item channel ZeroLengthBlock 0 None, record_skip channel 0 ZeroLengthBlock r2)
      else (case unsupported_reason info of
              Some reason \<Rightarrow> skip_block channel len reason r2
            | None \<Rightarrow> next_payload crc32c channel info len r2))"
    using assms second by (simp add: next_channel_block_def data_frame_def at_data_def)
  finally show ?thesis by (simp add: Let_def)
qed

section \<open>Truncated blocks\<close>

text \<open>
  C37. A block cut short inside its data area ends the stream. For a channel of a supported
  datatype the iterator ends silently with the truncation noted; for a channel of an unsupported
  datatype the same truncation is reported as an I/O error, although the module documentation
  promises the blocks read so far and then \<open>None\<close>.
\<close>

theorem truncated_data_area:
  assumes frame: "data_frame r channel info len rest"
    and short: "length rest < unat len" and sound: "\<not> faulty (br_inner r)"
  shows "fst (next_block crc32c r) =
           (if is_unsupported (ci_data_type info) then Some (Inl (Io UnexpectedEof)) else None)
         \<and> br_finished (snd (next_block crc32c r))
         \<and> 1 \<le> rs_blocks_truncated (br_stats (snd (next_block crc32c r)))"
proof -
  have "len \<noteq> 0" using short by auto
  moreover have "pending (br_inner (at_data w rest r)) = rest" for w by simp
  moreover have "\<not> faulty (br_inner (at_data w rest r))" for w using sound by simp
  ultimately show ?thesis
    using short sound
    by (cases "is_unsupported (ci_data_type info)")
       (auto simp: next_block_data_frame [OF frame] unsupported_reason_def skip_block_def
          next_payload_def inner_exact_def inner_drain_def read_exact_def drain_def exhausted_def
          stop_truncated_def note_truncated_def finish_def)
qed

text \<open>Fixed-width encodings, for concrete runs.\<close>

lemma le_encode_numerals:
  "le_encode 2 v = [of_nat v, of_nat (v div 256)]"
  "le_encode 4 v = [of_nat v, of_nat (v div 256), of_nat (v div 65536), of_nat (v div 16777216)]"
proof -
  have four: "4 = Suc (Suc (Suc (Suc 0)))" by simp
  show "le_encode 2 v = [of_nat v, of_nat (v div 256)]"
    by (simp add: numeral_2_eq_2)
  show "le_encode 4 v = [of_nat v, of_nat (v div 256), of_nat (v div 65536), of_nat (v div 16777216)]"
    by (simp only: four le_encode.simps div_mult2_eq [symmetric]) simp
qed

text \<open>A one-channel reader over given bytes, for concrete runs.\<close>

definition demo_reader :: "data_type \<Rightarrow> u8 \<Rightarrow> integrity_profile \<Rightarrow> byte list \<Rightarrow> block_reader" where
  "demo_reader dt width profile bs =
     \<lparr>br_inner = source bs, br_osf_version = Osf5,
      br_channels = [7 \<mapsto> \<lparr>ci_data_type = dt, ci_size_of_length_value = width\<rparr>],
      br_finished = False, br_capture_skipped = False, br_integrity = profile,
      br_stats = reader_stats_default\<rparr>"

theorem truncated_data_area_witness:
  "fst (next_block (\<lambda>_. 0) (demo_reader (DtUnsupported ''x'') 2 IpNone [7, 0, 5, 0, 1, 2]))
     = Some (Inl (Io UnexpectedEof))
   \<and> fst (next_block (\<lambda>_. 0) (demo_reader DtInt8 2 IpNone [7, 0, 5, 0, 1, 2])) = None"
proof -
  have frame: "data_frame (demo_reader dt 2 IpNone [7, 0, 5, 0, 1, 2]) 7
      \<lparr>ci_data_type = dt, ci_size_of_length_value = 2\<rparr> 5 [1, 2]" for dt
    by (simp add: data_frame_def demo_reader_def TRAILER_CHANNEL_INDEX_def frame_prefix_def
          u16_le_def u32_le_def length_field_bytes_def le_encode_numerals)
  show ?thesis
    using truncated_data_area [OF frame [of "DtUnsupported ''x''"], of "\<lambda>_. 0"]
      truncated_data_area [OF frame [of DtInt8], of "\<lambda>_. 0"]
    by (simp add: demo_reader_def)
qed

section \<open>Frames with a checksum\<close>

text \<open>The CRC32C over a frame, as the reader computes it.\<close>

definition frame_checksum :: "(byte list \<Rightarrow> u32) \<Rightarrow> u16 \<Rightarrow> u8 \<Rightarrow> u32 \<Rightarrow> byte list \<Rightarrow> u32" where
  "frame_checksum crc32c channel width len body =
     crc32c_of_parts crc32c [u16_le channel, length_field_bytes width len, body]"

text \<open>
  C18. At integrity level crc or signed, a complete block of a supported channel whose last four
  bytes are not the CRC32C of the frame never yields samples: it becomes a skipped block with
  reason \<open>CrcFailed\<close>, the failure is counted, and the reader goes on at the first byte after it.
\<close>

theorem corrupt_frame_is_dropped:
  assumes frame: "data_frame r channel info len (body @ u32_le stored @ rest)"
    and integ: "IpCrc32c \<le> br_integrity r" and supp: "\<not> is_unsupported (ci_data_type info)"
    and len: "unat len = length body + 4"
    and bad: "body = [] \<or> stored \<noteq> frame_checksum crc32c channel (ci_size_of_length_value info) len body"
  shows "\<exists>captured. fst (next_block crc32c r) = skipped_item channel CrcFailed (unat len) captured
         \<and> rs_blocks_crc_failed (br_stats (snd (next_block crc32c r))) = rs_blocks_crc_failed (br_stats r) + 1
         \<and> rs_blocks_read (br_stats (snd (next_block crc32c r))) = rs_blocks_read (br_stats r)
         \<and> \<not> br_finished (snd (next_block crc32c r))
         \<and> pending (br_inner (snd (next_block crc32c r))) = rest"
proof -
  let ?w = "ci_size_of_length_value info" and ?r = "at_data (ci_size_of_length_value info) (body @ u32_le stored @ rest) r"
  have nz: "len \<noteq> 0" using len by auto
  have got: "inner_exact (unat len) ?r =
      (Got (body @ u32_le stored), ?r\<lparr>br_inner := (br_inner ?r)\<lparr>pending := rest\<rparr>\<rparr>)"
    using len by (intro inner_exact_append) simp_all
  have "isl (strip_frame_crc crc32c channel ?w len (br_capture_skipped r) (body @ u32_le stored))"
    using bad by (auto simp: strip_frame_crc_def Let_def from_le_u32 frame_checksum_def)
  then obtain captured where strip:
    "strip_frame_crc crc32c channel ?w len (br_capture_skipped r) (body @ u32_le stored) = Inl captured"
    by (auto simp: isl_def)
  show ?thesis
    using nz supp integ frame
    by (auto simp: crc_level next_block_data_frame [OF frame] unsupported_reason_def next_payload_def got strip
          Let_def record_skip_def add_bytes_def update_channel_def data_frame_def)
qed

theorem corrupt_frame_is_dropped_witness:
  "fst (next_block (\<lambda>_. 1) (demo_reader DtInt8 2 IpCrc32c [7, 0, 6, 0, 5, 42, 0, 0, 0, 0]))
     \<noteq> None
   \<and> pending (br_inner (snd (next_block (\<lambda>_. 1)
       (demo_reader DtInt8 2 IpCrc32c [7, 0, 6, 0, 5, 42, 0, 0, 0, 0])))) = []"
proof -
  have frame: "data_frame (demo_reader DtInt8 2 IpCrc32c [7, 0, 6, 0, 5, 42, 0, 0, 0, 0]) 7
      \<lparr>ci_data_type = DtInt8, ci_size_of_length_value = 2\<rparr> 6 ([5, 42] @ u32_le 0 @ [])"
    by (simp add: data_frame_def demo_reader_def TRAILER_CHANNEL_INDEX_def SIGNATURE_CHANNEL_INDEX_def
          frame_prefix_def u16_le_def u32_le_def length_field_bytes_def le_encode_numerals)
  show ?thesis
    using corrupt_frame_is_dropped [OF frame, of "\<lambda>_. 1"]
    by (auto simp: crc_level demo_reader_def frame_checksum_def crc32c_of_parts_def skipped_item_def)
qed

end
