(* ===== verification/Manager.thy ===== *)
theory Manager
  imports DataChannel BlockStream
begin

text \<open>
  The channel builders of \<open>manager.rs\<close>: one builder per channel of the metablock, fed with the
  blocks of the stream and finalised into the typed channels of \<open>DataChannel\<close>. Builder fields carry the prefix \<open>bl\<close>, its states the prefix \<open>Bs\<close>.
  Capacity hints and log output are left out.
\<close>

section \<open>Builders\<close>

datatype builder_state =
    BsPending
  | BsEquidistant numeric_values "segment list"
  | BsTimestamped "i64 list" numeric_values
  | BsVariable "i64 list" "string list option" "byte list list option"
  | BsUnsupported

record channel_builder =
  bl_index :: u16
  bl_name :: string
  bl_data_type :: data_type
  bl_physical_unit :: "string option"
  bl_display_name :: "string option"
  bl_mime_type :: "string option"
  bl_channel_def :: channel_meta
  bl_state :: builder_state
  bl_last_timestamp_ns :: "i64 option"

definition initial_state_for :: "data_type \<Rightarrow> builder_state" where
  "initial_state_for dt =
     (if is_unsupported dt then BsUnsupported
      else case dt of
             DtString \<Rightarrow> BsVariable [] (Some []) None
           | DtBinary \<Rightarrow> BsVariable [] None (Some [])
           | DtByteArray \<Rightarrow> BsVariable [] None (Some [])
           | _ \<Rightarrow> BsPending)"

definition builder_for :: "meta_channel \<Rightarrow> channel_builder" where
  "builder_for chan =
     \<lparr>bl_index = mc_index chan, bl_name = mc_name chan, bl_data_type = mc_data_type chan,
      bl_physical_unit = mc_physical_unit chan, bl_display_name = mc_display_name chan,
      bl_mime_type = mc_mime_type chan,
      bl_channel_def =
        \<lparr>cm_channel_type = mc_channel_type chan,
         cm_size_of_length_value = mc_size_of_length_value chan,
         cm_time_increment_ns = mc_time_increment_ns chan, cm_reference = mc_reference chan,
         cm_physical_dimension = mc_physical_dimension chan, cm_comment = mc_comment chan,
         cm_spectrum_type = mc_spectrum_type chan\<rparr>,
      bl_state = initial_state_for (mc_data_type chan), bl_last_timestamp_ns = None\<rparr>"

section \<open>Payloads and storage\<close>

fun numeric_payload_data_type :: "numeric_payload \<Rightarrow> data_type" where
  "numeric_payload_data_type (NpBool _) = DtBool"
| "numeric_payload_data_type (NpInt8 _) = DtInt8"
| "numeric_payload_data_type (NpInt16 _) = DtInt16"
| "numeric_payload_data_type (NpInt32 _) = DtInt32"
| "numeric_payload_data_type (NpInt64 _) = DtInt64"
| "numeric_payload_data_type (NpUInt8 _) = DtUInt8"
| "numeric_payload_data_type (NpUInt16 _) = DtUInt16"
| "numeric_payload_data_type (NpUInt32 _) = DtUInt32"
| "numeric_payload_data_type (NpUInt64 _) = DtUInt64"
| "numeric_payload_data_type (NpFloat _) = DtFloat"
| "numeric_payload_data_type (NpDouble _) = DtDouble"

fun timestamped_payload_data_type :: "timestamped_payload \<Rightarrow> data_type" where
  "timestamped_payload_data_type (TpBool _) = DtBool"
| "timestamped_payload_data_type (TpInt8 _) = DtInt8"
| "timestamped_payload_data_type (TpInt16 _) = DtInt16"
| "timestamped_payload_data_type (TpInt32 _) = DtInt32"
| "timestamped_payload_data_type (TpInt64 _) = DtInt64"
| "timestamped_payload_data_type (TpUInt8 _) = DtUInt8"
| "timestamped_payload_data_type (TpUInt16 _) = DtUInt16"
| "timestamped_payload_data_type (TpUInt32 _) = DtUInt32"
| "timestamped_payload_data_type (TpUInt64 _) = DtUInt64"
| "timestamped_payload_data_type (TpFloat _) = DtFloat"
| "timestamped_payload_data_type (TpDouble _) = DtDouble"
| "timestamped_payload_data_type (TpString _) = DtString"
| "timestamped_payload_data_type (TpBinary _) = DtBinary"
| "timestamped_payload_data_type (TpGpsLocation _) = DtGpsLocation"

fun rel_timestamped_payload_data_type :: "rel_timestamped_payload \<Rightarrow> data_type" where
  "rel_timestamped_payload_data_type (RpBool _) = DtBool"
| "rel_timestamped_payload_data_type (RpInt8 _) = DtInt8"
| "rel_timestamped_payload_data_type (RpInt16 _) = DtInt16"
| "rel_timestamped_payload_data_type (RpInt32 _) = DtInt32"
| "rel_timestamped_payload_data_type (RpInt64 _) = DtInt64"
| "rel_timestamped_payload_data_type (RpUInt8 _) = DtUInt8"
| "rel_timestamped_payload_data_type (RpUInt16 _) = DtUInt16"
| "rel_timestamped_payload_data_type (RpUInt32 _) = DtUInt32"
| "rel_timestamped_payload_data_type (RpUInt64 _) = DtUInt64"
| "rel_timestamped_payload_data_type (RpFloat _) = DtFloat"
| "rel_timestamped_payload_data_type (RpDouble _) = DtDouble"

text \<open>
  \<open>extend_numeric\<close>: an arm appends when the storage has the payload's variant; any other
  combination is the catch-all arm.
\<close>

definition extend_numeric_arm ::
  "(numeric_values \<Rightarrow> 'a list option) \<Rightarrow> ('a list \<Rightarrow> numeric_values) \<Rightarrow> osf_error \<Rightarrow> numeric_values \<Rightarrow>
   'a list \<Rightarrow> osf_error + numeric_values"
where
  "extend_numeric_arm sel wrap mismatch target p =
     (case sel target of Some t \<Rightarrow> Inr (wrap (t @ p)) | None \<Rightarrow> Inl mismatch)"

definition extend_numeric :: "numeric_values \<Rightarrow> numeric_payload \<Rightarrow> u16 \<Rightarrow> osf_error + numeric_values" where
  "extend_numeric target payload channel =
     (let mismatch = DataTypeMismatch channel (nv_data_type target) (numeric_payload_data_type payload)
      in case payload of
           NpBool p \<Rightarrow> extend_numeric_arm the_Bool NvBool mismatch target p
         | NpInt8 p \<Rightarrow> extend_numeric_arm the_Int8 NvInt8 mismatch target p
         | NpInt16 p \<Rightarrow> extend_numeric_arm the_Int16 NvInt16 mismatch target p
         | NpInt32 p \<Rightarrow> extend_numeric_arm the_Int32 NvInt32 mismatch target p
         | NpInt64 p \<Rightarrow> extend_numeric_arm the_Int64 NvInt64 mismatch target p
         | NpUInt8 p \<Rightarrow> extend_numeric_arm the_UInt8 NvUInt8 mismatch target p
         | NpUInt16 p \<Rightarrow> extend_numeric_arm the_UInt16 NvUInt16 mismatch target p
         | NpUInt32 p \<Rightarrow> extend_numeric_arm the_UInt32 NvUInt32 mismatch target p
         | NpUInt64 p \<Rightarrow> extend_numeric_arm the_UInt64 NvUInt64 mismatch target p
         | NpFloat p \<Rightarrow> extend_numeric_arm the_Float NvFloat mismatch target p
         | NpDouble p \<Rightarrow> extend_numeric_arm the_Double NvDouble mismatch target p)"

definition split_pairs :: "(i64 \<times> 'a) list \<Rightarrow> ('a list \<Rightarrow> numeric_values) \<Rightarrow> i64 list \<times> numeric_values" where
  "split_pairs pairs wrap = (map fst pairs, wrap (map snd pairs))"

text \<open>The macro \<open>split\<close> and the arm it guards.\<close>

definition init_arm ::
  "data_type \<Rightarrow> data_type \<Rightarrow> u16 \<Rightarrow> (i64 \<times> 'a) list \<Rightarrow> ('a list \<Rightarrow> numeric_values) \<Rightarrow>
   osf_error + (i64 list \<times> numeric_values)"
where
  "init_arm want dt channel p wrap =
     (if want \<noteq> dt then Inl (DataTypeMismatch channel want dt) else Inr (split_pairs p wrap))"

fun init_timestamped_from_payload ::
  "data_type \<Rightarrow> timestamped_payload \<Rightarrow> u16 \<Rightarrow> osf_error + (i64 list \<times> numeric_values)"
where
  "init_timestamped_from_payload want (TpBool p) channel = init_arm want DtBool channel p NvBool"
| "init_timestamped_from_payload want (TpInt8 p) channel = init_arm want DtInt8 channel p NvInt8"
| "init_timestamped_from_payload want (TpInt16 p) channel = init_arm want DtInt16 channel p NvInt16"
| "init_timestamped_from_payload want (TpInt32 p) channel = init_arm want DtInt32 channel p NvInt32"
| "init_timestamped_from_payload want (TpInt64 p) channel = init_arm want DtInt64 channel p NvInt64"
| "init_timestamped_from_payload want (TpUInt8 p) channel = init_arm want DtUInt8 channel p NvUInt8"
| "init_timestamped_from_payload want (TpUInt16 p) channel = init_arm want DtUInt16 channel p NvUInt16"
| "init_timestamped_from_payload want (TpUInt32 p) channel = init_arm want DtUInt32 channel p NvUInt32"
| "init_timestamped_from_payload want (TpUInt64 p) channel = init_arm want DtUInt64 channel p NvUInt64"
| "init_timestamped_from_payload want (TpFloat p) channel = init_arm want DtFloat channel p NvFloat"
| "init_timestamped_from_payload want (TpDouble p) channel = init_arm want DtDouble channel p NvDouble"
| "init_timestamped_from_payload want (TpGpsLocation p) channel = init_arm want DtGpsLocation channel p NvGpsLocation"
| "init_timestamped_from_payload want (TpString _) channel =
     Inl (InvalidBlock ''unexpected variable-length payload routed through numeric timestamped init'')"
| "init_timestamped_from_payload want (TpBinary _) channel =
     Inl (InvalidBlock ''unexpected variable-length payload routed through numeric timestamped init'')"

text \<open>
  \<open>extend_timestamped\<close>: the macro \<open>extend_arm\<close> selects the storage variant (\<open>sel\<close>), pushes the
  pairs and returns their number.
\<close>

definition extend_arm ::
  "(numeric_values \<Rightarrow> 'a list option) \<Rightarrow> ('a list \<Rightarrow> numeric_values) \<Rightarrow> i64 list \<Rightarrow> numeric_values \<Rightarrow>
   (i64 \<times> 'a) list \<Rightarrow> osf_error + (i64 list \<times> numeric_values \<times> nat)"
where
  "extend_arm sel wrap timestamps values p =
     (case sel values of
        Some target \<Rightarrow> Inr (timestamps @ map fst p, wrap (target @ map snd p), length p)
      | None \<Rightarrow> Inl (Panic ''data-type check above guarantees NumericValues variant''))"

fun extend_timestamped_payload ::
  "i64 list \<Rightarrow> numeric_values \<Rightarrow> timestamped_payload \<Rightarrow> u16 \<Rightarrow>
   osf_error + (i64 list \<times> numeric_values \<times> nat)"
where
  "extend_timestamped_payload ts values (TpBool p) channel = extend_arm the_Bool NvBool ts values p"
| "extend_timestamped_payload ts values (TpInt8 p) channel = extend_arm the_Int8 NvInt8 ts values p"
| "extend_timestamped_payload ts values (TpInt16 p) channel = extend_arm the_Int16 NvInt16 ts values p"
| "extend_timestamped_payload ts values (TpInt32 p) channel = extend_arm the_Int32 NvInt32 ts values p"
| "extend_timestamped_payload ts values (TpInt64 p) channel = extend_arm the_Int64 NvInt64 ts values p"
| "extend_timestamped_payload ts values (TpUInt8 p) channel = extend_arm the_UInt8 NvUInt8 ts values p"
| "extend_timestamped_payload ts values (TpUInt16 p) channel = extend_arm the_UInt16 NvUInt16 ts values p"
| "extend_timestamped_payload ts values (TpUInt32 p) channel = extend_arm the_UInt32 NvUInt32 ts values p"
| "extend_timestamped_payload ts values (TpUInt64 p) channel = extend_arm the_UInt64 NvUInt64 ts values p"
| "extend_timestamped_payload ts values (TpFloat p) channel = extend_arm the_Float NvFloat ts values p"
| "extend_timestamped_payload ts values (TpDouble p) channel = extend_arm the_Double NvDouble ts values p"
| "extend_timestamped_payload ts values (TpGpsLocation p) channel = extend_arm the_GpsLocation NvGpsLocation ts values p"
| "extend_timestamped_payload ts values (TpString _) channel =
     Inl (DataTypeMismatch channel (nv_data_type values) DtString)"
| "extend_timestamped_payload ts values (TpBinary _) channel =
     Inl (DataTypeMismatch channel (nv_data_type values) DtBinary)"

definition extend_timestamped ::
  "i64 list \<Rightarrow> numeric_values \<Rightarrow> timestamped_payload \<Rightarrow> u16 \<Rightarrow>
   osf_error + (i64 list \<times> numeric_values \<times> nat)"
where
  "extend_timestamped ts values payload channel =
     (if timestamped_payload_data_type payload \<noteq> nv_data_type values
      then Inl (DataTypeMismatch channel (nv_data_type values) (timestamped_payload_data_type payload))
      else extend_timestamped_payload ts values payload channel)"

text \<open>\<open>extend_variable\<close> returns the new timestamps, strings, binaries and the number of samples.\<close>

definition extend_variable ::
  "i64 list \<Rightarrow> string list option \<Rightarrow> byte list list option \<Rightarrow> data_type \<Rightarrow> timestamped_payload \<Rightarrow> u16 \<Rightarrow>
   osf_error + (i64 list \<times> string list option \<times> byte list list option \<times> nat)"
where
  "extend_variable ts strings binaries want payload channel =
     (case payload of
        TpString pairs \<Rightarrow>
          if want = DtString
          then (case strings of
                  Some target \<Rightarrow> Inr (ts @ map fst pairs, Some (target @ map snd pairs), binaries, length pairs)
                | None \<Rightarrow> Inl (Panic ''string channel must have storage''))
          else Inl (DataTypeMismatch channel want DtString)
      | TpBinary pairs \<Rightarrow>
          if want = DtBinary \<or> want = DtByteArray
          then (case binaries of
                  Some target \<Rightarrow> Inr (ts @ map fst pairs, strings, Some (target @ map snd pairs), length pairs)
                | None \<Rightarrow> Inl (Panic ''binary channel must have storage''))
          else Inl (DataTypeMismatch channel want DtBinary)
      | _ \<Rightarrow> Inl (DataTypeMismatch channel want (timestamped_payload_data_type payload)))"

text \<open>\<open>last = last.saturating_add(i64::from(delta))\<close> along the deltas.\<close>

fun rel_times :: "i64 \<Rightarrow> u32 list \<Rightarrow> i64 list" where
  "rel_times anchor [] = []"
| "rel_times anchor (delta # deltas) =
     (let t = i64_saturating_add anchor (ucast delta) in t # rel_times t deltas)"

definition extend_rel_arm ::
  "(numeric_values \<Rightarrow> 'a list option) \<Rightarrow> ('a list \<Rightarrow> numeric_values) \<Rightarrow> i64 list \<Rightarrow> numeric_values \<Rightarrow> i64 \<Rightarrow>
   (u32 \<times> 'a) list \<Rightarrow> osf_error + (i64 list \<times> numeric_values \<times> i64)"
where
  "extend_rel_arm sel wrap timestamps values anchor p =
     (case sel values of
        Some target \<Rightarrow>
          (let ts = rel_times anchor (map fst p)
           in Inr (timestamps @ ts, wrap (target @ map snd p), last (anchor # ts)))
      | None \<Rightarrow> Inl (Panic ''data-type check above guarantees NumericValues variant''))"

fun extend_rel_payload ::
  "i64 list \<Rightarrow> numeric_values \<Rightarrow> i64 \<Rightarrow> rel_timestamped_payload \<Rightarrow>
   osf_error + (i64 list \<times> numeric_values \<times> i64)"
where
  "extend_rel_payload ts values anchor (RpBool p) = extend_rel_arm the_Bool NvBool ts values anchor p"
| "extend_rel_payload ts values anchor (RpInt8 p) = extend_rel_arm the_Int8 NvInt8 ts values anchor p"
| "extend_rel_payload ts values anchor (RpInt16 p) = extend_rel_arm the_Int16 NvInt16 ts values anchor p"
| "extend_rel_payload ts values anchor (RpInt32 p) = extend_rel_arm the_Int32 NvInt32 ts values anchor p"
| "extend_rel_payload ts values anchor (RpInt64 p) = extend_rel_arm the_Int64 NvInt64 ts values anchor p"
| "extend_rel_payload ts values anchor (RpUInt8 p) = extend_rel_arm the_UInt8 NvUInt8 ts values anchor p"
| "extend_rel_payload ts values anchor (RpUInt16 p) = extend_rel_arm the_UInt16 NvUInt16 ts values anchor p"
| "extend_rel_payload ts values anchor (RpUInt32 p) = extend_rel_arm the_UInt32 NvUInt32 ts values anchor p"
| "extend_rel_payload ts values anchor (RpUInt64 p) = extend_rel_arm the_UInt64 NvUInt64 ts values anchor p"
| "extend_rel_payload ts values anchor (RpFloat p) = extend_rel_arm the_Float NvFloat ts values anchor p"
| "extend_rel_payload ts values anchor (RpDouble p) = extend_rel_arm the_Double NvDouble ts values anchor p"

definition extend_rel_timestamped ::
  "i64 list \<Rightarrow> numeric_values \<Rightarrow> i64 \<Rightarrow> rel_timestamped_payload \<Rightarrow> u16 \<Rightarrow>
   osf_error + (i64 list \<times> numeric_values \<times> i64)"
where
  "extend_rel_timestamped ts values anchor payload channel =
     (if rel_timestamped_payload_data_type payload \<noteq> nv_data_type values
      then Inl (DataTypeMismatch channel (nv_data_type values) (rel_timestamped_payload_data_type payload))
      else extend_rel_payload ts values anchor payload)"

section \<open>Applying a block\<close>

definition update_last_ts_from_segment :: "channel_builder \<Rightarrow> i64 \<Rightarrow> f64 \<Rightarrow> nat \<Rightarrow> channel_builder" where
  "update_last_ts_from_segment b start rate count =
     (if count = 0 then b
      else b\<lparr>bl_last_timestamp_ns := Some
               (if f64_gt_zero rate
                then i64_saturating_add start
                       (f64_to_i64 (f64_div (f64_mul (f64_of_nat (count - 1)) f64_1e9) rate))
                else start)\<rparr>)"

definition expect_data_type :: "channel_builder \<Rightarrow> data_type \<Rightarrow> osf_error + unit" where
  "expect_data_type b got =
     (if got \<noteq> bl_data_type b then Inl (DataTypeMismatch (bl_index b) (bl_data_type b) got) else Inr ())"

definition apply_start ::
  "channel_builder \<Rightarrow> i64 \<Rightarrow> f64 \<Rightarrow> numeric_payload \<Rightarrow> osf_error + channel_builder"
where
  "apply_start b start rate payload =
     and_then (expect_data_type b (numeric_payload_data_type payload)) (\<lambda>_.
       case bl_state b of
         BsPending \<Rightarrow>
           and_then (ok_or (InvalidBlock ''channel cannot hold equidistant samples'')
                           (empty_for (bl_data_type b))) (\<lambda>empty.
           and_then (extend_numeric empty payload (bl_index b)) (\<lambda>samples.
             Inr (update_last_ts_from_segment
               (b\<lparr>bl_state := BsEquidistant samples
                    [\<lparr>start_timestamp_ns = start, sample_rate_hz = rate, start_index = 0,
                      sample_count = nv_len samples\<rparr>]\<rparr>)
               start rate (nv_len samples))))
       | BsEquidistant samples segments \<Rightarrow>
           and_then (extend_numeric samples payload (bl_index b)) (\<lambda>samples'.
             (let appended = nv_len samples' - nv_len samples
              in Inr (update_last_ts_from_segment
                   (b\<lparr>bl_state := BsEquidistant samples'
                        (segments @ [\<lparr>start_timestamp_ns = start, sample_rate_hz = rate,
                                      start_index = nv_len samples, sample_count = appended\<rparr>])\<rparr>)
                   start rate appended)))
       | BsTimestamped _ _ \<Rightarrow> Inl (ChannelMixedBlockTypes (bl_index b))
       | BsVariable _ _ _ \<Rightarrow> Inl (ChannelMixedBlockTypes (bl_index b))
       | BsUnsupported \<Rightarrow> Inr b)"

definition apply_continued :: "channel_builder \<Rightarrow> numeric_payload \<Rightarrow> osf_error + channel_builder" where
  "apply_continued b payload =
     and_then (expect_data_type b (numeric_payload_data_type payload)) (\<lambda>_.
       case bl_state b of
         BsPending \<Rightarrow> Inl (ContinuedDataWithoutStart (bl_index b))
       | BsEquidistant samples segments \<Rightarrow>
           if segments = [] then Inl (ContinuedDataWithoutStart (bl_index b))
           else and_then (extend_numeric samples payload (bl_index b)) (\<lambda>samples'.
             (let lst = last segments;
                  lst' = lst\<lparr>sample_count := sample_count lst + (nv_len samples' - nv_len samples)\<rparr>
              in Inr (update_last_ts_from_segment
                   (b\<lparr>bl_state := BsEquidistant samples' (butlast segments @ [lst'])\<rparr>)
                   (start_timestamp_ns lst') (sample_rate_hz lst') (sample_count lst'))))
       | BsTimestamped _ _ \<Rightarrow> Inl (ChannelMixedBlockTypes (bl_index b))
       | BsVariable _ _ _ \<Rightarrow> Inl (ChannelMixedBlockTypes (bl_index b))
       | BsUnsupported \<Rightarrow> Inr b)"

text \<open>\<open>timestamps.last().copied()\<close>.\<close>

definition last_of :: "'a list \<Rightarrow> 'a option" where
  "last_of v = (if v = [] then None else Some (last v))"

definition apply_abs_timestamped ::
  "channel_builder \<Rightarrow> timestamped_payload \<Rightarrow> osf_error + channel_builder"
where
  "apply_abs_timestamped b payload =
     and_then (expect_data_type b (timestamped_payload_data_type payload)) (\<lambda>_.
       case bl_state b of
         BsPending \<Rightarrow>
           map_ok (\<lambda>(ts, values). b\<lparr>bl_last_timestamp_ns := last_of ts, bl_state := BsTimestamped ts values\<rparr>)
             (init_timestamped_from_payload (bl_data_type b) payload (bl_index b))
       | BsTimestamped ts values \<Rightarrow>
           map_ok (\<lambda>(ts', values', count).
               b\<lparr>bl_state := BsTimestamped ts' values',
                 bl_last_timestamp_ns := (if 0 < count then last_of ts' else bl_last_timestamp_ns b)\<rparr>)
             (extend_timestamped ts values payload (bl_index b))
       | BsVariable ts strings binaries \<Rightarrow>
           map_ok (\<lambda>(ts', strings', binaries', count).
               b\<lparr>bl_state := BsVariable ts' strings' binaries',
                 bl_last_timestamp_ns := (if 0 < count then last_of ts' else bl_last_timestamp_ns b)\<rparr>)
             (extend_variable ts strings binaries (bl_data_type b) payload (bl_index b))
       | BsEquidistant _ _ \<Rightarrow> Inl (ChannelMixedBlockTypes (bl_index b))
       | BsUnsupported \<Rightarrow> Inr b)"

definition apply_rel_timestamped ::
  "channel_builder \<Rightarrow> rel_timestamped_payload \<Rightarrow> osf_error + channel_builder"
where
  "apply_rel_timestamped b payload =
     and_then (expect_data_type b (rel_timestamped_payload_data_type payload)) (\<lambda>_.
     and_then (ok_or (RelStampWithoutAnchor (bl_index b)) (bl_last_timestamp_ns b)) (\<lambda>anchor.
       case bl_state b of
         BsTimestamped ts values \<Rightarrow>
           map_ok (\<lambda>(ts', values', new_anchor).
               b\<lparr>bl_state := BsTimestamped ts' values', bl_last_timestamp_ns := Some new_anchor\<rparr>)
             (extend_rel_timestamped ts values anchor payload (bl_index b))
       | BsPending \<Rightarrow> Inl (ChannelMixedBlockTypes (bl_index b))
       | BsEquidistant _ _ \<Rightarrow> Inl (ChannelMixedBlockTypes (bl_index b))
       | BsVariable _ _ _ \<Rightarrow> Inl (ChannelMixedBlockTypes (bl_index b))
       | BsUnsupported \<Rightarrow> Inr b))"

fun apply_block :: "channel_builder \<Rightarrow> block_kind \<Rightarrow> osf_error + channel_builder" where
  "apply_block b (Skipped _ _ _) = Inr b"
| "apply_block b (StartData start rate samples) = apply_start b start rate samples"
| "apply_block b (ContinuedData samples) = apply_continued b samples"
| "apply_block b (AbsTimestampData samples) = apply_abs_timestamped b samples"
| "apply_block b (ContinuedRelStampData samples) = apply_rel_timestamped b samples"

section \<open>Finalising\<close>

definition to_equidistant :: "channel_builder \<Rightarrow> numeric_values \<Rightarrow> segment list \<Rightarrow> channel" where
  "to_equidistant b samples segments = Equidistant
     \<lparr>ec_index = bl_index b, ec_name = bl_name b, ec_data_type = bl_data_type b,
      ec_physical_unit = bl_physical_unit b, ec_display_name = bl_display_name b,
      ec_channel_def = bl_channel_def b, ec_samples = samples, ec_segments = segments\<rparr>"

definition to_timestamped :: "channel_builder \<Rightarrow> i64 list \<Rightarrow> numeric_values \<Rightarrow> channel" where
  "to_timestamped b ts values = Timestamped
     \<lparr>tc_index = bl_index b, tc_name = bl_name b, tc_data_type = bl_data_type b,
      tc_physical_unit = bl_physical_unit b, tc_display_name = bl_display_name b,
      tc_channel_def = bl_channel_def b, tc_timestamps_ns = ts, tc_values = values\<rparr>"

definition to_variable ::
  "channel_builder \<Rightarrow> i64 list \<Rightarrow> string list option \<Rightarrow> byte list list option \<Rightarrow> channel"
where
  "to_variable b ts strings binaries = VariableChannel
     \<lparr>vc_index = bl_index b, vc_name = bl_name b, vc_data_type = bl_data_type b,
      vc_physical_unit = bl_physical_unit b, vc_display_name = bl_display_name b,
      vc_mime_type = bl_mime_type b, vc_channel_def = bl_channel_def b, vc_timestamps_ns = ts,
      vc_string_values = strings, vc_binary_values = binaries\<rparr>"

definition finalize :: "channel_builder \<Rightarrow> channel option" where
  "finalize b =
     (case bl_state b of
        BsUnsupported \<Rightarrow> None
      | BsPending \<Rightarrow>
          if bl_data_type b = DtString then Some (to_variable b [] (Some []) None)
          else if bl_data_type b = DtBinary \<or> bl_data_type b = DtByteArray
            then Some (to_variable b [] None (Some []))
          else map_option (\<lambda>samples. to_equidistant b samples []) (empty_for (bl_data_type b))
      | BsEquidistant samples segments \<Rightarrow> Some (to_equidistant b samples segments)
      | BsTimestamped ts values \<Rightarrow> Some (to_timestamped b ts values)
      | BsVariable ts strings binaries \<Rightarrow> Some (to_variable b ts strings binaries))"

section \<open>\<open>build_channels\<close>\<close>

type_synonym builders = "u16 \<rightharpoonup> channel_builder"
type_synonym build_output = "channel list \<times> (string \<rightharpoonup> nat) \<times> (u16 \<rightharpoonup> nat)"

definition insert_builder :: "builders \<Rightarrow> meta_channel \<Rightarrow> builders" where
  "insert_builder builders chan = builders(mc_index chan \<mapsto> builder_for chan)"

text \<open>One turn of the block loop.\<close>

definition feed_block :: "builders \<Rightarrow> osf_error + block \<Rightarrow> osf_error + builders" where
  "feed_block builders item =
     and_then item (\<lambda>blk.
       case builders (blk_channel_index blk) of
         None \<Rightarrow> Inl (UnknownChannelIndex (blk_channel_index blk))
       | Some b \<Rightarrow> map_ok (\<lambda>b'. builders(blk_channel_index blk \<mapsto> b')) (apply_block b (blk_kind blk)))"

text \<open>The loop over \<open>order\<close>; \<open>builders.remove\<close> makes a repeated index a no-op.\<close>

fun collect_channels :: "u16 list \<Rightarrow> builders \<Rightarrow> build_output \<Rightarrow> build_output" where
  "collect_channels [] builders out = out"
| "collect_channels (index # order) builders (channels, by_name, by_index) =
     (case builders index of
        None \<Rightarrow> collect_channels order builders (channels, by_name, by_index)
      | Some b \<Rightarrow>
          (case finalize b of
             None \<Rightarrow> collect_channels order (builders(index := None)) (channels, by_name, by_index)
           | Some c \<Rightarrow>
               collect_channels order (builders(index := None))
                 (channels @ [c], by_name(channel_name c \<mapsto> length channels),
                  by_index(channel_index c \<mapsto> length channels))))"

definition build_channels :: "meta_block \<Rightarrow> (osf_error + block) list \<Rightarrow> osf_error + build_output" where
  "build_channels meta blocks =
     map_ok (\<lambda>builders. collect_channels (map mc_index (mb_channels meta)) builders ([], Map.empty, Map.empty))
       (exec_all feed_block (foldl insert_builder Map.empty (mb_channels meta)) blocks)"

end
