(* ===== verification/ManagerLaws.thy ===== *)
theory ManagerLaws
  imports Manager
begin

text \<open>
  What the channel builders guarantee. \<open>bl_wf\<close> is their invariant, \<open>builder_log\<close> the list of
  timed samples a builder stands for; applying a block keeps the invariant, appends exactly the
  block's samples to the log, and fails only with the errors of the builder state machine.
\<close>

section \<open>Samples of payloads and builders\<close>

datatype sample = NumSample numeric_value_ref | VarSample variable_value_ref

fun np_refs :: "numeric_payload \<Rightarrow> numeric_value_ref list" where
  "np_refs (NpBool v) = map VrBool v"
| "np_refs (NpInt8 v) = map VrInt8 v"
| "np_refs (NpInt16 v) = map VrInt16 v"
| "np_refs (NpInt32 v) = map VrInt32 v"
| "np_refs (NpInt64 v) = map VrInt64 v"
| "np_refs (NpUInt8 v) = map VrUInt8 v"
| "np_refs (NpUInt16 v) = map VrUInt16 v"
| "np_refs (NpUInt32 v) = map VrUInt32 v"
| "np_refs (NpUInt64 v) = map VrUInt64 v"
| "np_refs (NpFloat v) = map VrFloat v"
| "np_refs (NpDouble v) = map VrDouble v"

fun tp_samples :: "timestamped_payload \<Rightarrow> (i64 \<times> sample) list" where
  "tp_samples (TpBool v) = map (apsnd (NumSample \<circ> VrBool)) v"
| "tp_samples (TpInt8 v) = map (apsnd (NumSample \<circ> VrInt8)) v"
| "tp_samples (TpInt16 v) = map (apsnd (NumSample \<circ> VrInt16)) v"
| "tp_samples (TpInt32 v) = map (apsnd (NumSample \<circ> VrInt32)) v"
| "tp_samples (TpInt64 v) = map (apsnd (NumSample \<circ> VrInt64)) v"
| "tp_samples (TpUInt8 v) = map (apsnd (NumSample \<circ> VrUInt8)) v"
| "tp_samples (TpUInt16 v) = map (apsnd (NumSample \<circ> VrUInt16)) v"
| "tp_samples (TpUInt32 v) = map (apsnd (NumSample \<circ> VrUInt32)) v"
| "tp_samples (TpUInt64 v) = map (apsnd (NumSample \<circ> VrUInt64)) v"
| "tp_samples (TpFloat v) = map (apsnd (NumSample \<circ> VrFloat)) v"
| "tp_samples (TpDouble v) = map (apsnd (NumSample \<circ> VrDouble)) v"
| "tp_samples (TpGpsLocation v) = map (apsnd (NumSample \<circ> VrGpsLocation)) v"
| "tp_samples (TpString v) = map (apsnd (VarSample \<circ> VrString)) v"
| "tp_samples (TpBinary v) = map (apsnd (VarSample \<circ> VrBinary)) v"

fun rp_samples :: "rel_timestamped_payload \<Rightarrow> (u32 \<times> sample) list" where
  "rp_samples (RpBool v) = map (apsnd (NumSample \<circ> VrBool)) v"
| "rp_samples (RpInt8 v) = map (apsnd (NumSample \<circ> VrInt8)) v"
| "rp_samples (RpInt16 v) = map (apsnd (NumSample \<circ> VrInt16)) v"
| "rp_samples (RpInt32 v) = map (apsnd (NumSample \<circ> VrInt32)) v"
| "rp_samples (RpInt64 v) = map (apsnd (NumSample \<circ> VrInt64)) v"
| "rp_samples (RpUInt8 v) = map (apsnd (NumSample \<circ> VrUInt8)) v"
| "rp_samples (RpUInt16 v) = map (apsnd (NumSample \<circ> VrUInt16)) v"
| "rp_samples (RpUInt32 v) = map (apsnd (NumSample \<circ> VrUInt32)) v"
| "rp_samples (RpUInt64 v) = map (apsnd (NumSample \<circ> VrUInt64)) v"
| "rp_samples (RpFloat v) = map (apsnd (NumSample \<circ> VrFloat)) v"
| "rp_samples (RpDouble v) = map (apsnd (NumSample \<circ> VrDouble)) v"

lemma length_np_refs [simp]: "length (np_refs p) = np_len p"
  by (cases p) simp_all

lemma length_tp_samples [simp]: "length (tp_samples p) = tp_len p"
  by (cases p) simp_all

lemma length_rp_samples [simp]: "length (rp_samples p) = rp_len p"
  by (cases p) simp_all

definition rel_log :: "i64 \<Rightarrow> (u32 \<times> sample) list \<Rightarrow> (i64 \<times> sample) list" where
  "rel_log anchor p = zip (rel_times anchor (map fst p)) (map snd p)"

lemma length_rel_times [simp]: "length (rel_times anchor ds) = length ds"
  by (induction ds arbitrary: anchor) (simp_all add: Let_def)

definition text_samples :: "string list option \<Rightarrow> byte list list option \<Rightarrow> sample list" where
  "text_samples strings binaries =
     (case strings of
        Some s \<Rightarrow> map (VarSample \<circ> VrString) s
      | None \<Rightarrow> (case binaries of Some b \<Rightarrow> map (VarSample \<circ> VrBinary) b | None \<Rightarrow> []))"

definition builder_log :: "channel_builder \<Rightarrow> (i64 \<times> sample) list" where
  "builder_log b =
     (case bl_state b of
        BsPending \<Rightarrow> []
      | BsEquidistant samples segments \<Rightarrow>
          zip (segment_times segments) (map NumSample (refs_of samples))
      | BsTimestamped ts values \<Rightarrow> zip ts (map NumSample (refs_of values))
      | BsVariable ts strings binaries \<Rightarrow> zip ts (text_samples strings binaries)
      | BsUnsupported \<Rightarrow> [])"

text \<open>The samples a block adds to a builder.\<close>

fun block_log :: "channel_builder \<Rightarrow> block_kind \<Rightarrow> (i64 \<times> sample) list" where
  "block_log b (StartData start rate v) =
     zip (map (segment_timestamp \<lparr>start_timestamp_ns = start, sample_rate_hz = rate,
                                  start_index = 0, sample_count = 0\<rparr>) [0..<np_len v])
         (map NumSample (np_refs v))"
| "block_log b (ContinuedData v) =
     (case bl_state b of
        BsEquidistant _ segments \<Rightarrow>
          zip (map (segment_timestamp (last segments))
                 [sample_count (last segments)..<sample_count (last segments) + np_len v])
              (map NumSample (np_refs v))
      | _ \<Rightarrow> [])"
| "block_log b (AbsTimestampData p) = tp_samples p"
| "block_log b (ContinuedRelStampData p) = rel_log (the (bl_last_timestamp_ns b)) (rp_samples p)"
| "block_log b (Skipped _ _ _) = []"

section \<open>The builder invariant\<close>

definition state_wf :: "data_type \<Rightarrow> builder_state \<Rightarrow> i64 option \<Rightarrow> bool" where
  "state_wf dt st anchor \<longleftrightarrow>
     (case st of
        BsPending \<Rightarrow> empty_for dt \<noteq> None \<and> anchor = None
      | BsEquidistant samples segments \<Rightarrow>
          nv_data_type samples = dt \<and> segments \<noteq> [] \<and> segments_tile 0 segments (nv_len samples)
      | BsTimestamped ts values \<Rightarrow>
          nv_data_type values = dt \<and> length ts = nv_len values \<and> anchor = last_of ts
      | BsVariable ts strings binaries \<Rightarrow>
          anchor = last_of ts
          \<and> (dt = DtString \<and> binaries = None \<and> (\<exists>s. strings = Some s \<and> length s = length ts)
             \<or> (dt = DtBinary \<or> dt = DtByteArray) \<and> strings = None
               \<and> (\<exists>bs. binaries = Some bs \<and> length bs = length ts))
      | BsUnsupported \<Rightarrow> is_unsupported dt)"

definition bl_wf :: "channel_builder \<Rightarrow> bool" where
  "bl_wf b \<longleftrightarrow> state_wf (bl_data_type b) (bl_state b) (bl_last_timestamp_ns b)"

lemma builder_for_wf [wf_intros]: "bl_wf (builder_for chan)"
  by (cases "mc_data_type chan")
     (simp_all add: bl_wf_def builder_for_def initial_state_for_def state_wf_def last_of_def)

text \<open>The errors a builder may report.\<close>

fun builder_error :: "osf_error \<Rightarrow> bool" where
  "builder_error (DataTypeMismatch _ _ _) = True"
| "builder_error (ChannelMixedBlockTypes _) = True"
| "builder_error (ContinuedDataWithoutStart _) = True"
| "builder_error (RelStampWithoutAnchor _) = True"
| "builder_error _ = False"

section \<open>Appending to storage\<close>

lemma extend_numeric_ok:
  assumes "nv_data_type t = numeric_payload_data_type p"
  obtains t' where "extend_numeric t p ch = Inr t'" "refs_of t' = refs_of t @ np_refs p"
    "nv_data_type t' = nv_data_type t" "nv_len t' = nv_len t + np_len p"
  using assms by (cases p; cases t) (auto simp: extend_numeric_def extend_numeric_arm_def)

lemma empty_for_ok:
  assumes "empty_for dt \<noteq> None"
  obtains t where "empty_for dt = Some t" "nv_data_type t = dt" "refs_of t = []" "nv_len t = 0"
  using assms by (cases dt) auto

lemma extend_timestamped_ok:
  assumes "nv_data_type nv = timestamped_payload_data_type p"
  obtains nv' where
    "extend_timestamped ts nv p ch = Inr (ts @ map fst (tp_samples p), nv', tp_len p)"
    "map NumSample (refs_of nv') = map NumSample (refs_of nv) @ map snd (tp_samples p)"
    "nv_data_type nv' = nv_data_type nv" "nv_len nv' = nv_len nv + tp_len p"
  using assms by (cases p; cases nv) (auto simp: extend_timestamped_def extend_arm_def)

lemma init_timestamped_ok:
  assumes "dt = timestamped_payload_data_type p" "empty_for dt \<noteq> None"
  obtains nv where
    "init_timestamped_from_payload dt p ch = Inr (map fst (tp_samples p), nv)"
    "map NumSample (refs_of nv) = map snd (tp_samples p)"
    "nv_data_type nv = dt" "nv_len nv = tp_len p"
  using assms by (cases p) (auto simp: init_arm_def split_pairs_def)

lemma extend_rel_ok:
  assumes "nv_data_type nv = rel_timestamped_payload_data_type p"
  obtains nv' where
    "extend_rel_timestamped ts nv anchor p ch =
       Inr (ts @ rel_times anchor (map fst (rp_samples p)), nv',
            last (anchor # rel_times anchor (map fst (rp_samples p))))"
    "map NumSample (refs_of nv') = map NumSample (refs_of nv) @ map snd (rp_samples p)"
    "nv_data_type nv' = nv_data_type nv" "nv_len nv' = nv_len nv + rp_len p"
  using assms by (cases p; cases nv) (auto simp: extend_rel_timestamped_def extend_rel_arm_def Let_def)

section \<open>Applying a block\<close>

text \<open>The fields of a builder that no block changes.\<close>

definition identity_of :: "channel_builder \<Rightarrow> channel_builder" where
  "identity_of b = b\<lparr>bl_state := BsPending, bl_last_timestamp_ns := None\<rparr>"

definition applied :: "channel_builder \<Rightarrow> block_kind \<Rightarrow> osf_error + channel_builder \<Rightarrow> bool" where
  "applied b kind r \<longleftrightarrow>
     (case r of
        Inr b' \<Rightarrow> bl_wf b' \<and> builder_log b' = builder_log b @ block_log b kind
                 \<and> identity_of b' = identity_of b
      | Inl e \<Rightarrow> builder_error e)"

lemma applied_simps [simp]:
  "applied b kind (Inr b') \<longleftrightarrow>
     bl_wf b' \<and> builder_log b' = builder_log b @ block_log b kind \<and> identity_of b' = identity_of b"
  "applied b kind (Inl e) \<longleftrightarrow> builder_error e"
  by (simp_all add: applied_def)

lemma applied_expect:
  assumes "got = bl_data_type b \<Longrightarrow> applied b kind (f ())"
  shows "applied b kind (and_then (expect_data_type b got) f)"
  using assms by (cases "got = bl_data_type b") (simp_all add: expect_data_type_def)

lemma update_last_frame [simp]:
  "bl_state (update_last_ts_from_segment b start rate n) = bl_state b"
  "bl_data_type (update_last_ts_from_segment b start rate n) = bl_data_type b"
  "identity_of (update_last_ts_from_segment b start rate n) = identity_of b"
  "builder_log (update_last_ts_from_segment b start rate n) = builder_log b"
  by (simp_all add: update_last_ts_from_segment_def identity_of_def builder_log_def)

lemma identity_updates [simp]:
  "identity_of (b\<lparr>bl_state := st\<rparr>) = identity_of b"
  "identity_of (b\<lparr>bl_last_timestamp_ns := t\<rparr>) = identity_of b"
  by (simp_all add: identity_of_def)

lemma segment_timestamp_cong:
  "start_timestamp_ns s = start_timestamp_ns s' \<Longrightarrow> sample_rate_hz s = sample_rate_hz s' \<Longrightarrow>
   segment_timestamp s = segment_timestamp s'"
  by (rule ext) (simp add: segment_timestamp_def)

lemma segments_tile_times: "segments_tile b segs n \<Longrightarrow> length (segment_times segs) + b = n"
proof (induction segs arbitrary: b)
  case Nil
  then show ?case by (simp add: segment_times_def)
next
  case (Cons seg segs)
  from Cons.IH [of "b + sample_count seg"] Cons.prems show ?case by (simp add: segment_times_def)
qed

lemma segment_times_snoc [simp]:
  "segment_times (segs @ [seg]) = segment_times segs @ map (segment_timestamp seg) [0..<sample_count seg]"
  by (simp add: segment_times_def)

text \<open>The time of a sample depends on its segment only through start and rate.\<close>

definition time_at :: "i64 \<Rightarrow> f64 \<Rightarrow> nat \<Rightarrow> i64" where
  "time_at start rate i =
     segment_timestamp \<lparr>start_timestamp_ns = start, sample_rate_hz = rate, start_index = 0, sample_count = 0\<rparr> i"

lemma segment_timestamp_time_at:
  "segment_timestamp seg = time_at (start_timestamp_ns seg) (sample_rate_hz seg)"
  by (rule ext) (simp add: time_at_def segment_timestamp_def)

lemma expect_ok [simp]: "got = bl_data_type b \<Longrightarrow> expect_data_type b got = Inr ()"
  by (simp add: expect_data_type_def)

lemma unsupported_mismatch:
  assumes "bl_wf b" "bl_state b = BsUnsupported"
  shows "numeric_payload_data_type np \<noteq> bl_data_type b"
    "timestamped_payload_data_type tp \<noteq> bl_data_type b"
    "rel_timestamped_payload_data_type rp \<noteq> bl_data_type b"
proof -
  have u: "is_unsupported (bl_data_type b)" using assms by (simp add: bl_wf_def state_wf_def)
  show "numeric_payload_data_type np \<noteq> bl_data_type b" using u by (cases np) auto
  show "timestamped_payload_data_type tp \<noteq> bl_data_type b" using u by (cases tp) auto
  show "rel_timestamped_payload_data_type rp \<noteq> bl_data_type b" using u by (cases rp) auto
qed

lemma apply_start_applied:
  assumes wf: "bl_wf b" shows "applied b (StartData start rate v) (apply_start b start rate v)"
proof (cases "numeric_payload_data_type v = bl_data_type b")
  case False
  then show ?thesis by (simp add: apply_start_def expect_data_type_def)
next
  case dt: True
  show ?thesis
  proof (cases "bl_state b")
    case BsPending
    obtain t where t: "empty_for (bl_data_type b) = Some t" "nv_data_type t = bl_data_type b"
        "refs_of t = []" "nv_len t = 0"
      using wf BsPending by (auto simp: bl_wf_def state_wf_def intro: empty_for_ok [of "bl_data_type b"])
    obtain t' where t': "extend_numeric t v (bl_index b) = Inr t'" "refs_of t' = refs_of t @ np_refs v"
        "nv_data_type t' = nv_data_type t" "nv_len t' = nv_len t + np_len v"
      using extend_numeric_ok [of t v] t dt by metis
    show ?thesis
      using t t' BsPending dt
      by (simp add: apply_start_def bl_wf_def state_wf_def builder_log_def segment_times_def
            segment_timestamp_time_at)
  next
    case (BsEquidistant samples segments)
    have inv: "nv_data_type samples = bl_data_type b" "segments_tile 0 segments (nv_len samples)"
      using wf BsEquidistant by (simp_all add: bl_wf_def state_wf_def)
    obtain t' where t': "extend_numeric samples v (bl_index b) = Inr t'"
        "refs_of t' = refs_of samples @ np_refs v"
        "nv_data_type t' = nv_data_type samples" "nv_len t' = nv_len samples + np_len v"
      using extend_numeric_ok [of samples v] inv dt by metis
    show ?thesis
      using BsEquidistant inv t' segments_tile_times [OF inv(2)] dt
      by (simp add: apply_start_def Let_def bl_wf_def state_wf_def builder_log_def segments_tile_snoc
            segment_timestamp_time_at zip_append)
  next
    case BsUnsupported
    then show ?thesis using dt unsupported_mismatch(1) [OF wf] by blast
  qed (simp_all add: apply_start_def dt)
qed

lemma apply_continued_applied:
  assumes wf: "bl_wf b" shows "applied b (ContinuedData v) (apply_continued b v)"
proof (cases "numeric_payload_data_type v = bl_data_type b")
  case False
  then show ?thesis by (simp add: apply_continued_def expect_data_type_def)
next
  case dt: True
  show ?thesis
  proof (cases "bl_state b")
    case (BsEquidistant samples segments)
    have inv: "nv_data_type samples = bl_data_type b" "segments_tile 0 segments (nv_len samples)"
        "segments \<noteq> []"
      using wf BsEquidistant by (simp_all add: bl_wf_def state_wf_def)
    obtain segs seg where segs: "segments = segs @ [seg]" using inv(3) by (cases segments rule: rev_cases) auto
    obtain t' where t': "extend_numeric samples v (bl_index b) = Inr t'"
        "refs_of t' = refs_of samples @ np_refs v"
        "nv_data_type t' = nv_data_type samples" "nv_len t' = nv_len samples + np_len v"
      using extend_numeric_ok [of samples v] inv dt by metis
    have len: "length (segment_times segs) + sample_count seg = nv_len samples"
      using segments_tile_times [OF inv(2)] by (simp add: segs)
    have upt: "[0..<sample_count seg + np_len v] = [0..<sample_count seg] @ [sample_count seg..<sample_count seg + np_len v]"
      by (rule upt_add_eq_append) simp
    show ?thesis
      using BsEquidistant inv t' dt len
      by (simp add: apply_continued_def Let_def bl_wf_def state_wf_def builder_log_def segs
            segments_tile_snoc segment_timestamp_time_at upt zip_append flip: append_assoc)
  next
    case BsUnsupported
    then show ?thesis using dt unsupported_mismatch(1) [OF wf] by blast
  qed (simp_all add: apply_continued_def dt)
qed

lemma zip_fst_snd [simp]: "zip (map fst p) (map snd p) = p"
  by (simp add: zip_map_fst_snd)

lemma last_of_append [simp]: "last_of (xs @ ys) = (if ys = [] then last_of xs else last_of ys)"
  by (simp add: last_of_def)

lemma tp_len_pos: "0 < tp_len p \<longleftrightarrow> tp_samples p \<noteq> []"
  by (metis length_greater_0_conv length_tp_samples)

lemma extend_variable_ok:
  assumes wf: "state_wf dt (BsVariable ts strings binaries) anchor"
    and dt: "timestamped_payload_data_type p = dt"
  obtains strings' binaries' where
    "extend_variable ts strings binaries dt p ch
       = Inr (ts @ map fst (tp_samples p), strings', binaries', tp_len p)"
    "text_samples strings' binaries' = text_samples strings binaries @ map snd (tp_samples p)"
    "state_wf dt (BsVariable (ts @ map fst (tp_samples p)) strings' binaries')
       (last_of (ts @ map fst (tp_samples p)))"
  using assms
  by (cases p) (auto simp: state_wf_def extend_variable_def text_samples_def)

lemma text_samples_length:
  "state_wf dt (BsVariable ts strings binaries) anchor \<Longrightarrow>
   length (text_samples strings binaries) = length ts"
  by (auto simp: state_wf_def text_samples_def)

lemma apply_abs_applied:
  assumes wf: "bl_wf b" shows "applied b (AbsTimestampData p) (apply_abs_timestamped b p)"
proof (cases "timestamped_payload_data_type p = bl_data_type b")
  case False
  then show ?thesis by (simp add: apply_abs_timestamped_def expect_data_type_def)
next
  case dt: True
  show ?thesis
  proof (cases "bl_state b")
    case BsPending
    then have "empty_for (bl_data_type b) \<noteq> None" using wf by (simp add: bl_wf_def state_wf_def)
    with dt obtain nv where nv:
      "init_timestamped_from_payload (bl_data_type b) p (bl_index b) = Inr (map fst (tp_samples p), nv)"
      "map NumSample (refs_of nv) = map snd (tp_samples p)"
      "nv_data_type nv = bl_data_type b" "nv_len nv = tp_len p"
      using init_timestamped_ok [of "bl_data_type b" p "bl_index b"] by metis
    then show ?thesis using BsPending dt
      by (simp add: apply_abs_timestamped_def bl_wf_def state_wf_def builder_log_def)
  next
    case (BsTimestamped ts nv)
    have inv: "nv_data_type nv = bl_data_type b" "length ts = nv_len nv"
        "bl_last_timestamp_ns b = last_of ts"
      using wf BsTimestamped by (simp_all add: bl_wf_def state_wf_def)
    obtain nv' where nv':
      "extend_timestamped ts nv p (bl_index b) = Inr (ts @ map fst (tp_samples p), nv', tp_len p)"
      "map NumSample (refs_of nv') = map NumSample (refs_of nv) @ map snd (tp_samples p)"
      "nv_data_type nv' = nv_data_type nv" "nv_len nv' = nv_len nv + tp_len p"
      using extend_timestamped_ok [of nv p ts "bl_index b"] inv dt by metis
    show ?thesis
      using BsTimestamped inv nv' dt tp_len_pos [of p]
      by (auto simp: apply_abs_timestamped_def bl_wf_def state_wf_def builder_log_def zip_append)
  next
    case (BsVariable ts strings binaries)
    have inv: "state_wf (bl_data_type b) (BsVariable ts strings binaries) (bl_last_timestamp_ns b)"
      using wf BsVariable by (simp add: bl_wf_def)
    then have anchor: "bl_last_timestamp_ns b = last_of ts" by (simp add: state_wf_def)
    obtain strings' binaries' where ext:
      "extend_variable ts strings binaries (bl_data_type b) p (bl_index b)
         = Inr (ts @ map fst (tp_samples p), strings', binaries', tp_len p)"
      "text_samples strings' binaries' = text_samples strings binaries @ map snd (tp_samples p)"
      "state_wf (bl_data_type b) (BsVariable (ts @ map fst (tp_samples p)) strings' binaries')
         (last_of (ts @ map fst (tp_samples p)))"
      using extend_variable_ok [OF inv dt] by metis
    have "(if 0 < tp_len p then last_of (ts @ map fst (tp_samples p)) else bl_last_timestamp_ns b)
        = last_of (ts @ map fst (tp_samples p))"
      using anchor tp_len_pos [of p] by auto
    then show ?thesis
      using BsVariable ext dt text_samples_length [OF inv]
      by (simp add: apply_abs_timestamped_def bl_wf_def builder_log_def zip_append del: last_of_append)
  next
    case BsUnsupported
    then show ?thesis using dt unsupported_mismatch(2) [OF wf] by blast
  qed (simp_all add: apply_abs_timestamped_def dt)
qed

lemma apply_rel_applied:
  assumes wf: "bl_wf b" shows "applied b (ContinuedRelStampData p) (apply_rel_timestamped b p)"
proof (cases "rel_timestamped_payload_data_type p = bl_data_type b \<and> bl_last_timestamp_ns b \<noteq> None")
  case False
  then show ?thesis by (auto simp: apply_rel_timestamped_def expect_data_type_def)
next
  case True
  then obtain anchor where dt: "rel_timestamped_payload_data_type p = bl_data_type b"
    and anchor: "bl_last_timestamp_ns b = Some anchor" by auto
  show ?thesis
  proof (cases "bl_state b")
    case (BsTimestamped ts nv)
    have inv: "nv_data_type nv = bl_data_type b" "length ts = nv_len nv" "last_of ts = Some anchor"
      using wf BsTimestamped anchor by (simp_all add: bl_wf_def state_wf_def)
    let ?ts = "rel_times anchor (map fst (rp_samples p))"
    obtain nv' where nv':
      "extend_rel_timestamped ts nv anchor p (bl_index b) = Inr (ts @ ?ts, nv', last (anchor # ?ts))"
      "map NumSample (refs_of nv') = map NumSample (refs_of nv) @ map snd (rp_samples p)"
      "nv_data_type nv' = nv_data_type nv" "nv_len nv' = nv_len nv + rp_len p"
      using extend_rel_ok [of nv p ts anchor "bl_index b"] inv dt by metis
    have "last_of (ts @ ?ts) = Some (last (anchor # ?ts))"
      using inv(3) by (auto simp: last_of_def)
    then show ?thesis
      using BsTimestamped inv nv' dt anchor
      by (simp add: apply_rel_timestamped_def bl_wf_def state_wf_def builder_log_def rel_log_def
            zip_append del: last_of_append)
  next
    case BsUnsupported
    then show ?thesis using dt unsupported_mismatch(3) [OF wf] by blast
  qed (simp_all add: apply_rel_timestamped_def dt anchor)
qed

lemma apply_block_applied:
  assumes "bl_wf b" shows "applied b kind (apply_block b kind)"
  using assms
  by (cases kind) (simp_all add: apply_start_applied apply_continued_applied apply_abs_applied
    apply_rel_applied)

section \<open>Reading the samples back\<close>

text \<open>What iterating a channel yields.\<close>

fun channel_log :: "channel \<Rightarrow> osf_error + (i64 \<times> sample) list" where
  "channel_log (Equidistant c) = map_ok (map (apsnd NumSample)) (ec_samples_with_time c)"
| "channel_log (Timestamped c) = map_ok (map (apsnd NumSample)) (tc_samples_with_time c)"
| "channel_log (VariableChannel c) = map_ok (map (apsnd VarSample)) (vc_samples_with_time c)"

lemma map_apsnd_zip: "map (apsnd f) (zip xs ys) = zip xs (map f ys)"
  by (simp add: zip_map2 apsnd_def map_prod_def)

lemma enumerate_results:
  assumes "length ts = length vs" "\<And>i. i < length vs \<Longrightarrow> at i = Inr (vs ! i)"
  shows "first_error (map (\<lambda>(i, t). map_ok (Pair t) (at i)) (List.enumerate 0 ts)) = Inr (zip ts vs)"
proof -
  have "map (\<lambda>(i, t). map_ok (Pair t) (at i)) (List.enumerate 0 ts) = map Inr (zip ts vs)"
    using assms by (intro nth_equalityI) (simp_all add: nth_enumerate_eq)
  then show ?thesis by simp
qed

lemma tc_log:
  assumes "length (tc_timestamps_ns c) = nv_len (tc_values c)"
  shows "tc_samples_with_time c = Inr (zip (tc_timestamps_ns c) (refs_of (tc_values c)))"
  unfolding tc_samples_with_time_def
  by (rule enumerate_results) (simp_all add: assms numeric_value_ref_at_refs)

lemma vc_log_strings:
  assumes "vc_string_values c = Some s" "length s = length (vc_timestamps_ns c)"
  shows "vc_samples_with_time c = Inr (zip (vc_timestamps_ns c) (map VrString s))"
  unfolding vc_samples_with_time_def
  by (rule enumerate_results) (simp_all add: assms index_at_def)

lemma vc_log_binaries:
  assumes "vc_string_values c = None" "vc_binary_values c = Some s" "length s = length (vc_timestamps_ns c)"
  shows "vc_samples_with_time c = Inr (zip (vc_timestamps_ns c) (map VrBinary s))"
  unfolding vc_samples_with_time_def
  by (rule enumerate_results) (simp_all add: assms index_at_def)

lemma ec_log:
  assumes "segments_tile 0 (ec_segments c) (nv_len (ec_samples c))"
  shows "ec_samples_with_time c = Inr (zip (segment_times (ec_segments c)) (refs_of (ec_samples c)))"
  using tiled_samples [OF assms] by (simp add: ec_samples_with_time_def)

lemma finalize_none: "bl_wf b \<Longrightarrow> finalize b = None \<longleftrightarrow> is_unsupported (bl_data_type b)"
proof -
  assume wf: "bl_wf b"
  show ?thesis
  proof (cases "bl_state b")
    case BsPending
    then show ?thesis using wf
      by (cases "bl_data_type b") (simp_all add: finalize_def bl_wf_def state_wf_def)
  next
    case (BsEquidistant samples segments)
    then show ?thesis using wf
      by (cases samples) (auto simp: finalize_def bl_wf_def state_wf_def)
  next
    case (BsTimestamped ts nv)
    then show ?thesis using wf
      by (cases nv) (auto simp: finalize_def bl_wf_def state_wf_def)
  next
    case (BsVariable ts strings binaries)
    then show ?thesis using wf by (auto simp: finalize_def bl_wf_def state_wf_def)
  next
    case BsUnsupported
    then show ?thesis using wf by (simp add: finalize_def bl_wf_def state_wf_def)
  qed
qed

lemma finalize_channel:
  assumes wf: "bl_wf b" and fin: "finalize b = Some c"
  shows "channel_log c = Inr (builder_log b)" and "channel_index c = bl_index b"
    and "channel_name c = bl_name b" and "channel_data_type c = bl_data_type b"
proof -
  show "channel_log c = Inr (builder_log b)"
  proof (cases "bl_state b")
    case BsPending
    with wf have nn: "empty_for (bl_data_type b) \<noteq> None" by (simp add: bl_wf_def state_wf_def)
    then obtain t where t: "empty_for (bl_data_type b) = Some t" "refs_of t = []" "nv_len t = 0"
      using empty_for_ok by metis
    have "bl_data_type b \<notin> {DtString, DtBinary, DtByteArray}" using nn by auto
    then show ?thesis using fin BsPending t
      by (auto simp: finalize_def to_equidistant_def ec_log builder_log_def segment_times_def)
  next
    case (BsEquidistant samples segments)
    then show ?thesis using fin wf
      by (auto simp: finalize_def to_equidistant_def ec_log builder_log_def bl_wf_def state_wf_def map_apsnd_zip)
  next
    case (BsTimestamped ts nv)
    then show ?thesis using fin wf
      by (auto simp: finalize_def to_timestamped_def tc_log builder_log_def bl_wf_def state_wf_def map_apsnd_zip)
  next
    case (BsVariable ts strings binaries)
    then show ?thesis using fin wf
      by (auto simp: finalize_def to_variable_def vc_log_strings vc_log_binaries builder_log_def bl_wf_def
            state_wf_def text_samples_def map_apsnd_zip)
  next
    case BsUnsupported
    then show ?thesis using fin by (simp add: finalize_def)
  qed
  show "channel_index c = bl_index b" "channel_name c = bl_name b" "channel_data_type c = bl_data_type b"
    using fin by (auto simp: finalize_def to_equidistant_def to_timestamped_def to_variable_def
                    split: builder_state.splits if_splits)
qed

section \<open>The block loop\<close>

text \<open>The values a block carries, whatever the builder.\<close>

fun kind_values :: "block_kind \<Rightarrow> sample list" where
  "kind_values (StartData _ _ v) = map NumSample (np_refs v)"
| "kind_values (ContinuedData v) = map NumSample (np_refs v)"
| "kind_values (AbsTimestampData p) = map snd (tp_samples p)"
| "kind_values (ContinuedRelStampData p) = map snd (rp_samples p)"
| "kind_values (Skipped _ _ _) = []"

lemma block_log_values:
  assumes "bl_wf b" "apply_block b kind = Inr b'"
  shows "map snd (block_log b kind) = kind_values kind"
proof (cases kind)
  case (ContinuedData v)
  show ?thesis
  proof (cases "bl_state b")
    case BsUnsupported
    then show ?thesis
      using assms ContinuedData unsupported_mismatch(1) [OF assms(1)]
      by (auto simp: apply_continued_def expect_data_type_def and_then_eq_Inr_iff split: if_splits)
  qed (use assms ContinuedData in \<open>auto simp: apply_continued_def and_then_eq_Inr_iff\<close>)
qed (simp_all add: rel_log_def)

fun is_panic :: "osf_error \<Rightarrow> bool" where
  "is_panic (Panic _) = True"
| "is_panic _ = False"

lemma builder_error_no_panic: "builder_error e \<Longrightarrow> \<not> is_panic e"
  by (cases e) simp_all

definition builders_wf :: "builders \<Rightarrow> bool" where
  "builders_wf bs \<longleftrightarrow> (\<forall>i b. bs i = Some b \<longrightarrow> bl_wf b \<and> bl_index b = i)"

definition item_no_panic :: "osf_error + block \<Rightarrow> bool" where
  "item_no_panic x = (case x of Inl e \<Rightarrow> \<not> is_panic e | Inr _ \<Rightarrow> True)"

lemma applied_index: "identity_of b' = identity_of b \<Longrightarrow> bl_index b' = bl_index b"
  by (metis channel_builder.select_convs(1) channel_builder.surjective channel_builder.update_convs(8,9) identity_of_def)

interpretation block_loop: invariant_step feed_block item_no_panic builders_wf "\<lambda>e. \<not> is_panic e"
proof unfold_locales
  fix s b s'
  assume inv: "builders_wf s" and "item_no_panic b" and step: "feed_block s b = Inr s'"
  then obtain blk c c' where "b = Inr blk" "s (blk_channel_index blk) = Some c"
    "apply_block c (blk_kind blk) = Inr c'" "s' = s(blk_channel_index blk \<mapsto> c')"
    by (auto simp: feed_block_def and_then_eq_Inr_iff split: option.splits)
  moreover from this have "bl_wf c'" "bl_index c' = blk_channel_index blk"
    using inv apply_block_applied [of c "blk_kind blk"] applied_index [of c' c]
    by (auto simp: builders_wf_def)
  ultimately show "builders_wf s'" using inv by (auto simp: builders_wf_def)
next
  fix s b e
  assume inv: "builders_wf s" and ok: "item_no_panic b" and step: "feed_block s b = Inl e"
  show "\<not> is_panic e"
  proof (cases b)
    case (Inl e')
    then show ?thesis using ok step by (simp add: feed_block_def item_no_panic_def)
  next
    case (Inr blk)
    show ?thesis
    proof (cases "s (blk_channel_index blk)")
      case None
      then show ?thesis using step Inr by (auto simp: feed_block_def)
    next
      case (Some c)
      then have "apply_block c (blk_kind blk) = Inl e" using step Inr by (simp add: feed_block_def)
      moreover have "bl_wf c" using inv Some by (simp add: builders_wf_def)
      ultimately have "builder_error e" using apply_block_applied [of c "blk_kind blk"] by simp
      then show ?thesis by (rule builder_error_no_panic)
    qed
  qed
qed

lemma insert_builder_wf [wf_intros]: "builders_wf bs \<Longrightarrow> builders_wf (insert_builder bs chan)"
  using builder_for_wf [of chan] by (simp add: builders_wf_def insert_builder_def builder_for_def)

lemma initial_builders_wf: "builders_wf bs \<Longrightarrow> builders_wf (foldl insert_builder bs chans)"
  by (induction chans arbitrary: bs) (simp_all add: wf_intros)

text \<open>The blocks of one channel, in stream order.\<close>

definition values_for :: "u16 \<Rightarrow> (osf_error + block) list \<Rightarrow> sample list" where
  "values_for i xs =
     concat (map (\<lambda>x. case x of
       Inr blk \<Rightarrow> if blk_channel_index blk = i then kind_values (blk_kind blk) else []
     | Inl _ \<Rightarrow> []) xs)"

lemma values_for_simps [simp]:
  "values_for i [] = []"
  "values_for i (Inl e # xs) = values_for i xs"
  "values_for i (Inr blk # xs) =
     (if blk_channel_index blk = i then kind_values (blk_kind blk) else []) @ values_for i xs"
  by (simp_all add: values_for_def)

lemma log_values_append:
  "bl_wf b \<Longrightarrow> apply_block b kind = Inr b' \<Longrightarrow>
   map snd (builder_log b') = map snd (builder_log b) @ kind_values kind"
  using apply_block_applied [of b kind] block_log_values [of b kind b'] by simp

lemma fed_values:
  "builders_wf bs \<Longrightarrow> \<forall>x \<in> set xs. item_no_panic x \<Longrightarrow> exec_all feed_block bs xs = Inr bs' \<Longrightarrow> bs i = Some b \<Longrightarrow>
   \<exists>b'. bs' i = Some b' \<and> identity_of b' = identity_of b
      \<and> map snd (builder_log b') = map snd (builder_log b) @ values_for i xs"
proof (induction xs arbitrary: bs b)
  case Nil
  then show ?case by simp
next
  case (Cons x xs)
  then obtain bs1 where one: "feed_block bs x = Inr bs1" and rest: "exec_all feed_block bs1 xs = Inr bs'"
    by (auto simp: and_then_eq_Inr_iff)
  from one obtain blk c c' where x: "x = Inr blk" and c: "bs (blk_channel_index blk) = Some c"
    and c': "apply_block c (blk_kind blk) = Inr c'" and bs1: "bs1 = bs(blk_channel_index blk \<mapsto> c')"
    by (auto simp: feed_block_def and_then_eq_Inr_iff split: option.splits)
  have wf1: "builders_wf bs1" using block_loop.step_inv [OF Cons.prems(1) _ one] Cons.prems(2) by simp
  have cwf: "bl_wf c" using Cons.prems(1) c by (simp add: builders_wf_def)
  show ?case
  proof (cases "i = blk_channel_index blk")
    case True
    then have "b = c" using c Cons.prems(4) by simp
    with True show ?thesis
      using Cons.IH [OF wf1 _ rest, of c'] Cons.prems(2) apply_block_applied [OF cwf, of "blk_kind blk"]
        log_values_append [OF cwf c'] c' x bs1 by auto
  next
    case False
    then show ?thesis using Cons.IH [OF wf1 _ rest, of b] Cons.prems bs1 x by auto
  qed
qed

lemma fed_domain: "exec_all feed_block bs xs = Inr bs' \<Longrightarrow> dom bs' = dom bs"
proof (induction xs arbitrary: bs)
  case Nil
  then show ?case by simp
next
  case (Cons x xs)
  then obtain bs1 where one: "feed_block bs x = Inr bs1" and rest: "exec_all feed_block bs1 xs = Inr bs'"
    by (auto simp: and_then_eq_Inr_iff)
  from one have "dom bs1 = dom bs"
    by (auto simp: feed_block_def and_then_eq_Inr_iff split: option.splits if_splits)
  with Cons.IH [OF rest] show ?case by simp
qed

section \<open>The lookup tables\<close>

text \<open>
  The lookup tables agree with the channel list: an index finds the channel of that index, and
  a name finds the last channel of that name.
\<close>

definition tables_ok :: "build_output \<Rightarrow> bool" where
  "tables_ok out \<longleftrightarrow>
     (case out of (channels, by_name, by_index) \<Rightarrow>
        (\<forall>i s. by_index i = Some s \<longleftrightarrow> s < length channels \<and> channel_index (channels ! s) = i)
        \<and> (\<forall>n s. by_name n = Some s \<longleftrightarrow>
             s < length channels \<and> channel_name (channels ! s) = n
             \<and> (\<forall>t. s < t \<and> t < length channels \<longrightarrow> channel_name (channels ! t) \<noteq> n)))"

lemma tables_ok_snoc:
  assumes ok: "tables_ok (channels, by_name, by_index)" and fresh: "by_index (channel_index c) = None"
  shows "tables_ok (channels @ [c], by_name(channel_name c \<mapsto> length channels),
                    by_index(channel_index c \<mapsto> length channels))"
proof -
  have idx: "\<And>i s. by_index i = Some s \<longleftrightarrow> s < length channels \<and> channel_index (channels ! s) = i"
    and name: "\<And>n s. by_name n = Some s \<longleftrightarrow>
             s < length channels \<and> channel_name (channels ! s) = n
             \<and> (\<forall>t. s < t \<and> t < length channels \<longrightarrow> channel_name (channels ! t) \<noteq> n)"
    using ok by (auto simp: tables_ok_def)
  have "(by_index(channel_index c \<mapsto> length channels)) i = Some s \<longleftrightarrow>
      s < length (channels @ [c]) \<and> channel_index ((channels @ [c]) ! s) = i" for i s
    using idx [of i s] idx [of "channel_index c" s] fresh
    by (cases "s < length channels") (auto simp: nth_append less_Suc_eq)
  moreover have "(by_name(channel_name c \<mapsto> length channels)) n = Some s \<longleftrightarrow>
      s < length (channels @ [c]) \<and> channel_name ((channels @ [c]) ! s) = n
      \<and> (\<forall>t. s < t \<and> t < length (channels @ [c]) \<longrightarrow> channel_name ((channels @ [c]) ! t) \<noteq> n)" for n s
  proof (cases "s < length channels")
    case True
    then have all: "(\<forall>t. s < t \<and> t < length (channels @ [c]) \<longrightarrow> channel_name ((channels @ [c]) ! t) \<noteq> n)
        \<longleftrightarrow> (\<forall>t. s < t \<and> t < length channels \<longrightarrow> channel_name (channels ! t) \<noteq> n) \<and> channel_name c \<noteq> n"
      by (auto simp: nth_append less_Suc_eq)
    show ?thesis using True name [of n s] unfolding all by (auto simp: nth_append)
  next
    case False
    then show ?thesis using name [of n s] by (auto simp: nth_append less_Suc_eq)
  qed
  ultimately show ?thesis by (simp add: tables_ok_def)
qed

lemma collect_tables:
  "tables_ok out \<Longrightarrow> builders_wf bs \<Longrightarrow> (\<forall>i. bs i \<noteq> None \<longrightarrow> snd (snd out) i = None) \<Longrightarrow>
   tables_ok (collect_channels order bs out)"
proof (induction order bs out rule: collect_channels.induct)
  case (1 bs out)
  then show ?case by simp
next
  case (2 index order bs channels by_name by_index)
  show ?case
  proof (cases "bs index")
    case None
    then show ?thesis using "2.IH"(1) "2.prems" by simp
  next
    case (Some b)
    have wf: "bl_wf b" "bl_index b = index" using "2.prems"(2) Some by (auto simp: builders_wf_def)
    have wf': "builders_wf (bs(index := None))" using "2.prems"(2) by (auto simp: builders_wf_def)
    show ?thesis
    proof (cases "finalize b")
      case None
      then show ?thesis using "2.IH"(2) [OF Some None] "2.prems" Some wf'
        by (simp add: fun_upd_def)
    next
      case fin: (Some c)
      have ci: "channel_index c = index" using finalize_channel(2) [OF wf(1) fin] wf(2) by simp
      have "tables_ok (channels @ [c], by_name(channel_name c \<mapsto> length channels),
                    by_index(channel_index c \<mapsto> length channels))"
        using "2.prems" Some ci by (intro tables_ok_snoc) auto
      then show ?thesis using "2.IH"(3) [OF Some fin] "2.prems" Some fin wf' ci
        by (auto simp: fun_upd_def)
    qed
  qed
qed

text \<open>The channels collected for an order without repetitions.\<close>

definition finalized_at :: "builders \<Rightarrow> u16 \<Rightarrow> channel list" where
  "finalized_at bs i =
     (case bs i of None \<Rightarrow> [] | Some b \<Rightarrow> (case finalize b of None \<Rightarrow> [] | Some c \<Rightarrow> [c]))"

lemma finalized_at_remove: "i \<noteq> j \<Longrightarrow> finalized_at (bs(j := None)) i = finalized_at bs i"
  by (simp add: finalized_at_def)

lemma collect_list:
  "distinct order \<Longrightarrow>
   fst (collect_channels order bs out) = fst out @ concat (map (finalized_at bs) order)"
proof (induction order bs out rule: collect_channels.induct)
  case (1 bs out)
  then show ?case by simp
next
  case (2 index order bs channels by_name by_index)
  have "map (finalized_at (bs(index := None))) order = map (finalized_at bs) order"
    using "2.prems" by (intro map_cong refl finalized_at_remove) auto
  note same = arg_cong [OF this, of concat]
  show ?case
  proof (cases "bs index")
    case None
    then show ?thesis using "2.IH"(1) "2.prems" by (simp add: finalized_at_def)
  next
    case (Some b)
    show ?thesis
    proof (cases "finalize b")
      case None
      then show ?thesis using "2.IH"(2) [OF Some None] "2.prems" Some same
        by (simp add: finalized_at_def [of bs index] fun_upd_def)
    next
      case fin: (Some c)
      then show ?thesis using "2.IH"(3) [OF Some fin] "2.prems" Some same
        by (simp add: finalized_at_def [of bs index] fun_upd_def)
    qed
  qed
qed

section \<open>Block families\<close>

text \<open>
  The state machine of a builder in the terms of its documentation: the first typed block fixes
  the family of the channel.
\<close>

datatype family = EquidistantFamily | TimestampedFamily

fun family_of :: "block_kind \<Rightarrow> family option" where
  "family_of (StartData _ _ _) = Some EquidistantFamily"
| "family_of (ContinuedData _) = Some EquidistantFamily"
| "family_of (AbsTimestampData _) = Some TimestampedFamily"
| "family_of (ContinuedRelStampData _) = Some TimestampedFamily"
| "family_of (Skipped _ _ _) = None"

fun phase_of :: "builder_state \<Rightarrow> family option" where
  "phase_of (BsEquidistant _ _) = Some EquidistantFamily"
| "phase_of (BsTimestamped _ _) = Some TimestampedFamily"
| "phase_of (BsVariable _ _ _) = Some TimestampedFamily"
| "phase_of _ = None"

lemma supported_after:
  "bl_wf b \<Longrightarrow> family_of k \<noteq> None \<Longrightarrow> apply_block b k = Inr b' \<Longrightarrow> bl_state b \<noteq> BsUnsupported"
  using unsupported_mismatch [of b]
  by (cases k)
     (auto simp: apply_start_def apply_continued_def apply_abs_timestamped_def apply_rel_timestamped_def
        and_then_eq_Inr_iff expect_data_type_def split: if_splits)

lemma apply_block_phase:
  assumes wf: "bl_wf b" and step: "apply_block b k = Inr b'" and fam: "family_of k = Some f"
  shows "phase_of (bl_state b') = Some f \<and> phase_of (bl_state b) \<in> {None, Some f}"
proof -
  have "bl_state b \<noteq> BsUnsupported" using supported_after [OF wf _ step] fam by simp
  then show ?thesis
    using step fam
    by (cases k; cases "bl_state b")
       (auto simp: apply_start_def apply_continued_def apply_abs_timestamped_def apply_rel_timestamped_def
          and_then_eq_Inr_iff Let_def split: if_splits)
qed

lemma apply_block_first:
  assumes wf: "bl_wf b" and step: "apply_block b k = Inr b'" and fam: "family_of k \<noteq> None"
    and fresh: "builder_log b = []" "bl_last_timestamp_ns b = None" "\<forall>s segs. bl_state b \<noteq> BsEquidistant s segs"
  shows "(\<exists>ts rate v. k = StartData ts rate v) \<or> (\<exists>p. k = AbsTimestampData p)"
proof -
  have "bl_state b \<noteq> BsUnsupported" by (rule supported_after [OF wf fam step])
  then show ?thesis
    using step fam fresh
    by (cases k; cases "bl_state b")
       (auto simp: apply_continued_def apply_rel_timestamped_def and_then_eq_Inr_iff split: if_splits)
qed

lemma homogeneous_history:
  "bl_wf b \<Longrightarrow> exec_all apply_block b kinds = Inr b' \<Longrightarrow>
   (\<exists>f. \<forall>k \<in> set kinds. family_of k \<in> {None, Some f} \<and>
        (phase_of (bl_state b) = None \<or> phase_of (bl_state b) = Some f))"
proof (induction kinds arbitrary: b)
  case Nil
  then show ?case by simp
next
  case (Cons k kinds)
  then obtain b1 where one: "apply_block b k = Inr b1" and rest: "exec_all apply_block b1 kinds = Inr b'"
    by (auto simp: and_then_eq_Inr_iff)
  have wf1: "bl_wf b1" using apply_block_applied [OF Cons.prems(1), of k] one by simp
  obtain f where f: "\<forall>k \<in> set kinds. family_of k \<in> {None, Some f} \<and>
        (phase_of (bl_state b1) = None \<or> phase_of (bl_state b1) = Some f)"
    using Cons.IH [OF wf1 rest] by blast
  show ?case
  proof (cases "family_of k")
    case None
    then have "b1 = b" using one by (cases k) simp_all
    show ?thesis
    proof (cases kinds)
      case Nil
      have "\<exists>g. phase_of (bl_state b) = None \<or> phase_of (bl_state b) = Some g"
        by (cases "phase_of (bl_state b)") auto
      then show ?thesis using Nil None by auto
    next
      case (Cons k' ks)
      then show ?thesis using f None \<open>b1 = b\<close> by (intro exI [of _ f]) auto
    qed
  next
    case (Some g)
    note ph = apply_block_phase [OF Cons.prems(1) one Some]
    show ?thesis using f ph Some by (intro exI [of _ g]) auto
  qed
qed

section \<open>Properties of the manager layer\<close>

lemma identity_fields:
  assumes "identity_of b = identity_of b'"
  shows "bl_index b = bl_index b'" "bl_name b = bl_name b'" "bl_data_type b = bl_data_type b'"
proof -
  have "bl_index (identity_of b) = bl_index b" "bl_name (identity_of b) = bl_name b"
    "bl_data_type (identity_of b) = bl_data_type b" for b by (simp_all add: identity_of_def)
  with assms show "bl_index b = bl_index b'" "bl_name b = bl_name b'" "bl_data_type b = bl_data_type b'"
    by metis+
qed

lemma foldl_insert_other:
  "i \<notin> mc_index ` set chans \<Longrightarrow> foldl insert_builder bs chans i = bs i"
  by (induction chans arbitrary: bs) (auto simp: insert_builder_def)

lemma initial_builder_at:
  "distinct (map mc_index chans) \<Longrightarrow> m \<in> set chans \<Longrightarrow>
   foldl insert_builder bs chans (mc_index m) = Some (builder_for m)"
proof (induction chans arbitrary: bs)
  case Nil
  then show ?case by simp
next
  case (Cons c chans)
  show ?case
  proof (cases "m = c")
    case True
    have "insert_builder bs c (mc_index c) = Some (builder_for c)" by (simp add: insert_builder_def)
    then show ?thesis using True Cons.prems foldl_insert_other [of "mc_index c" chans] by auto
  next
    case False
    then show ?thesis using Cons by simp
  qed
qed

text \<open>
  C4. Functional refinement of the channel builders. A builder stands for a list of timed
  samples. Applying any block to a well-formed builder either fails with one of the four builder
  errors, or keeps the invariant (segments tile the samples, timestamps and values have equal
  length, the storage has the channel's datatype, the anchor is the last timestamp) and appends
  exactly the block's samples: start blocks at the times of their own segment, continued blocks
  at the next times of the last segment, absolute blocks as they are, relative blocks at the
  running saturating sums from the anchor. No sample is lost, reordered or duplicated, and the
  channel's identity is untouched.
\<close>

theorem builder_refines_log:
  assumes "bl_wf b"
  shows "case apply_block b kind of
           Inr b' \<Rightarrow> bl_wf b' \<and> builder_log b' = builder_log b @ block_log b kind
                     \<and> identity_of b' = identity_of b
         | Inl e \<Rightarrow> builder_error e"
  using apply_block_applied [OF assms, of kind] by (simp add: applied_def)

definition demo_channel :: "u16 \<Rightarrow> string \<Rightarrow> data_type \<Rightarrow> meta_channel" where
  "demo_channel i name dt =
     \<lparr>mc_index = i, mc_name = name, mc_reference = None, mc_channel_type = CtScalar,
      mc_data_type = dt, mc_time_increment_ns = None, mc_size_of_length_value = 2,
      mc_mime_type = None, mc_spectrum_type = None, mc_physical_unit = None,
      mc_physical_dimension = None, mc_display_name = None, mc_comment = None\<rparr>"

theorem builder_refines_log_witness:
  "case apply_block (builder_for (demo_channel 1 ''a'' DtInt8)) (AbsTimestampData (TpInt8 [(5, 7)])) of
     Inr b' \<Rightarrow> builder_log b' = [(5, NumSample (VrInt8 7))]
   | Inl e \<Rightarrow> False"
proof -
  have "apply_block (builder_for (demo_channel 1 ''a'' DtInt8)) (AbsTimestampData (TpInt8 [(5, 7)]))
      = Inr ((builder_for (demo_channel 1 ''a'' DtInt8))
               \<lparr>bl_state := BsTimestamped [5] (NvInt8 [7]), bl_last_timestamp_ns := Some 5\<rparr>)"
    by (simp add: builder_for_def demo_channel_def initial_state_for_def apply_abs_timestamped_def
          expect_data_type_def init_arm_def split_pairs_def last_of_def)
  moreover have "builder_log (builder_for (demo_channel 1 ''a'' DtInt8)) = []"
    by (simp add: builder_for_def demo_channel_def initial_state_for_def builder_log_def)
  ultimately show ?thesis
    using builder_refines_log [OF builder_for_wf, of "demo_channel 1 ''a'' DtInt8"
                                 "AbsTimestampData (TpInt8 [(5, 7)])"] by simp
qed

lemma build_channels_parts:
  assumes "build_channels meta xs = Inr out"
  obtains bs where "exec_all feed_block (foldl insert_builder Map.empty (mb_channels meta)) xs = Inr bs"
    "out = collect_channels (map mc_index (mb_channels meta)) bs ([], Map.empty, Map.empty)"
  using assms by (auto simp: build_channels_def)

lemma empty_builders_wf: "builders_wf Map.empty"
  by (simp add: builders_wf_def)

text \<open>
  C23. The manager never panics: for every metablock (duplicate indices and names included) and
  every sequence of items in which the iterator itself reports no panic, \<open>build_channels\<close>
  succeeds or returns an ordinary error, and after a success each lookup slot is in range and
  consistent: an index finds exactly the channel of that index.
\<close>

theorem manager_never_panics:
  assumes "\<forall>x \<in> set xs. item_no_panic x"
  shows "case build_channels meta xs of
           Inl e \<Rightarrow> \<not> is_panic e
         | Inr (channels, by_name, by_index) \<Rightarrow>
             (\<forall>i s. by_index i = Some s \<longleftrightarrow> s < length channels \<and> channel_index (channels ! s) = i)
             \<and> (\<forall>n s. by_name n = Some s \<longrightarrow> s < length channels \<and> channel_name (channels ! s) = n)"
proof (cases "build_channels meta xs")
  case (Inl e)
  then have "exec_all feed_block (foldl insert_builder Map.empty (mb_channels meta)) xs = Inl e"
    by (simp add: build_channels_def)
  then show ?thesis
    using block_loop.exec_error [OF initial_builders_wf [OF empty_builders_wf]] assms Inl by fastforce
next
  case (Inr out)
  obtain bs where bs: "exec_all feed_block (foldl insert_builder Map.empty (mb_channels meta)) xs = Inr bs"
    and out: "out = collect_channels (map mc_index (mb_channels meta)) bs ([], Map.empty, Map.empty)"
    using build_channels_parts [OF Inr] .
  have "builders_wf bs"
    using block_loop.exec_inv [OF initial_builders_wf [OF empty_builders_wf] _ bs] assms by blast
  then have "tables_ok out" unfolding out by (intro collect_tables) (auto simp: tables_ok_def)
  then show ?thesis using Inr by (auto simp: tables_ok_def split: prod.splits)
qed

theorem manager_never_panics_witness:
  "\<exists>channels by_name by_index.
     build_channels \<lparr>mb_file_info = file_info_default,
       mb_channels = [demo_channel 4 ''a'' DtBool], mb_infos = []\<rparr> [] = Inr (channels, by_name, by_index)
     \<and> by_index 4 = Some 0 \<and> channel_index (channels ! 0) = 4"
  using manager_never_panics [of "[]" "\<lparr>mb_file_info = file_info_default,
       mb_channels = [demo_channel 4 ''a'' DtBool], mb_infos = []\<rparr>"]
  by (simp add: build_channels_def insert_builder_def builder_for_def demo_channel_def
        initial_state_for_def finalize_def to_equidistant_def)

lemma build_tables:
  assumes ok: "\<forall>x \<in> set xs. item_no_panic x" and out: "build_channels meta xs = Inr out"
  shows "tables_ok out"
proof -
  obtain bs where bs: "exec_all feed_block (foldl insert_builder Map.empty (mb_channels meta)) xs = Inr bs"
    and out: "out = collect_channels (map mc_index (mb_channels meta)) bs ([], Map.empty, Map.empty)"
    using build_channels_parts [OF out] .
  have "builders_wf bs"
    using block_loop.exec_inv [OF initial_builders_wf [OF empty_builders_wf] _ bs] ok by blast
  then show ?thesis unfolding out by (intro collect_tables) (auto simp: tables_ok_def)
qed

text \<open>
  Of several channels with the same name, the lookup by name finds the last one: whatever
  slot \<open>by_name\<close> gives for a name, no later channel has that name. The warning the code logs in
  this situation says that the first definition is kept.
\<close>

theorem duplicate_name_keeps_last:
  assumes "\<forall>x \<in> set xs. item_no_panic x"
    and "build_channels meta xs = Inr (channels, by_name, by_index)"
    and "s < t" and "t < length channels" and "channel_name (channels ! t) = n"
  shows "by_name n \<noteq> Some s \<and> (\<exists>u. by_name n = Some u \<and> t \<le> u)"
proof -
  have name: "\<And>n s. by_name n = Some s \<longleftrightarrow>
             s < length channels \<and> channel_name (channels ! s) = n
             \<and> (\<forall>t. s < t \<and> t < length channels \<longrightarrow> channel_name (channels ! t) \<noteq> n)"
    using build_tables [OF assms(1,2)] by (auto simp: tables_ok_def)
  let ?S = "{u. u < length channels \<and> channel_name (channels ! u) = n}"
  have fin: "finite ?S" by simp
  have t: "t \<in> ?S" using assms by simp
  then have m: "Max ?S \<in> ?S" using fin Max_in by blast
  have "by_name n = Some (Max ?S)"
    unfolding name using m Max_ge [OF fin] by fastforce
  moreover have "t \<le> Max ?S" using t fin by simp
  ultimately show ?thesis using assms(3) by auto
qed

theorem duplicate_name_keeps_last_witness:
  "\<exists>channels by_name by_index.
     build_channels \<lparr>mb_file_info = file_info_default,
       mb_channels = [demo_channel 1 ''x'' DtBool, demo_channel 2 ''x'' DtInt8], mb_infos = []\<rparr> []
       = Inr (channels, by_name, by_index)
     \<and> by_name ''x'' \<noteq> Some 0 \<and> channel_index (channels ! 1) = 2"
proof -
  let ?meta = "\<lparr>mb_file_info = file_info_default,
       mb_channels = [demo_channel 1 ''x'' DtBool, demo_channel 2 ''x'' DtInt8], mb_infos = []\<rparr>"
  obtain channels by_name by_index where
    out: "build_channels ?meta [] = Inr (channels, by_name, by_index)"
    and shape: "length channels = 2" "channel_name (channels ! 1) = ''x''" "channel_index (channels ! 1) = 2"
    by (simp add: build_channels_def insert_builder_def builder_for_def demo_channel_def
        initial_state_for_def finalize_def to_equidistant_def)
  show ?thesis
    using duplicate_name_keeps_last [OF _ out, of 0 1 "''x''"] out shape by auto
qed

text \<open>
  C8. End to end through the manager: for a metablock whose indices are distinct, the channels
  are the supported ones of the metablock in metablock order, and iterating a channel yields
  exactly the values of its blocks, in stream order, whatever mixture of block types carried
  them.
\<close>

theorem manager_delivers_all_values:
  assumes "distinct (map mc_index (mb_channels meta))"
    and "\<forall>x \<in> set xs. item_no_panic x"
    and "build_channels meta xs = Inr (channels, by_name, by_index)"
  shows "map (\<lambda>c. (channel_index c, channel_name c, channel_data_type c)) channels
           = map (\<lambda>m. (mc_index m, mc_name m, mc_data_type m))
                 (filter (\<lambda>m. \<not> is_unsupported (mc_data_type m)) (mb_channels meta))
         \<and> (\<forall>c \<in> set channels. \<exists>entries. channel_log c = Inr entries
              \<and> map snd entries = values_for (channel_index c) xs)"
proof -
  obtain bs where bs: "exec_all feed_block (foldl insert_builder Map.empty (mb_channels meta)) xs = Inr bs"
    and out: "(channels, by_name, by_index)
       = collect_channels (map mc_index (mb_channels meta)) bs ([], Map.empty, Map.empty)"
    using build_channels_parts [OF assms(3)] .
  have wf0: "builders_wf (foldl insert_builder Map.empty (mb_channels meta))"
    by (rule initial_builders_wf [OF empty_builders_wf])
  have wf: "builders_wf bs" using block_loop.exec_inv [OF wf0 _ bs] assms(2) by blast
  have channels: "channels = concat (map (finalized_at bs) (map mc_index (mb_channels meta)))"
    using collect_list [OF assms(1), of bs "([], Map.empty, Map.empty)"] by (simp flip: out)
  have init: "foldl insert_builder Map.empty (mb_channels meta) (mc_index m) = Some (builder_for m)"
    if "m \<in> set (mb_channels meta)" for m
    using initial_builder_at [OF assms(1) that] .
  have at: "\<exists>b. bs (mc_index m) = Some b \<and> identity_of b = identity_of (builder_for m) \<and> bl_wf b
      \<and> map snd (builder_log b) = values_for (mc_index m) xs" if m: "m \<in> set (mb_channels meta)" for m
  proof -
    have "builder_log (builder_for m) = []"
      by (cases "mc_data_type m") (simp_all add: builder_for_def initial_state_for_def builder_log_def)
    then show ?thesis
      using fed_values [OF wf0 assms(2) bs init [OF m]] wf by (auto simp: builders_wf_def)
  qed
  have one: "map (\<lambda>c. (channel_index c, channel_name c, channel_data_type c)) (finalized_at bs (mc_index m))
        = (if is_unsupported (mc_data_type m) then [] else [(mc_index m, mc_name m, mc_data_type m)])
      \<and> (\<forall>c \<in> set (finalized_at bs (mc_index m)). \<exists>entries. channel_log c = Inr entries
              \<and> map snd entries = values_for (channel_index c) xs)"
    if m: "m \<in> set (mb_channels meta)" for m
  proof -
    obtain b where b: "bs (mc_index m) = Some b" "identity_of b = identity_of (builder_for m)" "bl_wf b"
        "map snd (builder_log b) = values_for (mc_index m) xs" using at [OF m] by blast
    have fields: "bl_index b = mc_index m" "bl_name b = mc_name m" "bl_data_type b = mc_data_type m"
      using identity_fields [OF b(2)] by (simp_all add: builder_for_def)
    show ?thesis
    proof (cases "finalize b")
      case None
      then show ?thesis using b(1) finalize_none [OF b(3)] fields by (simp add: finalized_at_def)
    next
      case (Some c)
      then show ?thesis using b(1,4) finalize_none [OF b(3)] finalize_channel [OF b(3) Some] fields
        by (auto simp: finalized_at_def)
    qed
  qed
  have "map (\<lambda>c. (channel_index c, channel_name c, channel_data_type c))
          (concat (map (finalized_at bs) (map mc_index ms)))
      = map (\<lambda>m. (mc_index m, mc_name m, mc_data_type m)) (filter (\<lambda>m. \<not> is_unsupported (mc_data_type m)) ms)"
    if "set ms \<subseteq> set (mb_channels meta)" for ms
    using that by (induction ms) (simp_all add: one)
  then show ?thesis using one unfolding channels by fastforce
qed

theorem manager_delivers_all_values_witness:
  "\<exists>channels by_name by_index.
     build_channels \<lparr>mb_file_info = file_info_default, mb_channels = [demo_channel 1 ''x'' DtInt8], mb_infos = []\<rparr>
       [Inr \<lparr>blk_channel_index = 1, blk_kind = AbsTimestampData (TpInt8 [(5, 7)])\<rparr>]
       = Inr (channels, by_name, by_index)
     \<and> map channel_index channels = [1]"
proof -
  let ?meta = "\<lparr>mb_file_info = file_info_default, mb_channels = [demo_channel 1 ''x'' DtInt8], mb_infos = []\<rparr>"
  let ?xs = "[Inr \<lparr>blk_channel_index = 1, blk_kind = AbsTimestampData (TpInt8 [(5, 7)])\<rparr>]"
  have "\<exists>bs. exec_all feed_block (foldl insert_builder Map.empty (mb_channels ?meta)) ?xs = Inr bs"
    by (simp add: feed_block_def insert_builder_def builder_for_def demo_channel_def
          initial_state_for_def apply_abs_timestamped_def expect_data_type_def init_arm_def split_pairs_def)
  then obtain channels by_name by_index where
    out: "build_channels ?meta ?xs = Inr (channels, by_name, by_index)"
    by (metis build_channels_def map_ok_simps(2) prod_cases3)
  have "map (\<lambda>c. (channel_index c, channel_name c, channel_data_type c)) channels = [(1, ''x'', DtInt8)]"
    using manager_delivers_all_values [OF _ _ out] by (simp add: demo_channel_def item_no_panic_def)
  then have "map channel_index channels = [1]" by (cases channels) auto
  with out show ?thesis
    by (intro exI [of _ channels] exI [of _ by_name] exI [of _ by_index] conjI)
qed

text \<open>
  The builder state machine: from a fresh builder, a sequence of blocks is accepted only if
  all its typed blocks are of one family, equidistant (start, continued) or timestamped
  (absolute, relative). Mixing the families on one channel is always an error.
\<close>

theorem channel_family_is_locked:
  "case exec_all apply_block (builder_for chan) kinds of
     Inl e \<Rightarrow> True
   | Inr b \<Rightarrow> \<exists>f. \<forall>k \<in> set kinds. family_of k = None \<or> family_of k = Some f"
  using homogeneous_history [OF builder_for_wf, of chan kinds] by (fastforce split: sum.split)

theorem channel_family_is_locked_witness:
  "\<exists>b f. exec_all apply_block (builder_for (demo_channel 1 ''a'' DtDouble)) [StartData 0 0 (NpDouble [1])] = Inr b
     \<and> family_of (StartData 0 0 (NpDouble [1])) \<in> {None, Some f}"
proof -
  obtain b where b: "exec_all apply_block (builder_for (demo_channel 1 ''a'' DtDouble)) [StartData 0 0 (NpDouble [1])] = Inr b"
    by (simp add: builder_for_def demo_channel_def initial_state_for_def apply_start_def expect_data_type_def
          extend_numeric_def extend_numeric_arm_def)
  show ?thesis
    using channel_family_is_locked [where chan = "demo_channel 1 ''a'' DtDouble" and kinds = "[StartData 0 0 (NpDouble [1])]"]
    unfolding b by auto
qed

lemma ucast_delta_nonneg: "0 \<le> sint (ucast (d :: u32) :: i64)"
proof -
  have d: "uint d < 4294967296" using uint_lt2p [of d] by simp
  then have "take_bit 64 (uint d) = uint d" by (intro take_bit_int_eq_self) simp_all
  then have "uint (ucast d :: i64) = uint d" by (simp add: unsigned_ucast_eq)
  with d show ?thesis by (simp add: sint_uint bit_uint_iff)
qed

text \<open>
  Relative timestamps never run backwards: the absolute times reconstructed from a run of
  deltas start no earlier than the anchor and are non-decreasing, also when the sum saturates.
\<close>

theorem relative_times_sorted:
  "sorted (map sint (anchor # rel_times anchor deltas))
   \<and> length (rel_times anchor deltas) = length deltas"
proof -
  have "sorted (map sint (anchor # rel_times anchor deltas))"
  proof (induction deltas arbitrary: anchor)
    case Nil
    show ?case by simp
  next
    case (Cons d ds)
    let ?t = "i64_saturating_add anchor (ucast d)"
    have "sint anchor \<le> sint ?t" by (rule saturating_add_nonneg [OF ucast_delta_nonneg])
    with Cons [of ?t] show ?case by (auto simp: Let_def)
  qed
  then show ?thesis by simp
qed

end
