(* ===== verification/EncoderLaws.thy ===== *)
theory EncoderLaws
  imports Encoder Frames ManagerLaws
begin

text \<open>
  What the writer writes, the reader reads: the round trips of the sample runs, of the four
  kinds of blocks the writer emits and of whole channels, in both directions of the codec
  contract of \<open>Codec\<close>; and the size bounds that make every chunk fit its length field.
\<close>

section \<open>Sample runs\<close>

text \<open>The part of a storage a block carries.\<close>

fun np_of :: "numeric_values \<Rightarrow> nat \<Rightarrow> nat \<Rightarrow> numeric_payload" where
  "np_of (NvBool v) start count = NpBool (take count (drop start v))"
| "np_of (NvInt8 v) start count = NpInt8 (take count (drop start v))"
| "np_of (NvInt16 v) start count = NpInt16 (take count (drop start v))"
| "np_of (NvInt32 v) start count = NpInt32 (take count (drop start v))"
| "np_of (NvInt64 v) start count = NpInt64 (take count (drop start v))"
| "np_of (NvUInt8 v) start count = NpUInt8 (take count (drop start v))"
| "np_of (NvUInt16 v) start count = NpUInt16 (take count (drop start v))"
| "np_of (NvUInt32 v) start count = NpUInt32 (take count (drop start v))"
| "np_of (NvUInt64 v) start count = NpUInt64 (take count (drop start v))"
| "np_of (NvFloat v) start count = NpFloat (take count (drop start v))"
| "np_of (NvDouble v) start count = NpDouble (take count (drop start v))"
| "np_of (NvGpsLocation _) start count = NpBool []"

fun tp_of :: "i64 list \<Rightarrow> numeric_values \<Rightarrow> nat \<Rightarrow> nat \<Rightarrow> timestamped_payload" where
  "tp_of ts (NvBool v) start count = TpBool (zip (take count (drop start ts)) (take count (drop start v)))"
| "tp_of ts (NvInt8 v) start count = TpInt8 (zip (take count (drop start ts)) (take count (drop start v)))"
| "tp_of ts (NvInt16 v) start count = TpInt16 (zip (take count (drop start ts)) (take count (drop start v)))"
| "tp_of ts (NvInt32 v) start count = TpInt32 (zip (take count (drop start ts)) (take count (drop start v)))"
| "tp_of ts (NvInt64 v) start count = TpInt64 (zip (take count (drop start ts)) (take count (drop start v)))"
| "tp_of ts (NvUInt8 v) start count = TpUInt8 (zip (take count (drop start ts)) (take count (drop start v)))"
| "tp_of ts (NvUInt16 v) start count = TpUInt16 (zip (take count (drop start ts)) (take count (drop start v)))"
| "tp_of ts (NvUInt32 v) start count = TpUInt32 (zip (take count (drop start ts)) (take count (drop start v)))"
| "tp_of ts (NvUInt64 v) start count = TpUInt64 (zip (take count (drop start ts)) (take count (drop start v)))"
| "tp_of ts (NvFloat v) start count = TpFloat (zip (take count (drop start ts)) (take count (drop start v)))"
| "tp_of ts (NvDouble v) start count = TpDouble (zip (take count (drop start ts)) (take count (drop start v)))"
| "tp_of ts (NvGpsLocation v) start count = TpGpsLocation (zip (take count (drop start ts)) (take count (drop start v)))"

lemma np_of_refs:
  "nv_data_type nv \<noteq> DtGpsLocation \<Longrightarrow> np_refs (np_of nv start count) = take count (drop start (refs_of nv))"
  by (cases nv) (simp_all add: take_map drop_map)

lemma np_of_datatype:
  "nv_data_type nv \<noteq> DtGpsLocation \<Longrightarrow> numeric_payload_data_type (np_of nv start count) = nv_data_type nv"
  by (cases nv) simp_all

lemma np_of_len:
  "nv_data_type nv \<noteq> DtGpsLocation \<Longrightarrow> start + count \<le> nv_len nv \<Longrightarrow> np_len (np_of nv start count) = count"
  by (cases nv) simp_all

lemma tp_of_samples:
  "tp_samples (tp_of ts nv start count)
     = zip (take count (drop start ts)) (take count (drop start (map NumSample (refs_of nv))))"
  by (cases nv) (simp_all add: take_map drop_map zip_map2 apsnd_def map_prod_def)

lemma tp_of_datatype: "timestamped_payload_data_type (tp_of ts nv start count) = nv_data_type nv"
  by (cases nv) simp_all

lemma write_slice_Inr:
  "write_slice enc v start count = Inr bs \<longleftrightarrow>
     start + count \<le> length v \<and> bs = concat (map enc (take count (drop start v)))"
  by (auto simp: write_slice_def slice_at_def split: if_splits)

lemma slice_fits: "write_numeric_values_slice nv start count = Inr bs \<Longrightarrow> start + count \<le> nv_len nv"
  by (cases nv) (simp_all add: write_slice_Inr)

lemma slice_total:
  assumes "start + count \<le> nv_len nv"
  obtains bs where "write_numeric_values_slice nv start count = Inr bs"
  using assms by (cases nv) (simp_all add: write_slice_def slice_at_def)

lemmas run_encodings =
  bool_codec.run_enc
  i8_codec.run_enc
  i16_codec.run_enc
  i32_codec.run_enc
  i64_codec.run_enc
  u8_codec.run_enc
  u16_codec.run_enc
  u32_codec.run_enc
  u64_codec.run_enc
  f32_codec.run_enc
  f64_codec.run_enc

lemma read_numeric_n_written:
  assumes "write_numeric_values_slice nv start count = Inr bs" and "nv_data_type nv = dt"
    and "dt \<noteq> DtGpsLocation"
  shows "read_numeric_n (bs @ rest) dt count = Inr (np_of nv start count, rest)"
proof -
  have run: "read_run (\<lambda>c. ok_or e (rd c)) count (concat (map enc (take count (drop start v))) @ rest)
      = Inr (take count (drop start v), rest)"
    if "start + count \<le> length v"
      and "\<And>xs. read_run (\<lambda>c. ok_or e (rd c)) (length xs) (concat (map enc xs) @ rest) = Inr (xs, rest)"
    for rd :: "byte list \<Rightarrow> ('a \<times> byte list) option" and enc v and e :: osf_error
    using that(2) [of "take count (drop start v)"] that(1) by simp
  show ?thesis
    using assms
    by (cases nv) (auto simp: run_of_def write_slice_Inr run run_encodings)
qed

text \<open>Timestamped runs: the pair loops agree on in-range slices.\<close>

lemma first_error_in_range:
  "(\<And>i. i \<in> set is \<Longrightarrow> f i = Inr (g i)) \<Longrightarrow> first_error (map f is) = Inr (map g is)"
  by (induction "is") auto

lemma write_pairs_in_range:
  assumes "start + count \<le> length ts" "start + count \<le> length v"
  shows "write_pairs enc ts v start count =
    Inr (concat (map (\<lambda>(t, x). write_i64 t @ enc x) (zip (take count (drop start ts)) (take count (drop start v)))))"
proof -
  have "first_error (map (\<lambda>i. and_then (index_at ts i) (\<lambda>t. map_ok (\<lambda>x. write_i64 t @ enc x) (index_at v i)))
          [start..<start + count])
      = Inr (map (\<lambda>i. write_i64 (ts ! i) @ enc (v ! i)) [start..<start + count])"
    using assms by (intro first_error_in_range) (auto simp: index_at_def)
  moreover have "map (\<lambda>i. write_i64 (ts ! i) @ enc (v ! i)) [start..<start + count]
      = map (\<lambda>(t, x). write_i64 t @ enc x) (zip (take count (drop start ts)) (take count (drop start v)))"
    using assms by (intro nth_equalityI) simp_all
  ultimately show ?thesis by (simp add: write_pairs_def)
qed

lemma i64_key: "read_u64 (write_i64 k @ r) = Some (k, r)"
  by (simp add: write_defs codec)

lemma read_gps_run:
  "read_run read_gps_pair (length xs) (concat (map (\<lambda>(k, v). write_i64 k @ write_gps v) xs) @ rest) = Inr (xs, rest)"
proof (induction xs)
  case Nil
  show ?case by simp
next
  case (Cons x xs)
  obtain k g where x: "x = (k, g)" by (cases x)
  have "read_gps_pair (write_i64 k @ write_gps g @ r) = Inr ((k, g), r)" for r
    by (simp add: read_gps_pair_def i64_key read_gps_location_def write_gps_def write_f64_def codec)
  then show ?case using Cons x by simp
qed

lemma pairs_total:
  assumes "start + count \<le> length ts" "start + count \<le> nv_len nv"
  obtains bs where "write_timestamped_numeric_run ts nv start count = Inr bs"
  using assms by (cases nv) (simp_all add: write_pairs_in_range)

lemma read_pairs_written:
  fixes rd :: "byte list \<Rightarrow> osf_error + ((i64 \<times> 'a) \<times> byte list)"
  assumes "start + count \<le> length ts" "start + count \<le> length v"
    and "write_pairs enc ts v start count = Inr bs"
    and "\<And>xs. read_run rd (length xs) (concat (map (\<lambda>(k, v). write_i64 k @ enc v) xs) @ rest) = Inr (xs, rest)"
  shows "read_run rd count (bs @ rest) = Inr (zip (take count (drop start ts)) (take count (drop start v)), rest)"
  using assms(4) [of "zip (take count (drop start ts)) (take count (drop start v))"] assms(1-3)
  by (simp add: write_pairs_in_range)

lemma read_timestamped_n_written:
  assumes "start + count \<le> length ts" "start + count \<le> nv_len nv"
    and "write_timestamped_numeric_run ts nv start count = Inr bs"
  shows "read_timestamped_n (bs @ rest) (nv_data_type nv) count = Inr (tp_of ts nv start count)"
proof (cases nv)
  case (NvBool v)
  then show ?thesis using assms read_pairs_written [OF assms(1) _ _ bool_codec.keyed_run_enc [OF i64_key]]
    by (simp add: pairs_of_def)
next
  case (NvInt8 v)
  then show ?thesis using assms read_pairs_written [OF assms(1) _ _ i8_codec.keyed_run_enc [OF i64_key]]
    by (simp add: pairs_of_def)
next
  case (NvInt16 v)
  then show ?thesis using assms read_pairs_written [OF assms(1) _ _ i16_codec.keyed_run_enc [OF i64_key]]
    by (simp add: pairs_of_def)
next
  case (NvInt32 v)
  then show ?thesis using assms read_pairs_written [OF assms(1) _ _ i32_codec.keyed_run_enc [OF i64_key]]
    by (simp add: pairs_of_def)
next
  case (NvInt64 v)
  then show ?thesis using assms read_pairs_written [OF assms(1) _ _ i64_codec.keyed_run_enc [OF i64_key]]
    by (simp add: pairs_of_def)
next
  case (NvUInt8 v)
  then show ?thesis using assms read_pairs_written [OF assms(1) _ _ u8_codec.keyed_run_enc [OF i64_key]]
    by (simp add: pairs_of_def)
next
  case (NvUInt16 v)
  then show ?thesis using assms read_pairs_written [OF assms(1) _ _ u16_codec.keyed_run_enc [OF i64_key]]
    by (simp add: pairs_of_def)
next
  case (NvUInt32 v)
  then show ?thesis using assms read_pairs_written [OF assms(1) _ _ u32_codec.keyed_run_enc [OF i64_key]]
    by (simp add: pairs_of_def)
next
  case (NvUInt64 v)
  then show ?thesis using assms read_pairs_written [OF assms(1) _ _ u64_codec.keyed_run_enc [OF i64_key]]
    by (simp add: pairs_of_def)
next
  case (NvFloat v)
  then show ?thesis using assms read_pairs_written [OF assms(1) _ _ f32_codec.keyed_run_enc [OF i64_key]]
    by (simp add: pairs_of_def)
next
  case (NvDouble v)
  then show ?thesis using assms read_pairs_written [OF assms(1) _ _ f64_codec.keyed_run_enc [OF i64_key]]
    by (simp add: pairs_of_def)
next
  case (NvGpsLocation v)
  then show ?thesis using assms read_pairs_written [OF assms(1) _ _ read_gps_run]
    by (simp add: pairs_of_def)
qed

section \<open>Frames\<close>

text \<open>A running reader with a given configuration; its counters do not matter here.\<close>

record reader_config =
  rc_channels :: "u16 \<rightharpoonup> channel_info"
  rc_version :: osf_version
  rc_integrity :: integrity_profile

definition reader_at :: "reader_config \<Rightarrow> block_reader \<Rightarrow> bool" where
  "reader_at cfg r \<longleftrightarrow>
     br_channels r = rc_channels cfg \<and> br_osf_version r = rc_version cfg
     \<and> br_integrity r = rc_integrity cfg \<and> \<not> br_finished r"

text \<open>What decoding a block leaves alone: the counters of everything else.\<close>

definition trouble :: "reader_stats \<Rightarrow> nat list \<times> bool" where
  "trouble s =
     ([rs_blocks_truncated s, rs_blocks_skipped_unsupported s, rs_blocks_skipped_deprecated_type s,
       rs_blocks_skipped_status_event s, rs_blocks_skipped_reserved_type s, rs_blocks_skipped_zero_length s,
       rs_blocks_crc_failed s, rs_blocks_signature_skipped s], rs_trailer_seen s)"

definition no_trouble :: "nat list \<times> bool" where
  "no_trouble = (replicate 8 0, False)"

lemma no_trouble_counters:
  "trouble s = no_trouble \<longleftrightarrow>
     rs_blocks_truncated s = 0 \<and> rs_blocks_skipped_unsupported s = 0 \<and> rs_blocks_skipped_deprecated_type s = 0
     \<and> rs_blocks_skipped_status_event s = 0 \<and> rs_blocks_skipped_reserved_type s = 0
     \<and> rs_blocks_skipped_zero_length s = 0 \<and> rs_blocks_crc_failed s = 0 \<and> rs_blocks_signature_skipped s = 0
     \<and> \<not> rs_trailer_seen s"
  by (auto simp: trouble_def no_trouble_def numeral_eq_Suc)

definition resumes :: "reader_config \<Rightarrow> block_reader \<Rightarrow> byte list \<Rightarrow> block_reader \<Rightarrow> bool" where
  "resumes cfg r rest r' \<longleftrightarrow>
     reader_at cfg r' \<and> pending (br_inner r') = rest \<and> faulty (br_inner r') = faulty (br_inner r)
     \<and> trouble (br_stats r') = trouble (br_stats r)"

text \<open>A channel the writer may write to and this configuration can read.\<close>

definition writable :: "reader_config \<Rightarrow> u16 \<Rightarrow> data_type \<Rightarrow> u8 \<Rightarrow> bool \<Rightarrow> bool" where
  "writable cfg channel dt width frame_crc \<longleftrightarrow>
     rc_channels cfg channel = Some \<lparr>ci_data_type = dt, ci_size_of_length_value = width\<rparr>
     \<and> (width = 2 \<or> width = 4) \<and> \<not> is_unsupported dt
     \<and> channel \<noteq> TRAILER_CHANNEL_INDEX \<and> channel \<noteq> SIGNATURE_CHANNEL_INDEX
     \<and> (rc_integrity cfg = IpNone \<longleftrightarrow> \<not> frame_crc)"

lemma stats_frame [frame, simp]:
  "trouble (br_stats (add_bytes n r)) = trouble (br_stats r)"
  "trouble (br_stats (at_data w rest r)) = trouble (br_stats r)"
  "trouble (br_stats (record_read c l n f r)) = trouble (br_stats r)"
  by (simp_all add: add_bytes_def at_data_def record_read_def Let_def trouble_def update_channel_def)

lemma resumes_record_read [intro]:
  "resumes cfg r rest r' \<Longrightarrow> resumes cfg r rest (record_read c l n f r')"
  by (simp add: resumes_def reader_at_def)

lemma write_length_field_bytes:
  "width = 2 \<or> width = 4 \<Longrightarrow> (width = 2 \<Longrightarrow> unat len < 65536) \<Longrightarrow>
   write_length_field width len = Some (length_field_bytes width len)"
proof -
  assume w: "width = 2 \<or> width = 4" and small: "width = 2 \<Longrightarrow> unat len < 65536"
  have "u16_le (ucast len) = take 2 (u32_le len)" if "unat len < 65536"
  proof -
    have "unat (ucast len :: u16) = unat len"
      using that by (simp add: unsigned_ucast_eq take_bit_nat_eq_self)
    then show ?thesis by (simp add: u16_le_def u32_le_def take_le_encode)
  qed
  then show ?thesis using w small
    by (auto simp: write_length_field_def length_field_bytes_def write_defs)
qed

lemma write_block_bytes:
  assumes "write_block crc32c channel width payload frame_crc = Inr bs" and w: "width = 2 \<or> width = 4"
  obtains len where "unat len = length payload + crc_reserve frame_crc"
    "width = 2 \<longrightarrow> unat len < 65536"
    "bs = frame_prefix channel width len @ payload
          @ (if frame_crc then u32_le (frame_checksum crc32c channel width len payload) else [])"
proof -
  let ?n = "length payload + crc_reserve frame_crc" and ?len = "of_nat (length payload + crc_reserve frame_crc) :: u32"
  have n: "?n < 2 ^ 32" and n2: "width = 2 \<longrightarrow> ?n < 65536"
    using assms(1) by (auto simp: write_block_def Let_def MAX_BLOCK_PAYLOAD_U16_def split: if_splits)
  have len: "unat ?len = ?n" using n by (simp only: unat_of_nat) simp
  have lf: "write_length_field width ?len = Some (length_field_bytes width ?len)"
    using n2 len by (intro write_length_field_bytes w) simp
  show ?thesis
  proof (rule that [of ?len])
    show "unat ?len = ?n" by (rule len)
    show "width = 2 \<longrightarrow> unat ?len < 65536" using n2 len by simp
    show "bs = frame_prefix channel width ?len @ payload
          @ (if frame_crc then u32_le (frame_checksum crc32c channel width ?len payload) else [])"
      using assms(1) n n2 lf
      by (auto simp: write_block_def Let_def MAX_BLOCK_PAYLOAD_U16_def frame_prefix_def write_defs
            frame_checksum_def)
  qed
qed

lemma written_frame_read:
  assumes bs: "write_block crc32c channel width payload frame_crc = Inr bs"
    and ok: "writable cfg channel dt width frame_crc" and ne: "payload \<noteq> []"
    and at: "reader_at cfg r" and pend: "pending (br_inner r) = bs @ rest"
  obtains len r' where
    "next_block crc32c r
       = decode_payload channel \<lparr>ci_data_type = dt, ci_size_of_length_value = width\<rparr> len payload r'"
    "resumes cfg r rest r'"
proof -
  let ?info = "\<lparr>ci_data_type = dt, ci_size_of_length_value = width\<rparr>"
  have w: "width = 2 \<or> width = 4" using ok by (simp add: writable_def)
  obtain len where len: "unat len = length payload + crc_reserve frame_crc"
      "width = 2 \<longrightarrow> unat len < 65536"
      "bs = frame_prefix channel width len @ payload
          @ (if frame_crc then u32_le (frame_checksum crc32c channel width len payload) else [])"
    using write_block_bytes [OF bs w] .
  let ?tail = "(if frame_crc then u32_le (frame_checksum crc32c channel width len payload) else [])"
  have frame: "data_frame r channel ?info len ((payload @ ?tail) @ rest)"
    using ok at pend len w by (auto simp: data_frame_def writable_def reader_at_def)
  let ?r = "at_data width ((payload @ ?tail) @ rest) r"
  let ?r' = "add_bytes (unat len) (?r\<lparr>br_inner := (br_inner ?r)\<lparr>pending := rest\<rparr>\<rparr>)"
  have nz: "len \<noteq> 0" using len(1) ne by auto
  have got: "inner_exact (unat len) ?r
      = (Got (payload @ ?tail), ?r\<lparr>br_inner := (br_inner ?r)\<lparr>pending := rest\<rparr>\<rparr>)"
    by (rule inner_exact_append) (simp_all add: len(1) crc_reserve_def)
  have strip: "strip_frame_crc crc32c channel width len cap (payload @ ?tail) = Inr payload"
    if frame_crc for cap
    using ne that by (cases payload)
      (auto simp: strip_frame_crc_def Let_def from_le_u32 frame_checksum_def)
  have integ: "br_integrity r = IpNone \<longleftrightarrow> \<not> frame_crc" using at ok by (simp add: reader_at_def writable_def)
  have supp: "\<not> is_unsupported dt" using ok by (simp add: writable_def)
  have "next_block crc32c r = decode_payload channel ?info len payload ?r'"
    using nz supp integ strip got
    by (cases frame_crc)
       (simp_all add: next_block_data_frame [OF frame] unsupported_reason_def next_payload_def Let_def)
  moreover have "resumes cfg r rest ?r'" using at by (simp add: resumes_def reader_at_def)
  ultimately show ?thesis using that by blast
qed

section \<open>Sizes\<close>

lemmas run_lengths =
  bool_codec.length_run
  i8_codec.length_run
  i16_codec.length_run
  i32_codec.length_run
  i64_codec.length_run
  u8_codec.length_run
  u16_codec.length_run
  u32_codec.length_run
  u64_codec.length_run
  f32_codec.length_run
  f64_codec.length_run
  gps_codec.length_run

lemma length_write_i64: "length (write_i64 k) = 8"
  by (simp add: write_i64_def)

lemmas pair_run_lengths =
  bool_codec.length_keyed_run [OF length_write_i64]
  i8_codec.length_keyed_run [OF length_write_i64]
  i16_codec.length_keyed_run [OF length_write_i64]
  i32_codec.length_keyed_run [OF length_write_i64]
  i64_codec.length_keyed_run [OF length_write_i64]
  u8_codec.length_keyed_run [OF length_write_i64]
  u16_codec.length_keyed_run [OF length_write_i64]
  u32_codec.length_keyed_run [OF length_write_i64]
  u64_codec.length_keyed_run [OF length_write_i64]
  f32_codec.length_keyed_run [OF length_write_i64]
  f64_codec.length_keyed_run [OF length_write_i64]
  gps_codec.length_keyed_run [OF length_write_i64]

lemma slice_bytes:
  assumes "write_numeric_values_slice nv start count = Inr bs"
    and "numeric_byte_size (nv_data_type nv) = Inr n"
  shows "length bs = count * n"
  using assms by (cases nv) (auto simp: write_slice_Inr run_lengths)

lemma numeric_byte_size_nv: "\<exists>n. numeric_byte_size (nv_data_type nv) = Inr n \<and> 1 \<le> n \<and> n \<le> 24"
  by (cases nv) simp_all

lemma pairs_bytes:
  assumes "start + count \<le> length ts" "start + count \<le> nv_len nv"
    and "write_timestamped_numeric_run ts nv start count = Inr bs"
    and "numeric_byte_size (nv_data_type nv) = Inr n"
  shows "length bs = count * (8 + n)"
  using assms
  by (cases nv) (auto simp: write_pairs_in_range pair_run_lengths)

lemma write_block_size:
  "write_block crc32c channel width payload frame_crc = Inr bs \<Longrightarrow>
   length payload < 2 ^ 32 \<and> (width = 2 \<longrightarrow> length payload + crc_reserve frame_crc \<le> 65535)"
  by (auto simp: write_block_def Let_def MAX_BLOCK_PAYLOAD_U16_def split: if_splits)

section \<open>Blocks\<close>

definition yields :: "reader_config \<Rightarrow> (byte list \<Rightarrow> u32) \<Rightarrow> byte list \<Rightarrow> block \<Rightarrow> bool" where
  "yields cfg crc32c bs blk \<longleftrightarrow> \<not> is_skipped (blk_kind blk)
     \<and> (\<forall>r rest. reader_at cfg r \<and> pending (br_inner r) = bs @ rest \<longrightarrow>
        (\<exists>r'. next_block crc32c r = (Some (Inr blk), r') \<and> resumes cfg r rest r'))"

lemma yields_written:
  assumes bs: "write_block crc32c channel width (cb # body) frame_crc = Inr bs"
    and ok: "writable cfg channel dt width frame_crc"
    and dispatch: "\<And>len r. br_osf_version r = rc_version cfg \<Longrightarrow>
      \<exists>n f. dispatch channel \<lparr>ci_data_type = dt, ci_size_of_length_value = width\<rparr> len cb body r
        = (block_item channel kind, record_read channel len n f r)"
    and decoded: "\<not> is_skipped kind"
  shows "yields cfg crc32c bs \<lparr>blk_channel_index = channel, blk_kind = kind\<rparr>"
  unfolding yields_def
proof (intro conjI allI impI, use decoded in simp, elim conjE)
  fix r rest assume at: "reader_at cfg r" and pend: "pending (br_inner r) = bs @ rest"
  let ?info = "\<lparr>ci_data_type = dt, ci_size_of_length_value = width\<rparr>"
  obtain len r' where step: "next_block crc32c r = decode_payload channel ?info len (cb # body) r'"
      and res: "resumes cfg r rest r'"
    using written_frame_read [OF bs ok _ at pend] by blast
  have "br_osf_version r' = rc_version cfg" using res by (simp add: resumes_def reader_at_def)
  from dispatch [OF this, of len] obtain n f where
    "dispatch channel ?info len cb body r' = (block_item channel kind, record_read channel len n f r')"
    by blast
  then show "\<exists>r'. next_block crc32c r = (Some (Inr \<lparr>blk_channel_index = channel, blk_kind = kind\<rparr>), r')
      \<and> resumes cfg r rest r'"
    using step res by (auto simp: decode_payload_def block_item_def)
qed

lemma sample_count_written:
  "count < 2 ^ 32 \<Longrightarrow>
   read_sample_count ((if count \<noteq> 1 then write_u32 (of_nat count) else []) @ rest) (count \<noteq> 1) = Inr (count, rest)"
  by (simp add: read_sample_count_def write_u32_def read_u32_le unat_of_nat)

lemma control_bytes [simp]:
  "decode_control_byte (if m then CONTROL_START_DATA OR MULTI_SAMPLE_FLAG else CONTROL_START_DATA)
     = \<lparr>cb_kind = CkStartData, cb_multi_sample = m\<rparr>"
  "decode_control_byte (if m then CONTROL_CONTINUED_DATA OR MULTI_SAMPLE_FLAG else CONTROL_CONTINUED_DATA)
     = \<lparr>cb_kind = CkContinuedData, cb_multi_sample = m\<rparr>"
  "decode_control_byte (CONTROL_ABS_TIMESTAMP OR MULTI_SAMPLE_FLAG)
     = \<lparr>cb_kind = CkAbsTimeStampData, cb_multi_sample = True\<rparr>"
  "decode_control_byte CONTROL_ABS_TIMESTAMP = \<lparr>cb_kind = CkAbsTimeStampData, cb_multi_sample = False\<rparr>"
  by (simp_all add: CONTROL_START_DATA_def CONTROL_CONTINUED_DATA_def CONTROL_ABS_TIMESTAMP_def
        MULTI_SAMPLE_FLAG_def)

lemma dispatch_decoded:
  "decode_control_byte cb = \<lparr>cb_kind = CkStartData, cb_multi_sample = m\<rparr> \<Longrightarrow>
   parse_start_data body (ci_data_type info) m = Inr (ts, rate, np) \<Longrightarrow>
   \<exists>n f. dispatch channel info len cb body r
     = (block_item channel (StartData ts rate np), record_read channel len n f r)"
  "decode_control_byte cb = \<lparr>cb_kind = CkContinuedData, cb_multi_sample = m\<rparr> \<Longrightarrow>
   parse_continued_data body (ci_data_type info) m = Inr np \<Longrightarrow>
   \<exists>n f. dispatch channel info len cb body r
     = (block_item channel (ContinuedData np), record_read channel len n f r)"
  "decode_control_byte cb = \<lparr>cb_kind = CkAbsTimeStampData, cb_multi_sample = m\<rparr> \<Longrightarrow>
   parse_abs_timestamp_data body (ci_data_type info) m (br_osf_version r) = Inr tp \<Longrightarrow>
   \<exists>n f. dispatch channel info len cb body r
     = (block_item channel (AbsTimestampData tp), record_read channel len n f r)"
  by (auto simp: dispatch_def)

lemma slice_count_small:
  assumes "write_numeric_values_slice nv start count = Inr samples"
    and "write_block crc32c channel width (pre @ samples) frame_crc = Inr bs"
  shows "count < 2 ^ 32"
proof -
  obtain n where n: "numeric_byte_size (nv_data_type nv) = Inr n" "1 \<le> n" using numeric_byte_size_nv by blast
  have "count \<le> count * n" using n(2) by simp
  also have "\<dots> = length samples" using slice_bytes [OF assms(1) n(1)] by simp
  also have "\<dots> < 2 ^ 32" using write_block_size [OF assms(2)] by simp
  finally show ?thesis .
qed

lemma start_block_yields:
  assumes bs: "write_start_data_block crc32c channel width ts rate nv start count frame_crc = Inr bs"
    and ok: "writable cfg channel (nv_data_type nv) width frame_crc" and gps: "nv_data_type nv \<noteq> DtGpsLocation"
  shows "yields cfg crc32c bs
           \<lparr>blk_channel_index = channel, blk_kind = StartData ts rate (np_of nv start count)\<rparr>"
proof -
  let ?m = "count \<noteq> 1"
  let ?cb = "if ?m then CONTROL_START_DATA OR MULTI_SAMPLE_FLAG else CONTROL_START_DATA"
  obtain samples where samples: "write_numeric_values_slice nv start count = Inr samples"
    and block: "write_block crc32c channel width
        (?cb # (u64_le ts @ u64_le rate @ (if ?m then write_u32 (of_nat count) else []) @ samples)) frame_crc = Inr bs"
    using bs by (auto simp: write_start_data_block_def Let_def and_then_eq_Inr_iff write_defs)
  have small: "count < 2 ^ 32"
    using slice_count_small [OF samples, where pre = "?cb # u64_le ts @ u64_le rate @ (if ?m then write_u32 (of_nat count) else [])"]
      block by simp
  have parse: "parse_start_data (u64_le ts @ u64_le rate @ (if ?m then write_u32 (of_nat count) else []) @ samples)
      (nv_data_type nv) ?m = Inr (ts, rate, np_of nv start count)"
    using sample_count_written [OF small, of samples] read_numeric_n_written [OF samples refl gps, of "[]"]
    by (simp add: parse_start_data_def read_u64_le)
  show ?thesis
    by (rule yields_written [OF block ok], rule dispatch_decoded(1) [OF control_bytes(1)])
       (simp only: channel_info.select_convs parse, simp)
qed

lemma continued_block_yields:
  assumes bs: "write_continued_data_block crc32c channel width nv start count frame_crc = Inr bs"
    and ok: "writable cfg channel (nv_data_type nv) width frame_crc" and gps: "nv_data_type nv \<noteq> DtGpsLocation"
  shows "yields cfg crc32c bs
           \<lparr>blk_channel_index = channel, blk_kind = ContinuedData (np_of nv start count)\<rparr>"
proof -
  let ?m = "count \<noteq> 1"
  let ?cb = "if ?m then CONTROL_CONTINUED_DATA OR MULTI_SAMPLE_FLAG else CONTROL_CONTINUED_DATA"
  obtain samples where samples: "write_numeric_values_slice nv start count = Inr samples"
    and block: "write_block crc32c channel width
        (?cb # ((if ?m then write_u32 (of_nat count) else []) @ samples)) frame_crc = Inr bs"
    using bs by (auto simp: write_continued_data_block_def Let_def and_then_eq_Inr_iff write_defs)
  have small: "count < 2 ^ 32"
    using slice_count_small [OF samples, where pre = "?cb # (if ?m then write_u32 (of_nat count) else [])"]
      block by simp
  have parse: "parse_continued_data ((if ?m then write_u32 (of_nat count) else []) @ samples)
      (nv_data_type nv) ?m = Inr (np_of nv start count)"
    using sample_count_written [OF small, of samples] read_numeric_n_written [OF samples refl gps, of "[]"]
    by (simp add: parse_continued_data_def)
  show ?thesis
    by (rule yields_written [OF block ok], rule dispatch_decoded(2) [OF control_bytes(2)])
       (simp only: channel_info.select_convs parse, simp)
qed

lemma abs_block_yields:
  assumes fits: "start + count \<le> length ts" "start + count \<le> nv_len nv"
    and samples: "write_timestamped_numeric_run ts nv start count = Inr samples"
    and block: "write_block crc32c channel width
        (write_u8 (CONTROL_ABS_TIMESTAMP OR MULTI_SAMPLE_FLAG) @ write_u32 (of_nat count) @ samples)
        frame_crc = Inr bs"
    and ok: "writable cfg channel (nv_data_type nv) width frame_crc"
  shows "yields cfg crc32c bs
           \<lparr>blk_channel_index = channel, blk_kind = AbsTimestampData (tp_of ts nv start count)\<rparr>"
proof -
  obtain n where n: "numeric_byte_size (nv_data_type nv) = Inr n" using numeric_byte_size_nv by blast
  have "count \<le> length samples" using pairs_bytes [OF fits samples n] by simp
  then have small: "count < 2 ^ 32" using write_block_size [OF block] by simp
  have nt: "nv_data_type nv \<notin> {DtString, DtBinary, DtByteArray}" by (cases nv) simp_all
  have parse: "parse_abs_timestamp_data (write_u32 (of_nat count) @ samples) (nv_data_type nv) True v
      = Inr (tp_of ts nv start count)" for v
    using nt small read_timestamped_n_written [OF fits samples, of "[]"]
    by (simp add: parse_abs_timestamp_data_def read_sample_count_def write_u32_def read_u32_le unat_of_nat)
  have block': "write_block crc32c channel width
      ((CONTROL_ABS_TIMESTAMP OR MULTI_SAMPLE_FLAG) # (write_u32 (of_nat count) @ samples)) frame_crc = Inr bs"
    using block by (simp add: write_u8_def)
  show ?thesis
    by (rule yields_written [OF block' ok], rule dispatch_decoded(3) [OF control_bytes(3)])
       (simp only: channel_info.select_convs parse, simp)
qed

lemma variable_block_yields:
  assumes block: "write_block crc32c channel width (write_variable_header t @ bytes) frame_crc = Inr bs"
    and ok: "writable cfg channel dt width frame_crc" and version: "rc_version cfg = Osf5"
    and dt: "dt = DtString \<and> from_utf8 bytes = Some s \<and> tp = TpString [(t, s)]
             \<or> (dt = DtBinary \<or> dt = DtByteArray) \<and> tp = TpBinary [(t, bytes)]"
  shows "yields cfg crc32c bs \<lparr>blk_channel_index = channel, blk_kind = AbsTimestampData tp\<rparr>"
proof -
  have parse: "parse_abs_timestamp_data (u64_le t @ bytes) dt False Osf5 = Inr tp"
    using dt
    by (auto simp: parse_abs_timestamp_data_def parse_abs_timestamp_string_or_binary_def
          parse_variable_n_def parse_one_variable_def read_u64_le strip_osf4_terminator_def
          build_string_or_binary_def)
  have block': "write_block crc32c channel width (CONTROL_ABS_TIMESTAMP # (u64_le t @ bytes)) frame_crc = Inr bs"
    using block by (simp add: write_variable_header_def write_u8_def write_i64_def)
  show ?thesis
    by (rule yields_written [OF block' ok], rule dispatch_decoded(3) [OF control_bytes(4)])
       (simp only: channel_info.select_convs parse version, simp)
qed

section \<open>Sequences of blocks\<close>

text \<open>The bytes are a sequence of frames that a reader turns into exactly these blocks.\<close>

inductive delivers :: "reader_config \<Rightarrow> (byte list \<Rightarrow> u32) \<Rightarrow> byte list \<Rightarrow> block list \<Rightarrow> bool"
  for cfg crc32c
where
  none: "delivers cfg crc32c [] []"
| more: "yields cfg crc32c bs blk \<Longrightarrow> delivers cfg crc32c bss blks \<Longrightarrow>
         delivers cfg crc32c (bs @ bss) (blk # blks)"

lemma delivers_one: "yields cfg crc32c bs blk \<Longrightarrow> delivers cfg crc32c bs [blk]"
  using delivers.more [OF _ delivers.none] by fastforce

lemma delivers_append:
  "delivers cfg crc32c bs blks \<Longrightarrow> delivers cfg crc32c bs' blks' \<Longrightarrow> delivers cfg crc32c (bs @ bs') (blks @ blks')"
  by (induction rule: delivers.induct) (auto intro: delivers.more)

lemma delivers_concat:
  "(\<And>x. x \<in> set xs \<Longrightarrow> delivers cfg crc32c (f x) (g x)) \<Longrightarrow>
   delivers cfg crc32c (concat (map f xs)) (concat (map g xs))"
  by (induction xs) (auto intro: delivers.none delivers_append)

lemma yields_nonempty: "yields cfg crc32c bs blk \<Longrightarrow> reader_at cfg r \<Longrightarrow> \<not> faulty (br_inner r) \<Longrightarrow> bs \<noteq> []"
proof
  assume y: "yields cfg crc32c bs blk" and at: "reader_at cfg r" and "bs = []"
  let ?r = "r\<lparr>br_inner := \<lparr>pending = [], faulty = False\<rparr>\<rparr>"
  have "reader_at cfg ?r" using at by (simp add: reader_at_def)
  then obtain r' where "next_block crc32c ?r = (Some (Inr blk), r')"
    using y \<open>bs = []\<close> unfolding yields_def by fastforce
  moreover have "fst (next_block crc32c ?r) = None"
    using at by (simp add: next_block_def inner_exact_def read_exact_def exhausted_def reader_at_def)
  ultimately show False by simp
qed

text \<open>A reader in front of such frames and anything else yields their blocks first.\<close>

lemma items_prefix:
  "delivers cfg crc32c bs blks \<Longrightarrow> reader_at cfg r \<Longrightarrow> pending (br_inner r) = bs @ rest \<Longrightarrow>
   list_all (\<lambda>blk. \<not> is_skipped (blk_kind blk)) blks
   \<and> (\<exists>r'. resumes cfg r rest r' \<and> items crc32c r = apfst ((@) (map Inr blks)) (items crc32c r'))"
proof (induction arbitrary: r rule: delivers.induct)
  case none
  then show ?case by (intro conjI exI [of _ r]) (simp_all add: resumes_def apfst_def map_prod_def)
next
  case (more bs blk bss blks)
  obtain r1 where step: "next_block crc32c r = (Some (Inr blk), r1)" and res: "resumes cfg r (bss @ rest) r1"
    using more.hyps(1) more.prems unfolding yields_def by auto
  have "\<not> is_skipped (blk_kind blk)" using more.hyps(1) by (simp add: yields_def)
  moreover from more.IH [of r1] res obtain r' where
    "list_all (\<lambda>blk. \<not> is_skipped (blk_kind blk)) blks" "resumes cfg r1 rest r'"
    "items crc32c r1 = apfst ((@) (map Inr blks)) (items crc32c r')"
    by (auto simp: resumes_def)
  moreover have "items crc32c r = apfst ((#) (Inr blk)) (items crc32c r1)"
    using step by (simp add: items.simps [of crc32c r] apfst_def map_prod_def)
  ultimately show ?case using res
    by (intro conjI exI [of _ r']) (auto simp: resumes_def apfst_def map_prod_def split: prod.splits)
qed

lemma items_delivered:
  "delivers cfg crc32c bs blks \<Longrightarrow> reader_at cfg r \<Longrightarrow> pending (br_inner r) = bs \<Longrightarrow> \<not> faulty (br_inner r) \<Longrightarrow>
   list_all (\<lambda>blk. \<not> is_skipped (blk_kind blk)) blks
   \<and> (\<exists>r'. items crc32c r = (map Inr blks, r') \<and> br_finished r'
      \<and> trouble (br_stats r') = trouble (br_stats r))"
proof (induction arbitrary: r rule: delivers.induct)
  case none
  then have "next_block crc32c r = (None, finish (r\<lparr>br_inner := (br_inner r)\<lparr>pending := []\<rparr>\<rparr>))"
    by (simp add: next_block_def inner_exact_def read_exact_def exhausted_def reader_at_def)
  then show ?case by (simp add: items.simps [of crc32c r] finish_def)
next
  case (more bs blk bss blks)
  obtain r1 where step: "next_block crc32c r = (Some (Inr blk), r1)" and res: "resumes cfg r bss r1"
    using more.hyps(1) more.prems unfolding yields_def by blast
  have "\<not> is_skipped (blk_kind blk)" using more.hyps(1) by (simp add: yields_def)
  moreover from more.IH [of r1] res more.prems(3) obtain r' where
    "list_all (\<lambda>blk. \<not> is_skipped (blk_kind blk)) blks" "items crc32c r1 = (map Inr blks, r')" "br_finished r'"
    "trouble (br_stats r') = trouble (br_stats r1)"
    by (auto simp: resumes_def)
  ultimately show ?case using step res by (simp add: items.simps [of crc32c r] resumes_def)
qed

end
