(* ===== verification/RoundTrip.thy ===== *)
theory RoundTrip
  imports EncoderLaws
begin

text \<open>
  From the writer through the reader into the manager: the frames a channel's data is written as,
  decoded and replayed into a fresh builder, give back the timed samples that were written.
\<close>

section \<open>Replaying blocks into a builder\<close>

abbreviation replay :: "channel_builder \<Rightarrow> block_kind list \<Rightarrow> osf_error + channel_builder" where
  "replay \<equiv> exec_all apply_block"

interpretation builder_steps: invariant_step apply_block "\<lambda>_. True" bl_wf builder_error
  by unfold_locales (metis apply_block_applied applied_simps)+

text \<open>The last open segment of an equidistant builder.\<close>

definition in_segment :: "channel_builder \<Rightarrow> i64 \<Rightarrow> f64 \<Rightarrow> nat \<Rightarrow> bool" where
  "in_segment b start rate n \<longleftrightarrow>
     (\<exists>samples segs. bl_state b = BsEquidistant samples segs \<and> segs \<noteq> []
        \<and> start_timestamp_ns (last segs) = start \<and> sample_rate_hz (last segs) = rate
        \<and> sample_count (last segs) = n)"

definition accepts_start :: "channel_builder \<Rightarrow> bool" where
  "accepts_start b \<longleftrightarrow> bl_state b = BsPending \<or> (\<exists>s segs. bl_state b = BsEquidistant s segs)"

lemma in_segment_accepts: "in_segment b start rate n \<Longrightarrow> accepts_start b"
  by (auto simp: in_segment_def accepts_start_def)

lemma update_last_in_segment [simp]:
  "in_segment (update_last_ts_from_segment b s r k) start rate n = in_segment b start rate n"
  by (simp add: in_segment_def)

lemma start_accepted:
  assumes wf: "bl_wf b" and dt: "numeric_payload_data_type v = bl_data_type b" and acc: "accepts_start b"
  obtains b' where "apply_block b (StartData start rate v) = Inr b'" "in_segment b' start rate (np_len v)"
proof (cases "bl_state b")
  case BsPending
  obtain t where t: "empty_for (bl_data_type b) = Some t" "nv_data_type t = bl_data_type b" "nv_len t = 0"
    using wf BsPending by (auto simp: bl_wf_def state_wf_def intro: empty_for_ok [of "bl_data_type b"])
  obtain t' where "extend_numeric t v (bl_index b) = Inr t'" "nv_len t' = nv_len t + np_len v"
    using extend_numeric_ok [of t v] t dt by metis
  then show ?thesis using that t dt BsPending by (simp add: apply_start_def in_segment_def)
next
  case (BsEquidistant samples segments)
  then have "nv_data_type samples = numeric_payload_data_type v"
    using wf dt by (simp add: bl_wf_def state_wf_def)
  then obtain t' where "extend_numeric samples v (bl_index b) = Inr t'" "nv_len t' = nv_len samples + np_len v"
    using extend_numeric_ok [of samples v] by metis
  then show ?thesis using that dt BsEquidistant by (simp add: apply_start_def in_segment_def Let_def)
qed (use acc in \<open>auto simp: accepts_start_def\<close>)

lemma continued_accepted:
  assumes wf: "bl_wf b" and dt: "numeric_payload_data_type v = bl_data_type b"
    and seg: "in_segment b start rate n"
  obtains b' where "apply_block b (ContinuedData v) = Inr b'" "in_segment b' start rate (n + np_len v)"
    "block_log b (ContinuedData v)
       = zip (map (time_at start rate) [n..<n + np_len v]) (map NumSample (np_refs v))"
proof -
  obtain samples segs where st: "bl_state b = BsEquidistant samples segs" "segs \<noteq> []"
      "start_timestamp_ns (last segs) = start" "sample_rate_hz (last segs) = rate" "sample_count (last segs) = n"
    using seg by (auto simp: in_segment_def)
  then have "nv_data_type samples = numeric_payload_data_type v"
    using wf dt by (simp add: bl_wf_def state_wf_def)
  then obtain t' where t': "extend_numeric samples v (bl_index b) = Inr t'" "nv_len t' = nv_len samples + np_len v"
    using extend_numeric_ok [of samples v] by metis
  let ?seg = "last segs\<lparr>sample_count := n + np_len v\<rparr>"
  let ?b = "update_last_ts_from_segment (b\<lparr>bl_state := BsEquidistant t' (butlast segs @ [?seg])\<rparr>)
              start rate (n + np_len v)"
  have "apply_block b (ContinuedData v) = Inr ?b"
    using st t' dt by (simp add: apply_continued_def Let_def)
  moreover have "in_segment ?b start rate (n + np_len v)"
    unfolding update_last_in_segment unfolding in_segment_def
    by (intro exI [of _ t'] exI [of _ "butlast segs @ [?seg]"]) (simp add: st(3,4))
  moreover have "block_log b (ContinuedData v)
       = zip (map (time_at start rate) [n..<n + np_len v]) (map NumSample (np_refs v))"
    using st by (simp add: segment_timestamp_time_at)
  ultimately show ?thesis by (rule that)
qed

text \<open>One step of a replay, with its effect on the log.\<close>

lemma replay_step:
  assumes "bl_wf b" and "apply_block b k = Inr b'"
  shows "bl_wf b'" and "builder_log b' = builder_log b @ block_log b k"
    and "bl_data_type b' = bl_data_type b" and "identity_of b' = identity_of b"
proof -
  have app: "bl_wf b' \<and> builder_log b' = builder_log b @ block_log b k \<and> identity_of b' = identity_of b"
    using apply_block_applied [OF assms(1), of k] assms(2) by (simp only: applied_simps)
  then show "bl_wf b'" "builder_log b' = builder_log b @ block_log b k" "identity_of b' = identity_of b"
    by simp_all
  show "bl_data_type b' = bl_data_type b" using app by (intro identity_fields(3)) simp
qed

section \<open>Chunks\<close>

fun chunks_cover :: "nat \<Rightarrow> (nat \<times> nat) list \<Rightarrow> nat \<Rightarrow> bool" where
  "chunks_cover a [] n \<longleftrightarrow> a = n"
| "chunks_cover a ((s, c) # cs) n \<longleftrightarrow> s = a \<and> chunks_cover (a + c) cs n"

lemma chunks_cover_le: "chunks_cover a cs n \<Longrightarrow> a \<le> n"
  by (induction a cs n rule: chunks_cover.induct) auto

lemma loops_done [simp]:
  "continued_loop crc32c channel width nv m frame_crc n n = Inr []"
  "abs_loop crc32c channel width ts nv m frame_crc n n = Inr []"
  by (simp_all add: continued_loop.simps [of crc32c channel width nv m frame_crc n n]
        abs_loop.simps [of crc32c channel width ts nv m frame_crc n n])

lemma continued_loop_delivers:
  "continued_loop crc32c channel width nv m frame_crc written len = Inr bs \<Longrightarrow> written \<le> len \<Longrightarrow>
   writable cfg channel (nv_data_type nv) width frame_crc \<Longrightarrow> nv_data_type nv \<noteq> DtGpsLocation \<Longrightarrow>
   \<exists>cs. chunks_cover written cs len
      \<and> delivers cfg crc32c bs
          (map (\<lambda>(s, c). \<lparr>blk_channel_index = channel, blk_kind = ContinuedData (np_of nv s c)\<rparr>) cs)"
proof (induction crc32c channel width nv m frame_crc written len arbitrary: bs rule: continued_loop.induct)
  case (1 crc32c channel width nv m frame_crc written len)
  show ?case
  proof (cases "written < len")
    case False
    then have "written = len" using 1(3) by simp
    then have "bs = []" using 1(2) by simp
    note this \<open>written = len\<close>
    then show ?thesis by (intro exI [of _ "[]"]) (simp add: delivers.none)
  next
    case True
    let ?chunk = "min (len - written) (max m 1)"
    obtain bs1 bs2 where one: "write_continued_data_block crc32c channel width nv written ?chunk frame_crc = Inr bs1"
        and rest: "continued_loop crc32c channel width nv m frame_crc (written + ?chunk) len = Inr bs2"
        and bs: "bs = bs1 @ bs2"
      using 1(2) True
      by (subst (asm) continued_loop.simps) (auto simp: Let_def and_then_eq_Inr_iff)
    have le: "written + ?chunk \<le> len" using True by simp
    obtain cs where cs: "chunks_cover (written + ?chunk) cs len"
      "delivers cfg crc32c bs2
          (map (\<lambda>(s, c). \<lparr>blk_channel_index = channel, blk_kind = ContinuedData (np_of nv s c)\<rparr>) cs)"
      using 1(1) [OF True refl one rest le 1(4,5)] by blast
    have y: "yields cfg crc32c bs1 \<lparr>blk_channel_index = channel, blk_kind = ContinuedData (np_of nv written ?chunk)\<rparr>"
      by (rule continued_block_yields [OF one 1(4,5)])
    show ?thesis
      by (rule exI [of _ "(written, ?chunk) # cs"]) (use cs delivers.more [OF y cs(2)] bs in simp)
  qed
qed

lemma abs_loop_delivers:
  "abs_loop crc32c channel width ts nv m frame_crc written len = Inr bs \<Longrightarrow> written \<le> len \<Longrightarrow>
   len = length ts \<Longrightarrow> len = nv_len nv \<Longrightarrow>
   writable cfg channel (nv_data_type nv) width frame_crc \<Longrightarrow>
   \<exists>cs. chunks_cover written cs len
      \<and> delivers cfg crc32c bs
          (map (\<lambda>(s, c). \<lparr>blk_channel_index = channel, blk_kind = AbsTimestampData (tp_of ts nv s c)\<rparr>) cs)"
proof (induction crc32c channel width ts nv m frame_crc written len arbitrary: bs rule: abs_loop.induct)
  case (1 crc32c channel width ts nv m frame_crc written len)
  show ?case
  proof (cases "written < len")
    case False
    then have "written = len" using 1(3) by simp
    then have "bs = []" using 1(2) by simp
    note this \<open>written = len\<close>
    then show ?thesis by (intro exI [of _ "[]"]) (simp add: delivers.none)
  next
    case True
    let ?chunk = "min (len - written) (max m 1)"
    have le: "written + ?chunk \<le> len" using True by simp
    obtain samples bs1 bs2 where
        samples: "write_timestamped_numeric_run ts nv written ?chunk = Inr samples"
        and one: "write_block crc32c channel width
            (write_u8 (CONTROL_ABS_TIMESTAMP OR MULTI_SAMPLE_FLAG) @ write_u32 (of_nat ?chunk) @ samples) frame_crc = Inr bs1"
        and rest: "abs_loop crc32c channel width ts nv m frame_crc (written + ?chunk) len = Inr bs2"
        and bs: "bs = bs1 @ bs2"
      using 1(2) True
      by (subst (asm) abs_loop.simps) (auto simp: Let_def and_then_eq_Inr_iff)
    obtain cs where cs: "chunks_cover (written + ?chunk) cs len"
      "delivers cfg crc32c bs2
          (map (\<lambda>(s, c). \<lparr>blk_channel_index = channel, blk_kind = AbsTimestampData (tp_of ts nv s c)\<rparr>) cs)"
      using 1(1) [OF True refl samples one rest le 1(4-6)] by blast
    have y: "yields cfg crc32c bs1 \<lparr>blk_channel_index = channel, blk_kind = AbsTimestampData (tp_of ts nv written ?chunk)\<rparr>"
      using le 1(4,5) by (intro abs_block_yields [OF _ _ samples one 1(6)]) simp_all
    show ?thesis
      by (rule exI [of _ "(written, ?chunk) # cs"]) (use cs delivers.more [OF y cs(2)] bs in simp)
  qed
qed

section \<open>Replaying chunks\<close>

lemma zip_chunks:
  assumes "n + c \<le> length ys"
  shows "zip (map f [n..<n + c]) (take c (drop n ys)) @ zip (map f [n + c..<length ys]) (drop (n + c) ys)
       = zip (map f [n..<length ys]) (drop n ys)"
proof -
  have "[n..<length ys] = [n..<n + c] @ [n + c..<length ys]"
    using assms by (metis le_add1 le_add_diff_inverse upt_add_eq_append)
  moreover have "drop n ys = take c (drop n ys) @ drop (n + c) ys" by (simp add: take_drop_append)
  ultimately show ?thesis
    using assms zip_append [of "map f [n..<n + c]" "take c (drop n ys)" "map f [n + c..<length ys]" "drop (n + c) ys"]
    by simp
qed

lemma zip_drop_chunks:
  assumes "n + c \<le> length xs" "length xs = length ys"
  shows "zip (take c (drop n xs)) (take c (drop n ys)) @ zip (drop (n + c) xs) (drop (n + c) ys)
       = zip (drop n xs) (drop n ys)"
  by (metis append_take_drop_id assms(2) drop_drop drop_zip take_zip add.commute)

lemma replay_continued:
  "bl_wf b \<Longrightarrow> in_segment b start rate n \<Longrightarrow> bl_data_type b = nv_data_type nv \<Longrightarrow>
   nv_data_type nv \<noteq> DtGpsLocation \<Longrightarrow> chunks_cover n cs (nv_len nv) \<Longrightarrow>
   \<exists>b'. replay b (map (\<lambda>(s, c). ContinuedData (np_of nv s c)) cs) = Inr b'
      \<and> bl_wf b' \<and> accepts_start b' \<and> identity_of b' = identity_of b
      \<and> builder_log b' = builder_log b
           @ zip (map (time_at start rate) [n..<nv_len nv]) (drop n (map NumSample (refs_of nv)))"
proof (induction cs arbitrary: b n)
  case Nil
  then show ?case by (auto intro: in_segment_accepts)
next
  case (Cons ch cs)
  obtain c where ch: "ch = (n, c)" and cover: "chunks_cover (n + c) cs (nv_len nv)"
    using Cons.prems(5) by (cases ch) auto
  have fits: "n + c \<le> nv_len nv" using chunks_cover_le [OF cover] .
  let ?v = "np_of nv n c"
  have len: "np_len ?v = c" using np_of_len [OF Cons.prems(4) fits] .
  have dt: "numeric_payload_data_type ?v = bl_data_type b"
    using np_of_datatype [OF Cons.prems(4)] Cons.prems(3) by simp
  obtain b1 where step: "apply_block b (ContinuedData ?v) = Inr b1"
      and seg: "in_segment b1 start rate (n + c)"
      and log: "block_log b (ContinuedData ?v)
         = zip (map (time_at start rate) [n..<n + c]) (map NumSample (np_refs ?v))"
    using continued_accepted [OF Cons.prems(1) dt Cons.prems(2)] len by metis
  note eff = replay_step [OF Cons.prems(1) step]
  obtain b' where rest: "replay b1 (map (\<lambda>(s, c). ContinuedData (np_of nv s c)) cs) = Inr b'"
      "bl_wf b'" "accepts_start b'" "identity_of b' = identity_of b1"
      "builder_log b' = builder_log b1
           @ zip (map (time_at start rate) [n + c..<nv_len nv]) (drop (n + c) (map NumSample (refs_of nv)))"
    using Cons.IH [OF eff(1) seg _ Cons.prems(4) cover] eff(3) Cons.prems(3) by auto
  have refs: "map NumSample (np_refs ?v) = take c (drop n (map NumSample (refs_of nv)))"
    by (simp add: np_of_refs [OF Cons.prems(4)] take_map drop_map)
  have "builder_log b' = builder_log b
      @ zip (map (time_at start rate) [n..<nv_len nv]) (drop n (map NumSample (refs_of nv)))"
    using zip_chunks [of n c "map NumSample (refs_of nv)" "time_at start rate"] fits
    by (simp only: rest(5) eff(2) log refs append_assoc length_map length_refs_of)
  then show ?case using rest eff ch step by simp
qed

definition segment_log :: "segment_draft \<Rightarrow> (i64 \<times> sample) list" where
  "segment_log seg =
     zip (map (time_at (sd_start_timestamp_ns seg) (sd_sample_rate_hz seg)) [0..<nv_len (sd_values seg)])
         (map NumSample (refs_of (sd_values seg)))"

lemma replay_segment:
  assumes wf: "bl_wf b" and acc: "accepts_start b" and dt: "bl_data_type b = nv_data_type (sd_values seg)"
    and gps: "nv_data_type (sd_values seg) \<noteq> DtGpsLocation"
    and c: "c \<le> nv_len (sd_values seg)" and cover: "chunks_cover c cs (nv_len (sd_values seg))"
  shows "\<exists>b'. replay b (StartData (sd_start_timestamp_ns seg) (sd_sample_rate_hz seg) (np_of (sd_values seg) 0 c)
                 # map (\<lambda>(s, c). ContinuedData (np_of (sd_values seg) s c)) cs) = Inr b'
      \<and> bl_wf b' \<and> accepts_start b' \<and> identity_of b' = identity_of b
      \<and> builder_log b' = builder_log b @ segment_log seg"
proof -
  let ?nv = "sd_values seg" and ?t = "time_at (sd_start_timestamp_ns seg) (sd_sample_rate_hz seg)"
  let ?v = "np_of ?nv 0 c"
  have len: "np_len ?v = c" using np_of_len [OF gps, of 0 c] c by simp
  have "numeric_payload_data_type ?v = bl_data_type b" using np_of_datatype [OF gps] dt by simp
  then obtain b1 where step: "apply_block b (StartData (sd_start_timestamp_ns seg) (sd_sample_rate_hz seg) ?v) = Inr b1"
      and seg: "in_segment b1 (sd_start_timestamp_ns seg) (sd_sample_rate_hz seg) c"
    using start_accepted [OF wf _ acc] len by metis
  note eff = replay_step [OF wf step]
  obtain b' where rest: "replay b1 (map (\<lambda>(s, c). ContinuedData (np_of ?nv s c)) cs) = Inr b'"
      "bl_wf b'" "accepts_start b'" "identity_of b' = identity_of b1"
      "builder_log b' = builder_log b1 @ zip (map ?t [c..<nv_len ?nv]) (drop c (map NumSample (refs_of ?nv)))"
    using replay_continued [OF eff(1) seg _ gps cover] eff(3) dt by auto
  have log1: "block_log b (StartData (sd_start_timestamp_ns seg) (sd_sample_rate_hz seg) ?v)
      = zip (map ?t [0..<0 + c]) (take c (drop 0 (map NumSample (refs_of ?nv))))"
    using np_of_refs [OF gps, of 0 c] len by (simp add: segment_timestamp_time_at take_map)
  have "builder_log b' = builder_log b @ segment_log seg"
    using zip_chunks [of 0 c "map NumSample (refs_of ?nv)" ?t] c
    by (simp add: rest(5) eff(2) log1 segment_log_def del: block_log.simps)
  then show ?thesis using rest eff step by simp
qed

section \<open>Replaying absolute blocks\<close>

definition accepts_abs :: "channel_builder \<Rightarrow> bool" where
  "accepts_abs b \<longleftrightarrow> (\<forall>s segs. bl_state b \<noteq> BsEquidistant s segs)"

lemma abs_accepted:
  assumes wf: "bl_wf b" and dt: "timestamped_payload_data_type p = bl_data_type b" and acc: "accepts_abs b"
  obtains b' where "apply_block b (AbsTimestampData p) = Inr b'" "accepts_abs b'"
proof (cases "bl_state b")
  case BsPending
  then have "empty_for (bl_data_type b) \<noteq> None" using wf by (simp add: bl_wf_def state_wf_def)
  with dt obtain nv where
    "init_timestamped_from_payload (bl_data_type b) p (bl_index b) = Inr (map fst (tp_samples p), nv)"
    using init_timestamped_ok [of "bl_data_type b" p "bl_index b"] by metis
  then show ?thesis using that BsPending dt by (simp add: apply_abs_timestamped_def accepts_abs_def)
next
  case (BsTimestamped ts nv)
  then have "nv_data_type nv = timestamped_payload_data_type p" using wf dt by (simp add: bl_wf_def state_wf_def)
  then obtain nv' where
    "extend_timestamped ts nv p (bl_index b) = Inr (ts @ map fst (tp_samples p), nv', tp_len p)"
    using extend_timestamped_ok [of nv p ts "bl_index b"] by metis
  then show ?thesis using that BsTimestamped dt by (simp add: apply_abs_timestamped_def accepts_abs_def)
next
  case (BsVariable ts strings binaries)
  then have "state_wf (bl_data_type b) (BsVariable ts strings binaries) (bl_last_timestamp_ns b)"
    using wf by (simp add: bl_wf_def)
  then obtain strings' binaries' where
    "extend_variable ts strings binaries (bl_data_type b) p (bl_index b)
       = Inr (ts @ map fst (tp_samples p), strings', binaries', tp_len p)"
    using extend_variable_ok [OF _ dt] by metis
  then show ?thesis using that BsVariable dt by (simp add: apply_abs_timestamped_def accepts_abs_def)
next
  case BsUnsupported
  then show ?thesis using dt unsupported_mismatch(2) [OF wf] by blast
qed (use acc in \<open>simp add: accepts_abs_def\<close>)

lemma replay_abs:
  "bl_wf b \<Longrightarrow> accepts_abs b \<Longrightarrow> \<forall>p \<in> set ps. timestamped_payload_data_type p = bl_data_type b \<Longrightarrow>
   \<exists>b'. replay b (map AbsTimestampData ps) = Inr b' \<and> bl_wf b' \<and> accepts_abs b'
      \<and> identity_of b' = identity_of b \<and> builder_log b' = builder_log b @ concat (map tp_samples ps)"
proof (induction ps arbitrary: b)
  case Nil
  then show ?case by simp
next
  case (Cons p ps)
  obtain b1 where step: "apply_block b (AbsTimestampData p) = Inr b1" and acc: "accepts_abs b1"
    using abs_accepted [OF Cons.prems(1) _ Cons.prems(2), of p] Cons.prems(3) by auto
  note eff = replay_step [OF Cons.prems(1) step]
  obtain b' where "replay b1 (map AbsTimestampData ps) = Inr b'" "bl_wf b'" "accepts_abs b'"
      "identity_of b' = identity_of b1" "builder_log b' = builder_log b1 @ concat (map tp_samples ps)"
    using Cons.IH [OF eff(1) acc] Cons.prems(3) eff(3) by auto
  then show ?case using step eff by simp
qed

lemma tp_chunks:
  "chunks_cover n cs (length ts) \<Longrightarrow> length ts = nv_len nv \<Longrightarrow>
   concat (map (\<lambda>(s, c). tp_samples (tp_of ts nv s c)) cs)
     = zip (drop n ts) (drop n (map NumSample (refs_of nv)))"
proof (induction cs arbitrary: n)
  case Nil
  then show ?case by simp
next
  case (Cons ch cs)
  obtain c where ch: "ch = (n, c)" and cover: "chunks_cover (n + c) cs (length ts)"
    using Cons.prems(1) by (cases ch) auto
  have "n + c \<le> length ts" using chunks_cover_le [OF cover] .
  then show ?case
    using zip_drop_chunks [of n c ts "map NumSample (refs_of nv)"] Cons.IH [OF cover Cons.prems(2)] Cons.prems(2) ch
    by (simp add: tp_of_samples)
qed

section \<open>Channels\<close>

text \<open>Data that fits the declared datatype, and the timed samples it stands for.\<close>

definition data_wf :: "data_type \<Rightarrow> channel_data \<Rightarrow> bool" where
  "data_wf dt dat \<longleftrightarrow>
     (case dat of
        CdEmpty \<Rightarrow> True
      | CdEquidistant segs \<Rightarrow>
          (dt = DtFloat \<or> dt = DtDouble) \<and> (\<forall>seg \<in> set segs. nv_data_type (sd_values seg) = dt)
      | CdTimestamped ts nv \<Rightarrow> nv_data_type nv = dt \<and> length ts = nv_len nv
      | CdVariable ts strings binaries \<Rightarrow>
          dt = DtString \<and> binaries = None
            \<and> (\<exists>ss. strings = Some ss \<and> length ss = length ts \<and> (\<forall>s \<in> set ss. rust_string s))
          \<or> dt = DtBinary \<and> strings = None \<and> (\<exists>bs. binaries = Some bs \<and> length bs = length ts))"

definition data_log :: "channel_data \<Rightarrow> (i64 \<times> sample) list" where
  "data_log dat =
     (case dat of
        CdEmpty \<Rightarrow> []
      | CdEquidistant segs \<Rightarrow> concat (map segment_log segs)
      | CdTimestamped ts nv \<Rightarrow> zip ts (map NumSample (refs_of nv))
      | CdVariable ts strings binaries \<Rightarrow> zip ts (text_samples strings binaries))"

text \<open>What a channel's bytes do to a reader and a builder.\<close>

definition channel_delivered ::
  "reader_config \<Rightarrow> (byte list \<Rightarrow> u32) \<Rightarrow> u16 \<Rightarrow> byte list \<Rightarrow> channel_builder \<Rightarrow> (i64 \<times> sample) list \<Rightarrow> bool"
where
  "channel_delivered cfg crc32c channel bs b entries \<longleftrightarrow>
     (\<exists>kinds b'. delivers cfg crc32c bs (map (\<lambda>k. \<lparr>blk_channel_index = channel, blk_kind = k\<rparr>) kinds)
        \<and> replay b kinds = Inr b' \<and> bl_wf b' \<and> identity_of b' = identity_of b
        \<and> builder_log b' = builder_log b @ entries)"

lemma delivers_chunks:
  "delivers cfg crc32c bs (map (\<lambda>(s, c). \<lparr>blk_channel_index = channel, blk_kind = K s c\<rparr>) cs) \<longleftrightarrow>
   delivers cfg crc32c bs (map (\<lambda>k. \<lparr>blk_channel_index = channel, blk_kind = k\<rparr>) (map (\<lambda>(s, c). K s c) cs))"
  by (simp add: comp_def case_prod_unfold)

lemma segment_delivered:
  assumes bs: "write_equidistant_segment crc32c channel def seg frame_crc = Inr bs"
    and ok: "writable cfg channel (cd_data_type def) (cd_size_of_length_value def) frame_crc"
    and dt: "nv_data_type (sd_values seg) = cd_data_type def"
    and fl: "cd_data_type def = DtFloat \<or> cd_data_type def = DtDouble"
    and b: "bl_wf b" "accepts_start b" "bl_data_type b = cd_data_type def"
  shows "\<exists>kinds b'. delivers cfg crc32c bs (map (\<lambda>k. \<lparr>blk_channel_index = channel, blk_kind = k\<rparr>) kinds)
        \<and> replay b kinds = Inr b' \<and> bl_wf b' \<and> accepts_start b' \<and> identity_of b' = identity_of b
        \<and> builder_log b' = builder_log b @ segment_log seg"
proof -
  let ?nv = "sd_values seg" and ?w = "cd_size_of_length_value def"
  obtain n where n: "numeric_byte_size (cd_data_type def) = Inr n" using fl by auto
  let ?first = "min (nv_len ?nv) (max ((max_block_payload_reserved ?w frame_crc - (1 + 8 + 8 + 4)) div n) 1)"
  let ?m = "(max_block_payload_reserved ?w frame_crc - (1 + 4)) div n"
  obtain bs1 bs2 where
      one: "write_start_data_block crc32c channel ?w (sd_start_timestamp_ns seg) (sd_sample_rate_hz seg) ?nv 0 ?first frame_crc = Inr bs1"
      and rest: "continued_loop crc32c channel ?w ?nv ?m frame_crc ?first (nv_len ?nv) = Inr bs2"
      and split: "bs = bs1 @ bs2"
    using bs n by (auto simp: write_equidistant_segment_def Let_def and_then_eq_Inr_iff)
  have ok': "writable cfg channel (nv_data_type ?nv) ?w frame_crc" using ok dt by simp
  have gps: "nv_data_type ?nv \<noteq> DtGpsLocation" using fl dt by auto
  have le: "?first \<le> nv_len ?nv" by simp
  have y: "yields cfg crc32c bs1 \<lparr>blk_channel_index = channel,
      blk_kind = StartData (sd_start_timestamp_ns seg) (sd_sample_rate_hz seg) (np_of ?nv 0 ?first)\<rparr>"
    by (rule start_block_yields [OF one ok' gps])
  obtain cs where cover: "chunks_cover ?first cs (nv_len ?nv)"
    and d: "delivers cfg crc32c bs2
          (map (\<lambda>(s, c). \<lparr>blk_channel_index = channel, blk_kind = ContinuedData (np_of ?nv s c)\<rparr>) cs)"
    using continued_loop_delivers [OF rest le ok' gps] by blast
  let ?kinds = "StartData (sd_start_timestamp_ns seg) (sd_sample_rate_hz seg) (np_of ?nv 0 ?first)
                 # map (\<lambda>(s, c). ContinuedData (np_of ?nv s c)) cs"
  have "delivers cfg crc32c bs (map (\<lambda>k. \<lparr>blk_channel_index = channel, blk_kind = k\<rparr>) ?kinds)"
    using delivers.more [OF y d [unfolded delivers_chunks]] split by simp
  moreover have "bl_data_type b = nv_data_type ?nv" using b(3) dt by simp
  ultimately show ?thesis
    using replay_segment [OF b(1,2) _ gps le cover] by blast
qed

lemma segments_delivered:
  "\<forall>seg \<in> set segs. nv_data_type (sd_values seg) = cd_data_type def \<Longrightarrow>
   first_error (map (\<lambda>seg. write_equidistant_segment crc32c channel def seg frame_crc) segs) = Inr bss \<Longrightarrow>
   writable cfg channel (cd_data_type def) (cd_size_of_length_value def) frame_crc \<Longrightarrow>
   cd_data_type def = DtFloat \<or> cd_data_type def = DtDouble \<Longrightarrow>
   bl_wf b \<Longrightarrow> accepts_start b \<Longrightarrow> bl_data_type b = cd_data_type def \<Longrightarrow>
   channel_delivered cfg crc32c channel (concat bss) b (concat (map segment_log segs))"
proof (induction segs arbitrary: bss b)
  case Nil
  then show ?case
    by (auto simp: channel_delivered_def intro!: exI [of _ "[]"] delivers.none)
next
  case (Cons seg segs)
  obtain bs bss' where one: "write_equidistant_segment crc32c channel def seg frame_crc = Inr bs"
      and rest: "first_error (map (\<lambda>seg. write_equidistant_segment crc32c channel def seg frame_crc) segs) = Inr bss'"
      and split: "bss = bs # bss'"
    using Cons.prems(2) by (auto simp: and_then_eq_Inr_iff)
  obtain kinds b1 where d1: "delivers cfg crc32c bs (map (\<lambda>k. \<lparr>blk_channel_index = channel, blk_kind = k\<rparr>) kinds)"
        and r1: "replay b kinds = Inr b1" and b1: "bl_wf b1" "accepts_start b1" "identity_of b1 = identity_of b"
        "builder_log b1 = builder_log b @ segment_log seg"
    using segment_delivered [OF one Cons.prems(3) _ Cons.prems(4-7)] Cons.prems(1) by auto
  have dt1: "bl_data_type b1 = cd_data_type def" using identity_fields(3) [OF b1(3)] Cons.prems(7) by simp
  obtain kinds' b' where d2: "delivers cfg crc32c (concat bss') (map (\<lambda>k. \<lparr>blk_channel_index = channel, blk_kind = k\<rparr>) kinds')"
        and r2: "replay b1 kinds' = Inr b'" "bl_wf b'" "identity_of b' = identity_of b1"
        "builder_log b' = builder_log b1 @ concat (map segment_log segs)"
    using Cons.IH [OF _ rest Cons.prems(3,4) b1(1,2) dt1] Cons.prems(1) by (auto simp: channel_delivered_def)
  show ?case
    unfolding channel_delivered_def
    using delivers_append [OF d1 d2] r1 r2 b1 split
    by (intro exI [of _ "kinds @ kinds'"] exI [of _ b']) (simp add: exec_all_append)
qed

lemma texts_delivered:
  assumes one: "\<And>t x bs. (t, x) \<in> set txs \<Longrightarrow> wr t x = Inr bs \<Longrightarrow>
      yields cfg crc32c bs \<lparr>blk_channel_index = channel, blk_kind = AbsTimestampData (tp t x)\<rparr>"
    and all: "first_error (map (\<lambda>(t, x). wr t x) txs) = Inr bss"
  shows "delivers cfg crc32c (concat bss)
    (map (\<lambda>k. \<lparr>blk_channel_index = channel, blk_kind = k\<rparr>) (map AbsTimestampData (map (\<lambda>(t, x). tp t x) txs)))"
  using assms
proof (induction txs arbitrary: bss)
  case Nil
  then show ?case by (simp add: delivers.none)
next
  case (Cons p txs)
  obtain t x where p: "p = (t, x)" by (cases p)
  obtain bs bss' where w: "wr t x = Inr bs" and rest: "first_error (map (\<lambda>(t, x). wr t x) txs) = Inr bss'"
      and split: "bss = bs # bss'"
    using Cons.prems(2) p by (auto simp: and_then_eq_Inr_iff)
  have "yields cfg crc32c bs \<lparr>blk_channel_index = channel, blk_kind = AbsTimestampData (tp t x)\<rparr>"
    using Cons.prems(1) [of t x] p w by simp
  from delivers.more [OF this Cons.IH [OF Cons.prems(1) rest]] show ?case by (simp add: p split)
qed

lemma abs_delivered:
  assumes d: "delivers cfg crc32c bs (map (\<lambda>k. \<lparr>blk_channel_index = channel, blk_kind = k\<rparr>) (map AbsTimestampData ps))"
    and "bl_wf b" "accepts_abs b" "\<forall>p \<in> set ps. timestamped_payload_data_type p = bl_data_type b"
    and "concat (map tp_samples ps) = entries"
  shows "channel_delivered cfg crc32c channel bs b entries"
  using replay_abs [OF assms(2-4)] d assms(5) unfolding channel_delivered_def by blast

lemma fresh_builder:
  assumes "\<not> is_unsupported (mc_data_type m)"
  shows "builder_log (builder_for m) = []" and "accepts_abs (builder_for m)"
    and "mc_data_type m \<notin> {DtString, DtBinary, DtByteArray} \<Longrightarrow> accepts_start (builder_for m)"
    and "bl_data_type (builder_for m) = mc_data_type m"
  using assms
  by (cases "mc_data_type m";
      simp add: builder_log_def builder_for_def initial_state_for_def accepts_abs_def accepts_start_def
        text_samples_def)+

theorem channel_written_delivered:
  assumes bs: "write_channel crc32c channel def dat frame_crc = Inr bs"
    and ok: "writable cfg channel (cd_data_type def) (cd_size_of_length_value def) frame_crc"
    and version: "rc_version cfg = Osf5" and wf: "data_wf (cd_data_type def) dat"
    and m: "mc_data_type m = cd_data_type def"
  shows "channel_delivered cfg crc32c channel bs (builder_for m) (data_log dat)"
proof -
  have supp: "\<not> is_unsupported (mc_data_type m)" using ok m by (simp add: writable_def)
  note fresh = fresh_builder [OF supp]
  show ?thesis
  proof (cases dat)
    case CdEmpty
    then show ?thesis
      using bs by (auto simp: write_channel_def channel_delivered_def data_log_def builder_for_wf
                     intro!: exI [of _ "[]"] delivers.none)
  next
    case (CdEquidistant segs)
    then obtain bss where "first_error (map (\<lambda>seg. write_equidistant_segment crc32c channel def seg frame_crc) segs) = Inr bss"
        "bs = concat bss"
      using bs by (auto simp: write_channel_def)
    then show ?thesis
      using segments_delivered [OF _ _ ok _ builder_for_wf] CdEquidistant wf fresh(3,4) m
      by (auto simp: data_wf_def data_log_def)
  next
    case (CdTimestamped ts nv)
    then have nv: "nv_data_type nv = cd_data_type def" "length ts = nv_len nv" using wf by (simp_all add: data_wf_def)
    have "\<exists>cs. chunks_cover 0 cs (length ts)
        \<and> delivers cfg crc32c bs
          (map (\<lambda>(s, c). \<lparr>blk_channel_index = channel, blk_kind = AbsTimestampData (tp_of ts nv s c)\<rparr>) cs)"
    proof (cases "ts = []")
      case True
      then show ?thesis using bs CdTimestamped numeric_byte_size_nv [of nv] nv
        by (auto simp: write_channel_def write_abs_timestamp_numeric_def intro!: exI [of _ "[]"] delivers.none)
    next
      case False
      obtain n where "numeric_byte_size (cd_data_type def) = Inr n" using numeric_byte_size_nv [of nv] nv by auto
      then have "abs_loop crc32c channel (cd_size_of_length_value def) ts nv
           ((max_block_payload_reserved (cd_size_of_length_value def) frame_crc - (1 + 4)) div (8 + n))
           frame_crc 0 (length ts) = Inr bs"
        using bs CdTimestamped False by (simp add: write_channel_def write_abs_timestamp_numeric_def Let_def)
      from abs_loop_delivers [OF this] nv ok show ?thesis by simp
    qed
    then obtain cs where cs: "chunks_cover 0 cs (length ts)" and
      d: "delivers cfg crc32c bs (map (\<lambda>k. \<lparr>blk_channel_index = channel, blk_kind = k\<rparr>)
            (map AbsTimestampData (map (\<lambda>(s, c). tp_of ts nv s c) cs)))"
      unfolding delivers_chunks by (auto simp: comp_def case_prod_unfold)
    show ?thesis
      using fresh(2,4) m nv tp_chunks [OF cs nv(2)] CdTimestamped
      by (intro abs_delivered [OF d builder_for_wf])
         (auto simp: tp_of_datatype data_log_def comp_def case_prod_unfold)
  next
    case (CdVariable ts strings binaries)
    consider (strs) ss where "cd_data_type def = DtString" "strings = Some ss" "binaries = None"
        "length ss = length ts" "\<forall>s \<in> set ss. rust_string s"
      | (bins) bb where "cd_data_type def = DtBinary" "strings = None" "binaries = Some bb" "length bb = length ts"
      using wf CdVariable by (auto simp: data_wf_def)
    then show ?thesis
    proof cases
      case strs
      obtain bss where all: "first_error (map (\<lambda>(t, s). write_variable_one_string crc32c channel def frame_crc t s)
             (zip ts ss)) = Inr bss" and split: "bs = concat bss"
        using bs CdVariable strs by (cases "ts = []") (auto simp: write_channel_def write_abs_timestamp_variable_def)
      have "yields cfg crc32c bs' \<lparr>blk_channel_index = channel, blk_kind = AbsTimestampData (TpString [(t, s)])\<rparr>"
        if "(t, s) \<in> set (zip ts ss)" "write_variable_one_string crc32c channel def frame_crc t s = Inr bs'" for t s bs'
      proof -
        have "rust_string s" using that(1) strs(5) by (auto dest: set_zip_rightD)
        then have "from_utf8 (bytes_of_string s) = Some s" by (rule from_utf8_bytes_of_string)
        then show ?thesis
          using that(2) strs(1) ok version
          by (intro variable_block_yields [where bytes = "bytes_of_string s" and s = s])
             (auto simp: write_variable_one_string_def and_then_eq_Inr_iff)
      qed
      from texts_delivered [OF this all] have
        d: "delivers cfg crc32c bs (map (\<lambda>k. \<lparr>blk_channel_index = channel, blk_kind = k\<rparr>)
              (map AbsTimestampData (map (\<lambda>(t, s). TpString [(t, s)]) (zip ts ss))))"
        unfolding split .
      have "concat (map tp_samples (map (\<lambda>(t, s). TpString [(t, s)]) (zip ts ss)))
          = zip ts (map (VarSample \<circ> VrString) ss)"
        using strs(4) by (induction ts ss rule: list_induct2') auto
      then show ?thesis
        using fresh(2,4) m strs CdVariable
        by (intro abs_delivered [OF d builder_for_wf]) (auto simp: data_log_def text_samples_def)
    next
      case bins
      obtain bss where all: "first_error (map (\<lambda>(t, s). write_variable_one_binary crc32c channel def frame_crc t s)
             (zip ts bb)) = Inr bss" and split: "bs = concat bss"
        using bs CdVariable bins by (cases "ts = []") (auto simp: write_channel_def write_abs_timestamp_variable_def)
      have "yields cfg crc32c bs' \<lparr>blk_channel_index = channel, blk_kind = AbsTimestampData (TpBinary [(t, x)])\<rparr>"
        if "(t, x) \<in> set (zip ts bb)" "write_variable_one_binary crc32c channel def frame_crc t x = Inr bs'" for t x bs'
        using that(2) bins(1) ok version
        by (intro variable_block_yields [where bytes = x])
           (auto simp: write_variable_one_binary_def and_then_eq_Inr_iff)
      from texts_delivered [OF this all] have
        d: "delivers cfg crc32c bs (map (\<lambda>k. \<lparr>blk_channel_index = channel, blk_kind = k\<rparr>)
              (map AbsTimestampData (map (\<lambda>(t, x). TpBinary [(t, x)]) (zip ts bb))))"
        unfolding split .
      have "concat (map tp_samples (map (\<lambda>(t, x). TpBinary [(t, x)]) (zip ts bb)))
          = zip ts (map (VarSample \<circ> VrBinary) bb)"
        using bins(4) by (induction ts bb rule: list_induct2') auto
      then show ?thesis
        using fresh(2,4) m bins CdVariable
        by (intro abs_delivered [OF d builder_for_wf]) (auto simp: data_log_def text_samples_def)
    qed
  qed
qed

end
