(* ===== verification/FileRoundTrip.thy ===== *)
theory FileRoundTrip
  imports RoundTrip
begin

text \<open>
  The whole data section: what \<open>write_data_blocks\<close> emits for a list of channels, read by a
  \<open>BlockReader\<close> over the metablock of the same channels and collected by \<open>build_channels\<close>.
\<close>

section \<open>Several channels\<close>

lemma feed_channel:
  "replay b kinds = Inr b' \<Longrightarrow> builders i = Some b \<Longrightarrow>
   exec_all feed_block builders (map (\<lambda>k. Inr \<lparr>blk_channel_index = i, blk_kind = k\<rparr>) kinds)
     = Inr (builders(i \<mapsto> b'))"
proof (induction kinds arbitrary: b builders)
  case Nil
  then show ?case by (auto simp: fun_upd_idem)
next
  case (Cons k kinds)
  obtain b1 where one: "apply_block b k = Inr b1" and rest: "replay b1 kinds = Inr b'"
    using Cons.prems(1) by (auto simp: and_then_eq_Inr_iff)
  have "feed_block builders (Inr \<lparr>blk_channel_index = i, blk_kind = k\<rparr>) = Inr (builders(i \<mapsto> b1))"
    using one Cons.prems(2) by (simp add: feed_block_def)
  moreover have "exec_all feed_block (builders(i \<mapsto> b1)) (map (\<lambda>k. Inr \<lparr>blk_channel_index = i, blk_kind = k\<rparr>) kinds)
      = Inr ((builders(i \<mapsto> b1))(i \<mapsto> b'))"
    by (rule Cons.IH [OF rest]) simp
  ultimately show ?case by (simp del: fun_upd_apply)
qed

text \<open>A channel to be written: its index, its bytes, its fresh builder and its samples.\<close>

type_synonym delivery = "u16 \<times> byte list \<times> channel_builder \<times> (i64 \<times> sample) list"

definition delivered_to :: "builders \<Rightarrow> delivery \<Rightarrow> bool" where
  "delivered_to builders d \<longleftrightarrow>
     (case d of (i, bs, b, entries) \<Rightarrow>
        (\<exists>b'. builders i = Some b' \<and> bl_wf b' \<and> identity_of b' = identity_of b
           \<and> builder_log b' = builder_log b @ entries))"

lemma channels_delivered:
  "\<forall>(i, bs, b, entries) \<in> set ds. channel_delivered cfg crc32c i bs b entries \<and> builders i = Some b \<Longrightarrow>
   distinct (map fst ds) \<Longrightarrow>
   \<exists>blks builders'. delivers cfg crc32c (concat (map (fst \<circ> snd) ds)) blks
      \<and> exec_all feed_block builders (map Inr blks) = Inr builders'
      \<and> (\<forall>d \<in> set ds. delivered_to builders' d)
      \<and> (\<forall>i. i \<notin> fst ` set ds \<longrightarrow> builders' i = builders i)"
proof (induction ds arbitrary: builders)
  case Nil
  then show ?case by (intro exI [of _ "[]"] exI [of _ builders]) (simp add: delivers.none)
next
  case (Cons d ds)
  obtain i bs b entries where d: "d = (i, bs, b, entries)" by (cases d)
  have one: "channel_delivered cfg crc32c i bs b entries" "builders i = Some b" using Cons.prems(1) d by auto
  then obtain kinds b' where k: "delivers cfg crc32c bs (map (\<lambda>k. \<lparr>blk_channel_index = i, blk_kind = k\<rparr>) kinds)"
      "replay b kinds = Inr b'" "bl_wf b'" "identity_of b' = identity_of b" "builder_log b' = builder_log b @ entries"
    by (auto simp: channel_delivered_def)
  let ?builders = "builders(i \<mapsto> b')"
  have fresh: "i \<notin> fst ` set ds" using Cons.prems(2) d by simp
  have "\<forall>(j, bs, c, entries) \<in> set ds. channel_delivered cfg crc32c j bs c entries \<and> ?builders j = Some c"
    using Cons.prems(1) fresh by (force simp: image_iff)
  moreover have "distinct (map fst ds)" using Cons.prems(2) by simp
  ultimately obtain blks builders' where
    rest: "delivers cfg crc32c (concat (map (fst \<circ> snd) ds)) blks"
      "exec_all feed_block ?builders (map Inr blks) = Inr builders'"
      "\<forall>d \<in> set ds. delivered_to builders' d"
      "\<forall>j. j \<notin> fst ` set ds \<longrightarrow> builders' j = ?builders j"
    using Cons.IH [of ?builders] by blast
  let ?blks = "map (\<lambda>k. \<lparr>blk_channel_index = i, blk_kind = k\<rparr>) kinds @ blks"
  have "delivers cfg crc32c (concat (map (fst \<circ> snd) (d # ds))) ?blks"
    using delivers_append [OF k(1) rest(1)] d by simp
  moreover have "exec_all feed_block builders (map Inr ?blks) = Inr builders'"
    using feed_channel [where builders = builders and i = i, OF k(2) one(2)] rest(2) by (simp add: exec_all_append comp_def)
  moreover have "delivered_to builders' d"
    using rest(4) fresh k d by (simp add: delivered_to_def)
  moreover have "\<forall>j. j \<notin> fst ` set (d # ds) \<longrightarrow> builders' j = builders j"
    using rest(4) d by auto
  ultimately show ?case using rest(3) by (intro exI [of _ ?blks] exI [of _ builders']) (simp add: comp_def)
qed

section \<open>The reader's channel table\<close>

lemma register_channels_other:
  "i \<notin> mc_index ` set chans \<Longrightarrow> fst (register_channels chans (table, s)) i = table i"
  by (induction chans arbitrary: table s) (auto simp: trouble_def)

lemma register_channels_at:
  "distinct (map mc_index chans) \<Longrightarrow> m \<in> set chans \<Longrightarrow>
   fst (register_channels chans (table, s)) (mc_index m)
     = Some \<lparr>ci_data_type = mc_data_type m, ci_size_of_length_value = mc_size_of_length_value m\<rparr>"
proof (induction chans arbitrary: table s)
  case Nil
  then show ?case by simp
next
  case (Cons c chans)
  show ?case
  proof (cases "m = c")
    case True
    then show ?thesis using Cons.prems register_channels_other [of "mc_index c" chans] by auto
  next
    case False
    then show ?thesis using Cons by simp
  qed
qed

lemma register_channels_trouble:
  "trouble (snd (register_channels chans (table, s))) = trouble s"
  by (induction chans arbitrary: table s) (auto simp: trouble_def)

text \<open>The reader of a manager, with the size of the file where it is known.\<close>

definition sized :: "nat option \<Rightarrow> block_reader \<Rightarrow> block_reader" where
  "sized file_size r = (case file_size of Some n \<Rightarrow> with_file_size n r | None \<Rightarrow> r)"

lemma sized_None [simp]: "sized None r = r"
  by (simp add: sized_def)

definition meta_version :: "meta_block \<Rightarrow> osf_version" where
  "meta_version meta = (if fi_version (mb_file_info meta) = 4 then Osf4 else Osf5)"

text \<open>The configuration of the reader a manager makes for a metablock.\<close>

definition config_for :: "integrity_profile \<Rightarrow> meta_block \<Rightarrow> reader_config" where
  "config_for profile meta =
     \<lparr>rc_channels = br_channels (block_reader_new (source []) meta), rc_version = meta_version meta,
      rc_integrity = profile\<rparr>"

lemma new_reader_at:
  fixes profile :: integrity_profile and bytes :: "byte list" and file_size :: "nat option"
  assumes dist: "distinct (map mc_index (mb_channels meta))"
  defines "r \<equiv> sized file_size (with_integrity profile (block_reader_new (source bytes) meta))"
  shows "reader_at (config_for profile meta) r"
    and "pending (br_inner r) = bytes" "\<not> faulty (br_inner r)"
    and "trouble (br_stats r) = no_trouble"
    and "\<And>m. m \<in> set (mb_channels meta) \<Longrightarrow> rc_channels (config_for profile meta) (mc_index m)
       = Some \<lparr>ci_data_type = mc_data_type m, ci_size_of_length_value = mc_size_of_length_value m\<rparr>"
proof -
  let ?init = "reader_stats_default\<lparr>rs_channels_total := length (mb_channels meta)\<rparr>"
  let ?reg = "register_channels (mb_channels meta) (Map.empty, ?init)"
  have r: "r = \<lparr>br_inner = source bytes, br_osf_version = meta_version meta, br_channels = fst ?reg, br_finished = False,
      br_capture_skipped = False, br_integrity = profile,
      br_stats = (case file_size of
          Some n \<Rightarrow> snd ?reg\<lparr>rs_integrity := profile, rs_file_size_bytes := Some n\<rparr>
        | None \<Rightarrow> snd ?reg\<lparr>rs_integrity := profile\<rparr>)\<rparr>"
    by (simp add: r_def meta_version_def sized_def with_file_size_def with_integrity_def block_reader_new_def Let_def
        case_prod_unfold split: option.split)
  have cfg: "rc_channels (config_for profile meta) = fst ?reg"
    by (simp add: config_for_def block_reader_new_def Let_def case_prod_unfold)
  then show "reader_at (config_for profile meta) r"
    by (simp add: r reader_at_def) (simp add: config_for_def)
  show "pending (br_inner r) = bytes" "\<not> faulty (br_inner r)"
    by (simp_all add: r)
  have "trouble (br_stats r) = trouble (snd ?reg)"
    by (simp add: r trouble_def split: option.split)
  then show "trouble (br_stats r) = no_trouble"
    by (simp add: register_channels_trouble) (simp add: no_trouble_counters reader_stats_default_def)
  show "rc_channels (config_for profile meta) (mc_index m)
       = Some \<lparr>ci_data_type = mc_data_type m, ci_size_of_length_value = mc_size_of_length_value m\<rparr>"
    if "m \<in> set (mb_channels meta)" for m
    using register_channels_at [OF dist that] by (simp add: cfg)
qed

section \<open>The file\<close>

text \<open>The metablock describes exactly the channels that were written.\<close>

definition meta_describes :: "meta_block \<Rightarrow> channel_def list \<Rightarrow> bool" where
  "meta_describes meta defs \<longleftrightarrow>
     fi_version (mb_file_info meta) = 5
     \<and> map (\<lambda>m. (mc_index m, mc_name m, mc_data_type m, mc_size_of_length_value m)) (mb_channels meta)
       = map (\<lambda>(i, d). (of_nat i, cd_name d, cd_data_type d, cd_size_of_length_value d)) (List.enumerate 0 defs)"

text \<open>Channels whose index the reader does not reserve, and data that fits them.\<close>

definition file_wf :: "channel_def list \<Rightarrow> channel_data list \<Rightarrow> bool" where
  "file_wf defs datas \<longleftrightarrow>
     length defs \<le> 0xFFFE
     \<and> list_all2 (\<lambda>d dat. data_wf (cd_data_type d) dat) defs datas
     \<and> (\<forall>d \<in> set defs. (cd_size_of_length_value d = 2 \<or> cd_size_of_length_value d = 4)
          \<and> \<not> is_unsupported (cd_data_type d))"

lemma meta_describes_nth:
  assumes "meta_describes meta defs"
  shows "length (mb_channels meta) = length defs"
    and "i < length defs \<Longrightarrow> mc_index (mb_channels meta ! i) = of_nat i
       \<and> mc_name (mb_channels meta ! i) = cd_name (defs ! i)
       \<and> mc_data_type (mb_channels meta ! i) = cd_data_type (defs ! i)
       \<and> mc_size_of_length_value (mb_channels meta ! i) = cd_size_of_length_value (defs ! i)"
proof -
  have eq: "map (\<lambda>m. (mc_index m, mc_name m, mc_data_type m, mc_size_of_length_value m)) (mb_channels meta)
       = map (\<lambda>(i, d). (of_nat i, cd_name d, cd_data_type d, cd_size_of_length_value d)) (List.enumerate 0 defs)"
    using assms by (simp add: meta_describes_def)
  from arg_cong [OF this, of length] show len: "length (mb_channels meta) = length defs" by simp
  show "mc_index (mb_channels meta ! i) = of_nat i
       \<and> mc_name (mb_channels meta ! i) = cd_name (defs ! i)
       \<and> mc_data_type (mb_channels meta ! i) = cd_data_type (defs ! i)
       \<and> mc_size_of_length_value (mb_channels meta ! i) = cd_size_of_length_value (defs ! i)"
    if "i < length defs"
    using arg_cong [OF eq, of "\<lambda>l. l ! i"] len that by (simp add: nth_enumerate_eq)
qed

lemma index_of_nat_inj: "i < 65536 \<Longrightarrow> j < 65536 \<Longrightarrow> (of_nat i :: u16) = of_nat j \<longleftrightarrow> i = j"
  by (simp add: word_of_nat_eq_iff take_bit_nat_eq_self)

lemma meta_describes_distinct:
  assumes "meta_describes meta defs" and "length defs \<le> 65536"
  shows "distinct (map mc_index (mb_channels meta))"
  using meta_describes_nth [OF assms(1)] assms(2) by (auto simp: distinct_conv_nth index_of_nat_inj)

lemma write_data_blocks_channels:
  assumes "write_data_blocks crc32c defs datas frame_crc = Inr bytes" and "length datas = length defs"
    and "length defs \<le> 65536"
  obtains bss where "length bss = length defs" "bytes = concat bss"
    "\<forall>i < length defs. write_channel crc32c (of_nat i) (defs ! i) (datas ! i) frame_crc = Inr (bss ! i)"
proof -
  let ?one = "\<lambda>(index, def). if 65536 \<le> index then Inl (Panic ''channel index validated earlier'')
          else and_then (index_at datas index) (\<lambda>dat. write_channel crc32c (of_nat index) def dat frame_crc)"
  obtain bss where all: "first_error (map ?one (List.enumerate 0 defs)) = Inr bss" and bytes: "bytes = concat bss"
    using assms(1) unfolding write_data_blocks_def map_ok_eq_Inr_iff by blast
  have eq: "map ?one (List.enumerate 0 defs) = map Inr bss" by (rule first_error_Inr [OF all])
  from arg_cong [OF this, of length] have len: "length bss = length defs" by simp
  have "write_channel crc32c (of_nat i) (defs ! i) (datas ! i) frame_crc = Inr (bss ! i)" if "i < length defs" for i
    using arg_cong [OF eq, of "\<lambda>l. l ! i"] that len assms(2,3)
    by (simp add: nth_enumerate_eq index_at_def)
  then have "\<forall>i < length defs. write_channel crc32c (of_nat i) (defs ! i) (datas ! i) frame_crc = Inr (bss ! i)"
    by blast
  with len bytes show ?thesis by (rule that)
qed

lemma builder_for_fields [simp]:
  "bl_index (builder_for m) = mc_index m" "bl_name (builder_for m) = mc_name m"
  "bl_data_type (builder_for m) = mc_data_type m"
  by (simp_all add: builder_for_def)

text \<open>What the builders become the channels of, when each has collected its log.\<close>

lemma built_channels:
  assumes dist: "distinct (map mc_index (mb_channels meta))"
    and fed: "exec_all feed_block (foldl insert_builder Map.empty (mb_channels meta)) xs = Inr builders"
    and each: "\<forall>m \<in> set (mb_channels meta). \<not> is_unsupported (mc_data_type m)
        \<and> (\<exists>b. builders (mc_index m) = Some b \<and> bl_wf b \<and> identity_of b = identity_of (builder_for m)
              \<and> builder_log b = log m)"
  obtains channels by_name by_index where
    "build_channels meta xs = Inr (channels, by_name, by_index)"
    "map (\<lambda>c. (channel_index c, channel_name c, channel_data_type c, channel_log c)) channels
       = map (\<lambda>m. (mc_index m, mc_name m, mc_data_type m, Inr (log m))) (mb_channels meta)"
    "\<forall>c \<in> set channels. \<exists>m \<in> set (mb_channels meta). \<exists>b. builders (mc_index m) = Some b \<and> finalize b = Some c"
proof -
  let ?out = "collect_channels (map mc_index (mb_channels meta)) builders ([], Map.empty, Map.empty)"
  let ?view = "\<lambda>c. (channel_index c, channel_name c, channel_data_type c, channel_log c)"
  have out: "build_channels meta xs = Inr ?out" using fed by (simp add: build_channels_def)
  have channels: "fst ?out = concat (map (finalized_at builders) (map mc_index (mb_channels meta)))"
    using collect_list [OF dist] by simp
  have one: "map ?view (finalized_at builders (mc_index m)) = [(mc_index m, mc_name m, mc_data_type m, Inr (log m))]"
    if m: "m \<in> set (mb_channels meta)" for m
  proof -
    obtain b where b: "builders (mc_index m) = Some b" "bl_wf b" "identity_of b = identity_of (builder_for m)"
        "builder_log b = log m" "\<not> is_unsupported (mc_data_type m)" using each m by blast
    have fields: "bl_index b = mc_index m" "bl_name b = mc_name m" "bl_data_type b = mc_data_type m"
      using identity_fields [OF b(3)] by simp_all
    obtain c where c: "finalize b = Some c" using finalize_none [OF b(2)] b(5) fields(3) by auto
    show ?thesis using finalize_channel [OF b(2) c] fields b(1,4) c by (simp add: finalized_at_def)
  qed
  have "map ?view (concat (map (finalized_at builders) (map mc_index ms)))
      = map (\<lambda>m. (mc_index m, mc_name m, mc_data_type m, Inr (log m))) ms"
    if "set ms \<subseteq> set (mb_channels meta)" for ms
    using that one by (induction ms) auto
  then have "map ?view (fst ?out) = map (\<lambda>m. (mc_index m, mc_name m, mc_data_type m, Inr (log m))) (mb_channels meta)"
    unfolding channels by simp
  moreover have "\<forall>c \<in> set (fst ?out). \<exists>m \<in> set (mb_channels meta). \<exists>b. builders (mc_index m) = Some b \<and> finalize b = Some c"
  proof
    fix c assume "c \<in> set (fst ?out)"
    then obtain m where m: "m \<in> set (mb_channels meta)" "c \<in> set (finalized_at builders (mc_index m))"
      unfolding channels by auto
    then obtain b where "builders (mc_index m) = Some b" "finalize b = Some c"
      by (cases "builders (mc_index m)"; cases "finalize (the (builders (mc_index m)))")
         (auto simp: finalized_at_def)
    with m(1) show "\<exists>m \<in> set (mb_channels meta). \<exists>b. builders (mc_index m) = Some b \<and> finalize b = Some c"
      by blast
  qed
  ultimately show ?thesis using that [of "fst ?out" "fst (snd ?out)" "snd (snd ?out)"] out by simp
qed

text \<open>Every written channel is one the reader of the described metablock can read.\<close>

lemma file_writable:
  assumes meta: "meta_describes meta defs" and wf: "file_wf defs datas" and i: "i < length defs"
    and profile: "profile = IpNone \<longleftrightarrow> \<not> frame_crc"
  shows "writable (config_for profile meta) (of_nat i) (cd_data_type (defs ! i)) (cd_size_of_length_value (defs ! i)) frame_crc"
proof -
  have n: "length defs \<le> 65534" using wf by (simp add: file_wf_def)
  note nth = meta_describes_nth [OF meta]
  have dist: "distinct (map mc_index (mb_channels meta))" using n by (intro meta_describes_distinct [OF meta]) simp
  have d: "defs ! i \<in> set defs" using i by simp
  have "rc_channels (config_for profile meta) (of_nat i)
      = Some \<lparr>ci_data_type = cd_data_type (defs ! i), ci_size_of_length_value = cd_size_of_length_value (defs ! i)\<rparr>"
    using new_reader_at(5) [OF dist, of "mb_channels meta ! i"] nth i by simp
  moreover have "(of_nat i :: u16) \<noteq> of_nat 65535" "(of_nat i :: u16) \<noteq> of_nat 65534"
    using i n by (subst index_of_nat_inj; simp)+
  moreover have "rc_integrity (config_for profile meta) = profile" by (simp add: config_for_def)
  ultimately show ?thesis
    using wf d profile
    by (auto simp: writable_def file_wf_def TRAILER_CHANNEL_INDEX_def SIGNATURE_CHANNEL_INDEX_def)
qed

text \<open>The data section: its blocks, and the builders they are collected in.\<close>

lemma data_delivered:
  assumes written: "write_data_blocks crc32c defs datas frame_crc = Inr bytes"
    and meta: "meta_describes meta defs" and wf: "file_wf defs datas"
    and profile: "profile = IpNone \<longleftrightarrow> \<not> frame_crc"
  obtains blks builders where
    "delivers (config_for profile meta) crc32c bytes blks"
    "exec_all feed_block (foldl insert_builder Map.empty (mb_channels meta)) (map Inr blks) = Inr builders"
    "\<forall>m \<in> set (mb_channels meta). \<not> is_unsupported (mc_data_type m)
       \<and> (\<exists>b. builders (mc_index m) = Some b \<and> bl_wf b \<and> identity_of b = identity_of (builder_for m)
             \<and> builder_log b = data_log (datas ! unat (mc_index m)))"
proof -
  let ?ms = "mb_channels meta" and ?n = "length defs" and ?cfg = "config_for profile meta"
  have n: "?n \<le> 65534" and n': "?n \<le> 65536" and n2: "length datas = ?n"
    using wf by (auto simp: file_wf_def list_all2_lengthD)
  note nth = meta_describes_nth [OF meta]
  have dist: "distinct (map mc_index ?ms)" using n by (intro meta_describes_distinct [OF meta]) simp
  have version: "rc_version ?cfg = Osf5" using meta by (simp add: meta_describes_def meta_version_def config_for_def)
  obtain bss where bss: "length bss = ?n" "bytes = concat bss"
      "\<forall>i < ?n. write_channel crc32c (of_nat i) (defs ! i) (datas ! i) frame_crc = Inr (bss ! i)"
    using write_data_blocks_channels [OF written n2 n'] .
  let ?d = "\<lambda>i. (of_nat i :: u16, bss ! i, builder_for (?ms ! i), data_log (datas ! i))"
  let ?ds = "map ?d [0..<?n]"
  let ?init = "foldl insert_builder Map.empty ?ms"
  have init: "?init (of_nat i) = Some (builder_for (?ms ! i))" if "i < ?n" for i
    using initial_builder_at [OF dist, of "?ms ! i"] nth that by simp
  have supported: "\<not> is_unsupported (mc_data_type (?ms ! i))" if "i < ?n" for i
    using wf nth(2) [OF that] that by (simp add: file_wf_def)
  have "channel_delivered ?cfg crc32c (of_nat i) (bss ! i) (builder_for (?ms ! i)) (data_log (datas ! i))"
    if i: "i < ?n" for i
  proof (rule channel_written_delivered [OF bss(3) [rule_format, OF i] _ version])
    show "writable ?cfg (of_nat i) (cd_data_type (defs ! i)) (cd_size_of_length_value (defs ! i)) frame_crc"
      using file_writable [OF meta wf i profile] .
    show "data_wf (cd_data_type (defs ! i)) (datas ! i)"
      using wf i n2 by (simp add: file_wf_def list_all2_conv_all_nth)
  qed (use nth(2) [OF i] in simp_all)
  moreover have "distinct (map fst ?ds)"
    using n by (auto simp: distinct_conv_nth index_of_nat_inj)
  ultimately obtain blks builders where
    d: "delivers ?cfg crc32c (concat (map (fst \<circ> snd) ?ds)) blks"
      "exec_all feed_block ?init (map Inr blks) = Inr builders" "\<forall>d \<in> set ?ds. delivered_to builders d"
    using channels_delivered [of ?ds ?cfg crc32c ?init] init by (auto simp: comp_def)
  have "map (fst \<circ> snd) ?ds = bss" using bss(1) by (auto intro: nth_equalityI)
  then have delivers: "delivers ?cfg crc32c bytes blks" using d(1) bss(2) by simp
  show ?thesis
  proof (rule that [OF delivers d(2)], rule ballI)
    fix m assume "m \<in> set ?ms"
    then obtain i where i: "i < ?n" "m = ?ms ! i" using nth(1) by (auto simp: in_set_conv_nth)
    have "mc_index m = of_nat i" using nth(2) [OF i(1)] i(2) by simp
    moreover have "unat (of_nat i :: u16) = i" using i(1) n by (simp add: unat_of_nat take_bit_nat_eq_self)
    moreover have "delivered_to builders (?d i)" using d(3) i(1) by simp
    ultimately show "\<not> is_unsupported (mc_data_type m)
       \<and> (\<exists>b. builders (mc_index m) = Some b \<and> bl_wf b \<and> identity_of b = identity_of (builder_for m)
             \<and> builder_log b = data_log (datas ! unat (mc_index m)))"
      using supported [OF i(1)] fresh_builder(1) [OF supported [OF i(1)]] i(2)
      by (auto simp: delivered_to_def)
  qed
qed

lemma file_delivered:
  assumes written: "write_data_blocks crc32c defs datas frame_crc = Inr bytes"
    and meta: "meta_describes meta defs" and wf: "file_wf defs datas"
    and profile: "profile = IpNone \<longleftrightarrow> \<not> frame_crc"
  obtains blks r' channels by_name by_index where
    "items crc32c (sized file_size (with_integrity profile (block_reader_new (source bytes) meta))) = (map Inr blks, r')"
    "list_all (\<lambda>blk. \<not> is_skipped (blk_kind blk)) blks"
    "trouble (br_stats r') = no_trouble"
    "build_channels meta (map Inr blks) = Inr (channels, by_name, by_index)"
    "map channel_index channels = map of_nat [0..<length defs]"
    "map channel_name channels = map cd_name defs"
    "map channel_data_type channels = map cd_data_type defs"
    "map channel_log channels = map (Inr \<circ> data_log) datas"
proof -
  let ?ms = "mb_channels meta" and ?n = "length defs"
  have n: "?n \<le> 65534" and n2: "length datas = ?n" using wf by (auto simp: file_wf_def list_all2_lengthD)
  note nth = meta_describes_nth [OF meta]
  have dist: "distinct (map mc_index ?ms)" using n by (intro meta_describes_distinct [OF meta]) simp
  note new = new_reader_at(1-4) [OF dist, where profile = profile and bytes = bytes and file_size = file_size]
  obtain blks builders where d: "delivers (config_for profile meta) crc32c bytes blks"
      "exec_all feed_block (foldl insert_builder Map.empty ?ms) (map Inr blks) = Inr builders"
    and each: "\<forall>m \<in> set ?ms. \<not> is_unsupported (mc_data_type m)
       \<and> (\<exists>b. builders (mc_index m) = Some b \<and> bl_wf b \<and> identity_of b = identity_of (builder_for m)
             \<and> builder_log b = data_log (datas ! unat (mc_index m)))"
    using data_delivered [OF assms] .
  from items_delivered [OF d(1) new(1-3)] new(4) obtain r' where
    r': "items crc32c (sized file_size (with_integrity profile (block_reader_new (source bytes) meta))) = (map Inr blks, r')"
      "list_all (\<lambda>blk. \<not> is_skipped (blk_kind blk)) blks" "trouble (br_stats r') = no_trouble" by auto
  obtain channels by_name by_index where c: "build_channels meta (map Inr blks) = Inr (channels, by_name, by_index)"
    "map (\<lambda>c. (channel_index c, channel_name c, channel_data_type c, channel_log c)) channels
       = map (\<lambda>m. (mc_index m, mc_name m, mc_data_type m, Inr (data_log (datas ! unat (mc_index m))))) ?ms"
    by (rule built_channels [OF dist d(2) each])
  have at: "unat (mc_index (?ms ! i)) = i" if "i < ?n" for i
    using nth(2) [OF that] that n by (simp add: unat_of_nat take_bit_nat_eq_self)
  have len: "length channels = ?n" using arg_cong [OF c(2), of length] nth(1) by simp
  have view: "channel_index (channels ! i) = of_nat i \<and> channel_name (channels ! i) = cd_name (defs ! i)
      \<and> channel_data_type (channels ! i) = cd_data_type (defs ! i) \<and> channel_log (channels ! i) = Inr (data_log (datas ! i))"
    if "i < ?n" for i
    using arg_cong [OF c(2), of "\<lambda>l. l ! i"] that len nth at [OF that] by simp
  show ?thesis
    by (rule that [OF r' c(1)]) (use view len n2 in \<open>auto intro!: nth_equalityI\<close>)
qed

end
