(* ===== verification/EncoderTotal.thy ===== *)
theory EncoderTotal
  imports FileRoundTrip
begin

text \<open>
  The writer cannot fail on well-formed data: every chunk the loops choose fits the length field
  of its channel, and after the width bump so does every variable-length sample.
\<close>

section \<open>Frames that fit\<close>

lemma write_length_field_total: "width = 2 \<or> width = 4 \<Longrightarrow> (width = 2 \<Longrightarrow> unat len < 65536) \<Longrightarrow>
   \<exists>bs. write_length_field width len = Some bs"
  using write_length_field_bytes by blast

lemma write_block_total:
  assumes "width = 2 \<or> width = 4" and fits: "length payload + crc_reserve frame_crc \<le> max_block_payload width"
  shows "\<exists>bs. write_block crc32c channel width payload frame_crc = Inr bs"
proof -
  let ?n = "length payload + crc_reserve frame_crc"
  have lt: "?n < 2 ^ 32"
    using assms by (auto simp: max_block_payload_def MAX_BLOCK_PAYLOAD_U16_def MAX_BLOCK_PAYLOAD_U32_def)
  have u16: "width = 2 \<Longrightarrow> ?n \<le> MAX_BLOCK_PAYLOAD_U16" using fits by (simp add: max_block_payload_def)
  have un: "unat (of_nat ?n :: u32) = ?n" using lt by (simp add: unat_of_nat del: of_nat_add)
  obtain bs where "write_length_field width (of_nat ?n) = Some bs"
  proof -
    have "width = 2 \<Longrightarrow> unat (of_nat ?n :: u32) < 65536"
      unfolding un using u16 by (simp add: MAX_BLOCK_PAYLOAD_U16_def)
    with write_length_field_total [OF assms(1)] show ?thesis using that by blast
  qed
  then show ?thesis using lt u16 by (auto simp: write_block_def Let_def simp del: of_nat_add)
qed

lemma chunk_fits:
  assumes "width = 2 \<or> width = 4" and "1 \<le> n" "n \<le> 32" "head \<le> 21"
    and "count \<le> max ((max_block_payload_reserved width frame_crc - head) div n) 1"
  shows "head + count * n + crc_reserve frame_crc \<le> max_block_payload width"
proof -
  let ?p = "max_block_payload_reserved width frame_crc"
  have p: "?p + crc_reserve frame_crc = max_block_payload width" "53 \<le> ?p"
    using assms(1) by (auto simp: max_block_payload_reserved_def max_block_payload_def crc_reserve_def
      MAX_BLOCK_PAYLOAD_U16_def MAX_BLOCK_PAYLOAD_U32_def)
  have "1 \<le> (?p - head) div n" using assms(2-4) p(2) by (simp add: Suc_le_eq div_greater_zero_iff)
  then have "count \<le> (?p - head) div n" using assms(5) by simp
  then have "count * n \<le> (?p - head) div n * n" by (rule mult_le_mono1)
  also have "\<dots> \<le> ?p - head" by simp
  finally have "head + count * n \<le> ?p" using assms(4) p(2) by linarith
  then show ?thesis using p(1) by linarith
qed

section \<open>Equidistant segments\<close>

lemma write_start_total:
  assumes "width = 2 \<or> width = 4" and "start + count \<le> nv_len nv"
    and "numeric_byte_size (nv_data_type nv) = Inr n"
    and "count \<le> max ((max_block_payload_reserved width frame_crc - 21) div n) 1"
  shows "\<exists>bs. write_start_data_block crc32c channel width ts rate nv start count frame_crc = Inr bs"
proof -
  obtain samples where s: "write_numeric_values_slice nv start count = Inr samples"
    using slice_total [OF assms(2)] by blast
  have len: "length samples = count * n" by (rule slice_bytes [OF s assms(3)])
  have n: "1 \<le> n" "n \<le> 32" using numeric_byte_size_nv [of nv] assms(3) by auto
  have fits: "21 + count * n + crc_reserve frame_crc \<le> max_block_payload width"
    by (rule chunk_fits [OF assms(1) n _ assms(4)]) simp
  have "\<exists>bs. write_block crc32c channel width
      (write_u8 (if count \<noteq> 1 then CONTROL_START_DATA OR MULTI_SAMPLE_FLAG else CONTROL_START_DATA)
           @ write_i64 ts @ write_f64 rate @ (if count \<noteq> 1 then write_u32 (of_nat count) else [])
           @ samples) frame_crc = Inr bs"
    by (rule write_block_total [OF assms(1)]) (use fits len in \<open>cases "count = 1"; simp add: write_defs\<close>)
  then show ?thesis using s by (simp add: write_start_data_block_def Let_def)
qed

lemma write_continued_total:
  assumes "width = 2 \<or> width = 4" and "start + count \<le> nv_len nv"
    and "numeric_byte_size (nv_data_type nv) = Inr n"
    and "count \<le> max ((max_block_payload_reserved width frame_crc - 5) div n) 1"
  shows "\<exists>bs. write_continued_data_block crc32c channel width nv start count frame_crc = Inr bs"
proof -
  obtain samples where s: "write_numeric_values_slice nv start count = Inr samples"
    using slice_total [OF assms(2)] by blast
  have len: "length samples = count * n" by (rule slice_bytes [OF s assms(3)])
  have n: "1 \<le> n" "n \<le> 32" using numeric_byte_size_nv [of nv] assms(3) by auto
  have fits: "5 + count * n + crc_reserve frame_crc \<le> max_block_payload width"
    by (rule chunk_fits [OF assms(1) n _ assms(4)]) simp
  have "\<exists>bs. write_block crc32c channel width
      (write_u8 (if count \<noteq> 1 then CONTROL_CONTINUED_DATA OR MULTI_SAMPLE_FLAG else CONTROL_CONTINUED_DATA)
           @ (if count \<noteq> 1 then write_u32 (of_nat count) else []) @ samples) frame_crc = Inr bs"
    by (rule write_block_total [OF assms(1)]) (use fits len in \<open>cases "count = 1"; simp add: write_defs\<close>)
  then show ?thesis using s by (simp add: write_continued_data_block_def Let_def)
qed

lemma continued_loop_total:
  "width = 2 \<or> width = 4 \<Longrightarrow> numeric_byte_size (nv_data_type nv) = Inr n \<Longrightarrow>
   m = (max_block_payload_reserved width frame_crc - 5) div n \<Longrightarrow> len \<le> nv_len nv \<Longrightarrow>
   \<exists>bs. continued_loop crc32c channel width nv m frame_crc written len = Inr bs"
proof (induction crc32c channel width nv m frame_crc written len rule: continued_loop.induct)
  case (1 crc32c channel width nv m frame_crc written len)
  show ?case
  proof (cases "written < len")
    case False
    then show ?thesis by (simp add: continued_loop.simps [of crc32c channel width nv m frame_crc written len])
  next
    case True
    let ?chunk = "min (len - written) (max m 1)"
    obtain bs where one: "write_continued_data_block crc32c channel width nv written ?chunk frame_crc = Inr bs"
    proof -
      have "written + ?chunk \<le> nv_len nv" using True 1(5) by simp
      moreover have "?chunk \<le> max ((max_block_payload_reserved width frame_crc - 5) div n) 1" by (simp add: 1(4))
      ultimately show ?thesis using write_continued_total [OF 1(2) _ 1(3)] that by blast
    qed
    obtain bs' where "continued_loop crc32c channel width nv m frame_crc (written + ?chunk) len = Inr bs'"
      using 1(1) [OF True refl one] 1(2-5) by blast
    then show ?thesis using one True
      by (simp add: continued_loop.simps [of crc32c channel width nv m frame_crc written len] Let_def)
  qed
qed

lemma write_segment_total:
  assumes "cd_size_of_length_value def = 2 \<or> cd_size_of_length_value def = 4"
    and "nv_data_type (sd_values seg) = cd_data_type def"
  shows "\<exists>bs. write_equidistant_segment crc32c channel def seg frame_crc = Inr bs"
proof -
  let ?w = "cd_size_of_length_value def" and ?nv = "sd_values seg"
  obtain n where n: "numeric_byte_size (nv_data_type ?nv) = Inr n" using numeric_byte_size_nv [of ?nv] by blast
  let ?first = "min (nv_len ?nv) (max ((max_block_payload_reserved ?w frame_crc - 21) div n) 1)"
  obtain bs where "write_start_data_block crc32c channel ?w (sd_start_timestamp_ns seg) (sd_sample_rate_hz seg)
      ?nv 0 ?first frame_crc = Inr bs"
    using write_start_total [OF assms(1) _ n, of 0 ?first frame_crc]
    by (metis add_0 min.cobounded1 min.cobounded2)
  moreover obtain bs' where "continued_loop crc32c channel ?w ?nv
      ((max_block_payload_reserved ?w frame_crc - 5) div n) frame_crc ?first (nv_len ?nv) = Inr bs'"
    using continued_loop_total [OF assms(1) n refl, of "nv_len ?nv"] by blast
  ultimately show ?thesis using n assms(2) by (simp add: write_equidistant_segment_def Let_def)
qed

section \<open>Timestamped channels\<close>

lemma abs_loop_total:
  "width = 2 \<or> width = 4 \<Longrightarrow> numeric_byte_size (nv_data_type nv) = Inr n \<Longrightarrow>
   m = (max_block_payload_reserved width frame_crc - 5) div (8 + n) \<Longrightarrow> len = nv_len nv \<Longrightarrow> len = length ts \<Longrightarrow>
   \<exists>bs. abs_loop crc32c channel width ts nv m frame_crc written len = Inr bs"
proof (induction crc32c channel width ts nv m frame_crc written len rule: abs_loop.induct)
  case (1 crc32c channel width ts nv m frame_crc written len)
  show ?case
  proof (cases "written < len")
    case False
    then show ?thesis by (simp add: abs_loop.simps [of crc32c channel width ts nv m frame_crc written len])
  next
    case True
    let ?chunk = "min (len - written) (max m 1)"
    have le: "written + ?chunk \<le> length ts" "written + ?chunk \<le> nv_len nv" using True 1(5,6) by simp_all
    obtain samples where s: "write_timestamped_numeric_run ts nv written ?chunk = Inr samples"
      using pairs_total [OF le] by blast
    have len: "length samples = ?chunk * (8 + n)" by (rule pairs_bytes [OF le s 1(3)])
    have n: "1 \<le> 8 + n" "8 + n \<le> 32" using numeric_byte_size_nv [of nv] 1(3) by auto
    have "5 + ?chunk * (8 + n) + crc_reserve frame_crc \<le> max_block_payload width"
      by (rule chunk_fits [OF 1(2) n]) (simp_all add: 1(4))
    then have "\<exists>bs. write_block crc32c channel width (write_u8 (CONTROL_ABS_TIMESTAMP OR MULTI_SAMPLE_FLAG)
        @ write_u32 (of_nat ?chunk) @ samples) frame_crc = Inr bs"
      by (intro write_block_total [OF 1(2)]) (simp add: write_defs len del: add_mult_distrib2)
    then obtain bs where one: "write_block crc32c channel width (write_u8 (CONTROL_ABS_TIMESTAMP OR MULTI_SAMPLE_FLAG)
        @ write_u32 (of_nat ?chunk) @ samples) frame_crc = Inr bs" by blast
    obtain bs' where "abs_loop crc32c channel width ts nv m frame_crc (written + ?chunk) len = Inr bs'"
      using 1(1) [OF True refl s one] 1(2-6) by blast
    then show ?thesis using s one True
      by (simp add: abs_loop.simps [of crc32c channel width ts nv m frame_crc written len] Let_def)
  qed
qed

lemma write_abs_total:
  assumes "cd_size_of_length_value def = 2 \<or> cd_size_of_length_value def = 4"
    and "nv_data_type nv = cd_data_type def" and "length ts = nv_len nv"
  shows "\<exists>bs. write_abs_timestamp_numeric crc32c channel def ts nv frame_crc = Inr bs"
proof -
  obtain n where n: "numeric_byte_size (nv_data_type nv) = Inr n" using numeric_byte_size_nv [of nv] by blast
  from abs_loop_total [OF assms(1) n refl] assms(2,3) n
  show ?thesis by (simp add: write_abs_timestamp_numeric_def Let_def)
qed

section \<open>Variable-length channels\<close>

text \<open>A text or binary value whose block a \<open>u32\<close> length field can describe.\<close>

definition text_fits :: "'a list \<Rightarrow> bool" where
  "text_fits x \<longleftrightarrow> length x + 13 < 2 ^ 32"

definition texts_fit :: "channel_data \<Rightarrow> bool" where
  "texts_fit dat \<longleftrightarrow>
     (case dat of
        CdVariable ts strings binaries \<Rightarrow>
          (\<forall>ss. strings = Some ss \<longrightarrow> (\<forall>s \<in> set ss. text_fits s))
          \<and> (\<forall>bs. binaries = Some bs \<longrightarrow> (\<forall>b \<in> set bs. text_fits b))
      | _ \<Rightarrow> True)"

text \<open>A width wide enough for one sample, as the bump leaves it.\<close>

definition wide_enough :: "bool \<Rightarrow> u8 \<Rightarrow> 'a list \<Rightarrow> bool" where
  "wide_enough frame_crc width x \<longleftrightarrow> width = 4 \<or> width = 2 \<and> 9 + length x + crc_reserve frame_crc \<le> 65535"

lemma write_block_wide:
  assumes "wide_enough frame_crc width x" and "text_fits x" and "length payload = 9 + length x"
  shows "\<exists>bs. write_block crc32c channel width payload frame_crc = Inr bs"
proof -
  let ?n = "length payload + crc_reserve frame_crc"
  have lt: "?n < 2 ^ 32" using assms(2,3) by (auto simp: text_fits_def crc_reserve_def)
  have u16: "width = 2 \<Longrightarrow> ?n \<le> MAX_BLOCK_PAYLOAD_U16"
    using assms(1,3) by (auto simp: wide_enough_def MAX_BLOCK_PAYLOAD_U16_def)
  have un: "unat (of_nat ?n :: u32) = ?n" using lt by (simp add: unat_of_nat del: of_nat_add)
  have "width = 2 \<Longrightarrow> unat (of_nat ?n :: u32) < 65536"
    unfolding un using u16 by (simp add: MAX_BLOCK_PAYLOAD_U16_def)
  moreover have "width = 2 \<or> width = 4" using assms(1) by (auto simp: wide_enough_def)
  ultimately obtain bs where "write_length_field width (of_nat ?n) = Some bs"
    using write_length_field_total by blast
  then show ?thesis using lt u16 by (auto simp: write_block_def Let_def simp del: of_nat_add)
qed

lemma check_variable_fits:
  "wide_enough frame_crc width x \<Longrightarrow>
   check_variable_block_fits width (variable_payload_size (length x)) frame_crc = Inr ()"
  by (auto simp: check_variable_block_fits_def variable_payload_size_def wide_enough_def MAX_BLOCK_PAYLOAD_U16_def)

lemma write_variable_one_total:
  assumes "wide_enough frame_crc (cd_size_of_length_value def) x" and "text_fits x"
  shows "\<exists>bs. write_variable_one_binary crc32c channel def frame_crc t x = Inr bs"
  using check_variable_fits [OF assms(1)] write_block_wide [OF assms, of "write_variable_header t @ x" crc32c channel]
  by (simp add: write_variable_one_binary_def write_variable_header_def write_defs)

lemma write_variable_one_string_total:
  assumes "wide_enough frame_crc (cd_size_of_length_value def) s" and "text_fits s"
  shows "\<exists>bs. write_variable_one_string crc32c channel def frame_crc t s = Inr bs"
  using check_variable_fits [OF assms(1)]
    write_block_wide [OF assms, of "write_variable_header t @ bytes_of_string s" crc32c channel]
  by (simp add: write_variable_one_string_def write_variable_header_def write_defs bytes_of_string_def)

lemma first_error_total: "(\<And>x. x \<in> set xs \<Longrightarrow> \<exists>y. f x = Inr y) \<Longrightarrow> \<exists>ys. first_error (map f xs) = Inr ys"
proof (induction xs)
  case Nil
  then show ?case by simp
next
  case (Cons x xs)
  obtain y ys where "f x = Inr y" "first_error (map f xs) = Inr ys" using Cons by force
  then show ?case by simp
qed

lemma longest_le: "x \<in> set xs \<Longrightarrow> length x \<le> longest (Some xs)"
  unfolding longest_def by (induction xs) (auto simp: le_max_iff_disj)

lemma bumped_wide:
  assumes "cd_size_of_length_value def = 2 \<or> cd_size_of_length_value def = 4"
  shows "x \<in> set ss \<Longrightarrow> wide_enough frame_crc (cd_size_of_length_value (bump_one frame_crc def (CdVariable ts (Some ss) binaries))) x"
    and "y \<in> set bs \<Longrightarrow> wide_enough frame_crc (cd_size_of_length_value (bump_one frame_crc def (CdVariable ts strings (Some bs)))) y"
  using assms longest_le [of x ss] longest_le [of y bs]
  by (auto simp: wide_enough_def bump_one_def MAX_BLOCK_PAYLOAD_U16_def)

section \<open>The data section\<close>

lemma bump_one_fields [simp]:
  "cd_name (bump_one frame_crc def dat) = cd_name def"
  "cd_data_type (bump_one frame_crc def dat) = cd_data_type def"
  "cd_channel_type (bump_one frame_crc def dat) = cd_channel_type def"
  by (simp_all add: bump_one_def)

lemma bump_one_width:
  "cd_size_of_length_value def = 2 \<or> cd_size_of_length_value def = 4 \<Longrightarrow>
   cd_size_of_length_value (bump_one frame_crc def dat) = 2 \<or> cd_size_of_length_value (bump_one frame_crc def dat) = 4"
  by (auto simp: bump_one_def)

lemma write_channel_total:
  assumes w: "cd_size_of_length_value def = 2 \<or> cd_size_of_length_value def = 4"
    and wf: "data_wf (cd_data_type def) dat" and fit: "texts_fit dat"
  shows "\<exists>bs. write_channel crc32c channel (bump_one frame_crc def dat) dat frame_crc = Inr bs"
proof (cases dat)
  case CdEmpty
  then show ?thesis by (simp add: write_channel_def)
next
  case (CdEquidistant segs)
  have "\<exists>bss. first_error (map (\<lambda>seg. write_equidistant_segment crc32c channel (bump_one frame_crc def dat) seg frame_crc) segs)
      = Inr bss"
    using wf CdEquidistant by (intro first_error_total write_segment_total bump_one_width w) (simp add: data_wf_def)
  then show ?thesis using CdEquidistant by (auto simp: write_channel_def)
next
  case (CdTimestamped ts nv)
  then show ?thesis
    using wf write_abs_total [OF bump_one_width [OF w], of nv frame_crc dat ts] by (simp add: write_channel_def data_wf_def)
next
  case (CdVariable ts strings binaries)
  consider (strs) ss where "strings = Some ss" | (bins) bb where "strings = None" "binaries = Some bb"
    using wf CdVariable by (auto simp: data_wf_def)
  then show ?thesis
  proof cases
    case strs
    have "\<exists>bss. first_error (map (\<lambda>(t, s). write_variable_one_string crc32c channel (bump_one frame_crc def dat) frame_crc t s)
        (zip ts ss)) = Inr bss"
    proof (rule first_error_total)
      fix p assume "p \<in> set (zip ts ss)"
      then obtain t s where "p = (t, s)" "s \<in> set ss" by - (cases p, auto dest: set_zip_rightD)
      then show "\<exists>y. (case p of (t, s) \<Rightarrow> write_variable_one_string crc32c channel (bump_one frame_crc def dat) frame_crc t s) = Inr y"
        using bumped_wide(1) [OF w] fit CdVariable strs
        by (auto intro!: write_variable_one_string_total simp: texts_fit_def)
    qed
    then show ?thesis using CdVariable strs by (auto simp: write_channel_def write_abs_timestamp_variable_def)
  next
    case bins
    have "\<exists>bss. first_error (map (\<lambda>(t, b). write_variable_one_binary crc32c channel (bump_one frame_crc def dat) frame_crc t b)
        (zip ts bb)) = Inr bss"
    proof (rule first_error_total)
      fix p assume "p \<in> set (zip ts bb)"
      then obtain t b where "p = (t, b)" "b \<in> set bb" by - (cases p, auto dest: set_zip_rightD)
      then show "\<exists>y. (case p of (t, b) \<Rightarrow> write_variable_one_binary crc32c channel (bump_one frame_crc def dat) frame_crc t b) = Inr y"
        using bumped_wide(2) [OF w] fit CdVariable bins
        by (auto intro!: write_variable_one_total simp: texts_fit_def)
    qed
    then show ?thesis using CdVariable bins by (auto simp: write_channel_def write_abs_timestamp_variable_def)
  qed
qed

lemma autobump_nth:
  assumes "length datas = length defs"
  obtains defs' where "autobump_size_of_length_value defs datas frame_crc = Inr defs'"
    "length defs' = length defs" "\<forall>i < length defs. defs' ! i = bump_one frame_crc (defs ! i) (datas ! i)"
proof -
  let ?f = "\<lambda>(i, def). bump_one frame_crc def (datas ! i)"
  have "map (\<lambda>(i, def). map_ok (bump_one frame_crc def) (index_at datas i)) (List.enumerate 0 defs)
      = map Inr (map ?f (List.enumerate 0 defs))"
    using assms by (auto simp: index_at_def in_set_enumerate_eq)
  then have "autobump_size_of_length_value defs datas frame_crc = Inr (map ?f (List.enumerate 0 defs))"
    unfolding autobump_size_of_length_value_def by (simp only: first_error_map_Inr)
  then show ?thesis by (rule that) (auto simp: nth_enumerate_eq)
qed

lemma write_data_blocks_total:
  assumes "length datas = length defs" "length defs \<le> 65536"
    and "\<forall>i < length defs. \<exists>bs. write_channel crc32c (of_nat i) (defs ! i) (datas ! i) frame_crc = Inr bs"
  shows "\<exists>bytes. write_data_blocks crc32c defs datas frame_crc = Inr bytes"
proof -
  have "\<exists>bss. first_error (map (\<lambda>(index, def).
          if 65536 \<le> index then Inl (Panic ''channel index validated earlier'')
          else and_then (index_at datas index) (\<lambda>dat. write_channel crc32c (of_nat index) def dat frame_crc))
        (List.enumerate 0 defs)) = Inr bss"
  proof (rule first_error_total)
    fix p assume "p \<in> set (List.enumerate 0 defs)"
    then obtain i where i: "p = (i, defs ! i)" "i < length defs" by - (cases p, auto simp: in_set_enumerate_eq)
    then show "\<exists>y. (case p of (index, def) \<Rightarrow> if 65536 \<le> index then Inl (Panic ''channel index validated earlier'')
          else and_then (index_at datas index) (\<lambda>dat. write_channel crc32c (of_nat index) def dat frame_crc)) = Inr y"
      using assms by (simp add: index_at_def)
  qed
  then show ?thesis by (auto simp: write_data_blocks_def)
qed

section \<open>The writer does not fail\<close>

lemma write_after_bump:
  assumes wf: "list_all2 (\<lambda>d dat. data_wf (cd_data_type d) dat) defs datas"
    and widths: "\<forall>d \<in> set defs. cd_size_of_length_value d = 2 \<or> cd_size_of_length_value d = 4"
    and n: "length defs \<le> 65536" and fit: "\<forall>dat \<in> set datas. texts_fit dat"
  obtains defs' bytes where "autobump_size_of_length_value defs datas frame_crc = Inr defs'"
    "length defs' = length defs" "\<forall>i < length defs. defs' ! i = bump_one frame_crc (defs ! i) (datas ! i)"
    "write_data_blocks crc32c defs' datas frame_crc = Inr bytes"
proof -
  have len: "length datas = length defs" using wf by (simp add: list_all2_lengthD)
  obtain defs' where d: "autobump_size_of_length_value defs datas frame_crc = Inr defs'"
    "length defs' = length defs" "\<forall>i < length defs. defs' ! i = bump_one frame_crc (defs ! i) (datas ! i)"
    using autobump_nth [OF len] .
  have "\<exists>bs. write_channel crc32c (of_nat i) (defs' ! i) (datas ! i) frame_crc = Inr bs" if i: "i < length defs" for i
    using write_channel_total [of "defs ! i" "datas ! i" crc32c "of_nat i" frame_crc] wf widths fit len d(3) i
    by (simp add: list_all2_conv_all_nth)
  then obtain bytes where "write_data_blocks crc32c defs' datas frame_crc = Inr bytes"
    using write_data_blocks_total [of datas defs' crc32c frame_crc] len d(2) n by auto
  with d show ?thesis by (rule that)
qed



text \<open>
  The width bump is exact: it changes nothing but the length-field width, and a channel ends
  with width 4 exactly when it was declared so or holds a text or binary sample that would not
  fit a block with a two-byte length field (control byte, timestamp, sample and, at integrity
  level crc, the frame CRC).
\<close>

theorem autobump_is_exact:
  assumes "length datas = length defs"
    and "\<forall>d \<in> set defs. cd_size_of_length_value d = 2 \<or> cd_size_of_length_value d = 4"
  shows "\<exists>defs'. autobump_size_of_length_value defs datas frame_crc = Inr defs' \<and> length defs' = length defs
    \<and> (\<forall>i < length defs. \<exists>w. defs' ! i = (defs ! i)\<lparr>cd_size_of_length_value := w\<rparr>
         \<and> (w = 4 \<longleftrightarrow> cd_size_of_length_value (defs ! i) = 4
              \<or> (\<exists>ts strings binaries. datas ! i = CdVariable ts strings binaries
                   \<and> 65535 < 9 + max (longest strings) (longest binaries) + crc_reserve frame_crc)))"
proof -
  obtain defs' where d: "autobump_size_of_length_value defs datas frame_crc = Inr defs'"
    "length defs' = length defs" "\<forall>i < length defs. defs' ! i = bump_one frame_crc (defs ! i) (datas ! i)"
    using autobump_nth [OF assms(1)] .
  have one: "\<exists>w. bump_one frame_crc def dat = def\<lparr>cd_size_of_length_value := w\<rparr>
         \<and> (w = 4 \<longleftrightarrow> cd_size_of_length_value def = 4
              \<or> (\<exists>ts strings binaries. dat = CdVariable ts strings binaries
                   \<and> 65535 < 9 + max (longest strings) (longest binaries) + crc_reserve frame_crc))"
    if "cd_size_of_length_value def = 2 \<or> cd_size_of_length_value def = 4" for def dat
    using that
    by (intro exI [of _ "cd_size_of_length_value (bump_one frame_crc def dat)"], cases dat)
       (auto simp: bump_one_def MAX_BLOCK_PAYLOAD_U16_def crc_reserve_def)
  show ?thesis
  proof (intro exI [of _ defs'] conjI allI impI)
    show "autobump_size_of_length_value defs datas frame_crc = Inr defs'" "length defs' = length defs" by (fact d)+
  next
    fix i assume "i < length defs"
    then have "defs' ! i = bump_one frame_crc (defs ! i) (datas ! i)" "defs ! i \<in> set defs" using d(3) by simp_all
    then show "\<exists>w. defs' ! i = (defs ! i)\<lparr>cd_size_of_length_value := w\<rparr>
         \<and> (w = 4 \<longleftrightarrow> cd_size_of_length_value (defs ! i) = 4
              \<or> (\<exists>ts strings binaries. datas ! i = CdVariable ts strings binaries
                   \<and> 65535 < 9 + max (longest strings) (longest binaries) + crc_reserve frame_crc))"
      using one [of "defs ! i" "datas ! i"] assms(2) by simp
  qed
qed

theorem autobump_is_exact_witness:
  "\<exists>defs'. autobump_size_of_length_value [channel_def_default] [CdEmpty] True = Inr defs' \<and> length defs' = 1"
  using autobump_is_exact [of "[CdEmpty]" "[channel_def_default]" True]
  by (auto simp: channel_def_default_def)

end
