(* ===== verification/WriterLaws.thy ===== *)
theory WriterLaws
  imports Writer EncoderTotal
begin

text \<open>
  The writer builder as an abstract log: every call either fails with an ordinary error, or adds
  one channel or appends exactly its samples to one channel, and keeps the builder fit for the
  encoder.
\<close>

section \<open>The invariant\<close>

definition def_wf :: "channel_def \<Rightarrow> bool" where
  "def_wf d \<longleftrightarrow>
     (cd_size_of_length_value d = 2 \<or> cd_size_of_length_value d = 4)
     \<and> \<not> is_unsupported (cd_data_type d) \<and> cd_data_type d \<noteq> DtByteArray
     \<and> \<not> is_unsupported_channel_type (cd_channel_type d)"

definition writer_wf :: "writer_builder \<Rightarrow> bool" where
  "writer_wf b \<longleftrightarrow>
     length (wb_channels b) \<le> 65536 \<and> (\<forall>d \<in> set (wb_channels b). def_wf d)
     \<and> list_all2 (\<lambda>d dat. data_wf (cd_data_type d) dat) (wb_channels b) (wb_channel_data b)
     \<and> (\<forall>name i. wb_name_to_index b name = Some i \<longrightarrow>
          unat i < length (wb_channels b) \<and> cd_name (wb_channels b ! unat i) = name)"

text \<open>Per channel: its name, its datatype and its timed samples.\<close>

type_synonym writer_log = "(string \<times> data_type \<times> (i64 \<times> sample) list) list"

definition writer_log_of :: "writer_builder \<Rightarrow> writer_log" where
  "writer_log_of b =
     map (\<lambda>(d, dat). (cd_name d, cd_data_type d, data_log dat)) (zip (wb_channels b) (wb_channel_data b))"

definition append_log :: "u16 \<Rightarrow> (i64 \<times> sample) list \<Rightarrow> writer_log \<Rightarrow> writer_log" where
  "append_log ch entries l =
     l[unat ch := (case l ! unat ch of (name, dt, old) \<Rightarrow> (name, dt, old @ entries))]"

section \<open>Calls\<close>

datatype writer_call =
    AddChannel channel_def
  | AddSegmentF64 u16 i64 f64 "f64 list"
  | AddSegmentF32 u16 i64 f64 "f32 list"
  | AddTimestamped u16 "i64 list" numeric_values
  | AddStrings u16 "i64 list" "string list"
  | AddBinaries u16 "i64 list" "byte list list"

fun writer_step :: "writer_builder \<Rightarrow> writer_call \<Rightarrow> osf_error + writer_builder" where
  "writer_step b (AddChannel def) = map_ok snd (add_channel def b)"
| "writer_step b (AddSegmentF64 ch start rate vs) = add_equidistant_segment_f64 ch start rate vs b"
| "writer_step b (AddSegmentF32 ch start rate vs) = add_equidistant_segment_f32 ch start rate vs b"
| "writer_step b (AddTimestamped ch ts nv) = add_timestamped_samples ch ts nv b"
| "writer_step b (AddStrings ch ts vs) = add_string_samples ch ts vs b"
| "writer_step b (AddBinaries ch ts vs) = add_binary_samples ch ts vs b"

text \<open>A Rust \<open>String\<close> is valid UTF-8 by its type.\<close>

fun good_call :: "writer_call \<Rightarrow> bool" where
  "good_call (AddStrings _ _ vs) = (\<forall>s \<in> set vs. rust_string s)"
| "good_call _ = True"

fun call_log :: "writer_call \<Rightarrow> writer_log \<Rightarrow> writer_log" where
  "call_log (AddChannel def) l = l @ [(cd_name def, cd_data_type def, [])]"
| "call_log (AddSegmentF64 ch start rate vs) l =
     append_log ch (segment_log \<lparr>sd_start_timestamp_ns = start, sd_sample_rate_hz = rate, sd_values = NvDouble vs\<rparr>) l"
| "call_log (AddSegmentF32 ch start rate vs) l =
     append_log ch (segment_log \<lparr>sd_start_timestamp_ns = start, sd_sample_rate_hz = rate, sd_values = NvFloat vs\<rparr>) l"
| "call_log (AddTimestamped ch ts nv) l = append_log ch (zip ts (map NumSample (refs_of nv))) l"
| "call_log (AddStrings ch ts vs) l = append_log ch (zip ts (map (VarSample \<circ> VrString) vs)) l"
| "call_log (AddBinaries ch ts vs) l = append_log ch (zip ts (map (VarSample \<circ> VrBinary) vs)) l"

section \<open>One call\<close>

text \<open>What a call promises: the invariant and the new log, or an ordinary error.\<close>

definition logged :: "writer_log \<Rightarrow> osf_error + writer_builder \<Rightarrow> bool" where
  "logged l res \<longleftrightarrow>
     (case res of Inl e \<Rightarrow> \<not> is_panic e | Inr b' \<Rightarrow> writer_wf b' \<and> writer_log_of b' = l)"

lemma logged_simps [simp]:
  "logged l (Inl e) \<longleftrightarrow> \<not> is_panic e"
  "logged l (Inr b) \<longleftrightarrow> writer_wf b \<and> writer_log_of b = l"
  by (simp_all add: logged_def)

text \<open>The same for the data of one channel.\<close>

definition data_logged ::
  "data_type \<Rightarrow> (i64 \<times> sample) list \<Rightarrow> channel_data \<Rightarrow> osf_error + channel_data \<Rightarrow> bool"
where
  "data_logged dt entries dat res \<longleftrightarrow>
     (case res of Inl e \<Rightarrow> \<not> is_panic e
      | Inr dat' \<Rightarrow> data_wf dt dat' \<and> data_log dat' = data_log dat @ entries)"

lemma data_logged_simps [simp]:
  "data_logged dt entries dat (Inl e) \<longleftrightarrow> \<not> is_panic e"
  "data_logged dt entries dat (Inr dat') \<longleftrightarrow> data_wf dt dat' \<and> data_log dat' = data_log dat @ entries"
  by (simp_all add: data_logged_def)

lemma channel_def_logged:
  assumes "\<And>def. channel_def_at b ch = Inr def \<Longrightarrow> logged l (f def)"
  shows "logged l (and_then (channel_def_at b ch) f)"
  using assms by (cases "channel_def_at b ch") (auto simp: channel_def_at_def split: if_splits)

lemma update_data_logged:
  assumes wf: "writer_wf b" and def: "channel_def_at b ch = Inr def"
    and step: "\<And>dat. data_wf (cd_data_type def) dat \<Longrightarrow> data_logged (cd_data_type def) entries dat (f dat)"
  shows "logged (append_log ch entries (writer_log_of b)) (update_data ch f b)"
proof -
  let ?n = "unat ch"
  have n: "?n < length (wb_channels b)" "def = wb_channels b ! ?n"
    using def by (auto simp: channel_def_at_def split: if_splits)
  have all2: "list_all2 (\<lambda>d dat. data_wf (cd_data_type d) dat) (wb_channels b) (wb_channel_data b)"
    using wf by (simp add: writer_wf_def)
  then have len: "length (wb_channel_data b) = length (wb_channels b)" by (simp add: list_all2_lengthD)
  let ?dat = "wb_channel_data b ! ?n"
  have "data_wf (cd_data_type def) ?dat" using all2 n by (simp add: list_all2_conv_all_nth)
  note one = step [OF this]
  show ?thesis
  proof (cases "f ?dat")
    case (Inl e)
    then show ?thesis using one n len by (simp add: update_data_def index_at_def)
  next
    case (Inr dat')
    have dat': "data_wf (cd_data_type def) dat'" "data_log dat' = data_log ?dat @ entries" using one Inr by simp_all
    let ?b = "b\<lparr>wb_channel_data := (wb_channel_data b)[?n := dat']\<rparr>"
    have "writer_wf ?b"
      using wf dat'(1) n len
      by (auto simp: writer_wf_def list_all2_conv_all_nth nth_list_update)
    moreover have "writer_log_of ?b = append_log ch entries (writer_log_of b)"
      using dat'(2) n len
      by (auto simp: writer_log_of_def append_log_def nth_list_update intro!: nth_equalityI)
    ultimately show ?thesis using Inr n len by (simp add: update_data_def index_at_def)
  qed
qed

lemma add_channel_logged:
  assumes wf: "writer_wf b"
  shows "logged (writer_log_of b @ [(cd_name def, cd_data_type def, [])]) (map_ok snd (add_channel def b))"
proof -
  have len: "length (wb_channel_data b) = length (wb_channels b)"
    using wf by (auto simp: writer_wf_def dest: list_all2_lengthD)
  let ?n = "length (wb_channels b)"
  let ?b = "b\<lparr>wb_name_to_index := (wb_name_to_index b)(cd_name def \<mapsto> of_nat ?n),
      wb_channels := wb_channels b @ [def], wb_channel_data := wb_channel_data b @ [CdEmpty]\<rparr>"
  have "writer_wf ?b" if "def_wf def" "?n < 65536"
  proof -
    have "unat (of_nat ?n :: u16) = ?n" using that(2) by (simp add: unat_of_nat)
    then show ?thesis using wf that len
      by (auto simp: writer_wf_def data_wf_def nth_append list_all2_appendI intro: less_SucI)
  qed
  moreover have "writer_log_of ?b = writer_log_of b @ [(cd_name def, cd_data_type def, [])]"
    using len by (simp add: writer_log_of_def data_log_def)
  ultimately show ?thesis by (auto simp: add_channel_def def_wf_def Let_def)
qed

lemma segment_logged:
  assumes wf: "writer_wf b" and dt: "nv_data_type nv = want"
  shows "logged (append_log ch (segment_log \<lparr>sd_start_timestamp_ns = start, sd_sample_rate_hz = rate, sd_values = nv\<rparr>)
            (writer_log_of b)) (add_equidistant_segment_inner ch want start rate nv b)"
  unfolding add_equidistant_segment_inner_def
proof (rule channel_def_logged)
  fix def assume def: "channel_def_at b ch = Inr def"
  show "logged (append_log ch (segment_log \<lparr>sd_start_timestamp_ns = start, sd_sample_rate_hz = rate, sd_values = nv\<rparr>)
            (writer_log_of b))
     (if cd_data_type def \<noteq> DtFloat \<and> cd_data_type def \<noteq> DtDouble
       then Inl (InvalidBlock ''equidistant blocks support only float and double'')
       else if cd_data_type def \<noteq> want then Inl (DataTypeMismatch ch (cd_data_type def) want)
       else if f64_is_nan rate \<or> f64_le_zero rate
         then Inl (InvalidBlock ''equidistant sample_rate_hz must be > 0'')
       else (let seg = \<lparr>sd_start_timestamp_ns = start, sd_sample_rate_hz = rate, sd_values = nv\<rparr>
             in update_data ch (\<lambda>dat.
                  case dat of
                    CdEmpty \<Rightarrow> Inr (CdEquidistant [seg])
                  | CdEquidistant segments \<Rightarrow> Inr (CdEquidistant (segments @ [seg]))
                  | CdTimestamped _ _ \<Rightarrow> Inl (ChannelMixedBlockTypes ch)
                  | CdVariable _ _ _ \<Rightarrow> Inl (ChannelMixedBlockTypes ch)) b))"
    using update_data_logged [OF wf def] dt
    by (auto simp: Let_def data_wf_def data_log_def split: channel_data.splits)
qed


lemma numeric_logged:
  assumes wf: "writer_wf b" and fresh: "nv_data_type fresh = want"
    and ext: "\<And>v. nv_data_type v = want \<Longrightarrow> nv_data_type (ext v) = want
        \<and> nv_len (ext v) = nv_len v + nv_len fresh \<and> refs_of (ext v) = refs_of v @ refs_of fresh"
  shows "logged (append_log ch (zip ts (map NumSample (refs_of fresh))) (writer_log_of b))
           (append_timestamped_numeric ch want ts (nv_len fresh) ext fresh b)"
proof -
  have "data_logged want (zip ts (map NumSample (refs_of fresh))) dat
      (case dat of
         CdEmpty \<Rightarrow> Inr (CdTimestamped ts fresh)
       | CdTimestamped ts' v \<Rightarrow> Inr (CdTimestamped (ts' @ ts) (ext v))
       | CdEquidistant _ \<Rightarrow> Inl (ChannelMixedBlockTypes ch)
       | CdVariable _ _ _ \<Rightarrow> Inl (ChannelMixedBlockTypes ch))"
    if "length ts = nv_len fresh" "data_wf want dat" for dat
    using that fresh ext by (auto simp: data_wf_def data_log_def split: channel_data.splits)
  then show ?thesis
    unfolding append_timestamped_numeric_def
    by (intro channel_def_logged) (auto intro!: update_data_logged [OF wf])
qed

lemma timestamped_logged:
  assumes wf: "writer_wf b"
  shows "logged (append_log ch (zip ts (map NumSample (refs_of nv))) (writer_log_of b))
           (add_timestamped_samples ch ts nv b)"
proof -
  have one: "logged (append_log ch (zip ts (map NumSample (refs_of (wrap vs)))) (writer_log_of b))
           (add_timestamped sel wrap want ch ts vs b)"
    if "nv_data_type (wrap vs) = want" "nv_len (wrap vs) = length vs"
      "\<And>v. nv_data_type v = want \<Longrightarrow> \<exists>target. sel v = Some target \<and> nv_data_type (wrap (target @ vs)) = want
        \<and> nv_len (wrap (target @ vs)) = nv_len v + length vs
        \<and> refs_of (wrap (target @ vs)) = refs_of v @ refs_of (wrap vs)"
    for sel and wrap :: "'a list \<Rightarrow> numeric_values" and want vs
    unfolding add_timestamped_def that(2) [symmetric]
    by (rule numeric_logged [OF wf that(1)]) (use that(2,3) in fastforce)
  show ?thesis
    by (cases nv; simp only: add_timestamped_samples.simps; rule one)
       (simp_all, (case_tac v; simp)+)
qed

lemma variable_logged:
  assumes wf: "writer_wf b"
    and ins: "want = DtString \<and> ins = ViStrings ss \<and> n = length ss \<and> entries = zip ts (map (VarSample \<circ> VrString) ss)
          \<and> (\<forall>s \<in> set ss. rust_string s)
        \<or> want = DtBinary \<and> ins = ViBinaries bs \<and> n = length bs \<and> entries = zip ts (map (VarSample \<circ> VrBinary) bs)"
  shows "logged (append_log ch entries (writer_log_of b)) (append_variable ch want ts n ins b)"
proof -
  have "data_logged want entries dat (insert_variable ch want want ts ins dat)"
    if "length ts = n" "data_wf want dat" for dat
    using that ins
    by (cases dat) (auto simp: insert_variable_def data_wf_def data_log_def text_samples_def)
  then show ?thesis
    unfolding append_variable_def
    by (intro channel_def_logged) (auto intro!: update_data_logged [OF wf])
qed

lemma writer_step_logged:
  assumes "writer_wf b" and "good_call c"
  shows "logged (call_log c (writer_log_of b)) (writer_step b c)"
proof (cases c)
  case (AddChannel def)
  then show ?thesis using add_channel_logged [OF assms(1)] by simp
next
  case (AddSegmentF64 ch start rate vs)
  then show ?thesis using segment_logged [OF assms(1)] by (simp add: add_equidistant_segment_f64_def)
next
  case (AddSegmentF32 ch start rate vs)
  then show ?thesis using segment_logged [OF assms(1)] by (simp add: add_equidistant_segment_f32_def)
next
  case (AddTimestamped ch ts nv)
  then show ?thesis using timestamped_logged [OF assms(1)] by simp
next
  case (AddStrings ch ts vs)
  then show ?thesis using variable_logged [OF assms(1)] assms(2) by (simp add: add_string_samples_def)
next
  case (AddBinaries ch ts vs)
  then show ?thesis using variable_logged [OF assms(1)] by (simp add: add_binary_samples_def)
qed

lemma new_builder_wf [wf_intros]: "writer_wf writer_builder_new"
  by (simp add: writer_wf_def writer_builder_new_def)

lemma new_builder_log [simp]: "writer_log_of writer_builder_new = []"
  by (simp add: writer_log_of_def writer_builder_new_def)

interpretation writer_calls: invariant_step writer_step good_call writer_wf "\<lambda>e. \<not> is_panic e"
  by unfold_locales (metis writer_step_logged logged_simps)+

lemma exec_log:
  "writer_wf b \<Longrightarrow> \<forall>c \<in> set calls. good_call c \<Longrightarrow> exec_all writer_step b calls = Inr b' \<Longrightarrow>
   writer_wf b' \<and> writer_log_of b' = fold call_log calls (writer_log_of b)"
proof (induction calls arbitrary: b)
  case Nil
  then show ?case by simp
next
  case (Cons c calls)
  obtain b1 where one: "writer_step b c = Inr b1" and rest: "exec_all writer_step b1 calls = Inr b'"
    using Cons.prems(3) by (auto simp: and_then_eq_Inr_iff)
  have "writer_wf b1" "writer_log_of b1 = call_log c (writer_log_of b)"
    using writer_step_logged [of b c] one Cons.prems(1,2) by simp_all
  then show ?case using Cons.IH [OF _ _ rest] Cons.prems(2) by simp
qed

text \<open>
  C6. Functional refinement of \<open>WriterBuilder\<close>. A builder stands for a list of named, typed logs
  of timed samples. On a well-formed builder each call fails with an ordinary error (never a
  panic), or keeps the invariant and has exactly its effect on the log: \<open>add_channel\<close> appends an
  empty log, an equidistant segment appends its samples at their reconstructed times, timestamped
  numeric, text and binary samples are appended as they are, each to the log of its own channel
  and to no other.
\<close>

theorem writer_refines_log:
  assumes "writer_wf b" and "good_call c"
  shows "case writer_step b c of
           Inr b' \<Rightarrow> writer_wf b' \<and> writer_log_of b' = call_log c (writer_log_of b)
         | Inl e \<Rightarrow> \<not> is_panic e"
  using writer_step_logged [OF assms] by (simp add: logged_def split: sum.splits)

theorem writer_refines_log_witness:
  "case writer_step writer_builder_new (AddChannel channel_def_default) of
     Inr b' \<Rightarrow> writer_log_of b' = [([], DtDouble, [])]
   | Inl e \<Rightarrow> False"
proof -
  obtain b' where b': "writer_step writer_builder_new (AddChannel channel_def_default) = Inr b'"
    by (simp add: add_channel_def channel_def_default_def writer_builder_new_def Let_def)
  show ?thesis
    using writer_refines_log [OF new_builder_wf, of "AddChannel channel_def_default"]
    unfolding b' by (simp add: channel_def_default_def)
qed

text \<open>
  The invariant of the writer over whole call sequences: from a new builder, any sequence of
  calls either stops with an ordinary error or ends in a builder with one data slot per channel,
  at most 65536 channels, only writable datatypes, channel types and widths, data of the declared
  datatype with as many timestamps as values, and a name table that points at channels of that
  name.
\<close>

theorem writer_calls_keep_invariant:
  assumes "\<forall>c \<in> set calls. good_call c"
  shows "case exec_all writer_step writer_builder_new calls of
           Inr b \<Rightarrow> writer_wf b
         | Inl e \<Rightarrow> \<not> is_panic e"
  using writer_calls.exec_inv [OF new_builder_wf assms] writer_calls.exec_error [OF new_builder_wf assms]
  by (simp split: sum.splits)

theorem writer_calls_keep_invariant_witness:
  "case exec_all writer_step writer_builder_new [AddTimestamped 3 [1] (NvBool [True])] of
     Inr b \<Rightarrow> False
   | Inl e \<Rightarrow> \<not> is_panic e"
proof -
  have "exec_all writer_step writer_builder_new [AddTimestamped 3 [1] (NvBool [True])]
      = Inl (ChannelNotFound ''(index)'')"
    by (simp add: add_timestamped_def append_timestamped_numeric_def channel_def_at_def writer_builder_new_def)
  then show ?thesis using writer_calls_keep_invariant [of "[AddTimestamped 3 [1] (NvBool [True])]"] by simp
qed

end
