(* ===== verification/Pipeline.thy ===== *)
theory Pipeline
  imports WriterLaws
begin

text \<open>
  The components together, over the data section: calls on a \<open>WriterBuilder\<close>, the width bump,
  \<open>write_data_blocks\<close>, a \<open>BlockReader\<close> over the bytes, and \<open>build_channels\<close>.
\<close>

section \<open>From calls to channels\<close>

lemma bumped_file_wf:
  assumes wf: "writer_wf b" and n: "length (wb_channels b) \<le> 0xFFFE"
    and d: "length defs = length (wb_channels b)"
      "\<forall>i < length (wb_channels b). defs ! i = bump_one frame_crc (wb_channels b ! i) (wb_channel_data b ! i)"
  shows "file_wf defs (wb_channel_data b)"
proof -
  have all2: "list_all2 (\<lambda>d dat. data_wf (cd_data_type d) dat) (wb_channels b) (wb_channel_data b)"
    using wf by (simp add: writer_wf_def)
  have defs: "def_wf (wb_channels b ! i)" if "i < length (wb_channels b)" for i
    using wf that by (simp add: writer_wf_def)
  have "(cd_size_of_length_value (defs ! i) = 2 \<or> cd_size_of_length_value (defs ! i) = 4)
      \<and> \<not> is_unsupported (cd_data_type (defs ! i))" if "i < length defs" for i
    using that d defs [of i] bump_one_width [of "wb_channels b ! i" frame_crc "wb_channel_data b ! i"]
    by (simp add: def_wf_def)
  then have "\<forall>x \<in> set defs. (cd_size_of_length_value x = 2 \<or> cd_size_of_length_value x = 4)
      \<and> \<not> is_unsupported (cd_data_type x)" by (metis in_set_conv_nth)
  moreover have "list_all2 (\<lambda>d dat. data_wf (cd_data_type d) dat) defs (wb_channel_data b)"
    using all2 d by (simp add: list_all2_conv_all_nth)
  ultimately show ?thesis using n d(1) by (simp add: file_wf_def)
qed

lemma log_of_channels:
  assumes "length defs = length (wb_channels b)" "length (wb_channel_data b) = length (wb_channels b)"
    "\<forall>i < length (wb_channels b). defs ! i = bump_one frame_crc (wb_channels b ! i) (wb_channel_data b ! i)"
    and "map channel_name channels = map cd_name defs" "map channel_data_type channels = map cd_data_type defs"
    "map channel_log channels = map (Inr \<circ> data_log) (wb_channel_data b)"
  shows "map (\<lambda>c. (channel_name c, channel_data_type c, channel_log c)) channels
       = map (\<lambda>(name, dt, entries). (name, dt, Inr entries)) (writer_log_of b)"
proof (rule nth_equalityI)
  have len: "length channels = length defs" using assms(4) by (metis length_map)
  then show "length (map (\<lambda>c. (channel_name c, channel_data_type c, channel_log c)) channels)
      = length (map (\<lambda>(name, dt, entries). (name, dt, Inr entries)) (writer_log_of b))"
    using assms(1,2) by (simp add: writer_log_of_def)
  fix i assume "i < length (map (\<lambda>c. (channel_name c, channel_data_type c, channel_log c)) channels)"
  then have i: "i < length defs" using len by simp
  have "channel_name (channels ! i) = cd_name (defs ! i)" "channel_data_type (channels ! i) = cd_data_type (defs ! i)"
    "channel_log (channels ! i) = Inr (data_log (wb_channel_data b ! i))"
    using arg_cong [OF assms(4), of "\<lambda>l. l ! i"] arg_cong [OF assms(5), of "\<lambda>l. l ! i"]
      arg_cong [OF assms(6), of "\<lambda>l. l ! i"] i len assms(1,2) by simp_all
  then show "map (\<lambda>c. (channel_name c, channel_data_type c, channel_log c)) channels ! i
      = map (\<lambda>(name, dt, entries). (name, dt, Inr entries)) (writer_log_of b) ! i"
    using i len assms(1-3) by (simp add: writer_log_of_def)
qed

lemma calls_delivered:
  assumes good: "\<forall>c \<in> set calls. good_call c" and calls: "exec_all writer_step writer_builder_new calls = Inr b"
    and n: "length (wb_channels b) \<le> 0xFFFE" and fit: "\<forall>dat \<in> set (wb_channel_data b). texts_fit dat"
    and profile: "profile = IpNone \<longleftrightarrow> \<not> frame_crc"
  obtains defs bytes where
    "autobump_size_of_length_value (wb_channels b) (wb_channel_data b) frame_crc = Inr defs"
    "write_data_blocks crc32c defs (wb_channel_data b) frame_crc = Inr bytes"
    "length defs = length (wb_channels b)"
    "\<forall>i < length (wb_channels b). defs ! i = bump_one frame_crc (wb_channels b ! i) (wb_channel_data b ! i)"
    "\<And>meta. meta_describes meta defs \<Longrightarrow> \<exists>blks r' channels by_name by_index.
       items crc32c (sized file_size (with_integrity profile (block_reader_new (source bytes) meta))) = (map Inr blks, r')
       \<and> list_all (\<lambda>blk. \<not> is_skipped (blk_kind blk)) blks
       \<and> trouble (br_stats r') = no_trouble
       \<and> build_channels meta (map Inr blks) = Inr (channels, by_name, by_index)
       \<and> map (\<lambda>c. (channel_name c, channel_data_type c, channel_log c)) channels
           = map (\<lambda>(name, dt, entries). (name, dt, Inr entries)) (fold call_log calls [])"
proof -
  have wf: "writer_wf b" and log: "writer_log_of b = fold call_log calls []"
    using exec_log [OF new_builder_wf good calls] by simp_all
  have all2: "list_all2 (\<lambda>d dat. data_wf (cd_data_type d) dat) (wb_channels b) (wb_channel_data b)"
    and widths: "\<forall>d \<in> set (wb_channels b). cd_size_of_length_value d = 2 \<or> cd_size_of_length_value d = 4"
    and n': "length (wb_channels b) \<le> 65536"
    using wf by (auto simp: writer_wf_def def_wf_def)
  obtain defs bytes where d: "autobump_size_of_length_value (wb_channels b) (wb_channel_data b) frame_crc = Inr defs"
    "length defs = length (wb_channels b)"
    "\<forall>i < length (wb_channels b). defs ! i = bump_one frame_crc (wb_channels b ! i) (wb_channel_data b ! i)"
    "write_data_blocks crc32c defs (wb_channel_data b) frame_crc = Inr bytes"
    using write_after_bump [OF all2 widths n' fit] .
  show ?thesis
  proof (rule that [OF d(1,4,2,3)])
    fix meta assume meta: "meta_describes meta defs"
    obtain blks r' channels by_name by_index where
      r: "items crc32c (sized file_size (with_integrity profile (block_reader_new (source bytes) meta))) = (map Inr blks, r')"
      "list_all (\<lambda>blk. \<not> is_skipped (blk_kind blk)) blks"
      "trouble (br_stats r') = no_trouble"
      "build_channels meta (map Inr blks) = Inr (channels, by_name, by_index)"
      and c: "map channel_name channels = map cd_name defs" "map channel_data_type channels = map cd_data_type defs"
        "map channel_log channels = map (Inr \<circ> data_log) (wb_channel_data b)"
      using file_delivered [OF d(4) meta bumped_file_wf [OF wf n d(2,3)] profile] .
    have "length (wb_channel_data b) = length (wb_channels b)" using all2 by (simp add: list_all2_lengthD)
    from log_of_channels [OF d(2) this d(3) c] log r
    show "\<exists>blks r' channels by_name by_index.
       items crc32c (sized file_size (with_integrity profile (block_reader_new (source bytes) meta))) = (map Inr blks, r')
       \<and> list_all (\<lambda>blk. \<not> is_skipped (blk_kind blk)) blks
       \<and> trouble (br_stats r') = no_trouble
       \<and> build_channels meta (map Inr blks) = Inr (channels, by_name, by_index)
       \<and> map (\<lambda>c. (channel_name c, channel_data_type c, channel_log c)) channels
           = map (\<lambda>(name, dt, entries). (name, dt, Inr entries)) (fold call_log calls [])"
      by auto
  qed
qed

text \<open>
  Writing and reading a data section is the identity on samples. For any sequence of calls on
  a new \<open>WriterBuilder\<close> that succeeds, with at most 65534 channels and texts shorter than 4 GiB,
  at either integrity level and for every CRC32C function: the data section is written, a reader
  over a metablock that describes the same channels decodes every block of it without an error, a
  skip or a truncation, and the manager builds the channels in order, each with its name, its
  datatype and exactly the timed samples the calls added to it.
\<close>

theorem calls_roundtrip:
  assumes "\<forall>c \<in> set calls. good_call c" and "exec_all writer_step writer_builder_new calls = Inr b"
    and "length (wb_channels b) \<le> 0xFFFE" and "\<forall>dat \<in> set (wb_channel_data b). texts_fit dat"
    and "profile = IpNone \<longleftrightarrow> \<not> frame_crc"
  shows "\<exists>defs bytes.
     autobump_size_of_length_value (wb_channels b) (wb_channel_data b) frame_crc = Inr defs
     \<and> write_data_blocks crc32c defs (wb_channel_data b) frame_crc = Inr bytes
     \<and> (\<forall>meta. meta_describes meta defs \<longrightarrow> (\<exists>blks r' channels by_name by_index.
          items crc32c (with_integrity profile (block_reader_new (source bytes) meta)) = (map Inr blks, r')
          \<and> list_all (\<lambda>blk. \<not> is_skipped (blk_kind blk)) blks
       \<and> trouble (br_stats r') = no_trouble
          \<and> build_channels meta (map Inr blks) = Inr (channels, by_name, by_index)
          \<and> map (\<lambda>c. (channel_name c, channel_data_type c, channel_log c)) channels
              = map (\<lambda>(name, dt, entries). (name, dt, Inr entries)) (fold call_log calls [])))"
  by (rule calls_delivered [OF assms, where crc32c = crc32c and file_size = None, unfolded sized_None]) blast

theorem calls_roundtrip_witness:
  "\<exists>bytes blks r' channels by_name by_index.
     write_data_blocks (\<lambda>_. 0) [channel_def_default\<lparr>cd_data_type := DtInt8\<rparr>] [CdTimestamped [5] (NvInt8 [7])] True
       = Inr bytes
     \<and> items (\<lambda>_. 0) (with_integrity IpCrc32c (block_reader_new (source bytes)
          \<lparr>mb_file_info = file_info_default\<lparr>fi_version := 5\<rparr>, mb_channels = [demo_channel 0 [] DtInt8], mb_infos = []\<rparr>))
        = (map Inr blks, r')
     \<and> build_channels
          \<lparr>mb_file_info = file_info_default\<lparr>fi_version := 5\<rparr>, mb_channels = [demo_channel 0 [] DtInt8], mb_infos = []\<rparr>
          (map Inr blks) = Inr (channels, by_name, by_index)
     \<and> map channel_log channels = [Inr [(5, NumSample (VrInt8 7))]]"
proof -
  let ?def = "channel_def_default\<lparr>cd_data_type := DtInt8\<rparr>"
  let ?calls = "[AddChannel ?def, AddTimestamped 0 [5] (NvInt8 [7])]"
  let ?b = "writer_builder_new\<lparr>wb_name_to_index := [[] \<mapsto> 0], wb_channels := [?def],
      wb_channel_data := [CdTimestamped [5] (NvInt8 [7])]\<rparr>"
  let ?meta = "\<lparr>mb_file_info = file_info_default\<lparr>fi_version := 5\<rparr>, mb_channels = [demo_channel 0 [] DtInt8], mb_infos = []\<rparr>"
  have calls: "exec_all writer_step writer_builder_new ?calls = Inr ?b"
    by (simp add: add_channel_def channel_def_default_def writer_builder_new_def Let_def add_timestamped_def
          append_timestamped_numeric_def channel_def_at_def update_data_def index_at_def)
  have bump: "autobump_size_of_length_value (wb_channels ?b) (wb_channel_data ?b) True = Inr [?def]"
    by (simp add: autobump_size_of_length_value_def index_at_def bump_one_def channel_def_default_def
          crc_reserve_def MAX_BLOCK_PAYLOAD_U16_def)
  have meta: "meta_describes ?meta [?def]"
    by (simp add: meta_describes_def demo_channel_def channel_def_default_def)
  have log: "fold call_log ?calls [] = [([], DtInt8, [(5, NumSample (VrInt8 7))])]"
    by (simp add: append_log_def channel_def_default_def)
  obtain bytes blks r' channels by_name by_index where
    "write_data_blocks (\<lambda>_. 0) [?def] (wb_channel_data ?b) True = Inr bytes"
    "items (\<lambda>_. 0) (with_integrity IpCrc32c (block_reader_new (source bytes) ?meta)) = (map Inr blks, r')"
    "build_channels ?meta (map Inr blks) = Inr (channels, by_name, by_index)"
    "map (\<lambda>c. (channel_name c, channel_data_type c, channel_log c)) channels
       = [([], DtInt8, Inr [(5, NumSample (VrInt8 7))])]"
    using calls_roundtrip [OF _ calls, of IpCrc32c True "\<lambda>_. 0"] bump meta log
    by (auto simp: texts_fit_def)
  moreover from this(4) have "map channel_log channels = [Inr [(5, NumSample (VrInt8 7))]]"
    by (cases channels) auto
  ultimately show ?thesis by auto
qed

section \<open>Reserved channel indices\<close>

text \<open>
  C38. The writer hands out an index the reader reserves: \<open>add_channel\<close> accepts a 65536th channel
  and gives it index 0xFFFF, every block written for that channel is read as the file trailer,
  and iteration ends there without an item and without an error, whatever follows.
\<close>

theorem last_channel_is_lost:
  assumes "length (wb_channels b) = 65535" and "def_wf def"
    and "write_block crc32c 0xFFFF (cd_size_of_length_value def) payload frame_crc = Inr bs"
    and "\<not> br_finished r" and "pending (br_inner r) = bs @ rest" and "\<not> faulty (br_inner r)"
  shows "map_ok fst (add_channel def b) = Inr 0xFFFF
    \<and> fst (items crc32c r) = []"
proof -
  have "map_ok fst (add_channel def b) = Inr 0xFFFF"
    using assms(1,2) by (auto simp: add_channel_def def_wf_def Let_def)
  moreover have "fst (items crc32c r) = []"
  proof -
    obtain tl where bs: "bs = u16_le 0xFFFF @ tl"
      using assms(3) by (auto simp: write_block_def Let_def and_then_eq_Inr_iff write_u16_def split: if_splits)
    let ?r = "r\<lparr>br_inner := (br_inner r)\<lparr>pending := tl @ rest\<rparr>\<rparr>"
    have "inner_exact 2 r = (Got (u16_le 0xFFFF), ?r)"
      using inner_exact_append [of r "u16_le 0xFFFF" "tl @ rest" 2] assms(5) bs by simp
    then have "next_block crc32c r = next_trailer (add_bytes 2 ?r)"
      using assms(4) by (simp add: next_block_def Let_def TRAILER_CHANNEL_INDEX_def from_le_u16)
    moreover have "fst (next_trailer q) = None" if "\<not> faulty (br_inner q)" for q
      using that
      by (auto simp: next_trailer_def consume_trailer_def Let_def inner_exact_def inner_drain_def
            read_exact_def drain_def exhausted_def add_bytes_def split: prod.splits io.splits if_splits)
    ultimately have "fst (next_block crc32c r) = None" using assms(6) by (simp add: add_bytes_def)
    then show ?thesis by (cases "next_block crc32c r") (simp add: items.simps [of crc32c r])
  qed
  ultimately show ?thesis ..
qed

theorem last_channel_is_lost_witness:
  "\<exists>bs. write_block (\<lambda>_. 0) 0xFFFF 2 [0x08, 1, 2] False = Inr bs
     \<and> fst (items (\<lambda>_. 0) (demo_reader DtInt8 2 IpNone bs)) = []"
proof -
  obtain bs where bs: "write_block (\<lambda>_. 0) 0xFFFF 2 [0x08, 1, 2] False = Inr bs"
    using write_block_total [where width = 2 and payload = "[0x08, 1, 2]" and frame_crc = False and crc32c = "\<lambda>_. 0"
        and channel = "0xFFFF"]
    by (auto simp: crc_reserve_def max_block_payload_def MAX_BLOCK_PAYLOAD_U16_def)
  obtain defs :: "channel_def list" where defs: "length defs = 65535" using Ex_list_of_length by blast
  have "fst (items (\<lambda>_. 0) (demo_reader DtInt8 2 IpNone bs)) = []"
    using last_channel_is_lost [where b = "writer_builder_new\<lparr>wb_channels := defs\<rparr>" and def = channel_def_default
        and crc32c = "\<lambda>_. 0" and payload = "[0x08, 1, 2]" and frame_crc = False and bs = bs
        and r = "demo_reader DtInt8 2 IpNone bs" and rest = "[]"] bs defs
    by (simp add: def_wf_def channel_def_default_def demo_reader_def)
  with bs show ?thesis by blast
qed

end
