(* ===== verification/MetaJson.thy ===== *)
theory MetaJson
  imports Encoder "HOL-Library.List_Lexorder" "HOL-Library.Char_ord"
begin

text \<open>
  The OSF5 metablock: \<open>parse_metablock_json\<close> and its helpers (\<open>meta_json.rs\<close>) and the
  document the writer builds (\<open>build_metablock_json\<close>, \<open>channel_def_to_json\<close> of \<open>writer.rs\<close>).
  The code works on \<open>serde_json::Value\<close>, whose shape is the datatype \<open>json\<close>; numbers, the
  parser and the printer of \<open>serde_json\<close> are parameters. Log output is left out.
\<close>

section \<open>JSON values\<close>

text \<open>
  \<open>serde_json::Value\<close> over an opaque \<open>Number\<close> type. A \<open>Map\<close> is a \<open>BTreeMap\<close>: its entries are
  kept in the order of the keys.
\<close>

datatype 'n json =
    JNull
  | JBool bool
  | JNumber 'n
  | JString string
  | JArray "'n json list"
  | JObject "(string \<times> 'n json) list"

type_synonym 'n json_map = "(string \<times> 'n json) list"

fun map_insert :: "string \<Rightarrow> 'v \<Rightarrow> (string \<times> 'v) list \<Rightarrow> (string \<times> 'v) list" where
  "map_insert k v [] = [(k, v)]"
| "map_insert k v ((k', v') # m) =
     (if k = k' then (k, v) # m
      else if k < k' then (k, v) # (k', v') # m
      else (k', v') # map_insert k v m)"

lemma map_of_map_insert [simp]: "map_of (map_insert k v m) = (map_of m)(k \<mapsto> v)"
  by (induction k v m rule: map_insert.induct) auto

text \<open>Inserting the entries of a list one after the other; \<open>None\<close> leaves its key out.\<close>

fun insert_fields :: "(string \<times> 'v option) list \<Rightarrow> (string \<times> 'v) list \<Rightarrow> (string \<times> 'v) list" where
  "insert_fields [] m = m"
| "insert_fields ((k, None) # fs) m = insert_fields fs m"
| "insert_fields ((k, Some v) # fs) m = insert_fields fs (map_insert k v m)"

lemma map_of_insert_fields_other:
  "k \<notin> fst ` set fs \<Longrightarrow> map_of (insert_fields fs m) k = map_of m k"
  by (induction fs m rule: insert_fields.induct) auto

lemma map_of_insert_fields:
  "distinct (map fst fs) \<Longrightarrow> map_of (insert_fields fs []) k = Option.bind (map_of fs k) id"
proof -
  have "map_of (insert_fields fs m) k =
      (case map_of fs k of Some (Some v) \<Rightarrow> Some v | _ \<Rightarrow> map_of m k)" if "distinct (map fst fs)" for m
    using that
  proof (induction fs m rule: insert_fields.induct)
    case (2 k' fs m)
    then have "k' = k \<Longrightarrow> map_of fs k = None" by (auto simp: map_of_eq_None_iff)
    then show ?case using 2 by (auto split: option.splits)
  next
    case (3 k' v fs m)
    then have "k' = k \<Longrightarrow> map_of fs k = None" by (auto simp: map_of_eq_None_iff)
    then show ?case using 3 by (auto split: option.splits)
  qed simp
  then show "distinct (map fst fs) \<Longrightarrow> map_of (insert_fields fs []) k = Option.bind (map_of fs k) id"
    by (auto split: option.splits)
qed

text \<open>What the code uses of \<open>serde_json\<close>.\<close>

record 'n serde_json =
  sj_from_slice :: "byte list \<Rightarrow> 'n json option"
  sj_to_vec_pretty :: "'n json \<Rightarrow> byte list option"
  sj_to_string :: "'n json \<Rightarrow> string"
  sj_as_i64 :: "'n \<Rightarrow> i64 option"
  sj_as_u64 :: "'n \<Rightarrow> u64 option"
  sj_as_f64 :: "'n \<Rightarrow> f64 option"
  sj_number_i64 :: "i64 \<Rightarrow> 'n"
  sj_number_u64 :: "u64 \<Rightarrow> 'n"
  sj_number_f64 :: "f64 \<Rightarrow> 'n option"

definition as_str :: "'n json \<Rightarrow> string option" where
  "as_str v = (case v of JString s \<Rightarrow> Some s | _ \<Rightarrow> None)"

definition as_object :: "'n json \<Rightarrow> 'n json_map option" where
  "as_object v = (case v of JObject m \<Rightarrow> Some m | _ \<Rightarrow> None)"

definition as_i64 :: "'n serde_json \<Rightarrow> 'n json \<Rightarrow> i64 option" where
  "as_i64 sj v = (case v of JNumber n \<Rightarrow> sj_as_i64 sj n | _ \<Rightarrow> None)"

definition as_u64 :: "'n serde_json \<Rightarrow> 'n json \<Rightarrow> u64 option" where
  "as_u64 sj v = (case v of JNumber n \<Rightarrow> sj_as_u64 sj n | _ \<Rightarrow> None)"

definition as_f64 :: "'n serde_json \<Rightarrow> 'n json \<Rightarrow> f64 option" where
  "as_f64 sj v = (case v of JNumber n \<Rightarrow> sj_as_f64 sj n | _ \<Rightarrow> None)"

text \<open>\<open>json!(x)\<close> of a float: not a number and the infinities become \<open>null\<close>.\<close>

definition json_f64 :: "'n serde_json \<Rightarrow> f64 \<Rightarrow> 'n json" where
  "json_f64 sj x = (case sj_number_f64 sj x of Some n \<Rightarrow> JNumber n | None \<Rightarrow> JNull)"

section \<open>The parser\<close>

definition value_to_string :: "'n serde_json \<Rightarrow> 'n json \<Rightarrow> string option" where
  "value_to_string sj v =
     (case v of JString s \<Rightarrow> Some s | JNull \<Rightarrow> None | other \<Rightarrow> Some (sj_to_string sj other))"

text \<open>\<open>obj.get(key).and_then(f)\<close>.\<close>

definition get_as :: "('n json \<Rightarrow> 'b option) \<Rightarrow> 'n json_map \<Rightarrow> string \<Rightarrow> 'b option" where
  "get_as f obj key = Option.bind (map_of obj key) f"

text \<open>A location field, and its short spelling when the long one is absent.\<close>

definition location_field :: "'n serde_json \<Rightarrow> 'n json_map \<Rightarrow> string \<Rightarrow> string \<Rightarrow> f64 option" where
  "location_field sj obj long short =
     (case get_as (as_f64 sj) obj long of
        Some v \<Rightarrow> Some v
      | None \<Rightarrow> get_as (as_f64 sj) obj short)"

definition parse_file_info :: "'n serde_json \<Rightarrow> 'n json_map \<Rightarrow> osf_error + file_info" where
  "parse_file_info sj osf =
     (case map_of osf ''file'' of
        Some (JObject file_obj) \<Rightarrow>
          Inr (file_info_default
            \<lparr>fi_created_utc := get_as (value_to_string sj) file_obj ''created_utc'',
             fi_creator := get_as (value_to_string sj) file_obj ''creator'',
             fi_reason := get_as (value_to_string sj) file_obj ''reason'',
             fi_tag := get_as (value_to_string sj) file_obj ''tag'',
             fi_comment := get_as (value_to_string sj) file_obj ''comment'',
             fi_namespace_sep := get_as (value_to_string sj) file_obj ''namespacesep'',
             fi_created_at_latitude := location_field sj file_obj ''created_at_latitude'' ''latitude'',
             fi_created_at_longitude := location_field sj file_obj ''created_at_longitude'' ''longitude'',
             fi_created_at_altitude := location_field sj file_obj ''created_at_altitude'' ''altitude''\<rparr>)
      | Some _ \<Rightarrow> Inl (InvalidMetablock ''OSF5 file must be an object'')
      | None \<Rightarrow> Inr file_info_default)"

definition parse_channel :: "'n serde_json \<Rightarrow> 'n json_map \<Rightarrow> osf_error + meta_channel" where
  "parse_channel sj obj =
     and_then (ok_or (InvalidMetablock ''channel is missing required field index'')
                 (get_as (as_i64 sj) obj ''index'')) (\<lambda>raw_index.
     if \<not> (0 \<le> sint raw_index \<and> sint raw_index \<le> 65535)
     then Inl (InvalidMetablock ''channel has index out of range'')
     else
     and_then (ok_or (InvalidMetablock ''channel is missing required field name'')
                 (get_as as_str obj ''name'')) (\<lambda>name.
     and_then (ok_or (InvalidMetablock ''channel is missing required field channeltype'')
                 (get_as as_str obj ''channeltype'')) (\<lambda>channel_type_raw.
     and_then (parse_channel_type channel_type_raw) (\<lambda>channel_type.
     and_then (ok_or (InvalidMetablock ''channel is missing required field datatype'')
                 (get_as as_str obj ''datatype'')) (\<lambda>data_type_raw.
     and_then (parse_data_type data_type_raw) (\<lambda>data_type.
     and_then (ok_or (InvalidMetablock ''channel is missing required field sizeoflengthvalue'')
                 (get_as (as_u64 sj) obj ''sizeoflengthvalue'')) (\<lambda>raw_size.
     and_then (if 2 ^ 32 \<le> unat raw_size
               then Inl (InvalidMetablock ''channel sizeoflengthvalue out of range'')
               else validate_size_of_length_value (ucast raw_size)) (\<lambda>size_of_length_value.
     Inr \<lparr>mc_index = ucast raw_index,
          mc_name = name,
          mc_reference = get_as (value_to_string sj) obj ''reference'',
          mc_channel_type = channel_type,
          mc_data_type = data_type,
          mc_time_increment_ns = get_as (as_i64 sj) obj ''timeincrement'',
          mc_size_of_length_value = size_of_length_value,
          mc_mime_type = get_as (value_to_string sj) obj ''mimetype'',
          mc_spectrum_type = map_option spectrum_from_wire (get_as as_str obj ''spectrumtype''),
          mc_physical_unit = get_as (value_to_string sj) obj ''physicalunit'',
          mc_physical_dimension = get_as (value_to_string sj) obj ''physicaldimension'',
          mc_display_name = get_as (value_to_string sj) obj ''displayname'',
          mc_comment = get_as (value_to_string sj) obj ''comment''\<rparr>))))))))"

definition parse_channels :: "'n serde_json \<Rightarrow> 'n json_map \<Rightarrow> osf_error + meta_channel list" where
  "parse_channels sj osf =
     (case map_of osf ''channels'' of
        Some (JArray arr) \<Rightarrow>
          first_error (map (\<lambda>v. and_then (ok_or (InvalidMetablock ''OSF5 channels[i] must be an object'')
                                            (as_object v)) (parse_channel sj)) arr)
      | Some _ \<Rightarrow> Inl (InvalidMetablock ''OSF5 channels must be an array'')
      | None \<Rightarrow> Inr [])"

definition parse_info :: "'n serde_json \<Rightarrow> 'n json \<Rightarrow> osf_error + meta_info" where
  "parse_info sj v =
     and_then (ok_or (InvalidMetablock ''OSF5 infos[i] must be an object'') (as_object v)) (\<lambda>obj.
     and_then (ok_or (InvalidMetablock ''OSF5 infos[i] is missing name'') (get_as as_str obj ''name'')) (\<lambda>name.
     and_then (parse_data_type (case get_as as_str obj ''datatype'' of Some s \<Rightarrow> s | None \<Rightarrow> ''string'')) (\<lambda>data_type.
     Inr \<lparr>in_name = name,
          in_value = (case map_of obj ''value'' of
                        Some (JString s) \<Rightarrow> s
                      | Some other \<Rightarrow> sj_to_string sj other
                      | None \<Rightarrow> []),
          in_data_type = data_type,
          in_physical_unit = get_as (value_to_string sj) obj ''physicalunit''\<rparr>)))"

definition parse_infos :: "'n serde_json \<Rightarrow> 'n json_map \<Rightarrow> osf_error + meta_info list" where
  "parse_infos sj osf =
     (case map_of osf ''infos'' of
        Some (JArray arr) \<Rightarrow> first_error (map (parse_info sj) arr)
      | Some _ \<Rightarrow> Inl (InvalidMetablock ''OSF5 infos must be an array'')
      | None \<Rightarrow> Inr [])"

definition parse_metablock_json :: "'n serde_json \<Rightarrow> byte list \<Rightarrow> osf_error + meta_block" where
  "parse_metablock_json sj bytes =
     and_then (ok_or JsonError (sj_from_slice sj bytes)) (\<lambda>root.
     and_then (ok_or (InvalidMetablock ''OSF5 root must be a JSON object'') (as_object root)) (\<lambda>outer.
     and_then (ok_or (InvalidMetablock ''OSF5 root is missing the osf envelope'')
                 (get_as as_object outer ''osf'')) (\<lambda>osf.
     and_then (parse_file_info sj osf) (\<lambda>file_info.
     and_then (parse_channels sj osf) (\<lambda>channels.
     and_then (parse_infos sj osf) (\<lambda>infos.
     Inr \<lparr>mb_file_info = file_info\<lparr>fi_version := 5\<rparr>, mb_channels = channels, mb_infos = infos\<rparr>))))))"

section \<open>What is accepted, and how the rest is refused\<close>

definition metablock_error :: "osf_error \<Rightarrow> bool" where
  "metablock_error e \<longleftrightarrow>
     (case e of JsonError \<Rightarrow> True | InvalidMetablock _ \<Rightarrow> True
      | RemovedInSpec2026_05_04 field _ _ \<Rightarrow> field = ''datatype'' | _ \<Rightarrow> False)"

lemma metablock_error_simps [simp]:
  "metablock_error JsonError" "metablock_error (InvalidMetablock m)"
  "metablock_error (RemovedInSpec2026_05_04 ''datatype'' v r)"
  by (simp_all add: metablock_error_def)

text \<open>A result whose error, if it is one, is of the given kind; one rule per construct.\<close>

definition refuses :: "(osf_error \<Rightarrow> bool) \<Rightarrow> osf_error + 'a \<Rightarrow> bool" where
  "refuses P r \<longleftrightarrow> (\<forall>e. r = Inl e \<longrightarrow> P e)"

named_theorems refusal \<open>results whose errors are of a given kind\<close>

lemma refuses_mono: "refuses Q r \<Longrightarrow> (\<And>e. Q e \<Longrightarrow> P e) \<Longrightarrow> refuses P r"
  by (simp add: refuses_def)

lemma refuses_Inr [refusal]: "refuses P (Inr v)"
  by (simp add: refuses_def)

lemma refuses_Inl [refusal]: "P e \<Longrightarrow> refuses P (Inl e)"
  by (simp add: refuses_def)

lemma refuses_ok_or [refusal]: "P e \<Longrightarrow> refuses P (ok_or e x)"
  by (simp add: refuses_def)

lemma refuses_and_then [refusal]:
  "refuses P r \<Longrightarrow> (\<And>v. r = Inr v \<Longrightarrow> refuses P (f v)) \<Longrightarrow> refuses P (and_then r f)"
  by (auto simp: refuses_def and_then_eq_Inl_iff)

lemma refuses_if [refusal]:
  "refuses P r \<Longrightarrow> refuses P r' \<Longrightarrow> refuses P (if c then r else r')"
  by simp

lemma refuses_first_error [refusal]:
  "(\<And>x. x \<in> set xs \<Longrightarrow> refuses P (f x)) \<Longrightarrow> refuses P (first_error (map f xs))"
  by (induction xs) (auto simp: refuses_def and_then_eq_Inl_iff)

lemma refuses_data_type [refusal]: "refuses metablock_error (parse_data_type raw)"
  unfolding parse_data_type_def by (intro refusal metablock_error_simps)

lemma refuses_channel_type [refusal]: "refuses metablock_error (parse_channel_type raw)"
  unfolding parse_channel_type_def by (intro refusal)

lemma refuses_size [refusal]: "refuses metablock_error (validate_size_of_length_value raw)"
  unfolding validate_size_of_length_value_def by (intro refusal metablock_error_simps)

lemma refuses_channel [refusal]: "refuses metablock_error (parse_channel sj obj)"
  unfolding parse_channel_def by (intro refusal metablock_error_simps)

lemma refuses_info [refusal]: "refuses metablock_error (parse_info sj v)"
  unfolding parse_info_def by (intro refusal metablock_error_simps)

lemma refuses_file_info [refusal]: "refuses metablock_error (parse_file_info sj osf)"
  unfolding parse_file_info_def
  by (simp add: refusal split: option.split json.split)

lemma refuses_channels [refusal]: "refuses metablock_error (parse_channels sj osf)"
  unfolding parse_channels_def
  by (auto simp: refusal split: option.split json.split intro!: refusal)

lemma refuses_infos [refusal]: "refuses metablock_error (parse_infos sj osf)"
  unfolding parse_infos_def
  by (auto simp: refusal split: option.split json.split intro!: refusal)

lemma refuses_metablock: "refuses metablock_error (parse_metablock_json sj bytes)"
  unfolding parse_metablock_json_def by (intro refusal metablock_error_simps)

lemma parse_channel_Inr:
  assumes "parse_channel sj obj = Inr c"
  shows "mc_size_of_length_value c = 2 \<or> mc_size_of_length_value c = 4" "mc_data_type c \<noteq> DtByteArray"
    "get_as as_str obj ''name'' = Some (mc_name c)"
    "\<exists>raw. get_as as_str obj ''datatype'' = Some raw \<and> parse_data_type raw = Inr (mc_data_type c)"
  using assms
  by (auto simp: parse_channel_def and_then_eq_Inr_iff parse_data_type_not_bytearray
        dest: validate_size_range split: if_splits)

text \<open>The objects of the \<open>channels\<close> array of a document.\<close>

definition channel_objects :: "'n json \<Rightarrow> 'n json_map list" where
  "channel_objects root =
     (case Option.bind (as_object root) (\<lambda>outer. get_as as_object outer ''osf'') of
        Some osf \<Rightarrow> (case map_of osf ''channels'' of Some (JArray arr) \<Rightarrow> List.map_filter as_object arr | _ \<Rightarrow> [])
      | None \<Rightarrow> [])"

lemma parse_channel_array:
  "first_error (map (\<lambda>v. and_then (ok_or e (as_object v)) (parse_channel sj)) arr) = Inr cs \<Longrightarrow>
   list_all2 (\<lambda>obj c. parse_channel sj obj = Inr c) (List.map_filter as_object arr) cs"
  by (induction arr arbitrary: cs) (auto simp: and_then_eq_Inr_iff List.map_filter_simps)

lemma parse_metablock_json_Inr:
  assumes "parse_metablock_json sj bytes = Inr meta"
  obtains root where "sj_from_slice sj bytes = Some root"
    "list_all2 (\<lambda>obj c. parse_channel sj obj = Inr c) (channel_objects root) (mb_channels meta)"
    "fi_version (mb_file_info meta) = 5"
proof -
  obtain root outer osf fi cs infos where r: "sj_from_slice sj bytes = Some root"
      "as_object root = Some outer" "get_as as_object outer ''osf'' = Some osf"
      "parse_channels sj osf = Inr cs"
      "meta = \<lparr>mb_file_info = fi\<lparr>fi_version := 5\<rparr>, mb_channels = cs, mb_infos = infos\<rparr>"
    using assms by (auto simp: parse_metablock_json_def and_then_eq_Inr_iff)
  have "list_all2 (\<lambda>obj c. parse_channel sj obj = Inr c) (channel_objects root) cs"
    using r(2-4)
    by (auto simp: channel_objects_def parse_channels_def List.map_filter_simps
          intro: parse_channel_array split: option.splits json.splits)
  then show ?thesis using r by (intro that [of root]) simp_all
qed

text \<open>
  C28. The parser is total and validating: whatever the bytes and the document, it refuses with
  \<open>Json\<close>, \<open>InvalidMetablock\<close> or a removed datatype and with nothing else, and what it accepts
  declares version 5 and has one channel per object of the \<open>channels\<close> array, in order, with the
  object's name, a length field of 2 or 4 bytes, and the datatype its spelling stands for, which is
  never one removed from the format and never the alias \<open>ByteArray\<close>.
\<close>

theorem metablock_json_validates:
  "(\<forall>e. parse_metablock_json sj bytes = Inl e \<longrightarrow> metablock_error e)
   \<and> (\<forall>meta. parse_metablock_json sj bytes = Inr meta \<longrightarrow>
        fi_version (mb_file_info meta) = 5
        \<and> (\<exists>root. sj_from_slice sj bytes = Some root
             \<and> list_all2 (\<lambda>obj c. get_as as_str obj ''name'' = Some (mc_name c)
                  \<and> (mc_size_of_length_value c = 2 \<or> mc_size_of_length_value c = 4)
                  \<and> mc_data_type c \<noteq> DtByteArray
                  \<and> (\<exists>raw. get_as as_str obj ''datatype'' = Some raw
                        \<and> raw \<notin> {''gpsdata'', ''pair'', ''triple'', ''candata''}
                        \<and> parse_data_type raw = Inr (mc_data_type c)))
                 (channel_objects root) (mb_channels meta)))"
proof (intro conjI allI impI)
  show "metablock_error e" if "parse_metablock_json sj bytes = Inl e" for e
    using that refuses_metablock [of sj bytes] by (simp add: refuses_def)
next
  fix meta assume "parse_metablock_json sj bytes = Inr meta"
  then show "fi_version (mb_file_info meta) = 5" by (rule parse_metablock_json_Inr)
next
  fix meta assume "parse_metablock_json sj bytes = Inr meta"
  then obtain root where r: "sj_from_slice sj bytes = Some root"
      "list_all2 (\<lambda>obj c. parse_channel sj obj = Inr c) (channel_objects root) (mb_channels meta)"
    by (rule parse_metablock_json_Inr)
  have removed: "parse_data_type raw \<noteq> Inr t" if "raw \<in> {''gpsdata'', ''pair'', ''triple'', ''candata''}" for raw t
    using that by (auto simp: parse_data_type_def)
  have "list_all2 (\<lambda>obj c. get_as as_str obj ''name'' = Some (mc_name c)
                  \<and> (mc_size_of_length_value c = 2 \<or> mc_size_of_length_value c = 4)
                  \<and> mc_data_type c \<noteq> DtByteArray
                  \<and> (\<exists>raw. get_as as_str obj ''datatype'' = Some raw
                        \<and> raw \<notin> {''gpsdata'', ''pair'', ''triple'', ''candata''}
                        \<and> parse_data_type raw = Inr (mc_data_type c)))
                 (channel_objects root) (mb_channels meta)"
    using r(2) by (rule list_all2_mono) (use removed in \<open>meson parse_channel_Inr\<close>)
  with r(1) show "\<exists>root. sj_from_slice sj bytes = Some root
             \<and> list_all2 (\<lambda>obj c. get_as as_str obj ''name'' = Some (mc_name c)
                  \<and> (mc_size_of_length_value c = 2 \<or> mc_size_of_length_value c = 4)
                  \<and> mc_data_type c \<noteq> DtByteArray
                  \<and> (\<exists>raw. get_as as_str obj ''datatype'' = Some raw
                        \<and> raw \<notin> {''gpsdata'', ''pair'', ''triple'', ''candata''}
                        \<and> parse_data_type raw = Inr (mc_data_type c)))
                 (channel_objects root) (mb_channels meta)"
    by blast
qed

section \<open>A concrete serde_json\<close>

text \<open>Integers as numbers, and a parser that returns the given document.\<close>

definition demo_serde :: "int json option \<Rightarrow> int serde_json" where
  "demo_serde doc =
     \<lparr>sj_from_slice = (\<lambda>_. doc), sj_to_vec_pretty = (\<lambda>_. Some [123, 125]), sj_to_string = (\<lambda>_. ''?''),
      sj_as_i64 = (\<lambda>n. if - (2 ^ 63) \<le> n \<and> n < 2 ^ 63 then Some (word_of_int n) else None),
      sj_as_u64 = (\<lambda>n. if 0 \<le> n \<and> n < 2 ^ 64 then Some (word_of_int n) else None),
      sj_as_f64 = (\<lambda>_. None), sj_number_i64 = sint, sj_number_u64 = uint, sj_number_f64 = (\<lambda>_. None)\<rparr>"

definition demo_document :: "string \<Rightarrow> int json" where
  "demo_document datatype =
     JObject [(''osf'', JObject [(''channels'', JArray [JObject
       [(''channeltype'', JString ''scalar''), (''datatype'', JString datatype), (''index'', JNumber 3),
        (''name'', JString ''t''), (''sizeoflengthvalue'', JNumber 2)]])])]"

lemma demo_document_parsed:
  "parse_metablock_json (demo_serde (Some (demo_document ''double''))) [] =
     Inr \<lparr>mb_file_info = file_info_default\<lparr>fi_version := 5\<rparr>,
          mb_channels = [\<lparr>mc_index = 3, mc_name = ''t'', mc_reference = None, mc_channel_type = CtScalar,
            mc_data_type = DtDouble, mc_time_increment_ns = None, mc_size_of_length_value = 2,
            mc_mime_type = None, mc_spectrum_type = None, mc_physical_unit = None,
            mc_physical_dimension = None, mc_display_name = None, mc_comment = None\<rparr>], mb_infos = []\<rparr>"
  by (simp add: parse_metablock_json_def demo_serde_def demo_document_def as_object_def get_as_def
        parse_file_info_def parse_channels_def parse_infos_def parse_channel_def as_i64_def as_u64_def
        as_str_def parse_channel_type_def parse_data_type_def validate_size_of_length_value_def)

theorem metablock_json_validates_witness:
  "metablock_error (projl (parse_metablock_json (demo_serde (Some (demo_document ''pair''))) []))
   \<and> (\<exists>meta. parse_metablock_json (demo_serde (Some (demo_document ''double''))) [] = Inr meta
        \<and> fi_version (mb_file_info meta) = 5 \<and> length (mb_channels meta) = 1)"
proof -
  have "parse_metablock_json (demo_serde (Some (demo_document ''pair''))) []
      = Inl (RemovedInSpec2026_05_04 ''datatype'' ''pair'' (Some ''two or three separate double channels''))"
    by (simp add: parse_metablock_json_def demo_serde_def demo_document_def as_object_def get_as_def
          parse_file_info_def parse_channels_def parse_infos_def parse_channel_def as_i64_def as_u64_def
          as_str_def parse_channel_type_def parse_data_type_def)
  then show ?thesis
    using metablock_json_validates [of "demo_serde (Some (demo_document ''pair''))" "[]"]
      metablock_json_validates [of "demo_serde (Some (demo_document ''double''))" "[]"] demo_document_parsed
    by simp
qed

end
