(* ===== verification/Calendar.thy ===== *)
theory Calendar
  imports Text "HOL-Library.Signed_Division"
begin

text \<open>
  The \<open>created_utc\<close> formatter of \<open>writer.rs\<close>: Unix seconds to a civil date and time. The
  intermediate results stay far below the limits of \<open>i64\<close>, so they are integers here; the year
  is cut down to \<open>i32\<close> as in the code. The system clock is a parameter of the callers.
\<close>

section \<open>The code\<close>

text \<open>
  \<open>/\<close> truncates towards zero; from \<open>doe\<close> on all operands are non-negative, where \<open>div\<close> is the
  same.
\<close>

definition days_from_civil :: "int \<Rightarrow> int \<times> nat \<times> nat" where
  "days_from_civil days =
     (let z = days + 719468;
          era = (if 0 \<le> z then z else z - 146096) sdiv 146097;
          doe = z - era * 146097;
          yoe = (doe - doe div 1460 + doe div 36524 - doe div 146096) div 365;
          y = yoe + era * 400;
          doy = doe - (365 * yoe + yoe div 4 - yoe div 100);
          mp = (5 * doy + 2) div 153;
          d = nat (doy - (153 * mp + 2) div 5 + 1);
          m = nat (if mp < 10 then mp + 3 else mp - 9);
          y' = (if m \<le> 2 then y + 1 else y)
      in (signed_take_bit 31 y', m, d))"

text \<open>\<open>{y:04}\<close> of a signed number: the sign counts towards the width.\<close>

definition show_year :: "int \<Rightarrow> string" where
  "show_year y =
     (if y < 0 then CHR ''-'' # pad_left 3 (show_nat (nat (- y))) else pad_left 4 (show_nat (nat y)))"

definition format_unix_seconds_utc :: "int \<Rightarrow> string" where
  "format_unix_seconds_utc secs =
     (let day = secs div 86400;
          tod = secs mod 86400;
          h = nat (tod div 3600);
          m = nat ((tod mod 3600) div 60);
          s = nat (tod mod 60);
          (y, mo, d) = days_from_civil day
      in show_year y @ ''-'' @ pad_left 2 (show_nat mo) @ ''-'' @ pad_left 2 (show_nat d) @ ''T''
         @ pad_left 2 (show_nat h) @ '':'' @ pad_left 2 (show_nat m) @ '':'' @ pad_left 2 (show_nat s) @ ''Z'')"

text \<open>\<open>format_utc_now\<close>: the distance to the epoch in whole seconds, and whether it lies before it.\<close>

definition format_utc_now :: "bool \<Rightarrow> nat \<Rightarrow> string" where
  "format_utc_now before secs = format_unix_seconds_utc (if before then - int secs else int secs)"

section \<open>The Gregorian calendar\<close>

definition leap_year :: "int \<Rightarrow> bool" where
  "leap_year y \<longleftrightarrow> y mod 4 = 0 \<and> (y mod 100 \<noteq> 0 \<or> y mod 400 = 0)"

definition month_length :: "int \<Rightarrow> nat \<Rightarrow> nat" where
  "month_length y m =
     (if m = 2 then (if leap_year y then 29 else 28)
      else if m \<in> {4, 6, 9, 11} then 30 else 31)"

fun next_day :: "int \<times> nat \<times> nat \<Rightarrow> int \<times> nat \<times> nat" where
  "next_day (y, m, d) =
     (if d < month_length y m then (y, m, d + 1)
      else if m < 12 then (y, m + 1, 1)
      else (y + 1, 1, 1))"

section \<open>Years of an era\<close>

text \<open>
  A day of a 400-year era: \<open>c\<close> centuries, \<open>q\<close> four-year cycles, \<open>r\<close> years and \<open>doy\<close> days, counted
  from the first of March.
\<close>

definition era_day :: "int \<Rightarrow> int \<Rightarrow> int \<Rightarrow> int \<Rightarrow> int" where
  "era_day c q r doy = 36524 * c + 1461 * q + 365 * r + doy"

definition long_year :: "int \<Rightarrow> int \<Rightarrow> int \<Rightarrow> bool" where
  "long_year c q r \<longleftrightarrow> r = 3 \<and> (q < 24 \<or> c = 3)"

definition era_ok :: "int \<Rightarrow> int \<Rightarrow> int \<Rightarrow> int \<Rightarrow> bool" where
  "era_ok c q r doy \<longleftrightarrow>
     0 \<le> c \<and> c \<le> 3 \<and> 0 \<le> q \<and> q \<le> 24 \<and> 0 \<le> r \<and> r \<le> 3 \<and> 0 \<le> doy
     \<and> (doy \<le> 364 \<or> doy = 365 \<and> long_year c q r)"

lemma era_ok_exists:
  assumes "0 \<le> doe" "doe < 146097"
  obtains c q r doy where "doe = era_day c q r doy" "era_ok c q r doy"
proof -
  define c where "c = min 3 (doe div 36524)"
  define p where "p = doe - 36524 * c"
  have c: "0 \<le> c" "c \<le> 3" "0 \<le> p" "p \<le> 36524" "c < 3 \<Longrightarrow> p \<le> 36523"
    using assms by (auto simp: c_def p_def min_def)
  define q where "q = p div 1461"
  define p' where "p' = p - 1461 * q"
  have q: "0 \<le> q" "q \<le> 24" "0 \<le> p'" "p' \<le> 1460" using c(3,4) by (auto simp: q_def p'_def)
  define r where "r = min 3 (p' div 365)"
  have r: "0 \<le> r" "r \<le> 3" "0 \<le> p' - 365 * r" "p' - 365 * r \<le> 365" "p' - 365 * r = 365 \<Longrightarrow> r = 3 \<and> p' = 1460"
    using q(3,4) div_mult_mod_eq [of p' 365] pos_mod_bound [of 365 p'] pos_mod_sign [of 365 p']
    by (auto simp: r_def min_def split: if_splits)
  have "era_ok c q r (p' - 365 * r)"
    using c q r by (auto simp: era_ok_def long_year_def p'_def)
  moreover have "doe = era_day c q r (p' - 365 * r)" by (simp add: era_day_def p_def p'_def)
  ultimately show ?thesis using that by blast
qed

lemma yoe_of_era_day:
  assumes "era_ok c q r doy"
  defines "doe \<equiv> era_day c q r doy"
  shows "(doe - doe div 1460 + doe div 36524 - doe div 146096) div 365 = 100 * c + 4 * q + r"
    and "0 \<le> doe" "doe < 146097"
    and "doe - (365 * (100 * c + 4 * q + r) + (100 * c + 4 * q + r) div 4 - (100 * c + 4 * q + r) div 100) = doy"
proof -
  let ?k = "100 * c + 4 * q + r" and ?R = "24 * c + q + 365 * r + doy"
  have b: "0 \<le> c" "c \<le> 3" "0 \<le> q" "q \<le> 24" "0 \<le> r" "r \<le> 3" "0 \<le> doy" "doy \<le> 365"
    "doy = 365 \<Longrightarrow> r = 3 \<and> (q < 24 \<or> c = 3)"
    using assms(1) by (auto simp: era_ok_def long_year_def)
  show "0 \<le> doe" "doe < 146097" using b by (auto simp: doe_def era_day_def)
  have cent: "doe div 36524 - doe div 146096 = c"
  proof (cases "doe = 146096")
    case True
    then show ?thesis using b by (auto simp: doe_def era_day_def)
  next
    case False
    have "1461 * q + 365 * r + doy < 36524"
    proof (rule ccontr)
      assume "\<not> 1461 * q + 365 * r + doy < 36524"
      then have "q = 24" "r = 3" "doy = 365" using b by linarith+
      then show False using b False by (auto simp: doe_def era_day_def)
    qed
    then have "doe div 36524 = c" using b
      by (intro int_div_pos_eq [of _ _ _ "1461 * q + 365 * r + doy"]) (simp_all add: doe_def era_day_def)
    moreover have "doe div 146096 = 0"
      using b False \<open>1461 * q + 365 * r + doy < 36524\<close>
      by (intro div_pos_pos_trivial) (simp_all add: doe_def era_day_def)
    ultimately show ?thesis by simp
  qed
  have four: "doe div 1460 = 25 * c + q + (if 1460 \<le> ?R then 1 else 0)"
    using b by (intro int_div_pos_eq [of _ _ _ "?R - (if 1460 \<le> ?R then 1460 else 0)"])
      (auto simp: doe_def era_day_def)
  have "365 * ?k \<le> doe - doe div 1460 + c \<and> doe - doe div 1460 + c < 365 * (?k + 1)"
    unfolding four using b by (cases "doy = 365") (auto simp: doe_def era_day_def)
  then have "(doe - doe div 1460 + c) div 365 = ?k"
    by (intro int_div_pos_eq [of _ _ _ "doe - doe div 1460 + c - 365 * ?k"]) auto
  then show "(doe - doe div 1460 + doe div 36524 - doe div 146096) div 365 = ?k" using cent by (simp add: algebra_simps)
  have "?k div 4 = 25 * c + q" using b by (intro int_div_pos_eq [of _ _ _ r]) auto
  moreover have "?k div 100 = c" using b by (intro int_div_pos_eq [of _ _ _ "4 * q + r"]) auto
  ultimately show "doe - (365 * ?k + ?k div 4 - ?k div 100) = doy" by (simp add: doe_def era_day_def)
qed

lemma leap_of_long_year:
  assumes "0 \<le> c" "c \<le> 3" "0 \<le> q" "q \<le> 24" "0 \<le> r" "r \<le> 3"
  shows "leap_year (400 * era + 100 * c + 4 * q + r + 1) \<longleftrightarrow> long_year c q r"
proof -
  let ?y = "400 * era + 100 * c + 4 * q + r + 1"
  have "?y = (r + 1) + 4 * (100 * era + 25 * c + q)" by simp
  then have y4: "?y mod 4 = (r + 1) mod 4" by (metis mod_mult_self2)
  show ?thesis
  proof (cases "r = 3")
    case False
    then have "(r + 1) mod 4 = r + 1" using assms by (intro mod_pos_pos_trivial) auto
    then show ?thesis using False assms y4 by (simp add: leap_year_def long_year_def)
  next
    case True
    then have "?y = (4 * q + 4) + 100 * (4 * era + c)" by simp
    then have y100: "?y mod 100 = (4 * q + 4) mod 100" by (metis mod_mult_self2)
    show ?thesis
    proof (cases "q = 24")
      case False
      then have "(4 * q + 4) mod 100 = 4 * q + 4" using assms by (intro mod_pos_pos_trivial) auto
      then show ?thesis using True False assms y4 y100 by (simp add: leap_year_def long_year_def)
    next
      case q: True
      then have "?y = (100 * c + 100) + 400 * era" using True by simp
      then have y400: "?y mod 400 = (100 * c + 100) mod 400" by (metis mod_mult_self2)
      have "(100 * c + 100) mod 400 = (if c = 3 then 0 else 100 * c + 100)"
        using assms(1,2) by (auto intro: mod_pos_pos_trivial)
      then show ?thesis using True q assms y4 y100 y400 by (simp add: leap_year_def long_year_def)
    qed
  qed
qed

section \<open>Days of a year\<close>

definition march_date :: "int \<Rightarrow> int \<Rightarrow> int \<times> nat \<times> nat" where
  "march_date Y doy =
     (let mp = (5 * doy + 2) div 153;
          d = nat (doy - (153 * mp + 2) div 5 + 1);
          m = nat (if mp < 10 then mp + 3 else mp - 9)
      in (if m \<le> 2 then Y + 1 else Y, m, d))"

lemma mp_eq: "153 * k \<le> 5 * doy + 2 \<Longrightarrow> 5 * doy + 2 < 153 * (k + 1) \<Longrightarrow> (5 * doy + 2) div 153 = (k :: int)"
  by (intro int_div_pos_eq [of _ _ _ "5 * doy + 2 - 153 * k"]) auto

text \<open>Month \<open>k\<close> of the March-based year starts at day \<open>march_start k\<close>.\<close>

definition march_start :: "int \<Rightarrow> int" where
  "march_start k = (153 * k + 2) div 5"

definition march_month :: "int \<Rightarrow> nat" where
  "march_month k = nat (if k < 10 then k + 3 else k - 9)"

lemma march_date_in_month:
  assumes "march_start k \<le> doy" "doy < march_start (k + 1)"
  shows "march_date Y doy = (if march_month k \<le> 2 then Y + 1 else Y, march_month k, nat (doy - march_start k + 1))"
proof -
  have "153 * k \<le> 5 * doy + 2" "5 * doy + 2 < 153 * (k + 1)"
    using assms by (simp_all add: march_start_def)
  from mp_eq [OF this] show ?thesis by (simp add: march_date_def march_start_def march_month_def Let_def)
qed

lemma months_of_year: "0 \<le> k \<Longrightarrow> k \<le> 11 \<Longrightarrow> k \<in> {0, 1, 2, 3, 4, 5, 6, 7, 8, 9, 10, 11 :: int}"
  by (simp, presburger)

lemma march_month_facts:
  assumes "0 \<le> k" "k \<le> 10"
  shows "int (month_length y (march_month k)) = march_start (k + 1) - march_start k"
    and "march_month k < 12 \<longleftrightarrow> k \<noteq> 9"
    and "march_month (k + 1) = (if k = 9 then 1 else march_month k + 1)"
    and "march_month k \<le> 2 \<longleftrightarrow> k = 10"
  using months_of_year [of k] assms by (auto simp: month_length_def march_month_def march_start_def)

lemma march_month_exists:
  assumes "0 \<le> doy" "doy \<le> 365"
  obtains k where "0 \<le> k" "k \<le> 11" "march_start k \<le> doy" "doy < march_start (k + 1)"
proof -
  obtain k m where k: "5 * doy + 2 = 153 * k + m" "0 \<le> m" "m < 153"
    by (rule that [of "(5 * doy + 2) div 153" "(5 * doy + 2) mod 153"]) simp_all
  have b: "0 \<le> k" "k \<le> 11" "153 * k \<le> 5 * doy + 2" using k assms by linarith+
  have b4: "5 * doy + 2 < 153 * (k + 1)" unfolding k(1) using k(3) by simp
  have "march_start k \<le> doy" using b(3) by (simp add: march_start_def)
  moreover have "doy < march_start (k + 1)" using b4 unfolding march_start_def by linarith
  ultimately show ?thesis using b(1,2) that by blast
qed

lemma march_next:
  assumes "0 \<le> doy" and "doy \<le> 363 \<or> doy = 364 \<and> leap_year (Y + 1)"
  shows "march_date Y (doy + 1) = next_day (march_date Y doy)"
proof -
  obtain k where k: "0 \<le> k" "k \<le> 11" "march_start k \<le> doy" "doy < march_start (k + 1)"
  proof -
    have "doy \<le> 365" using assms(2) by auto
    from march_month_exists [OF assms(1) this] show ?thesis using that by blast
  qed
  note now = march_date_in_month [OF k(3,4), of Y]
  show ?thesis
  proof (cases "k = 11")
    case True
    then have "march_date Y (doy + 1) = (Y + 1, 2, nat (doy - march_start 11 + 2))"
      using march_date_in_month [of 11 "doy + 1" Y] k assms by (auto simp: march_start_def march_month_def)
    then show ?thesis
      using now True k assms by (auto simp: march_start_def march_month_def month_length_def nat_add_distrib)
  next
    case False
    then have k10: "0 \<le> k" "k \<le> 10" using k by auto
    note facts = march_month_facts [OF k10]
    show ?thesis
    proof (cases "doy + 1 < march_start (k + 1)")
      case True
      then show ?thesis
        using now march_date_in_month [of k "doy + 1" Y] k facts(1) [of "if march_month k \<le> 2 then Y + 1 else Y"]
        by (auto simp: nat_add_distrib)
    next
      case False
      then have "doy + 1 = march_start (k + 1)" using k by simp
      moreover have "march_start (k + 1) < march_start (k + 1 + 1)" by (simp add: march_start_def)
      ultimately have "march_date Y (doy + 1)
          = (if march_month (k + 1) \<le> 2 then Y + 1 else Y, march_month (k + 1), 1)"
        using march_date_in_month [of "k + 1" "doy + 1" Y] by simp
      moreover have "nat (doy - march_start k + 1) = month_length (if march_month k \<le> 2 then Y + 1 else Y) (march_month k)"
        using facts(1) [of "if march_month k \<le> 2 then Y + 1 else Y"] \<open>doy + 1 = march_start (k + 1)\<close> by simp
      ultimately show ?thesis using now facts(2-4) march_month_facts(4) [of "k + 1"] k10
        by (auto simp: march_month_def split: if_splits)
    qed
  qed
qed

lemma march_last:
  "march_date (Y + 1) 0 = next_day (march_date Y (if leap_year (Y + 1) then 365 else 364))"
  using march_date_in_month [of 0 0 "Y + 1"] march_date_in_month [of 11 364 Y] march_date_in_month [of 11 365 Y]
  by (simp add: march_start_def march_month_def month_length_def)

section \<open>Correctness\<close>

lemma era_quotient:
  assumes "0 \<le> doe" "doe < 146097"
  shows "(let z = 146097 * era + doe in (if 0 \<le> z then z else z - 146096) sdiv 146097) = (era :: int)"
proof (cases "0 \<le> era")
  case True
  then have "(146097 * era + doe) div 146097 = era" using assms by (intro int_div_pos_eq) auto
  then show ?thesis using True assms by (simp add: signed_divide_int_def sgn_if Let_def)
next
  case False
  then have neg: "146097 * era + doe < 0" using assms by linarith
  have "(146096 - (146097 * era + doe)) div 146097 = - era"
    using assms by (intro int_div_pos_eq [of _ _ _ "146096 - doe"]) auto
  then show ?thesis using neg assms by (simp add: signed_divide_int_def sgn_if Let_def)
qed

lemma days_from_civil_steps:
  assumes "z = days + 719468" and "(if 0 \<le> z then z else z - 146096) sdiv 146097 = era"
    and "doe = z - era * 146097"
    and "(doe - doe div 1460 + doe div 36524 - doe div 146096) div 365 = k"
    and "doe - (365 * k + k div 4 - k div 100) = doy" and "y = k + era * 400"
    and "signed_take_bit 31 y = y" "signed_take_bit 31 (y + 1) = y + 1"
  shows "days_from_civil days = march_date y doy"
  unfolding days_from_civil_def march_date_def Let_def assms(1) [symmetric] assms(2) assms(3) [symmetric]
    assms(4,5) assms(6) [symmetric] if_distrib [of "signed_take_bit 31"] assms(7,8) ..

lemma days_from_civil_era:
  assumes ok: "era_ok c q r doy" and y: "\<bar>era\<bar> \<le> 5368000"
  shows "days_from_civil (146097 * era + era_day c q r doy - 719468)
       = march_date (400 * era + 100 * c + 4 * q + r) doy"
proof -
  note yoe = yoe_of_era_day [OF ok]
  have b: "0 \<le> c" "c \<le> 3" "0 \<le> q" "q \<le> 24" "0 \<le> r" "r \<le> 3" using ok by (auto simp: era_ok_def)
  show ?thesis
    by (rule days_from_civil_steps [OF _ era_quotient [OF yoe(2,3), unfolded Let_def] _ yoe(1,4)])
       (use y b in \<open>auto intro!: signed_take_bit_int_eq_self\<close>)
qed

lemma civil_epoch: "days_from_civil 0 = (1970, 1, 1)"
  by code_simp

lemma civil_next_day:
  assumes "\<bar>days\<bar> \<le> 780000000000"
  shows "days_from_civil (days + 1) = next_day (days_from_civil days)"
proof -
  let ?z = "days + 719468"
  define era where "era = ?z div 146097"
  define doe where "doe = ?z mod 146097"
  have z: "days = 146097 * era + doe - 719468" by (simp add: era_def doe_def)
  have doe: "0 \<le> doe" "doe < 146097" by (simp_all add: doe_def)
  have era: "\<bar>era\<bar> \<le> 5367000" "\<bar>era + 1\<bar> \<le> 5367001" using assms z doe by linarith+
  obtain c q r doy where d: "doe = era_day c q r doy" and ok: "era_ok c q r doy"
    using era_ok_exists [OF doe] .
  have b: "0 \<le> c" "c \<le> 3" "0 \<le> q" "q \<le> 24" "0 \<le> r" "r \<le> 3" "0 \<le> doy" "doy \<le> 365"
    "doy = 365 \<Longrightarrow> long_year c q r"
    using ok by (auto simp: era_ok_def)
  let ?Y = "400 * era + 100 * c + 4 * q + r"
  have leap: "leap_year (?Y + 1) \<longleftrightarrow> long_year c q r" by (rule leap_of_long_year [OF b(1-6)])
  have now: "days_from_civil days = march_date ?Y doy"
    using days_from_civil_era [OF ok, of era] era(1) unfolding z d by simp
  have on: "days_from_civil (146097 * e + era_day c' q' r' doy' - 719468) = march_date (400 * e + 100 * c' + 4 * q' + r') doy'"
    if "era_ok c' q' r' doy'" "\<bar>e\<bar> \<le> 5367001" for e c' q' r' doy'
    using days_from_civil_era [OF that(1), of e] that(2) by simp
  show "days_from_civil (days + 1) = next_day (days_from_civil days)"
  proof (cases "doy \<le> 363 \<or> doy = 364 \<and> long_year c q r")
    case True
    then have "era_ok c q r (doy + 1)" using ok by (auto simp: era_ok_def)
    from on [OF this, of era] era(1) have "days_from_civil (days + 1) = march_date ?Y (doy + 1)"
      by (simp add: z d era_day_def algebra_simps)
    then show ?thesis using march_next [OF b(7), of ?Y] True leap now by simp
  next
    case False
    then have "doy = 364 \<or> doy = 365" using b(8) by arith
    then have last: "doy = (if leap_year (?Y + 1) then 365 else 364)" using False b(9) leap by auto
    have "days_from_civil (days + 1) = march_date (?Y + 1) 0"
    proof (cases "r < 3")
      case True
      then have "doy = 364" using last leap by (simp add: long_year_def)
      moreover have "era_ok c q (r + 1) 0" using b True by (simp add: era_ok_def)
      ultimately show ?thesis using on [of c q "r + 1" 0 era] era(1) by (simp add: z d era_day_def algebra_simps)
    next
      case r: False
      show ?thesis
      proof (cases "q < 24")
        case True
        then have "doy = 365" using last leap r b by (simp add: long_year_def)
        moreover have "era_ok c (q + 1) 0 0" using b True by (simp add: era_ok_def)
        ultimately show ?thesis using on [of c "q + 1" 0 0 era] era(1) r b by (simp add: z d era_day_def algebra_simps)
      next
        case q: False
        show ?thesis
        proof (cases "c < 3")
          case True
          then have "doy = 364" using last leap q b by (simp add: long_year_def)
          moreover have "era_ok (c + 1) 0 0 0" using b True by (simp add: era_ok_def)
          ultimately show ?thesis using on [of "c + 1" 0 0 0 era] era(1) r q b by (simp add: z d era_day_def algebra_simps)
        next
          case False
          then have "doy = 365" using last leap r b by (simp add: long_year_def)
          then show ?thesis using on [of 0 0 0 0 "era + 1"] era(2) r q False b
            by (simp add: z d era_day_def era_ok_def algebra_simps)
        qed
      qed
    qed
    then show ?thesis using march_last [of ?Y] last now by simp
  qed
qed

text \<open>
  The date algorithm is the Gregorian calendar: day 0 is 1970-01-01, and over two billion years
  around it each day's date is the calendar successor of the day before, with the leap years of
  the Gregorian rule.
\<close>

theorem civil_dates_follow_calendar:
  assumes "\<bar>days\<bar> \<le> 780000000000"
  shows "days_from_civil 0 = (1970, 1, 1) \<and> days_from_civil (days + 1) = next_day (days_from_civil days)"
  using civil_epoch civil_next_day [OF assms] ..

theorem civil_dates_follow_calendar_witness:
  "days_from_civil 19782 = (2024, 2, 29) \<and> days_from_civil (19782 + 1) = (2024, 3, 1)"
proof -
  have d: "days_from_civil 19782 = (2024, 2, 29)"
    by code_simp
  show ?thesis
    using civil_dates_follow_calendar [of 19782] d by (simp add: month_length_def leap_year_def)
qed

end
