(* ===== verification/MetaWrite.thy ===== *)
theory MetaWrite
  imports MetaJson WriterLaws Calendar
begin

text \<open>
  The OSF5 metablock the writer emits: \<open>build_metablock_json\<close> and \<open>channel_def_to_json\<close> of
  \<open>writer.rs\<close>, and the round trip through \<open>parse_metablock_json\<close>. The creation time is an
  argument: it is \<open>format_utc_now\<close> of the system clock.
\<close>

section \<open>The document\<close>

definition DEFAULT_CREATOR :: string where
  "DEFAULT_CREATOR = ''osf-core/0.0.1''"

definition DEFAULT_TAG :: string where
  "DEFAULT_TAG = ''default''"

definition text_field :: "string option \<Rightarrow> 'n json option" where
  "text_field s = map_option JString s"

definition channel_fields :: "'n serde_json \<Rightarrow> u16 \<Rightarrow> channel_def \<Rightarrow> (string \<times> 'n json option) list" where
  "channel_fields sj index def =
       [(''index'', Some (JNumber (sj_number_u64 sj (ucast index)))),
        (''name'', Some (JString (cd_name def))),
        (''channeltype'', Some (JString (channel_type_to_wire (cd_channel_type def)))),
        (''datatype'', Some (JString (data_type_to_wire (cd_data_type def)))),
        (''sizeoflengthvalue'', Some (JNumber (sj_number_u64 sj (ucast (cd_size_of_length_value def))))),
        (''timeincrement'', map_option (JNumber \<circ> sj_number_i64 sj) (cd_time_increment_ns def)),
        (''physicalunit'', text_field (cd_physical_unit def)),
        (''physicaldimension'', text_field (cd_physical_dimension def)),
        (''displayname'', text_field (cd_display_name def)),
        (''mimetype'', text_field (cd_mime_type def)),
        (''reference'', text_field (cd_reference def)),
        (''comment'', text_field (cd_comment def)),
        (''spectrumtype'', map_option (JString \<circ> spectrum_type_to_wire) (cd_spectrum_type def))]"

definition channel_def_to_json :: "'n serde_json \<Rightarrow> u16 \<Rightarrow> channel_def \<Rightarrow> 'n json" where
  "channel_def_to_json sj index def = JObject (insert_fields (channel_fields sj index def) [])"

definition file_fields ::
  "'n serde_json \<Rightarrow> string \<Rightarrow> file_info_draft \<Rightarrow> (string \<times> 'n json option) list"
where
  "file_fields sj now info =
       [(''created_utc'', Some (JString now)),
        (''creator'', Some (JString (case fd_creator info of Some s \<Rightarrow> s | None \<Rightarrow> DEFAULT_CREATOR))),
        (''tag'', Some (JString (case fd_tag info of Some s \<Rightarrow> s | None \<Rightarrow> DEFAULT_TAG))),
        (''reason'', text_field (fd_reason info)),
        (''namespacesep'', text_field (fd_namespace_sep info)),
        (''comment'', text_field (fd_comment info)),
        (''created_at_latitude'', map_option (json_f64 sj) (fd_created_at_latitude info)),
        (''created_at_longitude'', map_option (json_f64 sj) (fd_created_at_longitude info)),
        (''created_at_altitude'', map_option (json_f64 sj) (fd_created_at_altitude info))]"

definition metablock_document ::
  "'n serde_json \<Rightarrow> string \<Rightarrow> file_info_draft \<Rightarrow> channel_def list \<Rightarrow> 'n json"
where
  "metablock_document sj now info defs =
     JObject [(''osf'', JObject (insert_fields
       [(''format'', Some (JString ''osf5'')),
        (''version'', Some (JNumber (sj_number_i64 sj 5))),
        (''file'', Some (JObject (insert_fields (file_fields sj now info) []))),
        (''channels'', Some (JArray (map (\<lambda>(i, def). channel_def_to_json sj (of_nat i) def)
                                       (List.enumerate 0 defs))))] []))]"

definition build_metablock_json ::
  "'n serde_json \<Rightarrow> string \<Rightarrow> file_info_draft \<Rightarrow> channel_def list \<Rightarrow> osf_error + byte list"
where
  "build_metablock_json sj now info defs =
     ok_or JsonError (sj_to_vec_pretty sj (metablock_document sj now info defs))"

section \<open>What the round trip asks of serde_json\<close>

text \<open>
  Integers are held exactly. A document that was printed is parsed to one of the same shape, with
  the same strings and keys and with numbers that have the same integer values; floats may differ
  in the last digit, which \<open>serde_json\<close> promises only with its feature \<open>float_roundtrip\<close>.
\<close>

definition exact_integers :: "'n serde_json \<Rightarrow> bool" where
  "exact_integers sj \<longleftrightarrow>
     (\<forall>n. sj_as_u64 sj (sj_number_u64 sj n) = Some n)
     \<and> (\<forall>n. unat n < 2 ^ 63 \<longrightarrow> sj_as_i64 sj (sj_number_u64 sj n) = Some n)
     \<and> (\<forall>k. sj_as_i64 sj (sj_number_i64 sj k) = Some k)"

definition same_integers :: "'n serde_json \<Rightarrow> 'n \<Rightarrow> 'n \<Rightarrow> bool" where
  "same_integers sj n m \<longleftrightarrow> sj_as_i64 sj n = sj_as_i64 sj m \<and> sj_as_u64 sj n = sj_as_u64 sj m"

definition prints_faithfully :: "'n serde_json \<Rightarrow> 'n json \<Rightarrow> bool" where
  "prints_faithfully sj doc \<longleftrightarrow>
     (\<exists>bytes doc'. sj_to_vec_pretty sj doc = Some bytes \<and> sj_from_slice sj bytes = Some doc'
        \<and> length bytes < 2 ^ 63 \<and> rel_json (same_integers sj) doc doc')"

section \<open>Documents of the same shape\<close>

lemma rel_json_cases [simp]:
  "rel_json R (JString s) v \<longleftrightarrow> v = JString s"
  "rel_json R JNull v \<longleftrightarrow> v = JNull"
  "rel_json R (JNumber n) v \<longleftrightarrow> (\<exists>m. v = JNumber m \<and> R n m)"
  "rel_json R (JArray xs) v \<longleftrightarrow> (\<exists>ys. v = JArray ys \<and> list_all2 (rel_json R) xs ys)"
  "rel_json R (JObject o1) v \<longleftrightarrow> (\<exists>o2. v = JObject o2 \<and> list_all2 (rel_prod (=) (rel_json R)) o1 o2)"
  by (cases v; auto)+

lemma map_of_related:
  "list_all2 (rel_prod (=) R) m m' \<Longrightarrow> rel_option R (map_of m k) (map_of m' k)"
  by (induction m m' rule: list_all2_induct) auto

text \<open>A field of an object that was printed.\<close>

lemma printed_field:
  assumes "list_all2 (rel_prod (=) R) (insert_fields fs []) obj" and "distinct (map fst fs)"
  shows "rel_option R (Option.bind (map_of fs k) id) (map_of obj k)"
  using map_of_related [OF assms(1), of k] by (simp add: map_of_insert_fields [OF assms(2)])

lemma rel_option_Some_left: "rel_option R (Some x) y \<longleftrightarrow> (\<exists>z. y = Some z \<and> R x z)"
  by (cases y) auto

lemma rel_option_None_left: "rel_option R None y \<longleftrightarrow> y = None"
  by (cases y) auto

lemma printed_text:
  "rel_option (rel_json R) (text_field s) v \<Longrightarrow>
     Option.bind v (value_to_string sj) = s"
  by (cases s) (auto simp: text_field_def value_to_string_def rel_option_Some_left rel_option_None_left)

lemma printed_string:
  "rel_option (rel_json R) (Some (JString s)) v \<Longrightarrow> v = Some (JString s)"
  by (auto simp: rel_option_Some_left)

lemma printed_u64:
  assumes "rel_option (rel_json (same_integers sj)) (Some (JNumber (sj_number_u64 sj n))) v"
    and "exact_integers sj"
  shows "Option.bind v (as_u64 sj) = Some n"
    and "unat n < 2 ^ 63 \<Longrightarrow> Option.bind v (as_i64 sj) = Some n"
  using assms
  by (auto simp: as_u64_def as_i64_def same_integers_def exact_integers_def rel_option_Some_left)

lemma printed_i64:
  assumes "rel_option (rel_json (same_integers sj)) (map_option (JNumber \<circ> sj_number_i64 sj) t) v"
    and "exact_integers sj"
  shows "Option.bind v (as_i64 sj) = t"
  using assms
  by (cases t)
     (auto simp: as_i64_def same_integers_def exact_integers_def rel_option_Some_left rel_option_None_left)

section \<open>Indices and widths as numbers\<close>

lemma unat_u16_le: "unat (i :: u16) \<le> 65535"
  using unsigned_less [of i, where ?'a = nat] by simp

lemma unat_ucast_16: "unat (ucast (i :: u16) :: u64) = unat i"
  using unat_u16_le [of i] by (simp add: unsigned_ucast_eq take_bit_nat_eq_self_iff) 

lemma sint_of_small: "unat (k :: i64) < 2 ^ 63 \<Longrightarrow> sint k = int (unat k)"
  proof -
  assume k: "unat k < 2 ^ 63"
  then have "int (unat k) < 2 ^ 63" by (simp only: of_nat_less_iff of_nat_power of_nat_numeral flip: of_nat_less_iff [where 'a = int])
  then have "uint k < 2 ^ 63" by simp
  moreover have "- (2 ^ 63) \<le> uint k" by (rule order_trans [of _ 0]) simp_all
  ultimately have "signed_take_bit 63 (uint k) = uint k"
    by (intro signed_take_bit_int_eq_self)
  then show ?thesis by (simp add: sint_uint)
qed

lemma sint_ucast_u16: "0 \<le> sint (ucast (i :: u16) :: i64)" "sint (ucast (i :: u16) :: i64) \<le> 65535"
proof -
  have "unat (ucast i :: i64) < 2 ^ 63" unfolding unat_ucast_16 using unat_u16_le [of i] by simp
  then have s: "sint (ucast i :: i64) = int (unat i)" by (simp only: sint_of_small unat_ucast_16)
  show "0 \<le> sint (ucast i :: i64)" unfolding s by (rule of_nat_0_le_iff)
  show "sint (ucast i :: i64) \<le> 65535" unfolding s using unat_u16_le [of i] by linarith
qed

lemma ucast_ucast_u16: "ucast (ucast (i :: u16) :: u64) = i"
  by (rule ucast_up_ucast_id) (simp add: is_up)

section \<open>Round trip\<close>

text \<open>The metablock's channel for a definition.\<close>

definition meta_channel_of :: "u16 \<Rightarrow> channel_def \<Rightarrow> meta_channel" where
  "meta_channel_of index def =
     \<lparr>mc_index = index, mc_name = cd_name def, mc_reference = cd_reference def,
      mc_channel_type = cd_channel_type def, mc_data_type = cd_data_type def,
      mc_time_increment_ns = cd_time_increment_ns def,
      mc_size_of_length_value = cd_size_of_length_value def, mc_mime_type = cd_mime_type def,
      mc_spectrum_type = cd_spectrum_type def, mc_physical_unit = cd_physical_unit def,
      mc_physical_dimension = cd_physical_dimension def, mc_display_name = cd_display_name def,
      mc_comment = cd_comment def\<rparr>"

lemma parse_printed_channel:
  fixes sj :: "'n serde_json"
  assumes "rel_json (same_integers sj) (channel_def_to_json sj index def) v"
    and exact: "exact_integers sj" and wf: "def_wf def"
  obtains obj where "v = JObject obj" "parse_channel sj obj = Inr (meta_channel_of index def)"
proof -
  let ?R = "rel_json (same_integers sj)"
  obtain obj where v: "v = JObject obj"
      and obj: "list_all2 (rel_prod (=) ?R) (insert_fields (channel_fields sj index def) []) obj"
    using assms(1) by (auto simp: channel_def_to_json_def)
  have field: "rel_option ?R (Option.bind (map_of (channel_fields sj index def) k) id) (map_of obj k)" for k
    by (rule printed_field [OF obj]) (simp add: channel_fields_def)
  have number: "rel_option ?R (Some (JNumber (sj_number_u64 sj (ucast index)))) (map_of obj ''index'')"
      "rel_option ?R (Some (JNumber (sj_number_u64 sj (ucast (cd_size_of_length_value def)))))
         (map_of obj ''sizeoflengthvalue'')"
    using field [of "''index''"] field [of "''sizeoflengthvalue''"] by (simp_all add: channel_fields_def)
  have strings: "get_as as_str obj ''name'' = Some (cd_name def)"
      "get_as as_str obj ''channeltype'' = Some (channel_type_to_wire (cd_channel_type def))"
      "get_as as_str obj ''datatype'' = Some (data_type_to_wire (cd_data_type def))"
    using field [of "''name''"] field [of "''channeltype''"] field [of "''datatype''"]
    by (auto simp: channel_fields_def rel_option_Some_left get_as_def as_str_def)
  have texts: "get_as (value_to_string sj) obj ''physicalunit'' = cd_physical_unit def"
      "get_as (value_to_string sj) obj ''physicaldimension'' = cd_physical_dimension def"
      "get_as (value_to_string sj) obj ''displayname'' = cd_display_name def"
      "get_as (value_to_string sj) obj ''mimetype'' = cd_mime_type def"
      "get_as (value_to_string sj) obj ''reference'' = cd_reference def"
      "get_as (value_to_string sj) obj ''comment'' = cd_comment def"
    unfolding get_as_def
    using field [of "''physicalunit''"] field [of "''physicaldimension''"] field [of "''displayname''"]
      field [of "''mimetype''"] field [of "''reference''"] field [of "''comment''"]
    by (auto simp: channel_fields_def intro!: printed_text)
  have increment: "get_as (as_i64 sj) obj ''timeincrement'' = cd_time_increment_ns def"
    unfolding get_as_def
    using field [of "''timeincrement''"] by (auto simp: channel_fields_def intro!: printed_i64 [OF _ exact])
  have spectrum: "map_option spectrum_from_wire (get_as as_str obj ''spectrumtype'') = cd_spectrum_type def"
    using field [of "''spectrumtype''"]
    by (cases "cd_spectrum_type def")
       (auto simp: channel_fields_def get_as_def as_str_def codec rel_option_Some_left rel_option_None_left)
  have small: "unat (ucast index :: u64) \<le> 65535" by (simp add: unat_ucast_16 unat_u16_le)
  have index: "get_as (as_i64 sj) obj ''index'' = Some (ucast index)"
    unfolding get_as_def using printed_u64(2) [OF number(1) exact] small by simp
  have width: "get_as (as_u64 sj) obj ''sizeoflengthvalue'' = Some (ucast (cd_size_of_length_value def))"
    unfolding get_as_def by (rule printed_u64(1) [OF number(2) exact])
  have size: "validate_size_of_length_value (ucast (ucast (cd_size_of_length_value def) :: u64))
      = Inr (cd_size_of_length_value def)" "unat (ucast (cd_size_of_length_value def) :: u64) < 2 ^ 32"
    using wf by (auto simp: def_wf_def validate_size_of_length_value_def)
  have "parse_channel sj obj = Inr (meta_channel_of index def)"
    using wf size
    by (simp add: parse_channel_def index width texts increment spectrum strings channel_type_wire_roundtrip data_type_wire_roundtrip def_wf_def meta_channel_of_def
          sint_ucast_u16 ucast_ucast_u16)
  with v show ?thesis by (rule that)
qed

lemma parse_printed_channels:
  assumes "list_all2 (rel_json (same_integers sj))
      (map (\<lambda>(i, def). channel_def_to_json sj (of_nat i) def) (List.enumerate n defs)) arr"
    and "exact_integers sj" and "\<forall>d \<in> set defs. def_wf d"
  shows "first_error (map (\<lambda>v. and_then (ok_or e (as_object v)) (parse_channel sj)) arr)
     = Inr (map (\<lambda>(i, def). meta_channel_of (of_nat i) def) (List.enumerate n defs))"
  using assms
proof (induction defs arbitrary: n arr)
  case Nil
  then show ?case by simp
next
  case (Cons d defs)
  obtain v arr' where arr: "arr = v # arr'" "rel_json (same_integers sj) (channel_def_to_json sj (of_nat n) d) v"
      "list_all2 (rel_json (same_integers sj))
         (map (\<lambda>(i, def). channel_def_to_json sj (of_nat i) def) (List.enumerate (Suc n) defs)) arr'"
    using Cons.prems(1) by (auto simp: list_all2_Cons1)
  have "def_wf d" using Cons.prems(3) by simp
  then obtain obj where "v = JObject obj" "parse_channel sj obj = Inr (meta_channel_of (of_nat n) d)"
    using parse_printed_channel [OF arr(2) Cons.prems(2)] by blast
  then show ?case using Cons.IH [OF arr(3) Cons.prems(2)] Cons.prems(3) arr(1)
    by (simp add: as_object_def)
qed

lemma parse_printed_file_info:
  assumes "list_all2 (rel_prod (=) (rel_json R)) (insert_fields (file_fields sj now info) []) obj"
    and "map_of osf ''file'' = Some (JObject obj)"
  obtains fi where "parse_file_info sj osf = Inr fi"
    "fi_created_utc fi = Some now"
    "fi_creator fi = Some (case fd_creator info of Some s \<Rightarrow> s | None \<Rightarrow> DEFAULT_CREATOR)"
    "fi_tag fi = Some (case fd_tag info of Some s \<Rightarrow> s | None \<Rightarrow> DEFAULT_TAG)"
    "fi_reason fi = fd_reason info" "fi_namespace_sep fi = fd_namespace_sep info"
    "fi_comment fi = fd_comment info"
    "fd_created_at_latitude info = None \<longrightarrow> fi_created_at_latitude fi = None"
    "fd_created_at_longitude info = None \<longrightarrow> fi_created_at_longitude fi = None"
    "fd_created_at_altitude info = None \<longrightarrow> fi_created_at_altitude fi = None"
proof -
  have field: "rel_option (rel_json R) (Option.bind (map_of (file_fields sj now info) k) id) (map_of obj k)" for k
    by (rule printed_field [OF assms(1)]) (simp add: file_fields_def)
  have given: "get_as (value_to_string sj) obj ''created_utc'' = Some now"
      "get_as (value_to_string sj) obj ''creator'' = Some (case fd_creator info of Some s \<Rightarrow> s | None \<Rightarrow> DEFAULT_CREATOR)"
      "get_as (value_to_string sj) obj ''tag'' = Some (case fd_tag info of Some s \<Rightarrow> s | None \<Rightarrow> DEFAULT_TAG)"
    using field [of "''created_utc''"] field [of "''creator''"] field [of "''tag''"]
    by (auto simp: file_fields_def get_as_def value_to_string_def rel_option_Some_left)
  have texts: "get_as (value_to_string sj) obj ''reason'' = fd_reason info"
      "get_as (value_to_string sj) obj ''namespacesep'' = fd_namespace_sep info"
      "get_as (value_to_string sj) obj ''comment'' = fd_comment info"
    unfolding get_as_def using field [of "''reason''"] field [of "''namespacesep''"] field [of "''comment''"]
    by (auto simp: file_fields_def intro!: printed_text)
  have absent: "map_of obj ''latitude'' = None" "map_of obj ''longitude'' = None" "map_of obj ''altitude'' = None"
    using field [of "''latitude''"] field [of "''longitude''"] field [of "''altitude''"]
    by (auto simp: file_fields_def rel_option_None_left)
  have position:
      "fd_created_at_latitude info = None \<Longrightarrow> location_field sj obj ''created_at_latitude'' ''latitude'' = None"
      "fd_created_at_longitude info = None \<Longrightarrow> location_field sj obj ''created_at_longitude'' ''longitude'' = None"
      "fd_created_at_altitude info = None \<Longrightarrow> location_field sj obj ''created_at_altitude'' ''altitude'' = None"
    using field [of "''created_at_latitude''"] field [of "''created_at_longitude''"] field [of "''created_at_altitude''"]
    by (auto simp: file_fields_def get_as_def location_field_def absent rel_option_None_left)
  let ?fi = "projr (parse_file_info sj osf)"
  show ?thesis by (rule that [of ?fi]) (simp_all add: parse_file_info_def assms(2) given texts position)
qed

lemma parse_printed_metablock:
  assumes exact: "exact_integers sj" and prints: "prints_faithfully sj (metablock_document sj now info defs)"
    and wf: "\<forall>d \<in> set defs. def_wf d"
  obtains bytes fi where "build_metablock_json sj now info defs = Inr bytes" "length bytes < 2 ^ 63"
    "parse_metablock_json sj bytes =
       Inr \<lparr>mb_file_info = fi\<lparr>fi_version := 5\<rparr>,
            mb_channels = map (\<lambda>(i, def). meta_channel_of (of_nat i) def) (List.enumerate 0 defs), mb_infos = []\<rparr>"
    "fi_created_utc fi = Some now"
    "fi_creator fi = Some (case fd_creator info of Some s \<Rightarrow> s | None \<Rightarrow> DEFAULT_CREATOR)"
    "fi_tag fi = Some (case fd_tag info of Some s \<Rightarrow> s | None \<Rightarrow> DEFAULT_TAG)"
    "fi_reason fi = fd_reason info" "fi_namespace_sep fi = fd_namespace_sep info"
    "fi_comment fi = fd_comment info"
    "fd_created_at_latitude info = None \<longrightarrow> fi_created_at_latitude fi = None"
    "fd_created_at_longitude info = None \<longrightarrow> fi_created_at_longitude fi = None"
    "fd_created_at_altitude info = None \<longrightarrow> fi_created_at_altitude fi = None"
proof -
  let ?R = "rel_json (same_integers sj)"
  let ?fields = "[(''format'', Some (JString ''osf5'')),
        (''version'', Some (JNumber (sj_number_i64 sj 5))),
        (''file'', Some (JObject (insert_fields (file_fields sj now info) []))),
        (''channels'', Some (JArray (map (\<lambda>(i, def). channel_def_to_json sj (of_nat i) def)
                                       (List.enumerate 0 defs))))]"
  obtain bytes osf where bytes: "sj_to_vec_pretty sj (metablock_document sj now info defs) = Some bytes"
      "sj_from_slice sj bytes = Some (JObject [(''osf'', JObject osf)])" "length bytes < 2 ^ 63"
      and osf: "list_all2 (rel_prod (=) ?R) (insert_fields ?fields []) osf"
    using prints unfolding prints_faithfully_def metablock_document_def
    by (auto simp: list_all2_Cons1 rel_prod_sel split: prod.splits simp del: insert_fields.simps)
  have field: "rel_option ?R (Option.bind (map_of ?fields k) id) (map_of osf k)" for k
    by (rule printed_field [OF osf]) simp
  obtain obj where obj: "map_of osf ''file'' = Some (JObject obj)"
      "list_all2 (rel_prod (=) ?R) (insert_fields (file_fields sj now info) []) obj"
    using field [of "''file''"] by (auto simp: rel_option_Some_left)
  obtain arr where arr: "map_of osf ''channels'' = Some (JArray arr)"
      "list_all2 ?R (map (\<lambda>(i, def). channel_def_to_json sj (of_nat i) def) (List.enumerate 0 defs)) arr"
    using field [of "''channels''"] by (auto simp: rel_option_Some_left)
  have infos: "map_of osf ''infos'' = None"
    using field [of "''infos''"] by (simp add: rel_option_None_left)
  obtain fi where fi: "parse_file_info sj osf = Inr fi"
    "fi_created_utc fi = Some now"
    "fi_creator fi = Some (case fd_creator info of Some s \<Rightarrow> s | None \<Rightarrow> DEFAULT_CREATOR)"
    "fi_tag fi = Some (case fd_tag info of Some s \<Rightarrow> s | None \<Rightarrow> DEFAULT_TAG)"
    "fi_reason fi = fd_reason info" "fi_namespace_sep fi = fd_namespace_sep info"
    "fi_comment fi = fd_comment info"
    and position: "fd_created_at_latitude info = None \<longrightarrow> fi_created_at_latitude fi = None"
    "fd_created_at_longitude info = None \<longrightarrow> fi_created_at_longitude fi = None"
    "fd_created_at_altitude info = None \<longrightarrow> fi_created_at_altitude fi = None"
    using parse_printed_file_info [OF obj(2,1)] .
  have "parse_channels sj osf = Inr (map (\<lambda>(i, def). meta_channel_of (of_nat i) def) (List.enumerate 0 defs))"
    unfolding parse_channels_def arr(1) using parse_printed_channels [OF arr(2) exact wf] by simp
  then have "parse_metablock_json sj bytes =
       Inr \<lparr>mb_file_info = fi\<lparr>fi_version := 5\<rparr>,
            mb_channels = map (\<lambda>(i, def). meta_channel_of (of_nat i) def) (List.enumerate 0 defs), mb_infos = []\<rparr>"
    using fi(1) infos
    by (simp add: parse_metablock_json_def bytes(2) as_object_def get_as_def parse_infos_def)
  moreover have "build_metablock_json sj now info defs = Inr bytes"
    by (simp add: build_metablock_json_def bytes(1))
  ultimately show ?thesis by (intro that [OF _ bytes(3) _ fi(2-) position])
qed

text \<open>
  File metadata read back: the creation time, the texts that were set, the defaults for a missing creator and
  tag, and no position that was not set. The digits of a position are up to the JSON library.
\<close>

definition info_kept :: "string \<Rightarrow> file_info_draft \<Rightarrow> file_info \<Rightarrow> bool" where
  "info_kept now info fi \<longleftrightarrow>
     fi_created_utc fi = Some now
     \<and> fi_creator fi = Some (case fd_creator info of Some s \<Rightarrow> s | None \<Rightarrow> DEFAULT_CREATOR)
     \<and> fi_tag fi = Some (case fd_tag info of Some s \<Rightarrow> s | None \<Rightarrow> DEFAULT_TAG)
     \<and> fi_reason fi = fd_reason info \<and> fi_namespace_sep fi = fd_namespace_sep info
     \<and> fi_comment fi = fd_comment info
     \<and> (fd_created_at_latitude info = None \<longrightarrow> fi_created_at_latitude fi = None)
     \<and> (fd_created_at_longitude info = None \<longrightarrow> fi_created_at_longitude fi = None)
     \<and> (fd_created_at_altitude info = None \<longrightarrow> fi_created_at_altitude fi = None)"

text \<open>
  C15. The metablock round-trips: what \<open>build_metablock_json\<close> prints for any file metadata and any
  list of channel definitions \<open>add_channel\<close> accepts, \<open>parse_metablock_json\<close> reads back as the
  same channels in the same order, with every attribute, position as index, no infos, version 5,
  the creation time, and the same texts, with the defaults for a missing creator and tag. It holds for
  every \<open>serde_json\<close> that keeps integers exact and parses the document it printed, up to the
  digits of floats.
\<close>

theorem metablock_roundtrip:
  assumes "exact_integers sj" and "prints_faithfully sj (metablock_document sj now info defs)"
    and "\<forall>d \<in> set defs. def_wf d"
  shows "\<exists>bytes meta. build_metablock_json sj now info defs = Inr bytes
     \<and> parse_metablock_json sj bytes = Inr meta
     \<and> mb_channels meta = map (\<lambda>(i, def). meta_channel_of (of_nat i) def) (List.enumerate 0 defs)
     \<and> mb_infos meta = []
     \<and> fi_version (mb_file_info meta) = 5
     \<and> fi_created_utc (mb_file_info meta) = Some now
     \<and> fi_creator (mb_file_info meta) = Some (case fd_creator info of Some s \<Rightarrow> s | None \<Rightarrow> DEFAULT_CREATOR)
     \<and> fi_tag (mb_file_info meta) = Some (case fd_tag info of Some s \<Rightarrow> s | None \<Rightarrow> DEFAULT_TAG)
     \<and> fi_reason (mb_file_info meta) = fd_reason info
     \<and> fi_namespace_sep (mb_file_info meta) = fd_namespace_sep info
     \<and> fi_comment (mb_file_info meta) = fd_comment info"
  by (rule parse_printed_metablock [OF assms]) simp

lemma demo_serde_exact: "exact_integers (demo_serde doc)"
proof -
  have "- (2 ^ 63) \<le> sint k \<and> sint k < 2 ^ 63" for k :: i64
    using sint_greater_eq [of k] sint_lt [of k] by simp
  moreover have "uint n < 2 ^ 63" if "unat n < 2 ^ 63" for n :: u64
  proof -
    have "int (unat n) < 2 ^ 63" using that by (simp only: flip: of_nat_less_iff [where 'a = int]) simp
    then show ?thesis by simp
  qed
  moreover have "- (2 ^ 63) \<le> uint n" for n :: u64
    by (rule order_trans [of _ 0]) simp_all
  moreover have "uint n < 2 ^ 64" for n :: u64
    using unsigned_less [of n, where ?'a = int] by simp
  ultimately show ?thesis by (simp add: exact_integers_def demo_serde_def)
qed

text \<open>The document uses only the number constructors of \<open>serde_json\<close>.\<close>

lemma demo_document_same:
  "metablock_document (demo_serde doc) now info defs = metablock_document (demo_serde None) now info defs"
proof -
  have "json_f64 (demo_serde d) = (\<lambda>_. JNull)" "sj_number_u64 (demo_serde d) = uint"
    "sj_number_i64 (demo_serde d) = sint" for d
    by (auto simp: json_f64_def demo_serde_def)
  then show ?thesis
    by (simp add: metablock_document_def file_fields_def channel_def_to_json_def channel_fields_def)
qed

lemma demo_serde_prints:
  "prints_faithfully (demo_serde (Some (metablock_document (demo_serde None) now info defs)))
     (metablock_document (demo_serde (Some (metablock_document (demo_serde None) now info defs))) now info defs)"
  unfolding demo_document_same [of "Some _"] prints_faithfully_def
  by (simp add: demo_serde_def json.rel_refl same_integers_def)

theorem metablock_roundtrip_witness:
  "\<exists>bytes meta. build_metablock_json
       (demo_serde (Some (metablock_document (demo_serde None) ''1970-01-01T00:00:00Z'' file_info_draft_default
          [channel_def_default\<lparr>cd_name := ''t'', cd_physical_unit := Some ''K''\<rparr>])))
       ''1970-01-01T00:00:00Z'' file_info_draft_default
       [channel_def_default\<lparr>cd_name := ''t'', cd_physical_unit := Some ''K''\<rparr>] = Inr bytes
     \<and> parse_metablock_json
         (demo_serde (Some (metablock_document (demo_serde None) ''1970-01-01T00:00:00Z'' file_info_draft_default
            [channel_def_default\<lparr>cd_name := ''t'', cd_physical_unit := Some ''K''\<rparr>]))) bytes = Inr meta
     \<and> map (\<lambda>c. (mc_index c, mc_name c, mc_physical_unit c)) (mb_channels meta) = [(0, ''t'', Some ''K'')]
     \<and> fi_tag (mb_file_info meta) = Some ''default''"
proof -
  let ?def = "channel_def_default\<lparr>cd_name := ''t'', cd_physical_unit := Some ''K''\<rparr>"
  let ?doc = "metablock_document (demo_serde None) ''1970-01-01T00:00:00Z'' file_info_draft_default [?def]"
  obtain bytes meta where
    "build_metablock_json (demo_serde (Some ?doc)) ''1970-01-01T00:00:00Z'' file_info_draft_default [?def] = Inr bytes"
    "parse_metablock_json (demo_serde (Some ?doc)) bytes = Inr meta"
    "mb_channels meta = map (\<lambda>(i, def). meta_channel_of (of_nat i) def) (List.enumerate 0 [?def])"
    "fi_tag (mb_file_info meta)
       = Some (case fd_tag file_info_draft_default of Some s \<Rightarrow> s | None \<Rightarrow> DEFAULT_TAG)"
    using metablock_roundtrip [OF demo_serde_exact demo_serde_prints,
        of "[?def]" "''1970-01-01T00:00:00Z''" file_info_draft_default]
    by (auto simp: def_wf_def channel_def_default_def)
  then show ?thesis
    by (intro exI [of _ bytes] exI [of _ meta])
       (simp add: meta_channel_of_def channel_def_default_def file_info_draft_default_def DEFAULT_TAG_def)
qed

end
