(* ===== verification/MetaXml.thy ===== *)
theory MetaXml
  imports Meta Float64 MetaJson
begin

text \<open>
  The OSF4 metablock: \<open>parse_metablock_xml\<close> and its helpers (\<open>meta_xml.rs\<close>). The code drives
  \<open>quick-xml\<close> event by event; that reader is a parameter, the results of \<open>read_event_into\<close> up to
  the end of the text. The conversions of the standard library (\<open>from_utf8_lossy\<close>, \<open>parse\<close> of
  signed numbers and of floats) are written out. Log output is left out.
\<close>

section \<open>Conversions of the standard library\<close>

text \<open>
  \<open>String::from_utf8_lossy\<close>: every maximal part of an invalid sequence becomes U+FFFD.
\<close>

definition replacement :: string where
  "replacement = string_of_bytes [0xEF, 0xBF, 0xBD]"

text \<open>How many bytes of the front form a character, or an ill-formed part to be replaced.\<close>

definition utf8_front :: "byte \<Rightarrow> byte list \<Rightarrow> bool \<times> nat" where
  "utf8_front b bs =
     (if b \<le> 0x7F then (True, 1)
      else if 0xC2 \<le> b \<and> b \<le> 0xDF then
        (case bs of c # _ \<Rightarrow> if utf8_cont c then (True, 2) else (False, 1) | [] \<Rightarrow> (False, 1))
      else if 0xE0 \<le> b \<and> b \<le> 0xEF then
        (case bs of
           c # cs \<Rightarrow>
             if \<not> utf8_second b c then (False, 1)
             else (case cs of d # _ \<Rightarrow> if utf8_cont d then (True, 3) else (False, 2) | [] \<Rightarrow> (False, 2))
         | [] \<Rightarrow> (False, 1))
      else if 0xF0 \<le> b \<and> b \<le> 0xF4 then
        (case bs of
           c # cs \<Rightarrow>
             if \<not> utf8_second b c then (False, 1)
             else (case cs of
                 d # ds \<Rightarrow>
                   if \<not> utf8_cont d then (False, 2)
                   else (case ds of e # _ \<Rightarrow> if utf8_cont e then (True, 4) else (False, 3) | [] \<Rightarrow> (False, 3))
               | [] \<Rightarrow> (False, 2))
         | [] \<Rightarrow> (False, 1))
      else (False, 1))"

lemma utf8_front_pos: "utf8_front b bs = (ok, n) \<Longrightarrow> 0 < n \<and> n \<le> Suc (length bs)"
  by (auto simp: utf8_front_def split: if_splits list.splits)

function from_utf8_lossy :: "byte list \<Rightarrow> string" where
  "from_utf8_lossy [] = []"
| "from_utf8_lossy (b # bs) =
     (let (ok, n) = utf8_front b bs
      in (if ok then string_of_bytes (take n (b # bs)) else replacement)
         @ from_utf8_lossy (drop n (b # bs)))"
  by pat_completeness auto
termination
proof (relation "measure length", simp)
  fix b :: byte and bs :: "byte list" and p :: "bool \<times> nat" and ok :: bool and n :: nat
  assume p: "p = utf8_front b bs" "(ok, n) = p"
  then have "0 < n" using utf8_front_pos [of b bs ok n] by simp
  then show "(drop n (b # bs), b # bs) \<in> measure length" by simp
qed

lemma utf8_valid_front:
  "utf8_valid (b # bs) \<longleftrightarrow>
     (case utf8_front b bs of (ok, n) \<Rightarrow> ok \<and> utf8_valid (drop n (b # bs)))"
  by (simp add: utf8_front_def split: list.split)

lemma from_utf8_lossy_valid:
  "utf8_valid bs \<Longrightarrow> from_utf8_lossy bs = string_of_bytes bs"
proof (induction bs rule: from_utf8_lossy.induct)
  case 1
  then show ?case by (simp add: string_of_bytes_def)
next
  case (2 b bs)
  obtain ok n where f: "utf8_front b bs = (ok, n)" by (cases "utf8_front b bs")
  have "ok" and v: "utf8_valid (drop n (b # bs))"
    using "2.prems" unfolding utf8_valid_front f by simp_all
  moreover have "from_utf8_lossy (drop n (b # bs)) = string_of_bytes (drop n (b # bs))"
    using "2.IH" [OF f [symmetric] refl v] .
  moreover have "string_of_bytes (take n (b # bs)) @ string_of_bytes (drop n (b # bs)) = string_of_bytes (b # bs)"
    unfolding string_of_bytes_def map_append [symmetric] by simp
  ultimately show ?case using f by simp
qed

lemma from_utf8_lossy_string [codec]: "rust_string s \<Longrightarrow> from_utf8_lossy (bytes_of_string s) = s"
  by (simp add: rust_string_def from_utf8_lossy_valid codec)

text \<open>\<open>s.parse::<i64>()\<close>: an optional sign, at least one digit, and no overflow.\<close>

definition parse_i64 :: "string \<Rightarrow> i64 option" where
  "parse_i64 s =
     (case s of
        c # ds \<Rightarrow>
          if c = CHR ''-''
          then (if ds \<noteq> [] \<and> (\<forall>d \<in> set ds. is_ascii_digit d) \<and> digits_value ds \<le> 2 ^ 63
                then Some (- of_nat (digits_value ds)) else None)
          else map_option of_nat (parse_unsigned (2 ^ 63) s)
      | [] \<Rightarrow> None)"

text \<open>
  \<open>s.parse::<f64>()\<close>: an optional sign, then \<open>inf\<close>, \<open>infinity\<close> or \<open>nan\<close> in any case, or digits
  with at most one point and an optional exponent; the decimal value is rounded to the nearest
  \<open>f64\<close>, ties to even.
\<close>

definition to_ascii_lower :: "char \<Rightarrow> char" where
  "to_ascii_lower c =
     (if (65::nat) \<le> of_char c \<and> (of_char c :: nat) \<le> 90 then char_of ((of_char c :: nat) + 32) else c)"

definition parse_exponent :: "string \<Rightarrow> int option" where
  "parse_exponent s =
     (let (neg, ds) = (case s of c # cs \<Rightarrow> if c = CHR ''-'' then (True, cs)
                                            else if c = CHR ''+'' then (False, cs) else (False, s)
                       | [] \<Rightarrow> (False, s))
      in if ds \<noteq> [] \<and> (\<forall>d \<in> set ds. is_ascii_digit d)
         then Some (if neg then - int (digits_value ds) else int (digits_value ds)) else None)"

definition f64_of_decimal :: "bool \<Rightarrow> nat \<Rightarrow> int \<Rightarrow> f64" where
  "f64_of_decimal neg m e =
     f64_make neg (round_bits (m * 10 ^ nat e * unit_scale) (10 ^ nat (- e)))"

definition parse_number :: "bool \<Rightarrow> string \<Rightarrow> f64 option" where
  "parse_number neg s =
     (let whole = takeWhile is_ascii_digit s;
          rest = dropWhile is_ascii_digit s;
          point = (rest \<noteq> [] \<and> hd rest = CHR ''.'');
          frac = (if point then takeWhile is_ascii_digit (tl rest) else []);
          rest' = (if point then dropWhile is_ascii_digit (tl rest) else rest)
      in if whole = [] \<and> frac = [] then None
         else (case (case rest' of [] \<Rightarrow> Some 0
                     | c # cs \<Rightarrow> if c = CHR ''e'' \<or> c = CHR ''E'' then parse_exponent cs else None) of
                 None \<Rightarrow> None
               | Some e \<Rightarrow> Some (f64_of_decimal neg (digits_value (whole @ frac)) (e - int (length frac)))))"

definition parse_f64 :: "string \<Rightarrow> f64 option" where
  "parse_f64 s =
     (let (neg, body) = (case s of c # cs \<Rightarrow> if c = CHR ''-'' then (True, cs)
                                              else if c = CHR ''+'' then (False, cs) else (False, s)
                         | [] \<Rightarrow> (False, s));
          low = map to_ascii_lower body
      in if low = ''inf'' \<or> low = ''infinity'' then Some (f64_make neg inf_bits)
         else if low = ''nan'' then Some (f64_make neg (unat f64_nan))
         else parse_number neg body)"

section \<open>Events\<close>

text \<open>
  What \<open>quick-xml\<close> delivers: an attribute is an error, or its key and its unescaped value if
  unescaping succeeds; \<open>XOther\<close> stands for CDATA, processing instructions, doctypes and
  references. The list of results ends where the reader reports the end of the text; \<open>None\<close> is
  a reader error.
\<close>

datatype xml_attr = AttrError | AttrAt "byte list" "string option"

datatype xml_event =
    XDecl | XComment | XText
  | XStart string "xml_attr list"
  | XEmpty string "xml_attr list"
  | XEnd string
  | XOther

type_synonym quick_xml = "string \<Rightarrow> xml_event option list"

datatype parse_state = TopLevel | InOptimeas | InChannels | InInfos

section \<open>Attributes\<close>

fun collect_attrs :: "xml_attr list \<Rightarrow> (string \<rightharpoonup> string) \<Rightarrow> osf_error + (string \<rightharpoonup> string)" where
  "collect_attrs [] out = Inr out"
| "collect_attrs (AttrError # attrs) out = Inl (XmlError ''attribute parse error'')"
| "collect_attrs (AttrAt key val # attrs) out =
     and_then (ok_or (XmlError ''attribute unescape error'') val) (\<lambda>v.
       collect_attrs attrs (out(from_utf8_lossy key \<mapsto> v)))"

definition parse_optional_f64 :: "(string \<rightharpoonup> string) \<Rightarrow> string \<Rightarrow> osf_error + f64 option" where
  "parse_optional_f64 attrs key =
     (case attrs key of
        None \<Rightarrow> Inr None
      | Some s \<Rightarrow> map_ok Some (ok_or (InvalidMetablock ''attribute is not a float'') (parse_f64 s)))"

definition parse_optional_i64 :: "(string \<rightharpoonup> string) \<Rightarrow> string \<Rightarrow> osf_error + i64 option" where
  "parse_optional_i64 attrs key =
     (case attrs key of
        None \<Rightarrow> Inr None
      | Some s \<Rightarrow> map_ok Some (ok_or (InvalidMetablock ''attribute is not an int'') (parse_i64 s)))"

definition short_location :: "(string \<rightharpoonup> string) \<Rightarrow> string \<Rightarrow> f64 option \<Rightarrow> osf_error + f64 option" where
  "short_location attrs short slot =
     (case slot of
        Some v \<Rightarrow> Inr (Some v)
      | None \<Rightarrow> parse_optional_f64 attrs short)"

definition parse_optimeas_attrs :: "xml_attr list \<Rightarrow> file_info \<Rightarrow> osf_error + file_info" where
  "parse_optimeas_attrs start info =
     and_then (collect_attrs start Map.empty) (\<lambda>attrs.
     and_then (parse_optional_f64 attrs ''created_at_latitude'') (\<lambda>lat.
     and_then (parse_optional_f64 attrs ''created_at_longitude'') (\<lambda>lon.
     and_then (parse_optional_f64 attrs ''created_at_altitude'') (\<lambda>alt.
     and_then (short_location attrs ''latitude'' lat) (\<lambda>lat'.
     and_then (short_location attrs ''longitude'' lon) (\<lambda>lon'.
     and_then (short_location attrs ''altitude'' alt) (\<lambda>alt'.
     Inr (info\<lparr>fi_created_utc := attrs ''created_utc'', fi_creator := attrs ''creator'',
               fi_tag := attrs ''tag'', fi_reason := attrs ''reason'', fi_comment := attrs ''comment'',
               fi_namespace_sep := attrs ''namespacesep'', fi_created_at_latitude := lat',
               fi_created_at_longitude := lon', fi_created_at_altitude := alt'\<rparr>))))))))"

definition parse_channel_attrs :: "xml_attr list \<Rightarrow> osf_error + meta_channel" where
  "parse_channel_attrs start =
     and_then (collect_attrs start Map.empty) (\<lambda>attrs.
     and_then (ok_or (InvalidMetablock ''OSF4 channel is missing required attribute index'')
                 (attrs ''index'')) (\<lambda>raw_index.
     and_then (ok_or (InvalidMetablock ''OSF4 channel index out of range'')
                 (parse_unsigned (2 ^ 16) raw_index)) (\<lambda>index.
     and_then (ok_or (InvalidMetablock ''OSF4 channel is missing required attribute name'')
                 (attrs ''name'')) (\<lambda>name.
     and_then (ok_or (InvalidMetablock ''OSF4 channel is missing required attribute channeltype'')
                 (attrs ''channeltype'')) (\<lambda>channel_type_raw.
     and_then (parse_channel_type channel_type_raw) (\<lambda>channel_type.
     and_then (ok_or (InvalidMetablock ''OSF4 channel is missing required attribute datatype'')
                 (attrs ''datatype'')) (\<lambda>data_type_raw.
     and_then (parse_data_type data_type_raw) (\<lambda>data_type.
     and_then (ok_or (InvalidMetablock ''OSF4 channel is missing required attribute sizeoflengthvalue'')
                 (attrs ''sizeoflengthvalue'')) (\<lambda>raw_size.
     and_then (ok_or (InvalidMetablock ''OSF4 channel sizeoflengthvalue not numeric'')
                 (parse_unsigned (2 ^ 32) raw_size)) (\<lambda>size_parsed.
     and_then (validate_size_of_length_value (of_nat size_parsed)) (\<lambda>size_of_length_value.
     and_then (parse_optional_i64 attrs ''timeincrement'') (\<lambda>time_increment_ns.
     Inr \<lparr>mc_index = of_nat index,
          mc_name = name,
          mc_reference = attrs ''reference'',
          mc_channel_type = channel_type,
          mc_data_type = data_type,
          mc_time_increment_ns = time_increment_ns,
          mc_size_of_length_value = size_of_length_value,
          mc_mime_type = attrs ''mimetype'',
          mc_spectrum_type = map_option spectrum_from_wire (attrs ''spectrumtype''),
          mc_physical_unit = attrs ''physicalunit'',
          mc_physical_dimension = attrs ''physicaldimension'',
          mc_display_name = attrs ''displayname'',
          mc_comment = attrs ''comment''\<rparr>))))))))))))"

definition parse_info_attrs :: "xml_attr list \<Rightarrow> osf_error + meta_info" where
  "parse_info_attrs start =
     and_then (collect_attrs start Map.empty) (\<lambda>attrs.
     and_then (ok_or (InvalidMetablock ''OSF4 info is missing name'') (attrs ''name'')) (\<lambda>name.
     and_then (parse_data_type (case attrs ''datatype'' of Some s \<Rightarrow> s | None \<Rightarrow> ''string'')) (\<lambda>data_type.
     Inr \<lparr>in_name = name, in_value = (case attrs ''value'' of Some v \<Rightarrow> v | None \<Rightarrow> []),
          in_data_type = data_type, in_physical_unit = attrs ''physicalunit''\<rparr>)))"

section \<open>The event loop\<close>

fun skip_to_end_named :: "string \<Rightarrow> xml_event option list \<Rightarrow> osf_error + xml_event option list" where
  "skip_to_end_named name [] = Inl (InvalidMetablock ''OSF4 unexpected EOF while skipping'')"
| "skip_to_end_named name (None # evs) = Inl (XmlError ''reader'')"
| "skip_to_end_named name (Some ev # evs) =
     (if ev = XEnd name then Inr evs else skip_to_end_named name evs)"

lemma skip_to_end_named_length:
  "skip_to_end_named name evs = Inr evs' \<Longrightarrow> length evs' < length evs"
  by (induction name evs rule: skip_to_end_named.induct) (auto split: if_splits)

definition enter_child :: "string \<Rightarrow> parse_state option" where
  "enter_child name =
     (if name = ''channels'' then Some InChannels else if name = ''infos'' then Some InInfos else None)"

definition add_xml_channel :: "string \<Rightarrow> xml_attr list \<Rightarrow> meta_block \<Rightarrow> osf_error + meta_block" where
  "add_xml_channel name start mb =
     (if name = ''channel''
      then map_ok (\<lambda>c. mb\<lparr>mb_channels := mb_channels mb @ [c]\<rparr>) (parse_channel_attrs start)
      else Inr mb)"

definition add_xml_info :: "string \<Rightarrow> xml_attr list \<Rightarrow> meta_block \<Rightarrow> osf_error + meta_block" where
  "add_xml_info name start mb =
     (if name = ''info''
      then map_ok (\<lambda>i. mb\<lparr>mb_infos := mb_infos mb @ [i]\<rparr>) (parse_info_attrs start)
      else Inr mb)"

definition leave_element :: "string \<Rightarrow> parse_state \<Rightarrow> parse_state" where
  "leave_element name st =
     (if name = ''channels'' \<or> name = ''infos'' then InOptimeas
      else if name = ''optimeas'' then TopLevel
      else st)"

function xml_loop :: "parse_state \<Rightarrow> meta_block \<Rightarrow> xml_event option list \<Rightarrow> osf_error + meta_block" where
  "xml_loop st mb [] = Inr mb"
| "xml_loop st mb (None # evs) = Inl (XmlError ''reader'')"
| "xml_loop st mb (Some ev # evs) =
     (case ev of
        XStart name start \<Rightarrow>
          (case st of
             TopLevel \<Rightarrow>
               if name = ''optimeas''
               then and_then (parse_optimeas_attrs start (mb_file_info mb)) (\<lambda>info.
                      xml_loop InOptimeas (mb\<lparr>mb_file_info := info\<rparr>) evs)
               else Inl (InvalidMetablock ''OSF4 root element must be optimeas'')
           | InOptimeas \<Rightarrow>
               (case enter_child name of
                  Some st' \<Rightarrow> xml_loop st' mb evs
                | None \<Rightarrow> and_then (skip_to_end_named name evs) (\<lambda>evs'. xml_loop st mb evs'))
           | InChannels \<Rightarrow> and_then (add_xml_channel name start mb) (\<lambda>mb'. xml_loop st mb' evs)
           | InInfos \<Rightarrow> and_then (add_xml_info name start mb) (\<lambda>mb'. xml_loop st mb' evs))
      | XEmpty name start \<Rightarrow>
          (case st of
             InChannels \<Rightarrow> and_then (add_xml_channel name start mb) (\<lambda>mb'. xml_loop st mb' evs)
           | InInfos \<Rightarrow> and_then (add_xml_info name start mb) (\<lambda>mb'. xml_loop st mb' evs)
           | _ \<Rightarrow> xml_loop st mb evs)
      | XEnd name \<Rightarrow> xml_loop (leave_element name st) mb evs
      | _ \<Rightarrow> xml_loop st mb evs)"
  by pat_completeness auto
termination
  by (relation "measure (\<lambda>(st, mb, evs). length evs)") (auto dest: skip_to_end_named_length)

definition meta_block_default :: meta_block where
  "meta_block_default = \<lparr>mb_file_info = file_info_default, mb_channels = [], mb_infos = []\<rparr>"

definition parse_metablock_xml :: "quick_xml \<Rightarrow> byte list \<Rightarrow> osf_error + meta_block" where
  "parse_metablock_xml qx bytes =
     xml_loop TopLevel (meta_block_default\<lparr>mb_file_info := file_info_default\<lparr>fi_version := 4\<rparr>\<rparr>)
       (qx (from_utf8_lossy bytes))"

section \<open>Numbers as text\<close>

lemma parse_unsigned_ge: "bound \<le> n \<Longrightarrow> parse_unsigned bound (show_nat n) = None"
proof -
  assume n: "bound \<le> n"
  obtain c cs where s: "show_nat n = c # cs" using show_nat_nonempty by (cases "show_nat n") auto
  have "is_ascii_digit c" using show_nat_digits [of n] s by simp
  then have "c \<noteq> CHR ''+''" by (auto simp: is_ascii_digit_def)
  then show ?thesis using n s digits_value_show_nat [of n] by (simp add: parse_unsigned_def)
qed

lemma parse_unsigned_show_int:
  "parse_unsigned bound (show_int i) = (if 0 \<le> i \<and> nat i < bound then Some (nat i) else None)"
proof (cases "i < 0")
  case True
  then have "parse_unsigned bound (show_int i) = None"
    by (simp add: show_int_def parse_unsigned_def is_ascii_digit_def)
  then show ?thesis using True by simp
next
  case False
  then show ?thesis using parse_unsigned_ge [of bound "nat i"] parse_unsigned_show_nat [of "nat i" bound]
    by (simp add: show_int_def not_less)
qed

lemma parse_i64_show_int [codec]:
  assumes "- (2 ^ 63) \<le> i" "i < 2 ^ 63"
  shows "parse_i64 (show_int i) = Some (word_of_int i)"
proof (cases "i < 0")
  case True
  then have "nat (- i) \<le> 2 ^ 63" "- (of_nat (nat (- i)) :: i64) = word_of_int i"
    using assms(1) by (simp_all add: of_nat_nat)
  then show ?thesis using True show_nat_digits [of "nat (- i)"]
    by (simp add: show_int_def parse_i64_def digits_value_show_nat)
next
  case False
  obtain c cs where s: "show_nat (nat i) = c # cs" using show_nat_nonempty by (cases "show_nat (nat i)") auto
  have "is_ascii_digit c" using show_nat_digits [of "nat i"] s by simp
  then have c: "c \<noteq> CHR ''-''" by (auto simp: is_ascii_digit_def)
  have "nat i < 2 ^ 63" using assms(2) False by simp
  then have "parse_unsigned (2 ^ 63) (c # cs) = Some (nat i)" using parse_unsigned_show_nat [of "nat i"] s by metis
  then show ?thesis using False c by (simp add: show_int_def parse_i64_def s)
qed

section \<open>Both formats describe the same channels\<close>

text \<open>The same integer in both formats, or a missing one.\<close>

definition same_int ::
  "('n \<Rightarrow> 64 word option) \<Rightarrow> int \<Rightarrow> int \<Rightarrow> 'n json option \<Rightarrow> string option \<Rightarrow> bool"
where
  "same_int conv lo hi v s \<longleftrightarrow>
     v = None \<and> s = None
     \<or> (\<exists>n i. v = Some (JNumber n) \<and> conv n = Some (word_of_int i) \<and> lo \<le> i \<and> i < hi \<and> s = Some (show_int i))"

definition same_channel_entry :: "'n serde_json \<Rightarrow> (string \<rightharpoonup> string) \<Rightarrow> 'n json_map \<Rightarrow> bool" where
  "same_channel_entry sj attrs obj \<longleftrightarrow>
     (\<forall>k. k \<noteq> ''index'' \<and> k \<noteq> ''sizeoflengthvalue'' \<and> k \<noteq> ''timeincrement'' \<longrightarrow>
        map_of obj k = map_option JString (attrs k))
     \<and> same_int (sj_as_i64 sj) (- (2 ^ 63)) (2 ^ 63) (map_of obj ''index'') (attrs ''index'')
     \<and> same_int (sj_as_u64 sj) 0 (2 ^ 64) (map_of obj ''sizeoflengthvalue'') (attrs ''sizeoflengthvalue'')
     \<and> same_int (sj_as_i64 sj) (- (2 ^ 63)) (2 ^ 63) (map_of obj ''timeincrement'') (attrs ''timeincrement'')"

lemma same_text:
  assumes "map_of obj k = map_option JString s"
  shows "get_as as_str obj k = s" and "get_as (value_to_string sj) obj k = s"
  using assms by (cases s; simp add: get_as_def as_str_def value_to_string_def)+

lemma same_index:
  assumes "same_int (sj_as_i64 sj) (- (2 ^ 63)) (2 ^ 63) (map_of obj k) s"
  shows "Option.bind (get_as (as_i64 sj) obj k)
           (\<lambda>raw. if 0 \<le> sint raw \<and> sint raw \<le> 65535 then Some (ucast raw :: u16) else None)
       = Option.bind s (\<lambda>raw. map_option of_nat (parse_unsigned (2 ^ 16) raw))"
  using assms unfolding same_int_def
proof (elim disjE exE conjE)
  fix n i assume a: "map_of obj k = Some (JNumber n)" "sj_as_i64 sj n = Some (word_of_int i)"
    "- (2 ^ 63) \<le> i" "i < 2 ^ 63" "s = Some (show_int i)"
  have s: "sint (word_of_int i :: i64) = i"
    using a(3,4) by (intro sint_word_of_int_i64) simp_all
  have u: "(ucast (word_of_int i :: 64 word) :: u16) = of_nat (nat i)" if "0 \<le> i"
  proof -
    have "(ucast (word_of_int i :: 64 word) :: u16) = word_of_int i"
      by (rule ucast_down_wi) (simp add: is_down)
    then show ?thesis using that by (simp add: of_nat_nat)
  qed
  have r: "(0 \<le> i \<and> i \<le> 65535) \<longleftrightarrow> (0 \<le> i \<and> nat i < 65536)" by auto
  show ?thesis
    using u by (simp add: a(1,2,5) get_as_def as_i64_def s r parse_unsigned_show_int)
qed (simp add: get_as_def)

lemma same_width:
  assumes "same_int (sj_as_u64 sj) 0 (2 ^ 64) (map_of obj k) s"
  shows "Option.bind (get_as (as_u64 sj) obj k)
           (\<lambda>raw. if 2 ^ 32 \<le> unat raw then None else Some (ucast raw :: u32))
       = Option.bind s (\<lambda>raw. map_option of_nat (parse_unsigned (2 ^ 32) raw))"
  using assms unfolding same_int_def
proof (elim disjE exE conjE)
  fix n i assume a: "map_of obj k = Some (JNumber n)" "sj_as_u64 sj n = Some (word_of_int i)"
    "0 \<le> i" "i < 2 ^ 64" "s = Some (show_int i)"
  have s: "unat (word_of_int i :: u64) = nat i"
  proof -
    have "uint (word_of_int i :: u64) = i" using a(3,4) by (simp add: uint_word_of_int take_bit_int_eq_self)
    then show ?thesis by (metis nat_uint_eq)
  qed
  have u: "(ucast (word_of_int i :: 64 word) :: u32) = of_nat (nat i)"
  proof -
    have "(ucast (word_of_int i :: 64 word) :: u32) = word_of_int i"
      by (rule ucast_down_wi) (simp add: is_down)
    then show ?thesis using a(3) by (simp add: of_nat_nat)
  qed
  show ?thesis
    using a(3) by (simp add: a(1,2,5) get_as_def as_u64_def s u parse_unsigned_show_int not_le)
qed (simp add: get_as_def)

lemma same_increment:
  assumes "same_int (sj_as_i64 sj) (- (2 ^ 63)) (2 ^ 63) (map_of obj k) (attrs k)"
  shows "parse_optional_i64 attrs k = Inr (get_as (as_i64 sj) obj k)"
  using assms
  by (auto simp: same_int_def parse_optional_i64_def get_as_def as_i64_def parse_i64_show_int)

text \<open>A channel assembled from its fields, as both parsers do it.\<close>

definition assembled ::
  "u16 option \<Rightarrow> u32 option \<Rightarrow> i64 option \<Rightarrow> (string \<Rightarrow> string option) \<Rightarrow> meta_channel \<Rightarrow> bool"
where
  "assembled index width increment texts c \<longleftrightarrow>
     (\<exists>i w ct dt s. index = Some i \<and> width = Some w
        \<and> texts ''channeltype'' = Some ct \<and> parse_channel_type ct = Inr (mc_channel_type c)
        \<and> texts ''datatype'' = Some dt \<and> parse_data_type dt = Inr (mc_data_type c)
        \<and> texts ''name'' = Some (mc_name c)
        \<and> validate_size_of_length_value w = Inr s
        \<and> c = \<lparr>mc_index = i, mc_name = mc_name c, mc_reference = texts ''reference'',
               mc_channel_type = mc_channel_type c, mc_data_type = mc_data_type c,
               mc_time_increment_ns = increment, mc_size_of_length_value = s,
               mc_mime_type = texts ''mimetype'',
               mc_spectrum_type = map_option spectrum_from_wire (texts ''spectrumtype''),
               mc_physical_unit = texts ''physicalunit'',
               mc_physical_dimension = texts ''physicaldimension'',
               mc_display_name = texts ''displayname'', mc_comment = texts ''comment''\<rparr>)"

lemma if_guard_iffs:
  "(if P then Inl e else r) = Inr c \<longleftrightarrow> \<not> P \<and> r = Inr c"
  "(if P then Some x else None) = Some y \<longleftrightarrow> P \<and> x = y"
  "(if P then None else Some x) = Some y \<longleftrightarrow> \<not> P \<and> x = y"
  by simp_all

lemma parse_channel_assembled:
  assumes texts: "\<And>k. k \<noteq> ''index'' \<Longrightarrow> k \<noteq> ''sizeoflengthvalue'' \<Longrightarrow> k \<noteq> ''timeincrement'' \<Longrightarrow>
     get_as as_str obj k = texts k \<and> get_as (value_to_string sj) obj k = texts k"
  shows "parse_channel sj obj = Inr c \<longleftrightarrow>
     assembled
       (Option.bind (get_as (as_i64 sj) obj ''index'')
          (\<lambda>raw. if 0 \<le> sint raw \<and> sint raw \<le> 65535 then Some (ucast raw) else None))
       (Option.bind (get_as (as_u64 sj) obj ''sizeoflengthvalue'')
          (\<lambda>raw. if 2 ^ 32 \<le> unat raw then None else Some (ucast raw)))
       (get_as (as_i64 sj) obj ''timeincrement'') texts c"
  by (cases c)
     (auto simp: parse_channel_def assembled_def and_then_eq_Inr_iff texts Option.bind_eq_Some_conv
        if_guard_iffs)

lemma parse_channel_attrs_assembled:
  assumes "collect_attrs start Map.empty = Inr attrs"
    and "parse_optional_i64 attrs ''timeincrement'' = Inr increment"
  shows "parse_channel_attrs start = Inr c \<longleftrightarrow>
     assembled
       (Option.bind (attrs ''index'') (\<lambda>raw. map_option of_nat (parse_unsigned (2 ^ 16) raw)))
       (Option.bind (attrs ''sizeoflengthvalue'') (\<lambda>raw. map_option of_nat (parse_unsigned (2 ^ 32) raw)))
       increment attrs c"
  using assms
  by (cases c)
     (auto simp: parse_channel_attrs_def assembled_def and_then_eq_Inr_iff Option.bind_eq_Some_conv)

text \<open>
  When an XML \<open>channel\<close> element and a JSON channel object carry the same texts and the same integers,
  known or unknown, present or missing, in or out of range, both are accepted or none, and the two
  channels are equal.
\<close>

lemma formats_agree:
  assumes "collect_attrs start Map.empty = Inr attrs" and "same_channel_entry sj attrs obj"
  shows "parse_channel_attrs start = Inr c \<longleftrightarrow> parse_channel sj obj = Inr c"
proof -
  have texts: "get_as as_str obj k = attrs k \<and> get_as (value_to_string sj) obj k = attrs k"
    if "k \<noteq> ''index''" "k \<noteq> ''sizeoflengthvalue''" "k \<noteq> ''timeincrement''" for k
  proof -
    have "map_of obj k = map_option JString (attrs k)"
      using assms(2) that by (simp add: same_channel_entry_def)
    from same_text [OF this] show ?thesis by blast
  qed
  have ints: "same_int (sj_as_i64 sj) (- (2 ^ 63)) (2 ^ 63) (map_of obj ''index'') (attrs ''index'')"
     "same_int (sj_as_u64 sj) 0 (2 ^ 64) (map_of obj ''sizeoflengthvalue'') (attrs ''sizeoflengthvalue'')"
     "same_int (sj_as_i64 sj) (- (2 ^ 63)) (2 ^ 63) (map_of obj ''timeincrement'') (attrs ''timeincrement'')"
    using assms(2) unfolding same_channel_entry_def by blast+
  note json = parse_channel_assembled [of obj attrs sj c]
  show ?thesis
    using json [OF texts] same_index [OF ints(1)] same_width [OF ints(2)]
      parse_channel_attrs_assembled [OF assms(1) same_increment [where attrs = attrs, OF ints(3)], of c]
    by simp
qed

text \<open>A channel entry in both formats.\<close>

definition demo_attrs :: "xml_attr list" where
  "demo_attrs =
     [AttrAt (bytes_of_string ''index'') (Some ''3''), AttrAt (bytes_of_string ''name'') (Some ''t''),
      AttrAt (bytes_of_string ''channeltype'') (Some ''scalar''),
      AttrAt (bytes_of_string ''datatype'') (Some ''double''),
      AttrAt (bytes_of_string ''sizeoflengthvalue'') (Some ''2'')]"

definition demo_object :: "int json_map" where
  "demo_object =
     [(''channeltype'', JString ''scalar''), (''datatype'', JString ''double''), (''index'', JNumber 3),
      (''name'', JString ''t''), (''sizeoflengthvalue'', JNumber 2)]"

lemma demo_entries:
  "collect_attrs demo_attrs Map.empty = Inr [''index'' \<mapsto> ''3'', ''name'' \<mapsto> ''t'',
     ''channeltype'' \<mapsto> ''scalar'', ''datatype'' \<mapsto> ''double'', ''sizeoflengthvalue'' \<mapsto> ''2'']"
  "same_channel_entry (demo_serde doc) [''index'' \<mapsto> ''3'', ''name'' \<mapsto> ''t'',
     ''channeltype'' \<mapsto> ''scalar'', ''datatype'' \<mapsto> ''double'', ''sizeoflengthvalue'' \<mapsto> ''2''] demo_object"
proof -
  show "collect_attrs demo_attrs Map.empty = Inr [''index'' \<mapsto> ''3'', ''name'' \<mapsto> ''t'',
     ''channeltype'' \<mapsto> ''scalar'', ''datatype'' \<mapsto> ''double'', ''sizeoflengthvalue'' \<mapsto> ''2'']"
    by (simp add: demo_attrs_def codec rust_string_ascii ascii_char_def)
  have shown: "show_int 3 = ''3''" "show_int 2 = ''2''"
    by code_simp+
  show "same_channel_entry (demo_serde doc) [''index'' \<mapsto> ''3'', ''name'' \<mapsto> ''t'',
     ''channeltype'' \<mapsto> ''scalar'', ''datatype'' \<mapsto> ''double'', ''sizeoflengthvalue'' \<mapsto> ''2''] demo_object"
    unfolding same_channel_entry_def same_int_def
    using shown [symmetric] exI [of "\<lambda>i. word_of_int i = (3 :: 64 word) \<and> - (2 ^ 63) \<le> i \<and> i < 2 ^ 63 \<and> ''3'' = show_int i" 3]
      exI [of "\<lambda>i. word_of_int i = (2 :: 64 word) \<and> 0 \<le> i \<and> i < 2 ^ 64 \<and> ''2'' = show_int i" 2]
    by (simp add: demo_object_def demo_serde_def)
qed

section \<open>What is accepted, and how the rest is refused\<close>

definition xml_error :: "osf_error \<Rightarrow> bool" where
  "xml_error e \<longleftrightarrow> (\<exists>m. e = XmlError m) \<or> metablock_error e"

lemma xml_error_simps [simp]: "xml_error (XmlError m)" "xml_error (InvalidMetablock m)"
  by (simp_all add: xml_error_def)

lemmas shared_refusal [refusal] =
  refuses_data_type [THEN refuses_mono, where P = xml_error]
  refuses_channel_type [THEN refuses_mono, where P = xml_error]
  refuses_size [THEN refuses_mono, where P = xml_error]

lemma metablock_is_xml_error: "metablock_error e \<Longrightarrow> xml_error e"
  by (simp add: xml_error_def)

lemma refuses_map_ok [refusal]: "refuses P r \<Longrightarrow> refuses P (map_ok f r)"
  by (simp add: refuses_def)

lemma refuses_attrs [refusal]: "refuses xml_error (collect_attrs attrs out)"
  by (induction attrs out rule: collect_attrs.induct)
     (auto intro!: refusal simp del: fun_upd_apply)

lemma refuses_optional [refusal]:
  "refuses xml_error (parse_optional_f64 attrs k)" "refuses xml_error (parse_optional_i64 attrs k)"
  "refuses xml_error (short_location attrs k slot)"
  by (auto simp: parse_optional_f64_def parse_optional_i64_def short_location_def
        intro!: refusal split: option.split)

lemma refuses_channel_attrs [refusal]: "refuses xml_error (parse_channel_attrs start)"
  unfolding parse_channel_attrs_def by (intro refusal xml_error_simps metablock_is_xml_error)

lemma refuses_info_attrs [refusal]: "refuses xml_error (parse_info_attrs start)"
  unfolding parse_info_attrs_def by (intro refusal xml_error_simps metablock_is_xml_error)

lemma refuses_optimeas_attrs [refusal]: "refuses xml_error (parse_optimeas_attrs start info)"
  unfolding parse_optimeas_attrs_def by (intro refusal)

lemma refuses_skip [refusal]: "refuses xml_error (skip_to_end_named name evs)"
  by (induction name evs rule: skip_to_end_named.induct) (auto intro!: refusal)

lemma refuses_add_xml [refusal]:
  "refuses xml_error (add_xml_channel name start mb)" "refuses xml_error (add_xml_info name start mb)"
  unfolding add_xml_channel_def add_xml_info_def by (intro refusal)+

text \<open>What every accepted metablock satisfies, kept by each step of the loop.\<close>

definition xml_meta_wf :: "meta_block \<Rightarrow> bool" where
  "xml_meta_wf mb \<longleftrightarrow>
     fi_version (mb_file_info mb) = 4
     \<and> list_all (\<lambda>c. (mc_size_of_length_value c = 2 \<or> mc_size_of_length_value c = 4)
          \<and> mc_data_type c \<noteq> DtByteArray) (mb_channels mb)"

lemma parse_channel_attrs_Inr:
  assumes "parse_channel_attrs start = Inr c"
  shows "mc_size_of_length_value c = 2 \<or> mc_size_of_length_value c = 4" "mc_data_type c \<noteq> DtByteArray"
  using assms
  by (auto simp: parse_channel_attrs_def and_then_eq_Inr_iff parse_data_type_not_bytearray
        dest: validate_size_range)

lemma add_xml_channel_wf [wf_intros]:
  "xml_meta_wf mb \<Longrightarrow> add_xml_channel name start mb = Inr mb' \<Longrightarrow> xml_meta_wf mb'"
  by (auto simp: add_xml_channel_def xml_meta_wf_def dest: parse_channel_attrs_Inr split: if_splits)

lemma add_xml_info_wf [wf_intros]:
  "xml_meta_wf mb \<Longrightarrow> add_xml_info name start mb = Inr mb' \<Longrightarrow> xml_meta_wf mb'"
  by (auto simp: add_xml_info_def xml_meta_wf_def split: if_splits)

lemma parse_optimeas_attrs_wf [wf_intros]:
  "xml_meta_wf mb \<Longrightarrow> parse_optimeas_attrs start (mb_file_info mb) = Inr info \<Longrightarrow>
   xml_meta_wf (mb\<lparr>mb_file_info := info\<rparr>)"
  by (auto simp: parse_optimeas_attrs_def xml_meta_wf_def and_then_eq_Inr_iff)

lemma xml_loop_wf:
  "xml_meta_wf mb \<Longrightarrow>
     refuses xml_error (xml_loop st mb evs) \<and> (\<forall>mb'. xml_loop st mb evs = Inr mb' \<longrightarrow> xml_meta_wf mb')"
proof (induction st mb evs rule: xml_loop.induct)
  case (1 st mb)
  then show ?case by (simp add: refuses_Inr)
next
  case (2 st mb evs)
  then show ?case by (simp add: refuses_Inl)
next
  case (3 st mb ev evs)
  note IH = "3.IH" and wf = "3.prems"
  have channel: "refuses xml_error (add_xml_channel n s mb)" "refuses xml_error (add_xml_info n s mb)"
      "refuses xml_error (skip_to_end_named n evs)" "refuses xml_error (parse_optimeas_attrs s i)" for n s i
    by (rule refusal)+
  show ?case
  proof (cases ev)
    case (XStart name start)
    show ?thesis
    proof (cases st)
      case TopLevel
      show ?thesis
      proof (cases "name = ''optimeas''")
        case True
        have "refuses xml_error (xml_loop InOptimeas (mb\<lparr>mb_file_info := v\<rparr>) evs) \<and>
            (\<forall>mb'. xml_loop InOptimeas (mb\<lparr>mb_file_info := v\<rparr>) evs = Inr mb' \<longrightarrow> xml_meta_wf mb')"
          if "parse_optimeas_attrs start (mb_file_info mb) = Inr v" for v
          using IH(4) [OF XStart TopLevel True that parse_optimeas_attrs_wf [OF wf that]] .
        then show ?thesis using XStart TopLevel True
          by (auto simp: and_then_eq_Inr_iff intro!: refusal)
      next
        case False
        then show ?thesis using XStart TopLevel by (simp add: refuses_Inl)
      qed
    next
      case InOptimeas
      show ?thesis
      proof (cases "enter_child name")
        case None
        then show ?thesis using XStart InOptimeas IH wf
          by (auto simp: and_then_eq_Inr_iff intro!: refusal)
      next
        case (Some st')
        then show ?thesis using XStart InOptimeas IH wf by auto
      qed
    next
      case InChannels
      then show ?thesis using XStart InChannels IH wf
        by (auto simp: and_then_eq_Inr_iff intro!: refusal intro: wf_intros)
    next
      case InInfos
      then show ?thesis using XStart InInfos IH wf
        by (auto simp: and_then_eq_Inr_iff intro!: refusal intro: wf_intros)
    qed
  next
    case (XEmpty name start)
    then show ?thesis using IH wf
      by (cases st) (auto simp: and_then_eq_Inr_iff intro!: refusal intro: wf_intros)
  next
    case XDecl
    show ?thesis using IH(1) [OF XDecl wf] XDecl by simp
  next
    case XComment
    show ?thesis using IH(2) [OF XComment wf] XComment by simp
  next
    case XText
    show ?thesis using IH(3) [OF XText wf] XText by simp
  next
    case (XEnd name)
    show ?thesis using IH(13) [OF XEnd wf] XEnd by simp
  next
    case XOther
    show ?thesis using IH(14) [OF XOther wf] XOther by simp
  qed
qed

text \<open>
  The OSF4 parser is total and validating: for every \<open>quick-xml\<close> and every input it refuses
  with an XML error, an invalid metablock or a removed datatype and nothing else, and every
  metablock it accepts has version 4 and only channels with a length field of 2 or 4 bytes and a
  datatype that is not the alias \<open>ByteArray\<close>.
\<close>

theorem metablock_xml_validates:
  "case parse_metablock_xml qx bytes of
     Inl e \<Rightarrow> xml_error e
   | Inr meta \<Rightarrow> fi_version (mb_file_info meta) = 4
       \<and> list_all (\<lambda>c. (mc_size_of_length_value c = 2 \<or> mc_size_of_length_value c = 4)
            \<and> mc_data_type c \<noteq> DtByteArray) (mb_channels meta)"
proof -
  have "xml_meta_wf (meta_block_default\<lparr>mb_file_info := file_info_default\<lparr>fi_version := 4\<rparr>\<rparr>)"
    by (simp add: xml_meta_wf_def meta_block_default_def)
  from xml_loop_wf [OF this] show ?thesis
    unfolding parse_metablock_xml_def refuses_def xml_meta_wf_def
    by (auto split: sum.split)
qed

section \<open>Documents\<close>

lemma xml_loop_channels:
  "xml_loop InChannels mb (map (\<lambda>start. Some (XEmpty ''channel'' start)) starts @ evs) =
     and_then (first_error (map parse_channel_attrs starts)) (\<lambda>cs.
       xml_loop InChannels (mb\<lparr>mb_channels := mb_channels mb @ cs\<rparr>) evs)"
proof (induction starts arbitrary: mb)
  case (Cons start starts)
  then show ?case
    by (cases "parse_channel_attrs start"; cases "first_error (map parse_channel_attrs starts)")
       (simp_all add: add_xml_channel_def)
qed simp

lemma xml_loop_infos:
  "xml_loop InInfos mb (map (\<lambda>start. Some (XEmpty ''info'' start)) starts @ evs) =
     and_then (first_error (map parse_info_attrs starts)) (\<lambda>is.
       xml_loop InInfos (mb\<lparr>mb_infos := mb_infos mb @ is\<rparr>) evs)"
proof (induction starts arbitrary: mb)
  case (Cons start starts)
  then show ?case
    by (cases "parse_info_attrs start"; cases "first_error (map parse_info_attrs starts)")
       (simp_all add: add_xml_info_def)
qed simp

lemma skip_unknown:
  "XEnd name \<notin> set inner \<Longrightarrow> skip_to_end_named name (map Some inner @ Some (XEnd name) # evs) = Inr evs"
  by (induction inner) auto

text \<open>
  The event loop finds exactly the document's entries. For a document with a root, an unknown child
  with arbitrary content that does not nest an element of its own name, a \<open>channels\<close> and an \<open>infos\<close> list, the parser reads the root's
  attributes, ignores the unknown child even where it holds channels, and returns the channels and
  the infos in order, or the first error in document order.
\<close>

theorem xml_document_parsed:
  assumes "name \<noteq> ''channels''" and "name \<noteq> ''infos''" and "XEnd name \<notin> set inner"
    and "qx (from_utf8_lossy bytes) =
      [Some XDecl, Some (XStart ''optimeas'' root)]
      @ Some (XStart name other) # map Some inner @ Some (XEnd name)
      # Some (XStart ''channels'' ca) # map (\<lambda>start. Some (XEmpty ''channel'' start)) chans
      @ Some (XEnd ''channels'')
      # Some (XStart ''infos'' ia) # map (\<lambda>start. Some (XEmpty ''info'' start)) infos
      @ [Some (XEnd ''infos''), Some (XEnd ''optimeas'')]"
  shows "parse_metablock_xml qx bytes =
     and_then (parse_optimeas_attrs root (file_info_default\<lparr>fi_version := 4\<rparr>)) (\<lambda>fi.
     and_then (first_error (map parse_channel_attrs chans)) (\<lambda>cs.
     and_then (first_error (map parse_info_attrs infos)) (\<lambda>is.
       Inr \<lparr>mb_file_info = fi, mb_channels = cs, mb_infos = is\<rparr>)))"
  using assms(1-3)
  by (simp add: parse_metablock_xml_def assms(4) enter_child_def skip_unknown xml_loop_channels
        xml_loop_infos leave_element_def meta_block_default_def)

theorem xml_document_parsed_witness:
  "\<exists>meta. parse_metablock_xml
     (\<lambda>_. [Some XDecl, Some (XStart ''optimeas'' []), Some (XStart ''x'' []), Some (XEmpty ''channel'' []),
           Some (XEnd ''x''), Some (XStart ''channels'' []), Some (XEnd ''channels''), Some (XStart ''infos'' []),
           Some (XEmpty ''info'' [AttrAt (bytes_of_string ''name'') (Some ''n'')]),
           Some (XEnd ''infos''), Some (XEnd ''optimeas'')]) [60] = Inr meta
     \<and> mb_channels meta = [] \<and> map in_name (mb_infos meta) = [''n'']"
  by (subst xml_document_parsed [where name = "''x''" and inner = "[XEmpty ''channel'' []]" and other = "[]"
        and root = "[]" and ca = "[]" and chans = "[]" and ia = "[]"
        and infos = "[[AttrAt (bytes_of_string ''name'') (Some ''n'')]]"])
     (simp_all add: parse_optimeas_attrs_def parse_optional_f64_def short_location_def parse_info_attrs_def
        parse_data_type_def codec rust_string_ascii ascii_char_def)

text \<open>
  A text without a root start tag is not refused: an empty document, a root given as an empty
  element of any name, or text alone is accepted as a metablock with no channels.
\<close>

theorem xml_without_root_accepted:
  "evs \<in> {[], [Some (XEmpty name start)], [Some XDecl, Some XText]} \<longrightarrow>
     parse_metablock_xml (\<lambda>_. evs) bytes =
       Inr (meta_block_default\<lparr>mb_file_info := file_info_default\<lparr>fi_version := 4\<rparr>\<rparr>)"
  by (auto simp: parse_metablock_xml_def)

theorem xml_without_root_accepted_witness:
  "parse_metablock_xml (\<lambda>_. [Some (XEmpty ''html'' [])]) [60]
     = Inr (meta_block_default\<lparr>mb_file_info := file_info_default\<lparr>fi_version := 4\<rparr>\<rparr>)"
  using xml_without_root_accepted [of "[Some (XEmpty ''html'' [])]" "''html''" "[]"] by simp

end
