(* ===== verification/Load.thy ===== *)
theory Load
  imports Pipeline MetaWrite MetaXml
begin

text \<open>
  Whole files: the detection of compression (\<open>compression.rs\<close>), the metablock checksum
  (\<open>integrity.rs\<close>), \<open>parse_metablock\<close> and \<open>read_file\<close> (\<open>lib.rs\<close>), the loading entry points and the
  lookups of \<open>DataManager\<close> (\<open>manager.rs\<close>), and \<open>WriterBuilder::write_to\<close> (\<open>writer.rs\<close>).
  The decoders of \<open>flate2\<close>, \<open>serde_json\<close>, \<open>quick-xml\<close> and the CRC32C function are
  parameters; files are the bytes they hold.
\<close>

section \<open>Compression\<close>

text \<open>What a decoder makes of the compressed source: another source.\<close>

record flate2 =
  zlib_decoder :: "stream \<Rightarrow> stream"
  gz_decoder :: "stream \<Rightarrow> stream"

datatype maybe_compressed = Plain stream | Zlib stream | Gzip stream

fun is_compressed :: "maybe_compressed \<Rightarrow> bool" where
  "is_compressed (Plain _) = False"
| "is_compressed _ = True"

fun detected_format :: "maybe_compressed \<Rightarrow> compression_format" where
  "detected_format (Plain _) = CfNone"
| "detected_format (Zlib _) = CfZlib"
| "detected_format (Gzip _) = CfGzip"

text \<open>The \<open>Read\<close> of \<open>MaybeCompressed\<close>: the source its reads come from.\<close>

fun read_source :: "flate2 \<Rightarrow> maybe_compressed \<Rightarrow> stream" where
  "read_source fl (Plain r) = r"
| "read_source fl (Zlib r) = zlib_decoder fl r"
| "read_source fl (Gzip r) = gz_decoder fl r"

text \<open>
  \<open>fill_buf\<close> on the fresh buffer is one \<open>read\<close>: it delivers \<open>fill\<close> bytes of those to come, or an
  error when the source fails at once. Nothing is consumed.
\<close>

definition fill_buf :: "nat \<Rightarrow> stream \<Rightarrow> osf_error + byte list" where
  "fill_buf fill s =
     (if pending s = [] \<and> faulty s then Inl (Io OtherIo) else Inr (take fill (pending s)))"

definition peek_format :: "nat \<Rightarrow> stream \<Rightarrow> osf_error + compression_format" where
  "peek_format fill s =
     and_then (fill_buf fill s) (\<lambda>head.
       Inr (case head of
              first # second # _ \<Rightarrow>
                if first = 0x1F \<and> second = 0x8B then CfGzip
                else if first = 0x78 \<and> second \<in> {0x01, 0x5E, 0x9C, 0xDA} then CfZlib
                else CfNone
            | _ \<Rightarrow> CfNone))"

definition detect_and_wrap :: "nat \<Rightarrow> stream \<Rightarrow> osf_error + maybe_compressed" where
  "detect_and_wrap fill s =
     map_ok (\<lambda>format. case format of CfNone \<Rightarrow> Plain s | CfZlib \<Rightarrow> Zlib s | CfGzip \<Rightarrow> Gzip s)
       (peek_format fill s)"

section \<open>The metablock\<close>

definition verify_metablock_crc :: "(byte list \<Rightarrow> u32) \<Rightarrow> u32 option \<Rightarrow> byte list \<Rightarrow> osf_error + unit" where
  "verify_metablock_crc crc32c want body =
     (case want of
        Some crc \<Rightarrow> if crc32c body \<noteq> crc then Inl (MetablockCrcMismatch crc (crc32c body)) else Inr ()
      | None \<Rightarrow> Inr ())"

text \<open>The external functions a loader uses.\<close>

record 'n externals =
  ex_serde_json :: "'n serde_json"
  ex_quick_xml :: quick_xml
  ex_flate2 :: flate2
  ex_crc32c :: "byte list \<Rightarrow> u32"

definition parse_metablock :: "'n externals \<Rightarrow> osf_version \<Rightarrow> byte list \<Rightarrow> osf_error + meta_block" where
  "parse_metablock ex version bytes =
     (case version of
        Osf4 \<Rightarrow> parse_metablock_xml (ex_quick_xml ex) bytes
      | Osf5 \<Rightarrow> parse_metablock_json (ex_serde_json ex) bytes)"

text \<open>
  \<open>vec![0; len]\<close> and \<open>read_exact\<close>: a length above \<open>isize::MAX\<close> panics with a capacity overflow;
  a shorter allocation is taken to succeed.
\<close>

definition read_body :: "nat \<Rightarrow> stream \<Rightarrow> (osf_error + byte list) \<times> stream" where
  "read_body len s =
     (if 2 ^ 63 \<le> len then (Inl (Panic ''capacity overflow''), s)
      else (case read_exact len s of
              (Got body, s') \<Rightarrow> (Inr body, s')
            | (AtEof, s') \<Rightarrow> (Inl (Io UnexpectedEof), s')
            | (IoFault, s') \<Rightarrow> (Inl (Io OtherIo), s')))"

text \<open>The steps both entry points share: header, body, checksum, metablock.\<close>

definition open_metablock ::
  "'n externals \<Rightarrow> stream \<Rightarrow> osf_error + (magic_header \<times> meta_block \<times> stream \<times> stream)"
where
  "open_metablock ex s =
     (let (h, s1) = parse_magic_header s in
      and_then h (\<lambda>header.
        (let (b, s2) = read_body (mh_metablock_len header) s1 in
         and_then b (\<lambda>body.
         and_then (verify_metablock_crc (ex_crc32c ex) (mh_metablock_crc header) body) (\<lambda>_.
         and_then (parse_metablock ex (mh_version header) body) (\<lambda>meta.
           Inr (header, meta, s1, s2)))))))"

section \<open>The manager\<close>

record data_manager =
  dm_meta :: meta_block
  dm_stats :: reader_stats
  dm_channels :: "channel list"
  dm_by_name :: "string \<rightharpoonup> nat"
  dm_by_index :: "u16 \<rightharpoonup> nat"

definition load_from_stream_with_size ::
  "'n externals \<Rightarrow> maybe_compressed \<Rightarrow> nat option \<Rightarrow> osf_error + data_manager"
where
  "load_from_stream_with_size ex st file_size =
     and_then (open_metablock ex (read_source (ex_flate2 ex) st)) (\<lambda>(header, meta, _, rest).
       (let reader0 = with_integrity (mh_integrity header) (block_reader_new rest meta);
            reader = (case file_size of Some n \<Rightarrow> with_file_size n reader0 | None \<Rightarrow> reader0);
            (blocks, reader') = items (ex_crc32c ex) reader
        in map_ok (\<lambda>(channels, by_name, by_index).
             \<lparr>dm_meta = meta,
              dm_stats = (final_stats reader')
                \<lparr>rs_metablock_size_bytes := mh_metablock_len header,
                 rs_compressed := is_compressed st,
                 rs_compression_format := detected_format st\<rparr>,
              dm_channels = channels, dm_by_name = by_name, dm_by_index = by_index\<rparr>)
           (build_channels meta blocks)))"

definition load_from_reader :: "'n externals \<Rightarrow> nat \<Rightarrow> stream \<Rightarrow> osf_error + data_manager" where
  "load_from_reader ex fill s =
     and_then (detect_and_wrap fill s) (\<lambda>st. load_from_stream_with_size ex st None)"

text \<open>An opened file: its bytes and, when it can be told, its size.\<close>

definition load_from_file :: "'n externals \<Rightarrow> nat \<Rightarrow> stream \<Rightarrow> nat option \<Rightarrow> osf_error + data_manager" where
  "load_from_file ex fill s file_size =
     and_then (detect_and_wrap fill s) (\<lambda>st. load_from_stream_with_size ex st file_size)"

definition dm_channel :: "data_manager \<Rightarrow> string \<Rightarrow> osf_error + channel option" where
  "dm_channel m name =
     (case dm_by_name m name of
        None \<Rightarrow> Inr None
      | Some i \<Rightarrow> map_ok Some (index_at (dm_channels m) i))"

definition dm_channel_by_index :: "data_manager \<Rightarrow> u16 \<Rightarrow> osf_error + channel option" where
  "dm_channel_by_index m index =
     (case dm_by_index m index of
        None \<Rightarrow> Inr None
      | Some i \<Rightarrow> map_ok Some (index_at (dm_channels m) i))"

definition dm_iter :: "data_manager \<Rightarrow> channel list" where
  "dm_iter m = dm_channels m"

definition dm_channels_by_data_type :: "data_manager \<Rightarrow> data_type \<Rightarrow> channel list" where
  "dm_channels_by_data_type m dt = filter (\<lambda>c. channel_data_type c = dt) (dm_channels m)"

section \<open>The block-level entry point\<close>

text \<open>
  \<open>read_file\<close>: \<open>header_size_bytes\<close> is what the counting reader has seen when the header line is
  parsed.
\<close>

definition read_file ::
  "'n externals \<Rightarrow> nat \<Rightarrow> stream \<Rightarrow> nat \<Rightarrow> osf_error + (meta_block \<times> block list \<times> reader_stats)"
where
  "read_file ex fill s file_size =
     and_then (detect_and_wrap fill s) (\<lambda>st.
     (let src = read_source (ex_flate2 ex) st in
      and_then (open_metablock ex src) (\<lambda>(header, meta, after_header, rest).
       (let reader = with_integrity (mh_integrity header)
                       (with_file_size file_size (block_reader_new rest meta));
            (results, reader') = items (ex_crc32c ex) reader
        in map_ok (\<lambda>blocks.
             (meta, blocks, (final_stats reader')
                \<lparr>rs_header_size_bytes := length (pending src) - length (pending after_header),
                 rs_metablock_size_bytes := mh_metablock_len header,
                 rs_compressed := is_compressed st,
                 rs_compression_format := detected_format st\<rparr>))
           (first_error results)))))"

section \<open>Writing a file\<close>

text \<open>\<open>write_to\<close> a sink that accepts every write; \<open>now\<close> is \<open>format_utc_now\<close>.\<close>

definition write_to ::
  "'n serde_json \<Rightarrow> (byte list \<Rightarrow> u32) \<Rightarrow> string \<Rightarrow> writer_builder \<Rightarrow> osf_error + byte list"
where
  "write_to sj crc32c now b =
     (if wb_channels b = [] then Inl WriterEmpty
      else
        and_then (case wb_integrity b of
                    IpNone \<Rightarrow> Inr False
                  | IpCrc32c \<Rightarrow> Inr True
                  | IpEd25519 \<Rightarrow> Inl (InvalidBlock ''this writer implements integrity level crc only'')) (\<lambda>frame_crc.
        and_then (autobump_size_of_length_value (wb_channels b) (wb_channel_data b) frame_crc) (\<lambda>defs.
        and_then (build_metablock_json sj now (wb_file_info b) defs) (\<lambda>metablock.
        and_then (write_data_blocks crc32c defs (wb_channel_data b) frame_crc) (\<lambda>data.
          Inr (write_magic_header (length metablock) (if frame_crc then Some (crc32c metablock) else None)
               @ metablock @ data))))))"

end
