(* ===== verification/LoadLaws.thy ===== *)
theory LoadLaws
  imports Load
begin

text \<open>
  Whole files: what \<open>write_to\<close> emits is loaded again with the same samples; a damaged metablock is
  refused; compression is transparent; the loader panics only on a length no vector can have; the
  lookups of the manager; and \<open>read_file\<close> and the manager see the same blocks.
\<close>

section \<open>What the items of a reader have in common\<close>

text \<open>
  A law of items that skipped blocks and ordinary errors obey, and every item of \<open>dispatch\<close>, holds of
  every item a reader yields.
\<close>

locale item_law =
  fixes ok :: "osf_error + block \<Rightarrow> bool"
  assumes ok_skipped: "ok (Inr \<lparr>blk_channel_index = channel, blk_kind = Skipped reason n payload\<rparr>)"
    and ok_error: "\<not> is_panic e \<Longrightarrow> ok (Inl e)"
    and ok_dispatched: "fst (dispatch channel info len cb body r) = Some x \<Longrightarrow> ok x"
begin

definition ok_item :: "item \<Rightarrow> bool" where
  "ok_item it = (case it of Some x \<Rightarrow> ok x | None \<Rightarrow> True)"

lemma ok_item_simps [simp]:
  "ok_item None" "ok_item (Some x) \<longleftrightarrow> ok x" "ok_item (skipped_item channel reason n payload)"
  by (simp_all add: ok_item_def skipped_item_def ok_skipped)

lemma dispatch_ok: "ok_item (fst (dispatch channel info len cb body r))"
  using ok_dispatched by (auto simp: ok_item_def split: option.split)

lemma decode_payload_ok: "payload \<noteq> [] \<Longrightarrow> ok_item (fst (decode_payload channel info len payload r))"
  by (cases payload) (simp_all add: decode_payload_def dispatch_ok)

lemma stop_ok [simp]: "ok_item (fst (stop_truncated r))" "\<not> is_panic e \<Longrightarrow> ok_item (fst (stop_error e r))"
  by (simp_all add: stop_truncated_def stop_error_def ok_error)

lemma next_payload_ok:
  assumes "len \<noteq> 0"
  shows "ok_item (fst (next_payload crc32c channel info len r))"
proof (cases rule: inner_exact_cases [of "unat len" r])
  case (got bs i)
  have "bs \<noteq> []" using got assms by (auto simp: unat_eq_0)
  then show ?thesis using got
    by (auto simp: next_payload_def Let_def intro!: decode_payload_ok dest: strip_frame_crc_nonempty
          split: sum.split)
qed (simp_all add: next_payload_def)

lemma skip_block_ok: "ok_item (fst (skip_block channel len reason r))"
  by (auto simp: skip_block_def ok_error split: io.split prod.split)

lemma next_signature_ok: "ok_item (fst (next_signature channel r))"
  by (auto simp: next_signature_def Let_def ok_error split: io.split prod.split)

lemma next_trailer_ok: "ok_item (fst (next_trailer r))"
  by (auto simp: next_trailer_def consume_trailer_def Let_def ok_error split: io.split prod.split option.split)

lemma next_channel_block_ok: "ok_item (fst (next_channel_block crc32c channel r))"
  by (auto simp: next_channel_block_def read_length_field_def Let_def next_payload_ok skip_block_ok ok_error
        split: io.split prod.split option.split sum.split)

lemma next_block_ok: "ok_item (fst (next_block crc32c r))"
  by (auto simp: next_block_def Let_def next_trailer_ok next_signature_ok next_channel_block_ok ok_error
        split: io.split prod.split)

lemma items_ok: "x \<in> set (fst (items crc32c r)) \<Longrightarrow> ok x"
proof (induction crc32c r rule: items.induct)
  case (1 crc32c r)
  obtain it r' where n: "next_block crc32c r = (it, r')" by (cases "next_block crc32c r")
  show ?case
  proof (cases it)
    case None
    then show ?thesis using "1.prems" n by (simp add: items.simps [of crc32c r])
  next
    case (Some y)
    have "ok y" using next_block_ok [of crc32c r] n Some by simp
    moreover have "x = y \<or> x \<in> set (fst (items crc32c r'))"
      using "1.prems" n Some by (auto simp: items.simps [of crc32c r] split: prod.splits)
    ultimately show ?thesis using "1.IH" [OF n [symmetric] Some] by blast
  qed
qed

end

text \<open>The reader reports no panic: none of its items is one.\<close>

interpretation no_panic_items: item_law item_no_panic
proof unfold_locales
  show "item_no_panic x" if "fst (dispatch channel info len cb body r) = Some x" for channel info len cb body r x
    using dispatch_outcome [of channel len r info cb body] that
    by (cases rule: dispatched.cases) (auto simp: item_no_panic_def skipped_item_def block_item_def)
qed (simp_all add: item_no_panic_def)

section \<open>Opening\<close>

lemma open_metablock_written:
  assumes "length body < 2 ^ 63"
    and "pending s = write_magic_header (length body) crc @ body @ data"
    and "case crc of Some c \<Rightarrow> ex_crc32c ex body = c | None \<Rightarrow> True"
    and "parse_metablock_json (ex_serde_json ex) body = Inr meta"
  shows "open_metablock ex s =
     Inr (\<lparr>mh_version = Osf5, mh_metablock_len = length body,
           mh_integrity = (if crc = None then IpNone else IpCrc32c), mh_metablock_crc = crc\<rparr>,
          meta, s\<lparr>pending := body @ data\<rparr>, s\<lparr>pending := data\<rparr>)"
proof -
  have "length body < 2 ^ 64" using assms(1) by simp
  then show ?thesis
    using assms(1,3,4)
    by (cases crc)
       (simp_all add: open_metablock_def parse_magic_header_write [OF _ assms(2)] read_body_def
          read_exact_append verify_metablock_crc_def parse_metablock_def)
qed

lemma written_is_plain:
  "pending s = write_magic_header len crc @ rest \<Longrightarrow> detect_and_wrap fill s = Inr (Plain s)"
proof -
  assume p: "pending s = write_magic_header len crc @ rest"
  obtain tl where tl: "write_magic_header len crc = 0x4F # tl"
    by (cases crc) (auto simp: write_magic_header_def OSF5_IDENTIFIER_def bytes_of_string_def)
  then show ?thesis using p
    by (cases fill; cases "tl @ rest")
       (auto simp: detect_and_wrap_def peek_format_def fill_buf_def take_Cons' split: list.split)
qed

section \<open>Round trip of a file\<close>

lemma meta_channels_describe:
  assumes "fi_version (mb_file_info meta) = 5"
    and "mb_channels meta = map (\<lambda>(i, def). meta_channel_of (of_nat i) def) (List.enumerate 0 defs)"
  shows "meta_describes meta defs"
  using assms by (simp add: meta_describes_def meta_channel_of_def case_prod_unfold comp_def)

lemma bump_one_def_wf: "def_wf d \<Longrightarrow> def_wf (bump_one frame_crc d dat)"
  using bump_one_width [of d frame_crc dat] by (auto simp: def_wf_def bump_one_def)

lemma no_capture: "with_capture_skipped_payload False (block_reader_new i meta) = block_reader_new i meta"
  by (simp add: with_capture_skipped_payload_def block_reader_new_def Let_def split: prod.split)

lemma item_counts:
  "decoded_items (map Inr blks) = length (filter (\<lambda>blk. \<not> is_skipped (blk_kind blk)) blks)"
  "decoded_items (map Inr blks) + skipped_items (map Inr blks) = length blks"
  by (induction blks) auto

text \<open>What a run that ends without an error leaves in the counters.\<close>

lemma run_counters:
  assumes "items crc32c (sized file_size (with_integrity p (block_reader_new i meta))) = (map Inr blks, r')"
  shows "rs_blocks_read (final_stats r') = length (filter (\<lambda>blk. \<not> is_skipped (blk_kind blk)) blks)"
    and "rs_blocks_total (final_stats r') = length blks"
proof -
  let ?r = "sized file_size (with_integrity p (block_reader_new i meta))"
  have "progress_of (sized file_size r) = progress_of r" for r
    by (cases file_size) (simp_all add: sized_def with_file_size_def progress_of_def skipped_total_def)
  then have "pg_skipped (progress_of ?r) = 0" "pg_read (progress_of ?r) = 0"
    using new_reader_progress [of p False i meta] by (simp_all only: no_capture progress.select_convs)
  then have "pg_read (progress_of r') = decoded_items (map Inr blks)"
      "pg_skipped (progress_of r') = skipped_items (map Inr blks)"
    using run_counts [OF items_run [OF assms]] by simp_all
  then show "rs_blocks_read (final_stats r') = length (filter (\<lambda>blk. \<not> is_skipped (blk_kind blk)) blks)"
    "rs_blocks_total (final_stats r') = length blks"
    using item_counts [of blks]
    by (simp_all add: final_stats_def Let_def progress_of_def skipped_total_def)
qed

text \<open>A run without a skipped block leaves no trace of one.\<close>

lemma all_read_counters:
  assumes "items crc32c (sized file_size (with_integrity p (block_reader_new i meta))) = (map Inr blks, r')"
    and "list_all (\<lambda>blk. \<not> is_skipped (blk_kind blk)) blks"
  shows "rs_blocks_crc_failed (final_stats r') = 0"
    and "rs_blocks_total (final_stats r') = rs_blocks_read (final_stats r')"
proof -
  let ?st = "final_stats r'"
  have le: "rs_blocks_read ?st + rs_blocks_crc_failed ?st \<le> rs_blocks_total ?st"
    by (simp add: final_stats_def Let_def)
  have "filter (\<lambda>blk. \<not> is_skipped (blk_kind blk)) blks = blks"
    using assms(2) by (simp add: list_all_iff)
  then have "rs_blocks_total ?st = rs_blocks_read ?st" using run_counters [OF assms(1)] by simp
  with le show "rs_blocks_crc_failed ?st = 0" "rs_blocks_total ?st = rs_blocks_read ?st" by simp_all
qed

lemma load_from_reader_file: "load_from_reader ex fill s = load_from_file ex fill s None"
  by (simp add: load_from_reader_def load_from_file_def)

text \<open>The definitions a sequence of calls adds, and that the width bump leaves every other attribute alone.\<close>

definition added_channels :: "writer_call list \<Rightarrow> channel_def list" where
  "added_channels calls = concat (map (\<lambda>c. case c of AddChannel def \<Rightarrow> [def] | _ \<Rightarrow> []) calls)"

lemma timestamped_channels:
  "add_timestamped_samples ch ts nv b = Inr b' \<Longrightarrow> wb_channels b' = wb_channels b"
  by (cases nv; auto simp: add_timestamped_def append_timestamped_numeric_def update_data_def and_then_eq_Inr_iff
        split: if_splits option.splits)

lemma writer_step_channels:
  assumes "writer_step b c = Inr b'"
  shows "wb_channels b' = wb_channels b @ (case c of AddChannel def \<Rightarrow> [def] | _ \<Rightarrow> [])"
  using assms
  by (cases c)
     (auto simp: add_channel_def add_equidistant_segment_f64_def add_equidistant_segment_f32_def
       add_equidistant_segment_inner_def add_string_samples_def add_binary_samples_def append_variable_def
       update_data_def and_then_eq_Inr_iff map_ok_eq_Inr_iff Let_def
       dest: timestamped_channels split: if_splits option.splits)

lemma added_channels_kept:
  assumes "exec_all writer_step writer_builder_new calls = Inr b"
  shows "added_channels calls = wb_channels b"
proof -
  have "exec_all writer_step b0 calls = Inr b1 \<Longrightarrow> wb_channels b1 = wb_channels b0 @ added_channels calls" for b0 b1
    by (induction calls arbitrary: b0) (auto simp: added_channels_def and_then_eq_Inr_iff writer_step_channels)
  from this [OF assms] show ?thesis by (simp add: writer_builder_new_def)
qed

lemma bumped_attributes:
  "(meta_channel_of i (bump_one frame_crc def dat))\<lparr>mc_size_of_length_value := cd_size_of_length_value def\<rparr> = meta_channel_of i def"
  by (simp add: bump_one_def meta_channel_of_def Let_def)

lemma written_file_kept:
  fixes ex :: "'n externals"
  assumes "\<forall>c \<in> set calls. good_call c" and "exec_all writer_step writer_builder_new calls = Inr b"
    and "wb_channels b \<noteq> []" and "length (wb_channels b) \<le> 0xFFFE"
    and "\<forall>dat \<in> set (wb_channel_data b). texts_fit dat"
    and "profile = IpNone \<or> profile = IpCrc32c"
    and "exact_integers (ex_serde_json ex)"
    and "\<forall>defs. autobump_size_of_length_value (wb_channels b) (wb_channel_data b) (profile = IpCrc32c) = Inr defs
           \<longrightarrow> prints_faithfully (ex_serde_json ex) (metablock_document (ex_serde_json ex) now info defs)"
  shows "\<exists>bytes m. write_to (ex_serde_json ex) (ex_crc32c ex) now
         (b\<lparr>wb_integrity := profile, wb_file_info := info\<rparr>) = Inr bytes
     \<and> load_from_file ex fill (source bytes) file_size = Inr m
     \<and> map (\<lambda>c. (channel_name c, channel_data_type c, channel_log c)) (dm_channels m)
         = map (\<lambda>(name, dt, entries). (name, dt, Inr entries)) (fold call_log calls [])
     \<and> rs_blocks_truncated (dm_stats m) = 0 \<and> rs_blocks_crc_failed (dm_stats m) = 0
     \<and> rs_blocks_total (dm_stats m) = rs_blocks_read (dm_stats m)
     \<and> rs_compression_format (dm_stats m) = CfNone
     \<and> info_kept now info (mb_file_info (dm_meta m)) \<and> fi_version (mb_file_info (dm_meta m)) = 5
     \<and> mb_infos (dm_meta m) = []
     \<and> list_all2 (\<lambda>(i, def) c. c\<lparr>mc_size_of_length_value := cd_size_of_length_value def\<rparr> = meta_channel_of (of_nat i) def)
         (List.enumerate 0 (added_channels calls)) (mb_channels (dm_meta m))"
proof -
  let ?sj = "ex_serde_json ex" and ?crc = "ex_crc32c ex" and ?frame = "profile = IpCrc32c"
  have profile: "profile = IpNone \<longleftrightarrow> \<not> ?frame" using assms(6) by auto
  show ?thesis
  proof (rule calls_delivered [OF assms(1,2,4,5) profile, where crc32c = "ex_crc32c ex" and file_size = file_size])
    fix defs data
    assume d: "autobump_size_of_length_value (wb_channels b) (wb_channel_data b) ?frame = Inr defs"
        "write_data_blocks ?crc defs (wb_channel_data b) ?frame = Inr data"
        "length defs = length (wb_channels b)"
        "\<forall>i < length (wb_channels b). defs ! i = bump_one ?frame (wb_channels b ! i) (wb_channel_data b ! i)"
      and reads: "\<And>meta. meta_describes meta defs \<Longrightarrow> \<exists>blks r' channels by_name by_index.
         items ?crc (sized file_size (with_integrity profile (block_reader_new (source data) meta))) = (map Inr blks, r')
         \<and> list_all (\<lambda>blk. \<not> is_skipped (blk_kind blk)) blks
         \<and> trouble (br_stats r') = no_trouble
         \<and> build_channels meta (map Inr blks) = Inr (channels, by_name, by_index)
         \<and> map (\<lambda>c. (channel_name c, channel_data_type c, channel_log c)) channels
             = map (\<lambda>(name, dt, entries). (name, dt, Inr entries)) (fold call_log calls [])"
    have "writer_wf b" using exec_log [OF new_builder_wf assms(1,2)] by simp
    then have "\<forall>d \<in> set defs. def_wf d"
      using d(3,4) by (auto simp: writer_wf_def in_set_conv_nth [of _ defs] intro!: bump_one_def_wf)
    from parse_printed_metablock [OF assms(7) assms(8) [rule_format, OF d(1)] this]
    obtain body fi where m: "build_metablock_json ?sj now info defs = Inr body" "length body < 2 ^ 63"
      "parse_metablock_json ?sj body =
         Inr \<lparr>mb_file_info = fi\<lparr>fi_version := 5\<rparr>,
              mb_channels = map (\<lambda>(i, def). meta_channel_of (of_nat i) def) (List.enumerate 0 defs), mb_infos = []\<rparr>"
      "info_kept now info fi"
      unfolding info_kept_def by metis
    let ?meta = "\<lparr>mb_file_info = fi\<lparr>fi_version := 5\<rparr>,
              mb_channels = map (\<lambda>(i, def). meta_channel_of (of_nat i) def) (List.enumerate 0 defs), mb_infos = []\<rparr>"
    let ?c = "if ?frame then Some (?crc body) else None"
    let ?bytes = "write_magic_header (length body) ?c @ body @ data"
    have written: "write_to ?sj ?crc now (b\<lparr>wb_integrity := profile, wb_file_info := info\<rparr>) = Inr ?bytes"
      using assms(3,6) d(1,2) m(1) by (auto simp: write_to_def)
    obtain blks r' channels by_name by_index where
      r: "items ?crc (sized file_size (with_integrity profile (block_reader_new (source data) ?meta))) = (map Inr blks, r')"
        "list_all (\<lambda>blk. \<not> is_skipped (blk_kind blk)) blks"
        "trouble (br_stats r') = no_trouble"
        "build_channels ?meta (map Inr blks) = Inr (channels, by_name, by_index)"
        "map (\<lambda>c. (channel_name c, channel_data_type c, channel_log c)) channels
             = map (\<lambda>(name, dt, entries). (name, dt, Inr entries)) (fold call_log calls [])"
      using reads [OF meta_channels_describe [of ?meta defs]] by auto
    have opened: "open_metablock ex (source ?bytes) =
        Inr (\<lparr>mh_version = Osf5, mh_metablock_len = length body, mh_integrity = profile, mh_metablock_crc = ?c\<rparr>,
             ?meta, source (body @ data), source data)"
      using open_metablock_written [where ex = ex and crc = ?c and body = body and data = data
          and s = "source ?bytes", OF m(2) _ _ m(3)] assms(6)
      by (auto simp: source_def)
    let ?m = "\<lparr>dm_meta = ?meta,
        dm_stats = (final_stats r')\<lparr>rs_metablock_size_bytes := length body, rs_compressed := False,
                     rs_compression_format := CfNone\<rparr>,
        dm_channels = channels, dm_by_name = by_name, dm_by_index = by_index\<rparr>"
    have "load_from_file ex fill (source ?bytes) file_size = Inr ?m"
      using r(1) by (simp add: load_from_file_def written_is_plain load_from_stream_with_size_def opened r(4) sized_def)
    moreover have "rs_blocks_truncated (final_stats r') = 0" using r(3) by (simp add: final_stats_def Let_def no_trouble_counters)
    moreover have "info_kept now info (fi\<lparr>fi_version := 5\<rparr>)" using m(4) by (simp add: info_kept_def)
    moreover have "list_all2 (\<lambda>(i, def) c. c\<lparr>mc_size_of_length_value := cd_size_of_length_value def\<rparr> = meta_channel_of (of_nat i) def)
         (List.enumerate 0 (added_channels calls)) (mb_channels ?meta)"
      using d(3,4) by (simp add: added_channels_kept [OF assms(2)] list_all2_conv_all_nth nth_enumerate_eq bumped_attributes)
    ultimately show ?thesis using written r(5) all_read_counters [OF r(1,2)]
      by (intro exI [of _ ?bytes] exI [of _ ?m]) simp
  qed
qed

lemma written_file_loads:
  fixes ex :: "'n externals"
  assumes "\<forall>c \<in> set calls. good_call c" and "exec_all writer_step writer_builder_new calls = Inr b"
    and "wb_channels b \<noteq> []" and "length (wb_channels b) \<le> 0xFFFE"
    and "\<forall>dat \<in> set (wb_channel_data b). texts_fit dat"
    and "profile = IpNone \<or> profile = IpCrc32c"
    and "exact_integers (ex_serde_json ex)"
    and "\<forall>defs. autobump_size_of_length_value (wb_channels b) (wb_channel_data b) (profile = IpCrc32c) = Inr defs
           \<longrightarrow> prints_faithfully (ex_serde_json ex) (metablock_document (ex_serde_json ex) now info defs)"
  shows "\<exists>bytes m. write_to (ex_serde_json ex) (ex_crc32c ex) now
         (b\<lparr>wb_integrity := profile, wb_file_info := info\<rparr>) = Inr bytes
     \<and> load_from_file ex fill (source bytes) file_size = Inr m
     \<and> map (\<lambda>c. (channel_name c, channel_data_type c, channel_log c)) (dm_channels m)
         = map (\<lambda>(name, dt, entries). (name, dt, Inr entries)) (fold call_log calls [])
     \<and> rs_blocks_truncated (dm_stats m) = 0 \<and> rs_blocks_crc_failed (dm_stats m) = 0
     \<and> rs_blocks_total (dm_stats m) = rs_blocks_read (dm_stats m)
     \<and> rs_compression_format (dm_stats m) = CfNone
     \<and> fi_created_utc (mb_file_info (dm_meta m)) = Some now
     \<and> fi_comment (mb_file_info (dm_meta m)) = fd_comment info"
  using written_file_kept [OF assms, of fill file_size] unfolding info_kept_def by blast

text \<open>
  C1. Writing a file and loading it is the identity. Take any sequence of calls on a new \<open>WriterBuilder\<close> that
  succeeds, declares between 1 and 65534 channels and adds no text or binary value of \<open>2 ^ 32 - 13\<close> bytes or more;
  any file metadata; either integrity level; and a JSON library that keeps integers exact and parses the
  metablock it printed. Then \<open>write_to\<close> succeeds, and loading the written bytes, through a source that delivers
  them in any portions, succeeds, uncompressed and with no block truncated, skipped or damaged. The channels
  are there in order, each with its name, its datatype and exactly the timed samples the calls added. The
  metablock has the creation time, the texts of the file metadata that were set (creator and tag with their
  defaults otherwise), no position that was not set and no infos, and every attribute of every channel
  definition, where only the width of the length field may have grown. How exactly a position that was set
  is printed is left to the JSON library.
\<close>

theorem file_roundtrip:
  fixes ex :: "'n externals"
  assumes "\<forall>c \<in> set calls. good_call c" and "exec_all writer_step writer_builder_new calls = Inr b"
    and "wb_channels b \<noteq> []" and "length (wb_channels b) \<le> 0xFFFE"
    and "\<forall>dat \<in> set (wb_channel_data b). texts_fit dat"
    and "profile = IpNone \<or> profile = IpCrc32c"
    and "exact_integers (ex_serde_json ex)"
    and "\<forall>defs. autobump_size_of_length_value (wb_channels b) (wb_channel_data b) (profile = IpCrc32c) = Inr defs
           \<longrightarrow> prints_faithfully (ex_serde_json ex) (metablock_document (ex_serde_json ex) now info defs)"
  shows "\<exists>bytes m. write_to (ex_serde_json ex) (ex_crc32c ex) now
         (b\<lparr>wb_integrity := profile, wb_file_info := info\<rparr>) = Inr bytes
     \<and> load_from_reader ex fill (source bytes) = Inr m
     \<and> map (\<lambda>c. (channel_name c, channel_data_type c, channel_log c)) (dm_channels m)
         = map (\<lambda>(name, dt, entries). (name, dt, Inr entries)) (fold call_log calls [])
     \<and> rs_blocks_truncated (dm_stats m) = 0 \<and> rs_blocks_crc_failed (dm_stats m) = 0
     \<and> rs_blocks_total (dm_stats m) = rs_blocks_read (dm_stats m)
     \<and> rs_compression_format (dm_stats m) = CfNone
     \<and> info_kept now info (mb_file_info (dm_meta m)) \<and> fi_version (mb_file_info (dm_meta m)) = 5
     \<and> mb_infos (dm_meta m) = []
     \<and> list_all2 (\<lambda>(i, def) c. c\<lparr>mc_size_of_length_value := cd_size_of_length_value def\<rparr> = meta_channel_of (of_nat i) def)
         (List.enumerate 0 (added_channels calls)) (mb_channels (dm_meta m))"
  unfolding load_from_reader_file using assms by (rule written_file_kept)

text \<open>External functions for concrete runs: numbers are integers, and nothing is decompressed.\<close>

definition demo_externals :: "int json option \<Rightarrow> int externals" where
  "demo_externals doc =
     \<lparr>ex_serde_json = demo_serde doc, ex_quick_xml = (\<lambda>_. []),
      ex_flate2 = \<lparr>zlib_decoder = (\<lambda>s. s), gz_decoder = (\<lambda>s. s\<lparr>pending := drop 2 (pending s)\<rparr>)\<rparr>,
      ex_crc32c = (\<lambda>bs. of_nat (length bs))\<rparr>"

text \<open>A builder with one channel and one sample, and the document its metablock is.\<close>

definition demo_def :: channel_def where
  "demo_def = channel_def_default\<lparr>cd_data_type := DtInt8\<rparr>"

definition demo_builder :: writer_builder where
  "demo_builder = writer_builder_new\<lparr>wb_name_to_index := [[] \<mapsto> 0], wb_channels := [demo_def],
      wb_channel_data := [CdTimestamped [5] (NvInt8 [7])]\<rparr>"

definition demo_written_externals :: "int externals" where
  "demo_written_externals =
     demo_externals (Some (metablock_document (demo_serde None) ''now'' file_info_draft_default [demo_def]))"

lemma demo_calls:
  "exec_all writer_step writer_builder_new [AddChannel demo_def, AddTimestamped 0 [5] (NvInt8 [7])]
     = Inr demo_builder"
  by (simp add: add_channel_def channel_def_default_def writer_builder_new_def Let_def add_timestamped_def
        append_timestamped_numeric_def channel_def_at_def update_data_def index_at_def demo_def_def demo_builder_def)

lemma demo_log:
  "fold call_log [AddChannel demo_def, AddTimestamped 0 [5] (NvInt8 [7])] []
     = [([], DtInt8, [(5, NumSample (VrInt8 7))])]"
  by (simp add: append_log_def channel_def_default_def demo_def_def)

lemma demo_builder_fields:
  "wb_channels demo_builder = [demo_def]"
  "wb_channel_data demo_builder = [CdTimestamped [5] (NvInt8 [7])]"
  "demo_builder\<lparr>wb_integrity := p, wb_file_info := file_info_draft_default\<rparr> = demo_builder\<lparr>wb_integrity := p\<rparr>"
  by (simp_all add: demo_builder_def writer_builder_new_def)

lemma demo_bump:
  "autobump_size_of_length_value [demo_def] [CdTimestamped [5] (NvInt8 [7])] frame_crc = Inr [demo_def]"
  by (simp add: autobump_size_of_length_value_def index_at_def bump_one_def channel_def_default_def demo_def_def
        crc_reserve_def MAX_BLOCK_PAYLOAD_U16_def)

lemma demo_written:
  "ex_crc32c demo_written_externals = (\<lambda>bs. of_nat (length bs))"
  "exact_integers (ex_serde_json demo_written_externals)"
  "prints_faithfully (ex_serde_json demo_written_externals)
     (metablock_document (ex_serde_json demo_written_externals) ''now'' file_info_draft_default [demo_def])"
  by (simp_all add: demo_written_externals_def demo_externals_def demo_serde_exact demo_serde_prints)

lemmas demo_conditions = demo_written demo_bump demo_builder_fields texts_fit_def

theorem file_roundtrip_witness:
  "\<exists>bytes m. write_to (ex_serde_json demo_written_externals) (\<lambda>bs. of_nat (length bs)) ''now''
       (demo_builder\<lparr>wb_integrity := IpCrc32c\<rparr>) = Inr bytes
     \<and> load_from_reader demo_written_externals 1 (source bytes) = Inr m
     \<and> map channel_log (dm_channels m) = [Inr [(5, NumSample (VrInt8 7))]]"
proof -
  have "\<exists>bytes m. write_to (ex_serde_json demo_written_externals) (ex_crc32c demo_written_externals) ''now''
         (demo_builder\<lparr>wb_integrity := IpCrc32c, wb_file_info := file_info_draft_default\<rparr>) = Inr bytes
     \<and> load_from_reader demo_written_externals 1 (source bytes) = Inr m
     \<and> map (\<lambda>c. (channel_name c, channel_data_type c, channel_log c)) (dm_channels m)
         = map (\<lambda>(name, dt, entries). (name, dt, Inr entries))
             (fold call_log [AddChannel demo_def, AddTimestamped 0 [5] (NvInt8 [7])] [])
     \<and> rs_blocks_truncated (dm_stats m) = 0 \<and> rs_blocks_crc_failed (dm_stats m) = 0
     \<and> rs_blocks_total (dm_stats m) = rs_blocks_read (dm_stats m)
     \<and> rs_compression_format (dm_stats m) = CfNone
     \<and> info_kept ''now'' file_info_draft_default (mb_file_info (dm_meta m)) \<and> fi_version (mb_file_info (dm_meta m)) = 5
     \<and> mb_infos (dm_meta m) = []
     \<and> list_all2 (\<lambda>(i, def) c. c\<lparr>mc_size_of_length_value := cd_size_of_length_value def\<rparr> = meta_channel_of (of_nat i) def)
         (List.enumerate 0 (added_channels [AddChannel demo_def, AddTimestamped 0 [5] (NvInt8 [7])])) (mb_channels (dm_meta m))"
    by (rule file_roundtrip [OF _ demo_calls]) (simp_all add: demo_conditions)
  then obtain bytes m where
    "write_to (ex_serde_json demo_written_externals) (\<lambda>bs. of_nat (length bs)) ''now''
       (demo_builder\<lparr>wb_integrity := IpCrc32c\<rparr>) = Inr bytes"
    "load_from_reader demo_written_externals 1 (source bytes) = Inr m"
    and chans: "map (\<lambda>c. (channel_name c, channel_data_type c, channel_log c)) (dm_channels m)
       = [([], DtInt8, Inr [(5, NumSample (VrInt8 7))])]"
    unfolding demo_log demo_conditions by auto
  moreover from chans have "map channel_log (dm_channels m) = [Inr [(5, NumSample (VrInt8 7))]]"
    by (cases "dm_channels m") auto
  ultimately show ?thesis by (intro exI conjI)
qed

section \<open>Damaged and hostile files\<close>

text \<open>
  C21. A damaged metablock is never interpreted. Take a source, compressed or not, whose header line is accepted
  and holds a \<open>crc32c\<close> token, in any spelling of the line the parser takes: whichever tokens stand before or
  after it, a signature token included. If the body of the declared length has another checksum than the last
  such token says, loading ends with \<open>MetablockCrcMismatch\<close> and both values, whatever the body holds and
  whatever follows it, through each of the three entry points.
\<close>

theorem damaged_metablock_is_rejected:
  assumes "detect_and_wrap fill s = Inr st" and "read_first_line (read_source (ex_flate2 ex) st) = (Inr line, s1)"
    and "parse_magic_header_line line = Inr header" and "crc_tokens line \<noteq> []"
    and "pending s1 = body @ data" and "length body = mh_metablock_len header" and "length body < 2 ^ 63"
    and "declared_crc line \<noteq> Some (unat (ex_crc32c ex body))"
  shows "\<exists>crc. declared_crc line = Some (unat crc)
     \<and> load_from_reader ex fill s = Inl (MetablockCrcMismatch crc (ex_crc32c ex body))
     \<and> load_from_file ex fill s file_size = Inl (MetablockCrcMismatch crc (ex_crc32c ex body))
     \<and> read_file ex fill s n = Inl (MetablockCrcMismatch crc (ex_crc32c ex body))"
proof -
  have kept: "map_option unat (mh_metablock_crc header) = declared_crc line" using assms(3) by (rule declared_crc_kept)
  obtain crc where crc: "mh_metablock_crc header = Some crc" using declared_crc_found [OF assms(3,4)] .
  then have declared: "declared_crc line = Some (unat crc)" using kept by simp
  then have wrong: "ex_crc32c ex body \<noteq> crc" using assms(8) by auto
  have "open_metablock ex (read_source (ex_flate2 ex) st) = Inl (MetablockCrcMismatch crc (ex_crc32c ex body))"
    using assms(2,3,5-7) crc wrong
    by (simp add: open_metablock_def parse_magic_header_def read_body_def read_exact_append verify_metablock_crc_def)
  then show ?thesis using declared
    by (simp add: load_from_reader_def load_from_file_def read_file_def assms(1) load_from_stream_with_size_def)
qed

text \<open>A header with a signature token after the checksum.\<close>

theorem damaged_metablock_is_rejected_witness:
  "load_from_reader (demo_externals None) 4
     (source (bytes_of_string ''OSF5 2 crc32c:00000007 ed25519:0123456789abcdef'' @ [10, 123, 125]))
       = Inl (MetablockCrcMismatch 7 2)"
proof -
  let ?line = "''OSF5 2 crc32c:00000007 ed25519:0123456789abcdef''"
  let ?s = "source (bytes_of_string ?line @ [10, 123, 125])"
  have line: "read_first_line ?s = (Inr ?line, source [123, 125])" by code_simp
  have header: "parse_magic_header_line ?line
      = Inr \<lparr>mh_version = Osf5, mh_metablock_len = 2, mh_integrity = IpEd25519, mh_metablock_crc = Some 7\<rparr>"
    by (simp add: parse_magic_header_line_def split_once_def identifier_to_version_def parse_unsigned_def token_step_def
        is_key_char_def is_ascii_digit_def parse_crc32c_token_def is_upper_hex_def parse_hex_def hex_step_def hex_value_def
        validate_ed25519_keyid_def is_lower_hex_def token_init_def digits_value_def digit_value_def Let_def)
  have tokens: "crc_tokens ?line = [''crc32c:00000007'']" by code_simp
  then have crc: "crc_tokens ?line = [''crc32c:00000007'']" "declared_crc ?line = Some 7"
    by (simp_all add: declared_crc_def parse_hex_def hex_step_def hex_value_def is_lower_hex_def is_upper_hex_def is_ascii_digit_def)
  have plain: "detect_and_wrap 4 ?s = Inr (Plain ?s)"
    by (simp add: detect_and_wrap_def peek_format_def fill_buf_def bytes_of_string_def)
  have "\<exists>crc. declared_crc ?line = Some (unat crc)
     \<and> load_from_reader (demo_externals None) 4 ?s = Inl (MetablockCrcMismatch crc (ex_crc32c (demo_externals None) [123, 125]))
     \<and> load_from_file (demo_externals None) 4 ?s None = Inl (MetablockCrcMismatch crc (ex_crc32c (demo_externals None) [123, 125]))
     \<and> read_file (demo_externals None) 4 ?s 9 = Inl (MetablockCrcMismatch crc (ex_crc32c (demo_externals None) [123, 125]))"
    by (rule damaged_metablock_is_rejected [OF plain _ header, where ?s1.0 = "source [123, 125]" and data = "[]"])
       (simp_all add: line crc demo_externals_def)
  then obtain c :: u32 where c: "unat c = 7" "load_from_reader (demo_externals None) 4 ?s = Inl (MetablockCrcMismatch c 2)"
    unfolding crc by (auto simp: demo_externals_def)
  from c(1) have "c = 7" using word_unat_eq_iff [of c 7] by simp
  with c(2) show ?thesis by simp
qed

lemma parse_metablock_no_panic: "refuses (\<lambda>e. \<not> is_panic e) (parse_metablock ex version body)"
proof (cases version)
  case Osf4
  have "refuses xml_error (parse_metablock_xml (ex_quick_xml ex) body)"
    unfolding parse_metablock_xml_def
    by (rule conjunct1 [OF xml_loop_wf]) (simp add: xml_meta_wf_def meta_block_default_def)
  then show ?thesis using Osf4
    by (auto simp: parse_metablock_def xml_error_def metablock_error_def elim!: refuses_mono split: osf_error.splits)
next
  case Osf5
  then show ?thesis using refuses_metablock [of "ex_serde_json ex" body]
    by (auto simp: parse_metablock_def metablock_error_def elim!: refuses_mono split: osf_error.splits)
qed

lemma first_line_no_panic: "refuses (\<lambda>e. \<not> is_panic e) (fst (first_line_loop flt buf bs))"
  by (induction flt buf bs rule: first_line_loop.induct) (auto intro: refusal)

lemma token_step_no_panic [refusal]: "refuses (\<lambda>e. \<not> is_panic e) (token_step version token st)"
proof (cases "split_once (CHR '':'') token")
  case None
  show ?thesis unfolding token_step_def None option.case by (intro refusal; simp)
next
  case (Some pair)
  obtain key val where pair: "pair = (key, val)" by (cases pair)
  have "refuses (\<lambda>e. \<not> is_panic e) (parse_crc32c_token val)"
    unfolding parse_crc32c_token_def map_ok_def
    by (auto simp: refuses_def split: sum.split)
  moreover have "refuses (\<lambda>e. \<not> is_panic e) (validate_ed25519_keyid val)"
    unfolding validate_ed25519_keyid_def by (intro refusal; simp)
  ultimately show ?thesis unfolding token_step_def Some pair option.case prod.case
    by (intro refusal; simp)
qed

lemma parse_tokens_no_panic [refusal]: "refuses (\<lambda>e. \<not> is_panic e) (parse_tokens version toks st)"
  by (induction toks arbitrary: st) (auto intro!: refusal)

lemma parse_magic_header_no_panic: "refuses (\<lambda>e. \<not> is_panic e) (fst (parse_magic_header s))"
proof -
  have "refuses (\<lambda>e. \<not> is_panic e) (fst (read_first_line s))"
    using first_line_no_panic [of "faulty s" "[]" "pending s"]
    by (auto simp: read_first_line_def Let_def split: prod.split intro!: refusal)
  moreover have "refuses (\<lambda>e. \<not> is_panic e) (parse_magic_header_line line)" for line
    unfolding parse_magic_header_line_def identifier_to_version_def Let_def
    by (auto intro!: refusal split: option.split prod.split)
  ultimately show ?thesis by (auto simp: parse_magic_header_def split: prod.split intro!: refusal)
qed

lemma detect_no_panic: "refuses (\<lambda>e. \<not> is_panic e) (detect_and_wrap fill s)"
  by (auto simp: refuses_def detect_and_wrap_def peek_format_def fill_buf_def and_then_eq_Inl_iff
        split: if_splits)

text \<open>The only panic of a loader: a metablock length above \<open>isize::MAX\<close> in the header.\<close>

lemma open_metablock_panic:
  "open_metablock ex s = Inl (Panic p) \<longleftrightarrow>
     (\<exists>h s1. parse_magic_header s = (Inr h, s1) \<and> 2 ^ 63 \<le> mh_metablock_len h \<and> p = ''capacity overflow'')"
proof -
  obtain r s1 where h: "parse_magic_header s = (r, s1)" by (cases "parse_magic_header s")
  show ?thesis
  proof (cases r)
    case (Inl e)
    then have "\<not> is_panic e" using parse_magic_header_no_panic [of s] h by (simp add: refuses_def)
    then show ?thesis using h Inl by (auto simp: open_metablock_def)
  next
    case (Inr header)
    have verify: "verify_metablock_crc c w body \<noteq> Inl (Panic q)" for c w body q
      by (simp add: verify_metablock_crc_def split: option.split)
    have parse: "parse_metablock ex v body \<noteq> Inl (Panic q)" for v body q
      using parse_metablock_no_panic [of ex v body] by (auto simp: refuses_def)
    show ?thesis
    proof (cases "2 ^ 63 \<le> mh_metablock_len header")
      case True
      then show ?thesis using h Inr by (auto simp: open_metablock_def read_body_def)
    next
      case False
      then show ?thesis using h Inr verify parse
        by (auto simp: open_metablock_def read_body_def and_then_eq_Inl_iff split: prod.splits io.splits)
    qed
  qed
qed

lemma build_no_panic: "build_channels meta (fst (items crc32c r)) \<noteq> Inl (Panic p)"
proof
  assume "build_channels meta (fst (items crc32c r)) = Inl (Panic p)"
  then have "exec_all feed_block (foldl insert_builder Map.empty (mb_channels meta)) (fst (items crc32c r)) = Inl (Panic p)"
    by (simp add: build_channels_def)
  moreover have "\<forall>x \<in> set (fst (items crc32c r)). item_no_panic x" using no_panic_items.items_ok by blast
  ultimately have "\<not> is_panic (Panic p)"
    using block_loop.exec_error [OF initial_builders_wf [OF empty_builders_wf]] by blast
  then show False by simp
qed

text \<open>
  C20. A hostile file can make the loader panic in exactly one way. Whatever the bytes, the
  decoders, the JSON and the XML parser do, \<open>load_from_reader\<close> panics exactly when the header
  declares a metablock longer than \<open>isize::MAX\<close>, where allocating the body overflows the
  capacity; every other file is loaded or refused with an ordinary error.
\<close>

theorem loader_panics_only_on_capacity:
  "load_from_reader ex fill s = Inl (Panic p) \<longleftrightarrow>
     p = ''capacity overflow''
     \<and> (\<exists>st h s1. detect_and_wrap fill s = Inr st
          \<and> parse_magic_header (read_source (ex_flate2 ex) st) = (Inr h, s1)
          \<and> 2 ^ 63 \<le> mh_metablock_len h)"
proof -
  have "detect_and_wrap fill s \<noteq> Inl (Panic p)"
    using detect_no_panic [of fill s] by (auto simp: refuses_def)
  moreover have "load_from_stream_with_size ex st None = Inl (Panic p) \<longleftrightarrow>
      open_metablock ex (read_source (ex_flate2 ex) st) = Inl (Panic p)" for st
  proof (cases "open_metablock ex (read_source (ex_flate2 ex) st)")
    case (Inr parts)
    obtain h meta a rest where parts: "parts = (h, meta, a, rest)" by (cases parts)
    show ?thesis
      using Inr build_no_panic [of meta "ex_crc32c ex" "with_integrity (mh_integrity h) (block_reader_new rest meta)" p]
      by (auto simp: parts load_from_stream_with_size_def Let_def case_prod_unfold)
  qed (simp add: load_from_stream_with_size_def)
  ultimately show ?thesis
    by (auto simp: load_from_reader_def and_then_eq_Inl_iff open_metablock_panic)
qed

section \<open>Compression\<close>

lemma first_line_loop_Inr:
  "first_line_loop flt buf bs = (Inr r, rest) \<Longrightarrow> \<exists>line. r = buf @ line \<and> bs = line @ 10 # rest"
proof (induction flt buf bs rule: first_line_loop.induct)
  case (2 flt buf b bs)
  show ?case
  proof (cases "b = 10")
    case True
    then show ?thesis using "2.prems" by simp
  next
    case False
    then show ?thesis using 2 by (auto split: if_splits)
  qed
qed simp

text \<open>
  An accepted header line starts with the letter \<open>O\<close> of its identifier, so a source that starts with another
  byte is refused.
\<close>

lemma header_line_initial: "parse_magic_header_line line = Inr h \<Longrightarrow> \<exists>t. line = CHR ''O'' # t"
proof -
  assume h: "parse_magic_header_line line = Inr h"
  then obtain rest where "split_once CHR '' '' line = Some (takeWhile (\<lambda>x. x \<noteq> CHR '' '') line, rest)"
    by (auto simp: parse_magic_header_line_def split_once_def split: option.splits list.splits)
  with h have "\<exists>v. identifier_to_version (takeWhile (\<lambda>x. x \<noteq> CHR '' '') line) = Inr v"
    by (auto simp: parse_magic_header_line_def and_then_eq_Inr_iff)
  then obtain t where "takeWhile (\<lambda>x. x \<noteq> CHR '' '') line = CHR ''O'' # t"
    by (auto simp: identifier_to_version_def split: if_splits)
  then show ?thesis by (cases line) (auto split: if_splits)
qed

lemma other_initial_refused:
  assumes "pending s = b # rest" and "b \<noteq> 0x4F"
  shows "\<exists>e. fst (parse_magic_header s) = Inl e \<and> \<not> is_panic e"
proof (cases "fst (parse_magic_header s)")
  case (Inl e)
  then show ?thesis using parse_magic_header_no_panic [of s] by (simp add: refuses_def)
next
  case (Inr h)
  obtain r bs where l: "first_line_loop (faulty s) [] (pending s) = (r, bs)"
    by (cases "first_line_loop (faulty s) [] (pending s)")
  with Inr obtain buf line where buf: "r = Inr buf" "from_utf8 (trim_cr buf) = Some line"
      "parse_magic_header_line line = Inr h"
    by (auto simp: parse_magic_header_def read_first_line_def and_then_eq_Inr_iff ok_or_eq_Inr_iff)
  obtain t where "line = CHR ''O'' # t" using header_line_initial [OF buf(3)] by blast
  then obtain c t' where c: "trim_cr buf = c # t'" "char_of (unat c) = CHR ''O''"
    using buf(2) by (auto simp: from_utf8_def string_of_bytes_def split: if_splits)
  then obtain t'' where "buf = c # t''" by (cases buf) (auto simp: trim_cr_def split: if_splits)
  then have "c = b" using first_line_loop_Inr [of "faulty s" "[]" "pending s" buf bs] l buf(1) assms(1) by auto
  have "(of_char (char_of (unat c) :: char) :: nat) = 0x4F" unfolding c(2) by simp
  then have "unat c = 0x4F" using unsigned_less [of c, where ?'a = nat] by simp
  then have "c = 0x4F" using word_unat_eq_iff [of c "0x4F"] by simp
  with assms(2) \<open>c = b\<close> show ?thesis by simp
qed

text \<open>The magic bytes \<open>peek_format\<close> knows.\<close>

definition compression_magic :: "byte list \<Rightarrow> bool" where
  "compression_magic bs \<longleftrightarrow> take 2 bs \<in> {[0x1F, 0x8B], [0x78, 0x01], [0x78, 0x5E], [0x78, 0x9C], [0x78, 0xDA]}"

text \<open>Telemetry that reports a compression.\<close>

definition reported_as :: "compression_format \<Rightarrow> reader_stats \<Rightarrow> reader_stats" where
  "reported_as format st = st\<lparr>rs_compressed := True, rs_compression_format := format\<rparr>"

lemma no_magic_is_plain:
  assumes "\<not> compression_magic (take fill (pending s))"
  shows "detect_and_wrap fill s = (if pending s = [] \<and> faulty s then Inl (Io OtherIo) else Inr (Plain s))"
proof -
  obtain h where h: "take fill (pending s) = h" and no: "\<not> compression_magic h" using assms by blast
  have "(case h of
              first # second # _ \<Rightarrow>
                if first = 0x1F \<and> second = 0x8B then CfGzip
                else if first = 0x78 \<and> second \<in> {0x01, 0x5E, 0x9C, 0xDA} then CfZlib
                else CfNone
            | _ \<Rightarrow> CfNone) = CfNone"
    using no by (cases h; cases "List.tl h") (auto simp: compression_magic_def)
  then show ?thesis by (simp add: detect_and_wrap_def peek_format_def fill_buf_def h)
qed

lemma exhausted_open: "pending s = [] \<Longrightarrow> faulty s \<Longrightarrow> open_metablock ex s = Inl (Io OtherIo)"
  by (simp add: open_metablock_def parse_magic_header_def read_first_line_def)

lemma magic_refused:
  assumes "compression_magic (pending s)"
  shows "\<exists>e. open_metablock ex s = Inl e \<and> \<not> is_panic e"
proof -
  obtain b rest where b: "pending s = b # rest" "b \<noteq> 0x4F"
    using assms by (cases "pending s") (auto simp: compression_magic_def)
  show ?thesis using other_initial_refused [OF b]
    by (cases "parse_magic_header s") (auto simp: open_metablock_def)
qed

text \<open>
  C34. Compression is transparent. Let the first read show the two magic bytes of gzip or of zlib. When what
  the decoder makes of the file does not itself show such magic bytes to a first read, then loading the file,
  from a reader or from a file, and reading its blocks, is doing the same with the decoded bytes, as an
  uncompressed file and with the same errors, channels, blocks and telemetry, except for the two fields that
  report the compression. Compression is undone once: a file that was compressed twice, whose decoded bytes
  start with such magic bytes again, is refused with an error by all three.
\<close>

theorem compression_is_transparent:
  fixes ex :: "'n externals"
  assumes "2 \<le> fill" and "pending s = first # second # rest"
    and "first = 0x1F \<and> second = 0x8B \<and> format = CfGzip \<and> s' = gz_decoder (ex_flate2 ex) s
       \<or> first = 0x78 \<and> second \<in> {0x01, 0x5E, 0x9C, 0xDA} \<and> format = CfZlib \<and> s' = zlib_decoder (ex_flate2 ex) s"
  shows "(\<forall>fill'. \<not> compression_magic (take fill' (pending s')) \<longrightarrow>
       load_from_reader ex fill s = map_ok (\<lambda>m. m\<lparr>dm_stats := reported_as format (dm_stats m)\<rparr>) (load_from_reader ex fill' s')
     \<and> load_from_file ex fill s file_size
         = map_ok (\<lambda>m. m\<lparr>dm_stats := reported_as format (dm_stats m)\<rparr>) (load_from_file ex fill' s' file_size)
     \<and> read_file ex fill s n = map_ok (\<lambda>(meta, blocks, stats). (meta, blocks, reported_as format stats)) (read_file ex fill' s' n))
     \<and> (compression_magic (pending s') \<longrightarrow>
       (\<exists>e. load_from_reader ex fill s = Inl e \<and> load_from_file ex fill s file_size = Inl e
          \<and> read_file ex fill s n = Inl e \<and> \<not> is_panic e))"
proof -
  obtain k where k: "fill = Suc (Suc k)" using assms(1) by (metis Suc_le_D numeral_2_eq_2 Suc_le_mono)
  have "\<exists>st. detect_and_wrap fill s = Inr st \<and> read_source (ex_flate2 ex) st = s'
      \<and> is_compressed st \<and> detected_format st = format"
    using assms(2,3) by (auto simp: k detect_and_wrap_def peek_format_def fill_buf_def)
  then obtain st where st: "detect_and_wrap fill s = Inr st" "read_source (ex_flate2 ex) st = s'"
      "is_compressed st" "detected_format st = format" by blast
  have stream: "load_from_stream_with_size ex st size =
     map_ok (\<lambda>m. m\<lparr>dm_stats := reported_as format (dm_stats m)\<rparr>) (load_from_stream_with_size ex (Plain s') size)" for size
    using st(2-4)
    by (cases "open_metablock ex s'")
       (auto simp: load_from_stream_with_size_def map_ok_def case_prod_unfold Let_def reported_as_def split: sum.split)
  have plain: "load_from_reader ex fill s = map_ok (\<lambda>m. m\<lparr>dm_stats := reported_as format (dm_stats m)\<rparr>) (load_from_reader ex fill' s')
     \<and> load_from_file ex fill s file_size
         = map_ok (\<lambda>m. m\<lparr>dm_stats := reported_as format (dm_stats m)\<rparr>) (load_from_file ex fill' s' file_size)
     \<and> read_file ex fill s n = map_ok (\<lambda>(meta, blocks, stats). (meta, blocks, reported_as format stats)) (read_file ex fill' s' n)"
    if "\<not> compression_magic (take fill' (pending s'))" for fill'
  proof (cases "pending s' = [] \<and> faulty s'")
    case True
    then show ?thesis using st(2) exhausted_open [of s' ex]
      by (simp add: load_from_reader_def load_from_file_def read_file_def st(1) no_magic_is_plain [OF that]
            load_from_stream_with_size_def map_ok_def)
  next
    case False
    then show ?thesis using st(2-4)
      by (cases "open_metablock ex s'")
         (auto simp: load_from_reader_def load_from_file_def st(1) stream no_magic_is_plain [OF that] read_file_def
            map_ok_def case_prod_unfold Let_def reported_as_def split: sum.split)
  qed
  have double: "\<exists>e. load_from_reader ex fill s = Inl e \<and> load_from_file ex fill s file_size = Inl e
          \<and> read_file ex fill s n = Inl e \<and> \<not> is_panic e" if "compression_magic (pending s')"
    using magic_refused [OF that, of ex] st(2)
    by (auto simp: load_from_reader_def load_from_file_def read_file_def st(1) load_from_stream_with_size_def)
  show ?thesis using plain double by blast
qed

text \<open>The written file of the first witness, behind the magic bytes of gzip; and a file compressed twice.\<close>

theorem compression_is_transparent_witness:
  "(\<exists>bytes m. load_from_reader demo_written_externals 2 (source (0x1F # 0x8B # bytes)) = Inr m
       \<and> map channel_log (dm_channels m) = [Inr [(5, NumSample (VrInt8 7))]]
       \<and> rs_compressed (dm_stats m) \<and> rs_compression_format (dm_stats m) = CfGzip)
   \<and> (\<exists>e. load_from_reader demo_written_externals 2 (source [0x1F, 0x8B, 0x78, 0x9C]) = Inl e)"
proof -
  let ?ex = demo_written_externals
  have calls: "exec_all writer_step writer_builder_new [AddChannel demo_def, AddTimestamped 0 [5] (NvInt8 [7])]
     = Inr demo_builder" by (rule demo_calls)
  have "\<exists>bytes m. write_to (ex_serde_json ?ex) (ex_crc32c ?ex) ''now''
         (demo_builder\<lparr>wb_integrity := IpCrc32c, wb_file_info := file_info_draft_default\<rparr>) = Inr bytes
     \<and> load_from_file ?ex 1 (source bytes) None = Inr m
     \<and> map (\<lambda>c. (channel_name c, channel_data_type c, channel_log c)) (dm_channels m)
         = map (\<lambda>(name, dt, entries). (name, dt, Inr entries))
             (fold call_log [AddChannel demo_def, AddTimestamped 0 [5] (NvInt8 [7])] [])
     \<and> rs_blocks_truncated (dm_stats m) = 0 \<and> rs_blocks_crc_failed (dm_stats m) = 0
     \<and> rs_blocks_total (dm_stats m) = rs_blocks_read (dm_stats m)
     \<and> rs_compression_format (dm_stats m) = CfNone
     \<and> fi_created_utc (mb_file_info (dm_meta m)) = Some ''now''
     \<and> fi_comment (mb_file_info (dm_meta m)) = fd_comment file_info_draft_default"
    by (rule written_file_loads [OF _ calls]) (simp_all add: demo_conditions)
  then obtain bytes m where m: "load_from_reader ?ex 1 (source bytes) = Inr m"
    and chans: "map (\<lambda>c. (channel_name c, channel_data_type c, channel_log c)) (dm_channels m)
       = [([], DtInt8, Inr [(5, NumSample (VrInt8 7))])]"
    unfolding demo_log load_from_reader_file by auto
  from chans have logs: "map channel_log (dm_channels m) = [Inr [(5, NumSample (VrInt8 7))]]"
    by (cases "dm_channels m") auto
  have gz: "source bs = gz_decoder (ex_flate2 ?ex) (source (0x1F # 0x8B # bs))" for bs
    by (simp add: demo_written_externals_def demo_externals_def source_def)
  have small: "\<not> compression_magic (take 1 (pending (source bytes)))"
    by (cases bytes) (simp_all add: compression_magic_def)
  note transparent = compression_is_transparent
    [OF _ source_simps(1), where first = "0x1F" and second = "0x8B" and format = CfGzip and ex = ?ex and fill = 2]
  have "load_from_reader ?ex 2 (source (0x1F # 0x8B # bytes))
      = map_ok (\<lambda>m. m\<lparr>dm_stats := (dm_stats m)\<lparr>rs_compressed := True, rs_compression_format := CfGzip\<rparr>\<rparr>)
          (load_from_reader ?ex 1 (source bytes))"
    using transparent [of "source bytes" bytes] gz [of bytes] small unfolding reported_as_def by blast
  then have first: "load_from_reader ?ex 2 (source (0x1F # 0x8B # bytes))
      = Inr (m\<lparr>dm_stats := (dm_stats m)\<lparr>rs_compressed := True, rs_compression_format := CfGzip\<rparr>\<rparr>)"
    unfolding m by (simp add: map_ok_def)
  have "compression_magic (pending (source [0x78, 0x9C]))" by (simp add: compression_magic_def)
  then have "\<exists>e. load_from_reader ?ex 2 (source [0x1F, 0x8B, 0x78, 0x9C]) = Inl e"
    using transparent [of "source [0x78, 0x9C]" "[0x78, 0x9C]"] gz [of "[0x78, 0x9C]"] by blast
  moreover have "map channel_log (dm_channels (m\<lparr>dm_stats := reported_as CfGzip (dm_stats m)\<rparr>)) = [Inr [(5, NumSample (VrInt8 7))]]"
    using logs by simp
  ultimately show ?thesis using first unfolding reported_as_def
    by (intro conjI exI [of _ bytes] exI [of _ "m\<lparr>dm_stats := (dm_stats m)\<lparr>rs_compressed := True, rs_compression_format := CfGzip\<rparr>\<rparr>"]) simp_all
qed

text \<open>
  Detection rests on a single read. A gzip file whose source hands out one byte at first, as a
  socket may, is taken for an uncompressed one and always refused, whatever the decoder could make
  of it.
\<close>

theorem short_first_read_misses_compression:
  assumes "pending s = 0x1F # 0x8B # rest"
  shows "detect_and_wrap 1 s = Inr (Plain s) \<and> (\<exists>e. load_from_reader ex 1 s = Inl e)"
proof -
  have plain: "detect_and_wrap 1 s = Inr (Plain s)"
    using assms by (simp add: detect_and_wrap_def peek_format_def fill_buf_def)
  obtain r bs where l: "first_line_loop (faulty s) [] (pending s) = (r, bs)"
    by (cases "first_line_loop (faulty s) [] (pending s)")
  have "\<exists>e. fst (parse_magic_header s) = Inl e"
  proof (cases r)
    case (Inl e)
    then show ?thesis using l by (simp add: parse_magic_header_def read_first_line_def)
  next
    case (Inr line)
    then obtain tl where line: "line = 0x1F # 0x8B # tl"
      using first_line_loop_Inr [of "faulty s" "[]" "pending s" line bs] l assms
      by (cases line; cases "List.tl line") auto
    have "\<exists>tl'. trim_cr line = 0x1F # 0x8B # tl'"
      by (cases tl) (auto simp: line trim_cr_def)
    then have "from_utf8 (trim_cr line) = None"
      by (auto simp: from_utf8_def)
    then show ?thesis using l Inr by (simp add: parse_magic_header_def read_first_line_def)
  qed
  then have "\<exists>e. open_metablock ex s = Inl e"
    by (auto simp: open_metablock_def Let_def case_prod_unfold)
  then show ?thesis using plain by (auto simp: load_from_reader_def load_from_stream_with_size_def)
qed

theorem short_first_read_misses_compression_witness:
  "\<exists>e. load_from_reader (demo_externals None) 1 (source [0x1F, 0x8B, 8]) = Inl e"
  using short_first_read_misses_compression [of "source [0x1F, 0x8B, 8]" "[8]" "demo_externals None"]
  by simp

section \<open>Lookups\<close>

lemma find_unique:
  assumes "i < length xs" and "P (xs ! i)" and "\<And>j. j < i \<Longrightarrow> \<not> P (xs ! j)"
  shows "find P xs = Some (xs ! i)"
  using assms by (auto simp: find_Some_iff)

lemma find_last:
  assumes "i < length xs" and "P (xs ! i)" and "\<And>j. i < j \<Longrightarrow> j < length xs \<Longrightarrow> \<not> P (xs ! j)"
  shows "find P (rev xs) = Some (xs ! i)"
proof -
  have "\<not> P (rev xs ! j)" if "j < length xs - Suc i" for j
    using assms(3) [of "length xs - Suc j"] that assms(1) by (simp add: rev_nth)
  then show ?thesis
    using assms find_unique [of "length xs - Suc i" "rev xs" P] by (simp add: rev_nth)
qed

lemma loaded_tables:
  assumes "load_from_stream_with_size ex st n = Inr m"
  shows "tables_ok (dm_channels m, dm_by_name m, dm_by_index m)"
proof -
  obtain h meta a rest where "open_metablock ex (read_source (ex_flate2 ex) st) = Inr (h, meta, a, rest)"
    using assms by (auto simp: load_from_stream_with_size_def and_then_eq_Inr_iff)
  then obtain r where "build_channels meta (fst (items (ex_crc32c ex) r))
      = Inr (dm_channels m, dm_by_name m, dm_by_index m)"
    using assms by (auto simp: load_from_stream_with_size_def Let_def case_prod_unfold)
  then show ?thesis using build_tables [of "fst (items (ex_crc32c ex) r)" meta] no_panic_items.items_ok by blast
qed

lemma streamed_lookups:
  assumes "load_from_stream_with_size ex st n = Inr m"
  shows "dm_channel m name = Inr (find (\<lambda>c. channel_name c = name) (rev (dm_channels m)))
    \<and> dm_channel_by_index m index = Inr (find (\<lambda>c. channel_index c = index) (dm_channels m))
    \<and> distinct (map channel_index (dm_channels m))"
proof -
  let ?cs = "dm_channels m"
  have ok: "tables_ok (?cs, dm_by_name m, dm_by_index m)"
    using assms by (rule loaded_tables)
  have idx: "\<And>i t. dm_by_index m i = Some t \<longleftrightarrow> t < length ?cs \<and> channel_index (?cs ! t) = i"
    and nam: "\<And>n t. dm_by_name m n = Some t \<longleftrightarrow> t < length ?cs \<and> channel_name (?cs ! t) = n
        \<and> (\<forall>u. t < u \<and> u < length ?cs \<longrightarrow> channel_name (?cs ! u) \<noteq> n)"
    using ok by (auto simp: tables_ok_def)
  have uniq: "i = j" if "i < length ?cs" "j < length ?cs" "channel_index (?cs ! i) = channel_index (?cs ! j)" for i j
  proof -
    have "dm_by_index m (channel_index (?cs ! j)) = Some i" "dm_by_index m (channel_index (?cs ! j)) = Some j"
      using idx that by auto
    then show ?thesis by simp
  qed
  then have dist: "distinct (map channel_index ?cs)" by (auto simp: distinct_conv_nth)
  have by_idx: "dm_channel_by_index m index = Inr (find (\<lambda>c. channel_index c = index) ?cs)"
  proof (cases "dm_by_index m index")
    case None
    then have "find (\<lambda>c. channel_index c = index) ?cs = None"
      using idx [of index] by (auto simp: find_None_iff in_set_conv_nth)
    then show ?thesis using None by (simp add: dm_channel_by_index_def)
  next
    case (Some t)
    then have t: "t < length ?cs" "channel_index (?cs ! t) = index" using idx by auto
    have "channel_index (?cs ! j) \<noteq> index" if "j < t" for j using uniq [of j t] that t by auto
    with t have "find (\<lambda>c. channel_index c = index) ?cs = Some (?cs ! t)"
      by (intro find_unique) auto
    then show ?thesis using Some t by (simp add: dm_channel_by_index_def index_at_def)
  qed
  have "dm_channel m name = Inr (find (\<lambda>c. channel_name c = name) (rev ?cs))"
  proof (cases "dm_by_name m name")
    case None
    have "\<nexists>t. t < length ?cs \<and> channel_name (?cs ! t) = name"
    proof
      let ?S = "{u. u < length ?cs \<and> channel_name (?cs ! u) = name}"
      assume "\<exists>t. t < length ?cs \<and> channel_name (?cs ! t) = name"
      then have "Max ?S \<in> ?S" by (intro Max_in) auto
      moreover have "channel_name (?cs ! u) \<noteq> name" if "Max ?S < u" "u < length ?cs" for u
      proof
        assume "channel_name (?cs ! u) = name"
        then have "u \<le> Max ?S" using that(2) by (intro Max_ge) auto
        then show False using that(1) by simp
      qed
      ultimately have "dm_by_name m name = Some (Max ?S)" unfolding nam by blast
      then show False using None by simp
    qed
    then have "find (\<lambda>c. channel_name c = name) (rev ?cs) = None"
      by (auto simp: find_None_iff in_set_conv_nth)
    then show ?thesis using None by (simp add: dm_channel_def)
  next
    case (Some t)
    then have t: "t < length ?cs" "channel_name (?cs ! t) = name"
        "\<And>u. t < u \<Longrightarrow> u < length ?cs \<Longrightarrow> channel_name (?cs ! u) \<noteq> name" using nam by auto
    then have "find (\<lambda>c. channel_name c = name) (rev ?cs) = Some (?cs ! t)"
      by (intro find_last) auto
    then show ?thesis using Some t by (simp add: dm_channel_def index_at_def)
  qed
  with by_idx dist show ?thesis by blast
qed

text \<open>
  C27. The lookups of a loaded manager are searches of its channel list: by index they find the one
  channel with that index, by name the last channel with that name, and nothing otherwise; they never
  panic, and no two channels share an index, whatever the metablock declared.
\<close>

theorem loaded_manager_lookups:
  assumes "load_from_reader ex fill s = Inr m"
  shows "dm_channel m name = Inr (find (\<lambda>c. channel_name c = name) (rev (dm_channels m)))
    \<and> dm_channel_by_index m index = Inr (find (\<lambda>c. channel_index c = index) (dm_channels m))
    \<and> distinct (map channel_index (dm_channels m))"
proof -
  obtain st where "load_from_stream_with_size ex st None = Inr m"
    using assms by (auto simp: load_from_reader_def and_then_eq_Inr_iff)
  then show ?thesis by (rule streamed_lookups)
qed

text \<open>A file with one channel and no data.\<close>

definition demo_file :: "byte list" where
  "demo_file = write_magic_header 0 None"

definition demo_meta :: meta_block where
  "demo_meta = \<lparr>mb_file_info = file_info_default\<lparr>fi_version := 5\<rparr>,
     mb_channels = [demo_channel 3 ''t'' DtDouble], mb_infos = []\<rparr>"

lemma demo_file_opened:
  "open_metablock (demo_externals (Some (demo_document ''double''))) (source demo_file) =
     Inr (\<lparr>mh_version = Osf5, mh_metablock_len = 0, mh_integrity = IpNone, mh_metablock_crc = None\<rparr>,
          demo_meta, source [], source [])"
  using open_metablock_written [where s = "source demo_file" and body = "[]" and crc = None and data = "[]"
      and ex = "demo_externals (Some (demo_document ''double''))" and meta = demo_meta]
  by (simp add: demo_file_def demo_externals_def demo_document_parsed demo_meta_def demo_channel_def source_def)

lemma demo_file_items:
  "fst (items crc32c (case file_size of
      Some n \<Rightarrow> with_file_size n (with_integrity IpNone (block_reader_new (source []) demo_meta))
    | None \<Rightarrow> with_integrity IpNone (block_reader_new (source []) demo_meta))) = []"
proof -
  have "distinct (map mc_index (mb_channels demo_meta))" by (simp add: demo_meta_def)
  note new = new_reader_at(1-4) [OF this, where profile = IpNone and bytes = "[]" and file_size = file_size, unfolded sized_def]
  from items_delivered [OF delivers.none new(1-3), of crc32c] show ?thesis by auto
qed

lemma demo_file_channels:
  obtains c by_name by_index where "build_channels demo_meta [] = Inr ([c], by_name, by_index)"
    "channel_index c = 3" "channel_name c = ''t''"
proof -
  have "\<exists>c by_name by_index. build_channels demo_meta [] = Inr ([c], by_name, by_index)
      \<and> channel_index c = 3 \<and> channel_name c = ''t''"
    by (simp add: demo_meta_def build_channels_def insert_builder_def builder_for_def demo_channel_def
          initial_state_for_def finalize_def to_equidistant_def)
  then show ?thesis using that by blast
qed

lemma demo_file_plain: "detect_and_wrap fill (source demo_file) = Inr (Plain (source demo_file))"
  by (rule written_is_plain [where rest = "[]"]) (simp add: demo_file_def)

theorem loaded_manager_lookups_witness:
  "\<exists>m c. load_from_reader (demo_externals (Some (demo_document ''double''))) 8 (source demo_file) = Inr m
     \<and> dm_channel m ''t'' = Inr (Some c) \<and> dm_channel_by_index m 3 = Inr (Some c)
     \<and> dm_channel m ''u'' = Inr None"
proof -
  let ?ex = "demo_externals (Some (demo_document ''double''))"
  obtain c by_name by_index where c: "build_channels demo_meta [] = Inr ([c], by_name, by_index)"
    "channel_index c = 3" "channel_name c = ''t''" using demo_file_channels .
  obtain m where m: "load_from_reader ?ex 8 (source demo_file) = Inr m" "dm_channels m = [c]"
    using demo_file_items [where file_size = None] c(1)
    by (simp add: load_from_reader_def demo_file_plain load_from_stream_with_size_def demo_file_opened
          case_prod_unfold Let_def)
  show ?thesis
    using m c(2,3) loaded_manager_lookups [OF m(1), of "''t''" 3] loaded_manager_lookups [OF m(1), of "''u''" 3]
    by (intro exI [of _ m] exI [of _ c]) simp
qed

section \<open>The two entry points\<close>

lemma first_error_feeds:
  "first_error xs = Inl e \<Longrightarrow> \<exists>e'. exec_all feed_block bs xs = Inl e'"
proof (induction xs arbitrary: bs)
  case (Cons x xs)
  show ?case
  proof (cases "feed_block bs x")
    case (Inr bs')
    then obtain blk where "x = Inr blk" by (cases x) (auto simp: feed_block_def)
    then have "first_error xs = Inl e" using Cons.prems by simp
    then show ?thesis using Cons.IH [of bs'] Inr by simp
  qed simp
qed simp

lemma with_file_size_integrity:
  "with_integrity p (with_file_size n r) = with_file_size n (with_integrity p r)"
  by (simp add: with_integrity_def with_file_size_def)

text \<open>
  C22. \<open>read_file\<close> and the manager read the same file. On the same bytes and file size,
  \<open>load_from_file\<close> fails whenever \<open>read_file\<close> does; and when \<open>read_file\<close> gives blocks, the manager is
  built from exactly those blocks over the same metablock, with the same telemetry except for the
  header size, which only \<open>read_file\<close> counts.
\<close>

theorem read_file_agrees_with_manager:
  "case read_file ex fill s n of
     Inl e \<Rightarrow> \<exists>e'. load_from_file ex fill s (Some n) = Inl e'
   | Inr (meta, blocks, st) \<Rightarrow>
       (case build_channels meta (map Inr blocks) of
          Inl e \<Rightarrow> load_from_file ex fill s (Some n) = Inl e
        | Inr (channels, by_name, by_index) \<Rightarrow>
            \<exists>m. load_from_file ex fill s (Some n) = Inr m \<and> dm_meta m = meta \<and> dm_channels m = channels
              \<and> dm_by_name m = by_name \<and> dm_by_index m = by_index
              \<and> (dm_stats m)\<lparr>rs_header_size_bytes := rs_header_size_bytes st\<rparr> = st)"
proof (cases "detect_and_wrap fill s")
  case (Inl e)
  then show ?thesis by (simp add: read_file_def load_from_file_def)
next
  case st: (Inr st)
  let ?src = "read_source (ex_flate2 ex) st"
  show ?thesis
  proof (cases "open_metablock ex ?src")
    case (Inl e)
    then show ?thesis by (simp add: read_file_def load_from_file_def st load_from_stream_with_size_def)
  next
    case (Inr parts)
    obtain h meta a rest where parts: "parts = (h, meta, a, rest)" by (cases parts)
    let ?r = "with_integrity (mh_integrity h) (with_file_size n (block_reader_new rest meta))"
    obtain xs r' where xs: "items (ex_crc32c ex) ?r = (xs, r')" by (cases "items (ex_crc32c ex) ?r")
    show ?thesis
    proof (cases "first_error xs")
      case e: (Inl e)
      then have "\<exists>e'. build_channels meta xs = Inl e'"
        using first_error_feeds [OF e] by (simp add: build_channels_def)
      then show ?thesis using e Inr parts xs
        by (auto simp: read_file_def load_from_file_def st load_from_stream_with_size_def
              with_file_size_integrity [symmetric])
    next
      case blocks: (Inr blocks)
      then have "xs = map Inr blocks" by (rule first_error_Inr)
      then show ?thesis using blocks Inr parts xs
        by (auto simp: read_file_def load_from_file_def st load_from_stream_with_size_def
              with_file_size_integrity [symmetric] split: sum.split)
    qed
  qed
qed

end
