(* ===== verification/Copy.thy ===== *)
theory Copy
  imports LoadLaws
begin

text \<open>
  Copying a file: \<open>from_manager\<close> turns the channels of a loaded manager into calls on a new
  \<open>WriterBuilder\<close>, so that what was proved of calls holds of copies.
\<close>

section \<open>A copy is a sequence of calls\<close>

text \<open>The calls that copy a channel; \<open>None\<close> where the slice of a segment is out of range.\<close>

fun segment_call :: "u16 \<Rightarrow> numeric_values \<Rightarrow> segment \<Rightarrow> writer_call" where
  "segment_call i (NvFloat v) seg =
     AddSegmentF32 i (start_timestamp_ns seg) (sample_rate_hz seg) (take (sample_count seg) (drop (start_index seg) v))"
| "segment_call i (NvDouble v) seg =
     AddSegmentF64 i (start_timestamp_ns seg) (sample_rate_hz seg) (take (sample_count seg) (drop (start_index seg) v))"
| "segment_call i _ seg = AddStrings i [] []"

definition data_calls :: "u16 \<Rightarrow> channel \<Rightarrow> writer_call list" where
  "data_calls i chan =
     (case chan of
        Equidistant eq \<Rightarrow> map (segment_call i (ec_samples eq)) (ec_segments eq)
      | Timestamped ts \<Rightarrow> [AddTimestamped i (tc_timestamps_ns ts) (tc_values ts)]
      | VariableChannel var \<Rightarrow>
          (case (vc_string_values var, vc_binary_values var) of
             (Some s, _) \<Rightarrow> [AddStrings i (vc_timestamps_ns var) s]
           | (None, Some b) \<Rightarrow> [AddBinaries i (vc_timestamps_ns var) b]
           | (None, None) \<Rightarrow> []))"

definition channel_calls :: "u16 \<Rightarrow> channel \<Rightarrow> writer_call list" where
  "channel_calls i chan = AddChannel (channel_def_from_manager_channel chan) # data_calls i chan"

text \<open>A Rust \<open>String\<close> is valid UTF-8 by its type.\<close>

fun texts_valid :: "channel \<Rightarrow> bool" where
  "texts_valid (VariableChannel c) = (\<forall>s \<in> set (case vc_string_values c of Some s \<Rightarrow> s | None \<Rightarrow> []). rust_string s)"
| "texts_valid _ = True"

lemma good_channel_calls: "texts_valid chan \<Longrightarrow> \<forall>c \<in> set (channel_calls i chan). good_call c"
proof -
  have "good_call (segment_call i nv seg)" for nv seg by (cases nv) simp_all
  then show "texts_valid chan \<Longrightarrow> \<forall>c \<in> set (channel_calls i chan). good_call c"
    by (cases chan) (auto simp: channel_calls_def data_calls_def split: option.splits)
qed

lemma copied_segment:
  assumes "copy_equidistant_segment i seg nv b = Inr b'"
  shows "writer_step b (segment_call i nv seg) = Inr b'"
    and "start_index seg + sample_count seg \<le> nv_len nv" and "nv_data_type nv = DtFloat \<or> nv_data_type nv = DtDouble"
  using assms
  by (cases nv; auto simp: copy_equidistant_segment_def and_then_eq_Inr_iff slice_at_eq_Some_iff)+

lemma copied_segments:
  "exec_all (\<lambda>b seg. copy_equidistant_segment i seg nv b) b segs = Inr b' \<Longrightarrow>
   exec_all writer_step b (map (segment_call i nv) segs) = Inr b'
   \<and> (\<forall>seg \<in> set segs. start_index seg + sample_count seg \<le> nv_len nv
        \<and> (nv_data_type nv = DtFloat \<or> nv_data_type nv = DtDouble))"
  by (induction segs arbitrary: b) (auto simp: and_then_eq_Inr_iff dest: copied_segment)

lemma copied_data:
  assumes "copy_channel_data chan i b = Inr b'"
  shows "exec_all writer_step b (data_calls i chan) = Inr b'"
  using assms copied_segments
  by (cases chan)
     (auto simp: copy_channel_data_def data_calls_def copy_timestamped_def as_strings_def as_binaries_def
        split: option.splits)

lemma copied_channel:
  assumes "copy_channel b chan = Inr b'"
  shows "exec_all writer_step b (channel_calls (of_nat (length (wb_channels b))) chan) = Inr b'"
    and "\<exists>b1. add_channel (channel_def_from_manager_channel chan) b = Inr (of_nat (length (wb_channels b)), b1)
        \<and> copy_channel_data chan (of_nat (length (wb_channels b))) b1 = Inr b'"
proof -
  obtain i b1 where add: "add_channel (channel_def_from_manager_channel chan) b = Inr (i, b1)"
      and rest: "copy_channel_data chan i b1 = Inr b'"
    using assms by (auto simp: copy_channel_def and_then_eq_Inr_iff)
  have "i = of_nat (length (wb_channels b))" using add by (auto simp: add_channel_def Let_def split: if_splits)
  then show "exec_all writer_step b (channel_calls (of_nat (length (wb_channels b))) chan) = Inr b'"
    "\<exists>b1. add_channel (channel_def_from_manager_channel chan) b = Inr (of_nat (length (wb_channels b)), b1)
        \<and> copy_channel_data chan (of_nat (length (wb_channels b))) b1 = Inr b'"
    using add rest copied_data [OF rest] by (simp_all add: channel_calls_def)
qed

section \<open>What a copy holds\<close>

lemma append_log_last:
  "unat i = length l \<Longrightarrow> append_log i entries (l @ [(name, dt, old)]) = l @ [(name, dt, old @ entries)]"
  by (simp add: append_log_def)

lemma fold_segment_calls:
  assumes "unat i = length l" and "nv_data_type nv = DtFloat \<or> nv_data_type nv = DtDouble"
    and "\<forall>seg \<in> set segs. start_index seg + sample_count seg \<le> nv_len nv"
  shows "\<exists>entries. fold call_log (map (segment_call i nv) segs) (l @ [(name, dt, old)]) = l @ [(name, dt, old @ entries)]
     \<and> map_ok (map (apsnd NumSample)) (first_error (concat (map (segment_samples nv) segs))) = Inr entries"
  using assms(3)
proof (induction segs arbitrary: old)
  case Nil
  then show ?case by simp
next
  case (Cons seg segs)
  let ?t = "map (segment_timestamp seg) [0..<sample_count seg]"
    and ?v = "take (sample_count seg) (drop (start_index seg) (refs_of nv))"
  have fits: "start_index seg + sample_count seg \<le> nv_len nv" using Cons.prems by simp
  have one: "call_log (segment_call i nv seg) (l @ [(name, dt, old)])
      = l @ [(name, dt, old @ map (apsnd NumSample) (zip ?t ?v))]"
  proof -
    have "min (nv_len nv - start_index seg) (sample_count seg) = sample_count seg" using fits by simp
    then show ?thesis using assms(1,2)
      by (cases nv)
         (auto simp: append_log_last segment_log_def segment_timestamp_time_at map_apsnd_zip take_map drop_map)
  qed
  obtain entries where rest: "fold call_log (map (segment_call i nv) segs)
        (l @ [(name, dt, old @ map (apsnd NumSample) (zip ?t ?v))])
      = l @ [(name, dt, (old @ map (apsnd NumSample) (zip ?t ?v)) @ entries)]"
      "map_ok (map (apsnd NumSample)) (first_error (concat (map (segment_samples nv) segs))) = Inr entries"
    using Cons.IH [of "old @ map (apsnd NumSample) (zip ?t ?v)"] Cons.prems by auto
  show ?case
    using rest(2) segment_samples_tiled [OF fits]
    by (intro exI [of _ "map (apsnd NumSample) (zip ?t ?v) @ entries"])
       (auto simp: one rest(1) first_error_append)
qed

lemma copied_lengths:
  assumes "copy_channel_data chan i b = Inr b'"
  shows "case chan of
       Equidistant eq \<Rightarrow> \<forall>seg \<in> set (ec_segments eq). start_index seg + sample_count seg \<le> nv_len (ec_samples eq)
         \<and> (nv_data_type (ec_samples eq) = DtFloat \<or> nv_data_type (ec_samples eq) = DtDouble)
     | Timestamped ts \<Rightarrow> length (tc_timestamps_ns ts) = nv_len (tc_values ts)
     | VariableChannel var \<Rightarrow>
         (\<forall>s. vc_string_values var = Some s \<longrightarrow> length s = length (vc_timestamps_ns var))
         \<and> (\<forall>s. vc_string_values var = None \<longrightarrow> vc_binary_values var = Some s \<longrightarrow> length s = length (vc_timestamps_ns var))"
proof (cases chan)
  case (Equidistant eq)
  then show ?thesis using assms copied_segments by (auto simp: copy_channel_data_def)
next
  case (Timestamped ts)
  have "length (tc_timestamps_ns ts) = nv_len (tc_values ts)"
    if "add_timestamped_samples i (tc_timestamps_ns ts) (tc_values ts) b = Inr b'"
    using that
    by (cases "tc_values ts")
       (auto simp: add_timestamped_def append_timestamped_numeric_def and_then_eq_Inr_iff split: if_splits)
  then show ?thesis using assms Timestamped by (simp add: copy_channel_data_def copy_timestamped_def)
next
  case (VariableChannel var)
  then show ?thesis using assms
    by (auto simp: copy_channel_data_def as_strings_def as_binaries_def add_string_samples_def
          add_binary_samples_def append_variable_def and_then_eq_Inr_iff split: option.splits if_splits)
qed

lemma fold_channel_calls:
  assumes copied: "copy_channel_data chan i b = Inr b'" and i: "unat i = length l"
    and "channel_log chan = Inr entries"
  shows "fold call_log (channel_calls i chan) l = l @ [(channel_name chan, channel_data_type chan, entries)]"
proof -
  let ?new = "l @ [(channel_name chan, channel_data_type chan, [])]"
  have first: "call_log (AddChannel (channel_def_from_manager_channel chan)) l = ?new"
    by (simp add: channel_def_from_manager_channel_def Let_def)
  note lens = copied_lengths [OF copied]
  have "fold call_log (data_calls i chan) ?new = l @ [(channel_name chan, channel_data_type chan, entries)]"
  proof (cases chan)
    case (Equidistant eq)
    show ?thesis
    proof (cases "ec_segments eq = []")
      case True
      then show ?thesis using assms(3) Equidistant by (simp add: data_calls_def ec_samples_with_time_def)
    next
      case False
      then have "nv_data_type (ec_samples eq) = DtFloat \<or> nv_data_type (ec_samples eq) = DtDouble"
          "\<forall>seg \<in> set (ec_segments eq). start_index seg + sample_count seg \<le> nv_len (ec_samples eq)"
        using lens Equidistant by (cases "ec_segments eq"; auto)+
      from fold_segment_calls [OF i this, of "channel_name chan" "channel_data_type chan" "[]"]
      show ?thesis using assms(3) Equidistant by (auto simp: data_calls_def ec_samples_with_time_def)
    qed
  next
    case (Timestamped ts)
    then show ?thesis using assms(3) lens tc_log [of ts]
      by (auto simp: data_calls_def append_log_last [OF i] map_apsnd_zip)
  next
    case (VariableChannel var)
    show ?thesis
    proof (cases "vc_string_values var")
      case (Some s)
      then show ?thesis using assms(3) lens VariableChannel vc_log_strings [of var s]
        by (auto simp: data_calls_def append_log_last [OF i] map_apsnd_zip comp_def)
    next
      case strings: None
      show ?thesis
      proof (cases "vc_binary_values var")
        case (Some s)
        then show ?thesis using assms(3) lens VariableChannel strings vc_log_binaries [of var s]
          by (auto simp: data_calls_def append_log_last [OF i] map_apsnd_zip comp_def)
      next
        case None
        have "vc_timestamps_ns var = []"
          using assms(3) VariableChannel strings None
          by (cases "vc_timestamps_ns var") (auto simp: vc_samples_with_time_def and_then_eq_Inr_iff)
        then show ?thesis using assms(3) VariableChannel strings None
          by (simp add: data_calls_def vc_samples_with_time_def)
      qed
    qed
  qed
  with first show ?thesis by (simp add: channel_calls_def)
qed

section \<open>File metadata and the integrity level do not matter to the calls\<close>

definition settings :: "file_info_draft \<Rightarrow> integrity_profile \<Rightarrow> writer_builder \<Rightarrow> writer_builder" where
  "settings i p b = b\<lparr>wb_file_info := i, wb_integrity := p\<rparr>"

lemma settings_frame [simp]:
  "wb_channels (settings i p b) = wb_channels b" "wb_channel_data (settings i p b) = wb_channel_data b"
  "wb_name_to_index (settings i p b) = wb_name_to_index b"
  "settings i p (b\<lparr>wb_channel_data := d\<rparr>) = (settings i p b)\<lparr>wb_channel_data := d\<rparr>"
  by (simp_all add: settings_def)

lemma update_data_settings:
  "update_data ch f (settings i p b) = map_ok (settings i p) (update_data ch f b)"
  by (cases "index_at (wb_channel_data b) (unat ch)"; cases "f (projr (index_at (wb_channel_data b) (unat ch)))")
     (auto simp: update_data_def)

lemma channel_def_at_settings: "channel_def_at (settings i p b) ch = channel_def_at b ch"
  by (simp add: channel_def_at_def)

lemma append_timestamped_settings:
  "append_timestamped_numeric ch want ts n f v (settings i p b)
     = map_ok (settings i p) (append_timestamped_numeric ch want ts n f v b)"
  by (cases "channel_def_at b ch")
     (auto simp: append_timestamped_numeric_def channel_def_at_settings update_data_settings)

lemma writer_step_settings:
  "writer_step (settings i p b) c = map_ok (settings i p) (writer_step b c)"
proof (cases c)
  case (AddChannel def)
  then show ?thesis by (simp add: add_channel_def Let_def settings_def)
next
  case (AddSegmentF64 ch start rate vs)
  then show ?thesis
    by (cases "channel_def_at b ch")
       (auto simp: add_equidistant_segment_f64_def add_equidistant_segment_inner_def channel_def_at_settings
          update_data_settings Let_def)
next
  case (AddSegmentF32 ch start rate vs)
  then show ?thesis
    by (cases "channel_def_at b ch")
       (auto simp: add_equidistant_segment_f32_def add_equidistant_segment_inner_def channel_def_at_settings
          update_data_settings Let_def)
next
  case (AddTimestamped ch ts nv)
  then show ?thesis by (cases nv) (simp_all add: add_timestamped_def append_timestamped_settings)
next
  case (AddStrings ch ts vs)
  then show ?thesis
    by (cases "channel_def_at b ch")
       (auto simp: add_string_samples_def append_variable_def channel_def_at_settings update_data_settings)
next
  case (AddBinaries ch ts vs)
  then show ?thesis
    by (cases "channel_def_at b ch")
       (auto simp: add_binary_samples_def append_variable_def channel_def_at_settings update_data_settings)
qed

lemma exec_calls_settings:
  "exec_all writer_step (settings i p b) calls
     = map_ok (settings i p) (exec_all writer_step b calls)"
proof (induction calls arbitrary: b)
  case (Cons c calls)
  show ?case by (cases "writer_step b c") (simp_all add: writer_step_settings Cons.IH)
qed simp

section \<open>Copies\<close>

text \<open>A channel whose samples can be iterated and whose texts are strings; loading gives no others.\<close>

definition readable :: "channel \<Rightarrow> bool" where
  "readable chan \<longleftrightarrow> texts_valid chan \<and> (\<exists>entries. channel_log chan = Inr entries)"

lemma copied_channels:
  assumes "exec_all copy_channel b chans = Inr b'" and "writer_wf b" and "\<forall>c \<in> set chans. readable c"
  shows "\<exists>calls. (\<forall>c \<in> set calls. good_call c) \<and> exec_all writer_step b calls = Inr b'
     \<and> fold call_log calls (writer_log_of b)
       = writer_log_of b @ map (\<lambda>c. (channel_name c, channel_data_type c, projr (channel_log c))) chans"
  using assms
proof (induction chans arbitrary: b)
  case Nil
  then show ?case by (intro exI [of _ "[]"]) simp
next
  case (Cons chan chans)
  obtain b1 where one: "copy_channel b chan = Inr b1" and rest: "exec_all copy_channel b1 chans = Inr b'"
    using Cons.prems(1) by (auto simp: and_then_eq_Inr_iff)
  let ?i = "of_nat (length (wb_channels b)) :: u16"
  obtain entries where log: "channel_log chan = Inr entries" and good: "\<forall>c \<in> set (channel_calls ?i chan). good_call c"
    using Cons.prems(3) good_channel_calls by (auto simp: readable_def)
  obtain b0 where b0: "add_channel (channel_def_from_manager_channel chan) b = Inr (?i, b0)"
      "copy_channel_data chan ?i b0 = Inr b1"
    using copied_channel(2) [OF one] by blast
  have "length (wb_channels b) < 65536" using b0(1) by (auto simp: add_channel_def split: if_splits)
  moreover have "length (writer_log_of b) = length (wb_channels b)"
    using Cons.prems(2) by (auto simp: writer_log_of_def writer_wf_def dest: list_all2_lengthD)
  ultimately have i: "unat ?i = length (writer_log_of b)" by (simp add: unat_of_nat take_bit_nat_eq_self)
  note first = copied_channel(1) [OF one] and fold1 = fold_channel_calls [OF b0(2) i log]
  have b1: "writer_wf b1"
      "writer_log_of b1 = writer_log_of b @ [(channel_name chan, channel_data_type chan, entries)]"
    using exec_log [OF Cons.prems(2) good first] fold1 by simp_all
  obtain calls where "\<forall>c \<in> set calls. good_call c" "exec_all writer_step b1 calls = Inr b'"
     "fold call_log calls (writer_log_of b1)
       = writer_log_of b1 @ map (\<lambda>c. (channel_name c, channel_data_type c, projr (channel_log c))) chans"
    using Cons.IH [OF rest b1(1)] Cons.prems(3) by auto
  then show ?case
    using first fold1 good b1(2) log
    by (intro exI [of _ "channel_calls ?i chan @ calls"]) (auto simp: exec_all_append)
qed

text \<open>
  When \<open>from_manager\<close> accepts channels that can be iterated, writing the copy and loading it again
  gives the same names, datatypes and timed samples.
\<close>

lemma copy_loads:
  fixes ex :: "'n externals"
  assumes "\<forall>c \<in> set channels. readable c" and "from_manager meta channels = Inr b"
    and "wb_channels b \<noteq> []" and "length (wb_channels b) \<le> 0xFFFE"
    and "\<forall>dat \<in> set (wb_channel_data b). texts_fit dat"
    and "profile = IpNone \<or> profile = IpCrc32c"
    and "exact_integers (ex_serde_json ex)"
    and "\<forall>defs. autobump_size_of_length_value (wb_channels b) (wb_channel_data b) (profile = IpCrc32c) = Inr defs
           \<longrightarrow> prints_faithfully (ex_serde_json ex)
                 (metablock_document (ex_serde_json ex) now (copied_file_info (mb_file_info meta)) defs)"
  shows "\<exists>bytes m. write_to (ex_serde_json ex) (ex_crc32c ex) now (writer_with_integrity profile b) = Inr bytes
     \<and> load_from_file ex fill (source bytes) file_size = Inr m
     \<and> map (\<lambda>c. (channel_name c, channel_data_type c, channel_log c)) (dm_channels m)
         = map (\<lambda>c. (channel_name c, channel_data_type c, channel_log c)) channels"
proof -
  let ?info = "copied_file_info (mb_file_info meta)"
  let ?new = "settings ?info IpNone writer_builder_new"
  have from_new: "writer_builder_new\<lparr>wb_file_info := ?info\<rparr> = ?new"
    by (simp add: settings_def writer_builder_new_def)
  have new: "writer_wf ?new" "writer_log_of ?new = []"
    using new_builder_wf by (simp_all add: writer_wf_def writer_log_of_def) (simp_all add: writer_builder_new_def)
  obtain calls where calls: "\<forall>c \<in> set calls. good_call c" "exec_all writer_step ?new calls = Inr b"
      "fold call_log calls [] = map (\<lambda>c. (channel_name c, channel_data_type c, projr (channel_log c))) channels"
    using copied_channels [OF assms(2) [unfolded from_manager_def from_new] new(1) assms(1)] new(2) by auto
  obtain b0 where b0: "exec_all writer_step writer_builder_new calls = Inr b0" "b = settings ?info IpNone b0"
    using calls(2) unfolding exec_calls_settings by auto
  have same: "wb_channels b = wb_channels b0" "wb_channel_data b = wb_channel_data b0"
    "writer_with_integrity profile b = b0\<lparr>wb_integrity := profile, wb_file_info := ?info\<rparr>"
    by (simp_all add: b0(2) writer_with_integrity_def settings_def)
  have logs: "map (\<lambda>(name, dt, entries). (name, dt, Inr entries)) (fold call_log calls [])
      = map (\<lambda>c. (channel_name c, channel_data_type c, channel_log c)) channels"
    using assms(1) by (auto simp: calls(3) readable_def)
  show ?thesis
    using written_file_loads [OF calls(1) b0(1), of profile ex now ?info fill file_size] assms(3-8) unfolding same logs
    by auto
qed

text \<open>Calls and copies leave the integrity level alone.\<close>

lemma step_integrity:
  assumes "writer_step b cc = Inr b'"
  shows "wb_integrity b' = wb_integrity b"
proof -
  have "settings (wb_file_info b) (wb_integrity b) b = b" by (simp add: settings_def)
  then have "b' = settings (wb_file_info b) (wb_integrity b) b'"
    using writer_step_settings [of "wb_file_info b" "wb_integrity b" b cc] assms by simp
  then have "wb_integrity b' = wb_integrity (settings (wb_file_info b) (wb_integrity b) b')" by (rule arg_cong)
  then show ?thesis by (simp add: settings_def)
qed

lemma calls_integrity:
  "exec_all writer_step b cs = Inr b' \<Longrightarrow> wb_integrity b' = wb_integrity b"
  by (induction cs arbitrary: b) (auto simp: and_then_eq_Inr_iff dest: step_integrity)

lemma from_manager_integrity:
  assumes "from_manager meta channels = Inr b"
  shows "wb_integrity b = IpNone"
proof -
  have "exec_all copy_channel b0 channels = Inr b \<Longrightarrow> wb_integrity b = wb_integrity b0" for b0
  proof (induction channels arbitrary: b0)
    case (Cons c channels)
    then obtain b1 where "copy_channel b0 c = Inr b1" "exec_all copy_channel b1 channels = Inr b"
      by (auto simp: and_then_eq_Inr_iff)
    then show ?case using Cons.IH calls_integrity [OF copied_channel(1)] by metis
  qed simp
  from this [OF assms [unfolded from_manager_def]] show ?thesis by (simp add: writer_builder_new_def)
qed

end
