(* ===== verification/Reload.thy ===== *)
theory Reload
  imports Copy
begin

text \<open>
  Loading and copying together. Every channel of a loaded file can be iterated, and its texts are
  valid UTF-8, whatever the file; so copying a loaded file and loading the copy is the identity on
  samples, with no hypothesis on the channels.
\<close>

section \<open>Texts are valid UTF-8\<close>

fun sample_text :: "sample \<Rightarrow> bool" where
  "sample_text (VarSample (VrString s)) = rust_string s"
| "sample_text _ = True"

definition payload_text :: "timestamped_payload \<Rightarrow> bool" where
  "payload_text p \<longleftrightarrow> (\<forall>x \<in> set (tp_samples p). sample_text (snd x))"

lemma payload_text_simps [simp]:
  "payload_text (TpString v) \<longleftrightarrow> (\<forall>x \<in> set v. rust_string (snd x))"
  "payload_text (TpBool b)" "payload_text (TpInt8 i8)" "payload_text (TpInt16 i16)"
  "payload_text (TpInt32 i32)" "payload_text (TpInt64 i64)" "payload_text (TpUInt8 u8)"
  "payload_text (TpUInt16 u16)" "payload_text (TpUInt32 u32)" "payload_text (TpUInt64 u64)"
  "payload_text (TpFloat f)" "payload_text (TpDouble d)" "payload_text (TpBinary bs)"
  "payload_text (TpGpsLocation gps)"
  by (auto simp: payload_text_def)

text \<open>A parser whose results are texts.\<close>

definition gives :: "('a \<Rightarrow> bool) \<Rightarrow> osf_error + 'a \<Rightarrow> bool" where
  "gives P r \<longleftrightarrow> (\<forall>v. r = Inr v \<longrightarrow> P v)"

lemma gives_simps [simp]: "gives P (Inl e)" "gives P (Inr v) \<longleftrightarrow> P v"
  by (simp_all add: gives_def)

lemma gives_and_then: "(\<And>v. gives P (f v)) \<Longrightarrow> gives P (and_then r f)"
  by (cases r) simp_all

lemma decode_strings_valid:
  "decode_strings samples = Some texts \<Longrightarrow> \<forall>x \<in> set texts. rust_string (snd x)"
proof (induction samples arbitrary: texts rule: decode_strings.induct)
  case (2 ts bytes samples)
  then obtain rest where "utf8_valid bytes" "decode_strings samples = Some rest"
      "texts = (ts, string_of_bytes bytes) # rest"
    by (auto simp: from_utf8_def split: option.splits if_splits)
  then show ?case using "2.IH" by (simp add: from_utf8_def rust_string_def codec)
qed simp

lemma build_text: "gives payload_text (build_string_or_binary bt dt samples)"
  using decode_strings_valid [of samples]
  by (cases dt; cases "decode_strings samples") (simp_all add: build_string_or_binary_def)

lemma parse_abs_text: "gives payload_text (parse_abs_timestamp_data body dt multi version)"
proof -
  have variable: "gives payload_text (parse_variable_n n rest dt version)" for n rest dt
    by (simp add: parse_variable_n_def Let_def gives_and_then build_text)
  then have "gives payload_text (parse_abs_timestamp_string_or_binary body dt multi version)" for dt
    by (auto simp: parse_abs_timestamp_string_or_binary_def build_text intro!: gives_and_then)
  moreover have "gives payload_text (read_timestamped_n cur dt n)"
    if "dt \<notin> {DtString, DtBinary, DtByteArray}" for cur n
    using that by (cases dt) (auto simp: gives_def pairs_of_def map_ok_eq_Inr_iff)
  ultimately show ?thesis
    by (auto simp: parse_abs_timestamp_data_def intro!: gives_and_then)
qed

lemma parse_message_text: "gives payload_text (parse_message_event body dt)"
  by (auto simp: parse_message_event_def build_text intro!: gives_and_then)

section \<open>The items of a reader\<close>

fun kind_text :: "block_kind \<Rightarrow> bool" where
  "kind_text (AbsTimestampData p) = payload_text p"
| "kind_text _ = True"

definition item_text :: "osf_error + block \<Rightarrow> bool" where
  "item_text x = (case x of Inl e \<Rightarrow> True | Inr blk \<Rightarrow> kind_text (blk_kind blk))"

lemma dispatch_text:
  assumes "fst (dispatch channel info len cb body r) = Some x"
  shows "item_text x"
proof (cases "cb_kind (decode_control_byte cb)")
  case CkMessageEvent
  then show ?thesis using assms parse_message_text [of body "ci_data_type info"]
    by (auto simp: dispatch_def Let_def item_text_def skipped_item_def block_item_def gives_def
          split: sum.splits if_splits)
next
  case CkAbsTimeStampData
  then show ?thesis
    using assms parse_abs_text [of body "ci_data_type info" "cb_multi_sample (decode_control_byte cb)" "br_osf_version r"]
    by (auto simp: dispatch_def Let_def item_text_def skipped_item_def block_item_def gives_def split: sum.splits)
qed (use assms in \<open>auto simp: dispatch_def Let_def item_text_def skipped_item_def block_item_def split: sum.splits\<close>)

interpretation text_items: item_law item_text
  by unfold_locales (simp_all add: dispatch_text, simp_all add: item_text_def)

section \<open>The channels of a loaded file\<close>

lemma numeric_texts: "\<forall>v \<in> set (kind_values kind). sample_text v" if "kind_text kind"
proof (cases kind)
  case (ContinuedRelStampData p)
  then show ?thesis by (cases p) auto
qed (use that in \<open>auto simp: payload_text_def\<close>)

definition log_text :: "channel_builder \<Rightarrow> bool" where
  "log_text b \<longleftrightarrow> list_all sample_text (map snd (builder_log b))"

lemma apply_block_text:
  assumes "bl_wf b" "apply_block b kind = Inr b'" "log_text b" "kind_text kind"
  shows "log_text b'"
proof -
  have "list_all sample_text (kind_values kind)" using numeric_texts [OF assms(4)] by (simp add: list_all_iff)
  then show ?thesis
    using assms(3) by (simp only: log_text_def log_values_append [OF assms(1,2)] list_all_append)
qed

interpretation text_loop: invariant_step feed_block "\<lambda>x. item_no_panic x \<and> item_text x"
  "\<lambda>s. builders_wf s \<and> (\<forall>b \<in> ran s. log_text b)" "\<lambda>e. \<not> is_panic e"
proof unfold_locales
  fix s x s'
  assume inv: "builders_wf s \<and> (\<forall>b \<in> ran s. log_text b)" and x: "item_no_panic x \<and> item_text x"
    and step: "feed_block s x = Inr s'"
  have "builders_wf s'" using block_loop.step_inv inv x step by blast
  moreover obtain blk c c' where "x = Inr blk" "s (blk_channel_index blk) = Some c"
      "apply_block c (blk_kind blk) = Inr c'" "s' = s(blk_channel_index blk \<mapsto> c')"
    using step by (auto simp: feed_block_def and_then_eq_Inr_iff split: option.splits)
  moreover from this have "log_text c'"
    using inv x apply_block_text [of c "blk_kind blk" c'] by (auto simp: builders_wf_def item_text_def ran_def)
  ultimately show "builders_wf s' \<and> (\<forall>b \<in> ran s'. log_text b)" using inv by (auto simp: ran_def)
qed (use block_loop.step_error in blast)

lemma finalized_readable: "bl_wf b \<Longrightarrow> log_text b \<Longrightarrow> finalize b = Some c \<Longrightarrow> readable c"
proof -
  assume wf: "bl_wf b" and texts: "log_text b" and fin: "finalize b = Some c"
  have "texts_valid c"
  proof (cases "bl_state b")
    case (BsVariable ts strings binaries)
    then have "length (text_samples strings binaries) = length ts"
      using wf text_samples_length by (auto simp: bl_wf_def)
    then have "list_all sample_text (text_samples strings binaries)"
      using texts BsVariable by (simp add: log_text_def builder_log_def)
    then show ?thesis using fin BsVariable
      by (auto simp: finalize_def to_variable_def text_samples_def list_all_iff split: option.splits)
  qed (use fin in \<open>auto simp: finalize_def to_equidistant_def to_timestamped_def to_variable_def split: option.splits if_splits\<close>)
  then show ?thesis using finalize_channel(1) [OF wf fin] by (simp add: readable_def)
qed

lemma collected_channels:
  "c \<in> set (fst (collect_channels order bs out)) \<Longrightarrow>
   c \<in> set (fst out) \<or> (\<exists>b \<in> ran bs. finalize b = Some c)"
proof (induction order bs out rule: collect_channels.induct)
  case (2 index order bs channels by_name by_index)
  show ?case
  proof (cases "bs index")
    case None
    then show ?thesis using "2.IH"(1) "2.prems" by simp
  next
    case (Some b)
    then have b: "b \<in> ran bs" by (auto simp: ran_def)
    have less: "ran (bs(index := None)) \<subseteq> ran bs" by (auto simp: ran_def)
    show ?thesis
    proof (cases "finalize b")
      case None
      then show ?thesis using "2.IH"(2) [OF Some None] "2.prems" Some less by (auto simp: fun_upd_def)
    next
      case fin: (Some c)
      then show ?thesis using "2.IH"(3) [OF Some fin] "2.prems" Some less b by (auto simp: fun_upd_def)
    qed
  qed
qed simp

lemma loaded_parts:
  assumes "load_from_stream_with_size ex st file_size = Inr m"
  obtains r out where "build_channels (dm_meta m) (fst (items (ex_crc32c ex) r)) = Inr out"
    "out = (dm_channels m, dm_by_name m, dm_by_index m)"
  using assms
  by (auto simp: load_from_stream_with_size_def Let_def case_prod_unfold and_then_eq_Inr_iff)

lemma streamed_channel:
  assumes "load_from_stream_with_size ex st file_size = Inr m" and c: "c \<in> set (dm_channels m)"
  obtains b where "bl_wf b" "log_text b" "finalize b = Some c"
proof -
  from assms(1) obtain r out where build: "build_channels (dm_meta m) (fst (items (ex_crc32c ex) r)) = Inr out"
      and out: "out = (dm_channels m, dm_by_name m, dm_by_index m)" by (rule loaded_parts)
  let ?start = "foldl insert_builder Map.empty (mb_channels (dm_meta m))"
  obtain bs where bs: "exec_all feed_block ?start (fst (items (ex_crc32c ex) r)) = Inr bs"
      and collected: "out = collect_channels (map mc_index (mb_channels (dm_meta m))) bs ([], Map.empty, Map.empty)"
    using build_channels_parts [OF build] .
  have "\<forall>b \<in> ran (foldl insert_builder bs0 chans). log_text b" if "\<forall>b \<in> ran bs0. log_text b" for bs0 chans
    using that
  proof (induction chans arbitrary: bs0)
    case (Cons chan chans)
    have "log_text (builder_for chan)"
      by (cases "mc_data_type chan")
         (simp_all add: log_text_def builder_for_def initial_state_for_def builder_log_def)
    then have "\<forall>b \<in> ran (insert_builder bs0 chan). log_text b"
      using Cons.prems by (auto simp: insert_builder_def ran_def)
    from Cons.IH [OF this] show ?case by simp
  qed simp
  from this [of Map.empty] have "\<forall>b \<in> ran ?start. log_text b" by simp
  then have "builders_wf ?start \<and> (\<forall>b \<in> ran ?start. log_text b)"
    using initial_builders_wf [OF empty_builders_wf] by blast
  moreover have "\<forall>x \<in> set (fst (items (ex_crc32c ex) r)). item_no_panic x \<and> item_text x"
    using no_panic_items.items_ok text_items.items_ok by blast
  ultimately have wf: "builders_wf bs \<and> (\<forall>b \<in> ran bs. log_text b)" using bs by (rule text_loop.exec_inv)
  have "c \<in> set (fst (collect_channels (map mc_index (mb_channels (dm_meta m))) bs ([], Map.empty, Map.empty)))"
    unfolding collected [symmetric] out using c by simp
  from collected_channels [OF this] obtain b where b: "b \<in> ran bs" "finalize b = Some c" by auto
  with wf have "bl_wf b" "log_text b" by (auto simp: builders_wf_def ran_def)
  then show ?thesis using b(2) by (rule that)
qed

lemma loaded_streamed:
  assumes "load_from_reader ex fill s = Inr m"
  obtains st where "load_from_stream_with_size ex st None = Inr m"
  using assms by (auto simp: load_from_reader_def and_then_eq_Inr_iff)

lemma file_streamed:
  assumes "load_from_file ex fill s file_size = Inr m"
  obtains st where "load_from_stream_with_size ex st file_size = Inr m"
  using assms by (auto simp: load_from_file_def and_then_eq_Inr_iff)

lemma streamed_readable:
  assumes "load_from_stream_with_size ex st file_size = Inr m" and "c \<in> set (dm_channels m)"
  shows "readable c"
  using streamed_channel [OF assms] finalized_readable by metis

lemma loaded_readable:
  assumes "load_from_reader ex fill s = Inr m" and "c \<in> set (dm_channels m)"
  shows "readable c"
  using loaded_streamed [OF assms(1)] streamed_readable assms(2) by metis

section \<open>Copying a loaded file\<close>

text \<open>The copy of the demo file: one declared channel.\<close>

definition demo_copy_def :: channel_def where
  "demo_copy_def =
     channel_def_from_manager_channel
       (to_equidistant (builder_for (demo_channel 3 ''t'' DtDouble)) (NvDouble []) [])"

definition demo_copy :: writer_builder where
  "demo_copy = writer_builder_new\<lparr>wb_name_to_index := [''t'' \<mapsto> 0], wb_channels := [demo_copy_def],
     wb_channel_data := [CdEmpty]\<rparr>"

definition demo_copy_externals :: "int externals" where
  "demo_copy_externals =
     demo_externals (Some (metablock_document (demo_serde None) ''now'' file_info_draft_default [demo_copy_def]))"

lemma demo_original:
  obtains original c where
    "load_from_file (demo_externals (Some (demo_document ''double''))) 8 (source demo_file) file_size = Inr original"
    and "dm_channels original = [c]" and "channel_name c = ''t''" and "dm_meta original = demo_meta"
    and "from_manager (dm_meta original) (dm_channels original) = Inr demo_copy"
proof -
  obtain c by_name by_index where c: "build_channels demo_meta [] = Inr ([c], by_name, by_index)"
      "channel_index c = 3" "channel_name c = ''t''" using demo_file_channels .
  obtain original where original:
      "load_from_file (demo_externals (Some (demo_document ''double''))) 8 (source demo_file) file_size = Inr original"
      "dm_channels original = [c]" "dm_meta original = demo_meta"
    using demo_file_items [where file_size = file_size] c(1)
    by (cases file_size) (simp_all add: load_from_file_def demo_file_plain load_from_stream_with_size_def
          demo_file_opened case_prod_unfold Let_def)
  have chan: "c = to_equidistant (builder_for (demo_channel 3 ''t'' DtDouble)) (NvDouble []) []"
    using c(1)
    by (simp add: demo_meta_def build_channels_def insert_builder_def builder_for_def demo_channel_def
          initial_state_for_def finalize_def)
  have "from_manager (dm_meta original) (dm_channels original) = Inr demo_copy"
    unfolding original(2,3)
    unfolding from_manager_def chan demo_copy_def demo_copy_def_def
    by (simp add: copy_channel_def channel_def_from_manager_channel_def add_channel_def builder_for_def
          to_equidistant_def demo_channel_def demo_meta_def file_info_default_def copied_file_info_def
          channel_def_default_def writer_builder_new_def Let_def copy_channel_data_def
          file_info_draft_default_def)
  then show ?thesis using that original c(3) by blast
qed

lemma demo_copy_conditions:
  "wb_channels demo_copy \<noteq> []" "length (wb_channels demo_copy) \<le> 0xFFFE"
  "\<forall>dat \<in> set (wb_channel_data demo_copy). texts_fit dat"
  "exact_integers (ex_serde_json demo_copy_externals)"
  "ex_crc32c demo_copy_externals = (\<lambda>bs. of_nat (length bs))"
  "\<forall>defs. autobump_size_of_length_value (wb_channels demo_copy) (wb_channel_data demo_copy) frame_crc = Inr defs
     \<longrightarrow> prints_faithfully (ex_serde_json demo_copy_externals)
           (metablock_document (ex_serde_json demo_copy_externals) ''now''
              (copied_file_info (mb_file_info demo_meta)) defs)"
proof -
  have info: "copied_file_info (mb_file_info demo_meta) = file_info_draft_default"
    by (simp add: copied_file_info_def demo_meta_def file_info_default_def file_info_draft_default_def)
  have bump: "autobump_size_of_length_value [demo_copy_def] [CdEmpty] frame_crc = Inr [demo_copy_def]"
    by (simp add: demo_copy_def_def autobump_size_of_length_value_def index_at_def bump_one_def crc_reserve_def
          MAX_BLOCK_PAYLOAD_U16_def)
  show "wb_channels demo_copy \<noteq> []" "length (wb_channels demo_copy) \<le> 0xFFFE"
    "\<forall>dat \<in> set (wb_channel_data demo_copy). texts_fit dat"
    "exact_integers (ex_serde_json demo_copy_externals)"
    "ex_crc32c demo_copy_externals = (\<lambda>bs. of_nat (length bs))"
    "\<forall>defs. autobump_size_of_length_value (wb_channels demo_copy) (wb_channel_data demo_copy) frame_crc = Inr defs
     \<longrightarrow> prints_faithfully (ex_serde_json demo_copy_externals)
           (metablock_document (ex_serde_json demo_copy_externals) ''now''
              (copied_file_info (mb_file_info demo_meta)) defs)"
    by (simp_all add: demo_copy_def demo_copy_externals_def demo_externals_def texts_fit_def info bump
          demo_serde_exact demo_serde_prints)
qed

text \<open>
  Copying a file loses no sample, whatever the file. Every channel of a loaded manager can be
  iterated to the end. When \<open>from_manager\<close> accepts the manager, writing the copy at either
  integrity level and loading it again gives channels with the same names, the same datatypes and
  exactly the same timed samples, in the same order.
\<close>

theorem loaded_file_copies:
  fixes source_ex :: "'m externals" and ex :: "'n externals"
  assumes "load_from_reader source_ex source_fill s = Inr original"
    and "from_manager (dm_meta original) (dm_channels original) = Inr b"
    and "wb_channels b \<noteq> []" and "length (wb_channels b) \<le> 0xFFFE"
    and "\<forall>dat \<in> set (wb_channel_data b). texts_fit dat"
    and "profile = IpNone \<or> profile = IpCrc32c"
    and "exact_integers (ex_serde_json ex)"
    and "\<forall>defs. autobump_size_of_length_value (wb_channels b) (wb_channel_data b) (profile = IpCrc32c) = Inr defs
           \<longrightarrow> prints_faithfully (ex_serde_json ex)
                 (metablock_document (ex_serde_json ex) now (copied_file_info (mb_file_info (dm_meta original))) defs)"
  shows "(\<forall>c \<in> set (dm_channels original). \<exists>entries. channel_log c = Inr entries)
     \<and> (\<exists>bytes m. write_to (ex_serde_json ex) (ex_crc32c ex) now (writer_with_integrity profile b) = Inr bytes
          \<and> load_from_reader ex fill (source bytes) = Inr m
          \<and> map (\<lambda>c. (channel_name c, channel_data_type c, channel_log c)) (dm_channels m)
              = map (\<lambda>c. (channel_name c, channel_data_type c, channel_log c)) (dm_channels original))"
proof
  have readable: "\<forall>c \<in> set (dm_channels original). readable c"
    using loaded_readable [OF assms(1)] by blast
  then show "\<forall>c \<in> set (dm_channels original). \<exists>entries. channel_log c = Inr entries"
    by (simp add: readable_def)
  show "\<exists>bytes m. write_to (ex_serde_json ex) (ex_crc32c ex) now (writer_with_integrity profile b) = Inr bytes
          \<and> load_from_reader ex fill (source bytes) = Inr m
          \<and> map (\<lambda>c. (channel_name c, channel_data_type c, channel_log c)) (dm_channels m)
              = map (\<lambda>c. (channel_name c, channel_data_type c, channel_log c)) (dm_channels original)"
    unfolding load_from_reader_file by (rule copy_loads [OF readable assms(2-8)])
qed

theorem loaded_file_copies_witness:
  "\<exists>original bytes m.
     load_from_reader (demo_externals (Some (demo_document ''double''))) 8 (source demo_file) = Inr original
     \<and> from_manager (dm_meta original) (dm_channels original) = Inr demo_copy
     \<and> write_to (ex_serde_json demo_copy_externals) (ex_crc32c demo_copy_externals) ''now''
          (writer_with_integrity IpCrc32c demo_copy) = Inr bytes
     \<and> load_from_reader demo_copy_externals 5 (source bytes) = Inr m
     \<and> map channel_log (dm_channels m) = map channel_log (dm_channels original)
     \<and> map channel_name (dm_channels m) = [''t'']"
proof -
  obtain original c where original:
      "load_from_file (demo_externals (Some (demo_document ''double''))) 8 (source demo_file) None = Inr original"
      "dm_channels original = [c]" "channel_name c = ''t''" "dm_meta original = demo_meta"
      "from_manager (dm_meta original) (dm_channels original) = Inr demo_copy" using demo_original .
  let ?view = "\<lambda>m. map (\<lambda>c. (channel_name c, channel_data_type c, channel_log c)) (dm_channels m)"
  have "\<exists>bytes m. write_to (ex_serde_json demo_copy_externals) (ex_crc32c demo_copy_externals) ''now''
          (writer_with_integrity IpCrc32c demo_copy) = Inr bytes
     \<and> load_from_reader demo_copy_externals 5 (source bytes) = Inr m \<and> ?view m = ?view original"
    by (rule conjunct2 [OF loaded_file_copies
             [OF original(1) [folded load_from_reader_file] original(5) demo_copy_conditions(1-3)]])
       (simp_all add: original(4) demo_copy_conditions)
  then obtain bytes m where m: "write_to (ex_serde_json demo_copy_externals) (ex_crc32c demo_copy_externals) ''now''
        (writer_with_integrity IpCrc32c demo_copy) = Inr bytes"
      "load_from_reader demo_copy_externals 5 (source bytes) = Inr m" and same: "?view m = ?view original"
    by blast
  have "map channel_log (dm_channels m) = map channel_log (dm_channels original)"
      "map channel_name (dm_channels m) = [''t'']"
    using same original(3) by (cases "dm_channels m"; simp add: original(2))+
  then show ?thesis using original(1,5) m unfolding load_from_reader_file
    by (intro exI [of _ original] exI [of _ bytes] exI [of _ m]) simp
qed

end
