(* ===== verification/Access.thy ===== *)
theory Access
  imports Reload
begin

text \<open>
  Typed access to the channels of a loaded file: the accessor of the channel's datatype hands out
  exactly the iterated samples, and every other accessor reports both datatypes.
\<close>

section \<open>The shape of a loaded channel\<close>

definition channel_shape :: "channel \<Rightarrow> bool" where
  "channel_shape c \<longleftrightarrow>
     (case c of
        Equidistant e \<Rightarrow>
          nv_data_type (ec_samples e) = ec_data_type e \<and> segments_tile 0 (ec_segments e) (nv_len (ec_samples e))
      | Timestamped t \<Rightarrow>
          nv_data_type (tc_values t) = tc_data_type t \<and> length (tc_timestamps_ns t) = nv_len (tc_values t)
      | VariableChannel v \<Rightarrow>
          (if vc_data_type v = DtString
           then vc_binary_values v = None
             \<and> (\<exists>s. vc_string_values v = Some s \<and> length s = length (vc_timestamps_ns v))
           else vc_data_type v \<in> {DtBinary, DtByteArray} \<and> vc_string_values v = None
             \<and> (\<exists>b. vc_binary_values v = Some b \<and> length b = length (vc_timestamps_ns v))))"

lemma empty_for_shape: "empty_for dt = Some nv \<Longrightarrow> nv_data_type nv = dt \<and> nv_len nv = 0"
  by (cases dt) auto

lemma finalized_shape: "bl_wf b \<Longrightarrow> finalize b = Some c \<Longrightarrow> channel_shape c"
  by (cases "bl_state b")
     (auto simp: finalize_def to_equidistant_def to_timestamped_def to_variable_def channel_shape_def bl_wf_def
        state_wf_def dest: empty_for_shape split: option.splits if_splits data_type.splits)

lemma streamed_shape:
  "load_from_stream_with_size ex st file_size = Inr m \<Longrightarrow> c \<in> set (dm_channels m) \<Longrightarrow> channel_shape c"
  using streamed_channel finalized_shape by metis

lemma loaded_shape: "load_from_reader ex fill s = Inr m \<Longrightarrow> c \<in> set (dm_channels m) \<Longrightarrow> channel_shape c"
  using loaded_streamed streamed_shape by metis

text \<open>A channel of this shape, as the list of its timed samples.\<close>

lemma shaped_log:
  assumes "channel_shape c"
  obtains entries where "channel_log c = Inr entries" "channel_sample_count c = length entries"
proof (cases c)
  case (Equidistant e)
  then have tile: "segments_tile 0 (ec_segments e) (nv_len (ec_samples e))"
    using assms by (simp add: channel_shape_def)
  then show ?thesis using that Equidistant ec_log [OF tile] segments_tile_times [OF tile] by simp
next
  case (Timestamped t)
  then show ?thesis using assms that tc_log [of t] by (simp add: channel_shape_def)
next
  case (VariableChannel v)
  then show ?thesis using assms that vc_log_strings [of v] vc_log_binaries [of v]
    by (auto simp: channel_shape_def split: if_splits)
qed

section \<open>Accessors\<close>

text \<open>
  What a flat accessor of datatype \<open>dt\<close> promises: on a channel of that datatype, the values (pairs) of
  the iteration; on any other channel, an error that names both datatypes.
\<close>

definition access_error :: "channel \<Rightarrow> data_type \<Rightarrow> osf_error" where
  "access_error c dt = DataTypeAccessMismatch (channel_index c) dt (channel_data_type c)"

definition flat_values :: "channel \<Rightarrow> ('a \<Rightarrow> numeric_value_ref) \<Rightarrow> data_type \<Rightarrow> osf_error + 'a list \<Rightarrow> bool" where
  "flat_values c wrap dt r \<longleftrightarrow>
     (if channel_data_type c = dt
      then \<exists>v entries. r = Inr v \<and> channel_log c = Inr entries \<and> map snd entries = map (NumSample \<circ> wrap) v
      else r = Inl (access_error c dt))"

definition flat_pairs ::
  "channel \<Rightarrow> ('a \<Rightarrow> numeric_value_ref) \<Rightarrow> data_type \<Rightarrow> osf_error + (i64 \<times> 'a) list \<Rightarrow> bool"
where
  "flat_pairs c wrap dt r \<longleftrightarrow>
     (if channel_data_type c = dt
      then \<exists>v. r = Inr v \<and> channel_log c = Inr (map (apsnd (NumSample \<circ> wrap)) v)
      else r = Inl (access_error c dt))"

definition text_access :: "channel \<Rightarrow> variable_channel \<Rightarrow> bool" where
  "text_access c v \<longleftrightarrow>
     (if channel_data_type c = DtString
      then (\<exists>s. as_strings v = Inr s \<and> channel_log c = Inr (zip (vc_timestamps_ns v) (map (VarSample \<circ> VrString) s)))
        \<and> as_binaries v = Inl (access_error c DtBinary)
      else (\<exists>b. as_binaries v = Inr b \<and> channel_log c = Inr (zip (vc_timestamps_ns v) (map (VarSample \<circ> VrBinary) b)))
        \<and> as_strings v = Inl (access_error c DtString))"

text \<open>A selector of the macro returns the storage of its datatype and nothing else.\<close>

definition selects :: "(numeric_values \<Rightarrow> 'a list option) \<Rightarrow> ('a \<Rightarrow> numeric_value_ref) \<Rightarrow> data_type \<Rightarrow> numeric_values \<Rightarrow> bool" where
  "selects sel wrap dt nv \<longleftrightarrow>
     (case sel nv of
        None \<Rightarrow> nv_data_type nv \<noteq> dt
      | Some v \<Rightarrow> nv_data_type nv = dt \<and> refs_of nv = map wrap v)"

lemma selectors:
  "selects the_Bool VrBool DtBool nv"
  "selects the_Int8 VrInt8 DtInt8 nv"
  "selects the_Int16 VrInt16 DtInt16 nv"
  "selects the_Int32 VrInt32 DtInt32 nv"
  "selects the_Int64 VrInt64 DtInt64 nv"
  "selects the_UInt8 VrUInt8 DtUInt8 nv"
  "selects the_UInt16 VrUInt16 DtUInt16 nv"
  "selects the_UInt32 VrUInt32 DtUInt32 nv"
  "selects the_UInt64 VrUInt64 DtUInt64 nv"
  "selects the_Float VrFloat DtFloat nv"
  "selects the_Double VrDouble DtDouble nv"
  "selects the_GpsLocation VrGpsLocation DtGpsLocation nv"
  by (cases nv; simp add: selects_def)+

lemma ec_flat_values:
  assumes shape: "channel_shape (Equidistant e)" and sel: "selects sel wrap dt (ec_samples e)"
  shows "flat_values (Equidistant e) wrap dt (ec_flat_access sel dt e)"
proof -
  have tile: "segments_tile 0 (ec_segments e) (nv_len (ec_samples e))"
      and dt: "nv_data_type (ec_samples e) = ec_data_type e"
    using shape by (simp_all add: channel_shape_def)
  have len: "length (segment_times (ec_segments e)) = nv_len (ec_samples e)"
    using segments_tile_times [OF tile] by simp
  have log: "channel_log (Equidistant e)
      = Inr (map (apsnd NumSample) (zip (segment_times (ec_segments e)) (refs_of (ec_samples e))))"
    using ec_log [OF tile] by simp
  show ?thesis
  proof (cases "sel (ec_samples e)")
    case None
    then show ?thesis using sel dt
      by (simp add: selects_def flat_values_def ec_flat_access_def access_error_def)
  next
    case (Some v)
    have "map snd (map (apsnd NumSample) (zip (segment_times (ec_segments e)) (refs_of (ec_samples e))))
        = map NumSample (refs_of (ec_samples e))"
      using len by (simp add: comp_def flip: map_map [of NumSample snd, unfolded comp_def])
    then show ?thesis using Some sel dt log
      by (simp add: selects_def flat_values_def ec_flat_access_def del: channel_log.simps)
  qed
qed

lemma tc_flat_pairs:
  assumes shape: "channel_shape (Timestamped t)" and sel: "selects sel wrap dt (tc_values t)"
  shows "flat_pairs (Timestamped t) wrap dt (tc_flat_access sel dt t)"
proof -
  have dt: "nv_data_type (tc_values t) = tc_data_type t"
      and log: "channel_log (Timestamped t) = Inr (map (apsnd NumSample) (zip (tc_timestamps_ns t) (refs_of (tc_values t))))"
    using shape tc_log [of t] by (simp_all add: channel_shape_def)
  have "map (apsnd NumSample) (zip ts (map wrap v)) = map (apsnd (NumSample \<circ> wrap)) (zip ts v)" for ts :: "i64 list" and v
    by (simp add: zip_map2 apsnd_def map_prod_def case_prod_unfold)
  then show ?thesis
    using sel dt log
    by (cases "sel (tc_values t)")
       (simp_all add: selects_def flat_pairs_def tc_flat_access_def access_error_def del: channel_log.simps)
qed

lemma variable_text_access: "channel_shape (VariableChannel v) \<Longrightarrow> text_access (VariableChannel v) v"
  using vc_log_strings [of v] vc_log_binaries [of v]
  by (auto simp: channel_shape_def text_access_def as_strings_def as_binaries_def access_error_def map_apsnd_zip
      comp_def split: if_splits)

lemmas flat_accessors =
  ec_as_bools_flat_def ec_as_int8_flat_def ec_as_int16_flat_def ec_as_int32_flat_def
  ec_as_int64_flat_def ec_as_uint8_flat_def ec_as_uint16_flat_def ec_as_uint32_flat_def
  ec_as_uint64_flat_def ec_as_floats_flat_def ec_as_doubles_flat_def ec_as_gps_flat_def
  tc_as_bools_flat_def tc_as_int8_flat_def tc_as_int16_flat_def tc_as_int32_flat_def
  tc_as_int64_flat_def tc_as_uint8_flat_def tc_as_uint16_flat_def tc_as_uint32_flat_def
  tc_as_uint64_flat_def tc_as_floats_flat_def tc_as_doubles_flat_def tc_as_gps_flat_def

section \<open>Loaded channels\<close>

text \<open>
  C39. Typed access is typed. On every channel of every loaded file, the number of samples the channel
  reports is the number of samples its iteration yields; the accessor of the channel's own datatype
  succeeds with exactly the iterated values (on timestamped channels paired with their times), where
  \<open>as_binaries\<close> also serves \<open>bytearray\<close> channels; and each of the other accessors fails with an error
  that names the channel, the requested datatype and the actual one.
\<close>

theorem loaded_flat_access:
  assumes "load_from_reader ex fill s = Inr m" and "c \<in> set (dm_channels m)"
  shows "(\<exists>entries. channel_log c = Inr entries \<and> channel_sample_count c = length entries)
    \<and> (case c of
         Equidistant e \<Rightarrow>
            flat_values c VrBool DtBool (ec_as_bools_flat e)
          \<and> flat_values c VrInt8 DtInt8 (ec_as_int8_flat e)
          \<and> flat_values c VrInt16 DtInt16 (ec_as_int16_flat e)
          \<and> flat_values c VrInt32 DtInt32 (ec_as_int32_flat e)
          \<and> flat_values c VrInt64 DtInt64 (ec_as_int64_flat e)
          \<and> flat_values c VrUInt8 DtUInt8 (ec_as_uint8_flat e)
          \<and> flat_values c VrUInt16 DtUInt16 (ec_as_uint16_flat e)
          \<and> flat_values c VrUInt32 DtUInt32 (ec_as_uint32_flat e)
          \<and> flat_values c VrUInt64 DtUInt64 (ec_as_uint64_flat e)
          \<and> flat_values c VrFloat DtFloat (ec_as_floats_flat e)
          \<and> flat_values c VrDouble DtDouble (ec_as_doubles_flat e)
          \<and> flat_values c VrGpsLocation DtGpsLocation (ec_as_gps_flat e)
       | Timestamped t \<Rightarrow>
            flat_pairs c VrBool DtBool (tc_as_bools_flat t)
          \<and> flat_pairs c VrInt8 DtInt8 (tc_as_int8_flat t)
          \<and> flat_pairs c VrInt16 DtInt16 (tc_as_int16_flat t)
          \<and> flat_pairs c VrInt32 DtInt32 (tc_as_int32_flat t)
          \<and> flat_pairs c VrInt64 DtInt64 (tc_as_int64_flat t)
          \<and> flat_pairs c VrUInt8 DtUInt8 (tc_as_uint8_flat t)
          \<and> flat_pairs c VrUInt16 DtUInt16 (tc_as_uint16_flat t)
          \<and> flat_pairs c VrUInt32 DtUInt32 (tc_as_uint32_flat t)
          \<and> flat_pairs c VrUInt64 DtUInt64 (tc_as_uint64_flat t)
          \<and> flat_pairs c VrFloat DtFloat (tc_as_floats_flat t)
          \<and> flat_pairs c VrDouble DtDouble (tc_as_doubles_flat t)
          \<and> flat_pairs c VrGpsLocation DtGpsLocation (tc_as_gps_flat t)
       | VariableChannel v \<Rightarrow> text_access c v)"
proof
  have shape: "channel_shape c" using loaded_shape [OF assms] .
  show "\<exists>entries. channel_log c = Inr entries \<and> channel_sample_count c = length entries"
    using shaped_log [OF shape] by metis
  show "case c of
         Equidistant e \<Rightarrow>
            flat_values c VrBool DtBool (ec_as_bools_flat e)
          \<and> flat_values c VrInt8 DtInt8 (ec_as_int8_flat e)
          \<and> flat_values c VrInt16 DtInt16 (ec_as_int16_flat e)
          \<and> flat_values c VrInt32 DtInt32 (ec_as_int32_flat e)
          \<and> flat_values c VrInt64 DtInt64 (ec_as_int64_flat e)
          \<and> flat_values c VrUInt8 DtUInt8 (ec_as_uint8_flat e)
          \<and> flat_values c VrUInt16 DtUInt16 (ec_as_uint16_flat e)
          \<and> flat_values c VrUInt32 DtUInt32 (ec_as_uint32_flat e)
          \<and> flat_values c VrUInt64 DtUInt64 (ec_as_uint64_flat e)
          \<and> flat_values c VrFloat DtFloat (ec_as_floats_flat e)
          \<and> flat_values c VrDouble DtDouble (ec_as_doubles_flat e)
          \<and> flat_values c VrGpsLocation DtGpsLocation (ec_as_gps_flat e)
       | Timestamped t \<Rightarrow>
            flat_pairs c VrBool DtBool (tc_as_bools_flat t)
          \<and> flat_pairs c VrInt8 DtInt8 (tc_as_int8_flat t)
          \<and> flat_pairs c VrInt16 DtInt16 (tc_as_int16_flat t)
          \<and> flat_pairs c VrInt32 DtInt32 (tc_as_int32_flat t)
          \<and> flat_pairs c VrInt64 DtInt64 (tc_as_int64_flat t)
          \<and> flat_pairs c VrUInt8 DtUInt8 (tc_as_uint8_flat t)
          \<and> flat_pairs c VrUInt16 DtUInt16 (tc_as_uint16_flat t)
          \<and> flat_pairs c VrUInt32 DtUInt32 (tc_as_uint32_flat t)
          \<and> flat_pairs c VrUInt64 DtUInt64 (tc_as_uint64_flat t)
          \<and> flat_pairs c VrFloat DtFloat (tc_as_floats_flat t)
          \<and> flat_pairs c VrDouble DtDouble (tc_as_doubles_flat t)
          \<and> flat_pairs c VrGpsLocation DtGpsLocation (tc_as_gps_flat t)
       | VariableChannel v \<Rightarrow> text_access c v"
    using shape selectors
    by (cases c) (simp_all add: flat_accessors ec_flat_values tc_flat_pairs variable_text_access)
qed

theorem loaded_flat_access_witness:
  "\<exists>m e. load_from_reader (demo_externals (Some (demo_document ''double''))) 8 (source demo_file) = Inr m
     \<and> dm_channels m = [Equidistant e] \<and> ec_as_doubles_flat e = Inr []
     \<and> ec_as_bools_flat e = Inl (DataTypeAccessMismatch 3 DtBool DtDouble)"
proof -
  let ?e = "\<lparr>ec_index = 3, ec_name = ''t'', ec_data_type = DtDouble, ec_physical_unit = None, ec_display_name = None,
      ec_channel_def = bl_channel_def (builder_for (demo_channel 3 ''t'' DtDouble)), ec_samples = NvDouble [], ec_segments = []\<rparr>"
  obtain c by_name by_index where c: "build_channels demo_meta [] = Inr ([c], by_name, by_index)"
    using demo_file_channels by metis
  obtain m where m: "load_from_reader (demo_externals (Some (demo_document ''double''))) 8 (source demo_file) = Inr m"
      "dm_channels m = [c]"
    using demo_file_items [where file_size = None] c
    by (simp add: load_from_reader_def demo_file_plain load_from_stream_with_size_def demo_file_opened
          case_prod_unfold Let_def)
  have e: "c = Equidistant ?e"
    using c
    by (simp add: demo_meta_def build_channels_def insert_builder_def builder_for_def demo_channel_def
          initial_state_for_def finalize_def to_equidistant_def)
  show ?thesis
    using loaded_flat_access [OF m(1), of c] m e
    by (intro exI [of _ m] exI [of _ ?e]) (simp add: flat_values_def access_error_def ec_samples_with_time_def)
qed

end
