(* ===== verification/Disk.thy ===== *)
theory Disk
  imports Types
begin

text \<open>
  The programs under \<open>osf-core/examples\<close> run on a disk and end by returning, by an exit code or by a panic.
  The paths they use are file names in one directory.
\<close>

section \<open>Files\<close>

text \<open>
  The disk as far as a program sees it: the files, the paths that cannot be read or written, and
  whether the directory can be made.
\<close>

record disk =
  dk_files :: "string \<rightharpoonup> byte list"
  dk_unreadable :: "string list"
  dk_unwritable :: "string list"
  dk_directory :: bool

datatype read_error = NotFound | OtherReadError

text \<open>How the process stops before the end of \<open>main\<close>: an exit code or a panic.\<close>

datatype stopped = ExitCode nat | Panicked string

type_synonym program = "disk \<Rightarrow> (stopped + unit) \<times> disk"

definition disk_read :: "disk \<Rightarrow> string \<Rightarrow> read_error + byte list" where
  "disk_read d path =
     (if path \<in> set (dk_unreadable d) then Inl OtherReadError
      else case dk_files d path of None \<Rightarrow> Inl NotFound | Some bytes \<Rightarrow> Inr bytes)"

section \<open>Programs\<close>

text \<open>An assertion: \<open>assert!\<close> and \<open>assert_eq!\<close> panic with a message.\<close>

definition assert_that :: "bool \<Rightarrow> string \<Rightarrow> osf_error + unit" where
  "assert_that ok msg = (if ok then Inr () else Inl (Panic msg))"

text \<open>\<open>expect\<close> turns an error into a panic; \<open>unwrap\<close> does, with a message of its own.\<close>

definition expect :: "string \<Rightarrow> osf_error + 'a \<Rightarrow> osf_error + 'a" where
  "expect msg r =
     (case r of Inr v \<Rightarrow> Inr v | Inl (Panic panic) \<Rightarrow> Inl (Panic panic) | Inl _ \<Rightarrow> Inl (Panic msg))"

lemma expect_Inr [simp]: "expect msg (Inr v) = Inr v"
  by (simp add: expect_def)

definition unwrap :: "osf_error + 'a \<Rightarrow> osf_error + 'a" where
  "unwrap r = expect ''called Result::unwrap() on an Err value'' r"

definition seq_then :: "program \<Rightarrow> program \<Rightarrow> program" where
  "seq_then p q d = (case p d of (Inl e, d') \<Rightarrow> (Inl e, d') | (Inr _, d') \<Rightarrow> q d')"

text \<open>A computation that may panic, before a program that uses its value.\<close>

definition panicked :: "osf_error \<Rightarrow> stopped" where
  "panicked e = Panicked (case e of Panic msg \<Rightarrow> msg | _ \<Rightarrow> [])"

definition with_value :: "osf_error + 'a \<Rightarrow> ('a \<Rightarrow> program) \<Rightarrow> program" where
  "with_value r k d = (case r of Inl e \<Rightarrow> (Inl (panicked e), d) | Inr v \<Rightarrow> k v d)"

section \<open>Nothing is lost\<close>

text \<open>A program keeps files when no file of the disk is changed or removed, however the program ends.\<close>

definition keeps_files :: "program \<Rightarrow> bool" where
  "keeps_files p \<longleftrightarrow> (\<forall>d. dk_files d \<subseteq>\<^sub>m dk_files (snd (p d)))"

lemma keeps_files_seq: "keeps_files p \<Longrightarrow> keeps_files q \<Longrightarrow> keeps_files (seq_then p q)"
  by (auto simp: keeps_files_def seq_then_def split: prod.split sum.split intro: map_le_trans)

lemma keeps_files_value: "(\<And>v. keeps_files (k v)) \<Longrightarrow> keeps_files (with_value r k)"
  by (cases r) (simp_all add: keeps_files_def with_value_def)

end
