(* ===== verification/CopyTool.thy ===== *)
theory CopyTool
  imports Access Disk
begin

text \<open>
  The program \<open>examples/copy.rs\<close>: load a file, write it back as OSF5, load the result and compare. The
  lines it prints are left out; a panic inside the library is a panic of the program.
\<close>

section \<open>The program\<close>

definition fail_with :: "osf_error \<Rightarrow> stopped" where
  "fail_with e = (case e of Panic msg \<Rightarrow> Panicked msg | _ \<Rightarrow> ExitCode 1)"

text \<open>\<open>DataManager::load_from_file\<close> on a path; a path that cannot be opened is an I/O error.\<close>

definition load_path :: "'n externals \<Rightarrow> nat \<Rightarrow> disk \<Rightarrow> string \<Rightarrow> osf_error + data_manager" where
  "load_path ex fill d path =
     (case disk_read d path of
        Inl _ \<Rightarrow> Inl (Io OtherIo)
      | Inr bytes \<Rightarrow> load_from_file ex fill (source bytes) (Some (length bytes)))"

text \<open>
  \<open>WriterBuilder::write_to_file\<close> on a path. \<open>File::create\<close> empties the target; an error after that leaves in
  it what has been written so far: nothing when there are no channels, \<open>partial\<close> otherwise.
\<close>

definition write_builder_at ::
  "'n externals \<Rightarrow> string \<Rightarrow> byte list \<Rightarrow> writer_builder \<Rightarrow> string \<Rightarrow> disk \<Rightarrow> (osf_error + unit) \<times> disk"
where
  "write_builder_at ex now partial b path d =
     (if path \<in> set (dk_unwritable d) then (Inl (Io OtherIo), d)
      else (case write_to (ex_serde_json ex) (ex_crc32c ex) now b of
              Inr bytes \<Rightarrow> (Inr (), d\<lparr>dk_files := (dk_files d)(path \<mapsto> bytes)\<rparr>)
            | Inl WriterEmpty \<Rightarrow> (Inl WriterEmpty, d\<lparr>dk_files := (dk_files d)(path \<mapsto> [])\<rparr>)
            | Inl e \<Rightarrow> (Inl e, d\<lparr>dk_files := (dk_files d)(path \<mapsto> partial)\<rparr>)))"

text \<open>The function \<open>write_to_file\<close> for a manager.\<close>

definition write_manager_at ::
  "'n externals \<Rightarrow> string \<Rightarrow> byte list \<Rightarrow> data_manager \<Rightarrow> string \<Rightarrow> disk \<Rightarrow> (osf_error + unit) \<times> disk"
where
  "write_manager_at ex now partial manager path d =
     (case from_manager (dm_meta manager) (dm_channels manager) of
        Inl e \<Rightarrow> (Inl e, d)
      | Inr b \<Rightarrow> write_builder_at ex now partial b path d)"

text \<open>The comparison of the two managers.\<close>

definition same_channels :: "data_manager \<Rightarrow> data_manager \<Rightarrow> bool" where
  "same_channels reload mgr \<longleftrightarrow>
     length (dm_channels reload) = length (dm_channels mgr)
     \<and> list_all (\<lambda>(a, b). channel_name a = channel_name b \<and> channel_sample_count a = channel_sample_count b)
         (zip (dm_channels mgr) (dm_channels reload))"

definition copy_tool :: "'n externals \<Rightarrow> string \<Rightarrow> byte list \<Rightarrow> nat \<Rightarrow> nat \<Rightarrow> string list \<Rightarrow> program" where
  "copy_tool ex now partial fill fill' args d =
     (case args of
        src # dst # _ \<Rightarrow>
          (case load_path ex fill d src of
             Inl e \<Rightarrow> (Inl (fail_with e), d)
           | Inr mgr \<Rightarrow>
               (case write_manager_at ex now partial mgr dst d of
                  (Inl e, d') \<Rightarrow> (Inl (fail_with e), d')
                | (Inr _, d') \<Rightarrow>
                    (case load_path ex fill' d' dst of
                       Inl e \<Rightarrow> (Inl (fail_with e), d')
                     | Inr reload \<Rightarrow> (if same_channels reload mgr then Inr () else Inl (ExitCode 1), d'))))
      | _ \<Rightarrow> (Inl (ExitCode 2), d))"

section \<open>What it does to the disk\<close>

lemma write_manager_elsewhere:
  "p \<noteq> path \<Longrightarrow> dk_files (snd (write_manager_at ex now partial m path d)) p = dk_files d p"
  by (simp add: write_manager_at_def write_builder_at_def split: sum.split osf_error.split)

text \<open>Only the target can change, and only after the source has been loaded.\<close>

lemma copy_touches_target_only:
  assumes "dk_files (snd (copy_tool ex now partial fill fill' args d)) p \<noteq> dk_files d p"
  shows "\<exists>src rest mgr. args = src # p # rest \<and> load_path ex fill d src = Inr mgr"
proof -
  obtain src dst rest where args: "args = src # dst # rest"
    using assms by (cases args; cases "tl args") (auto simp: copy_tool_def)
  then obtain mgr where mgr: "load_path ex fill d src = Inr mgr"
    using assms by (cases "load_path ex fill d src") (auto simp: copy_tool_def)
  have "snd (copy_tool ex now partial fill fill' args d) = snd (write_manager_at ex now partial mgr dst d)"
    by (simp add: copy_tool_def args mgr split: prod.split sum.split)
  with assms write_manager_elsewhere have "p = dst" by metis
  with args mgr show ?thesis by blast
qed

lemma same_views_same_channels:
  assumes "map (\<lambda>c. (channel_name c, channel_data_type c, channel_log c)) (dm_channels reload)
      = map (\<lambda>c. (channel_name c, channel_data_type c, channel_log c)) (dm_channels mgr)"
    and "\<forall>c \<in> set (dm_channels reload) \<union> set (dm_channels mgr). channel_shape c"
  shows "same_channels reload mgr"
proof -
  have count: "channel_sample_count c = length (projr (channel_log c))"
    if "c \<in> set (dm_channels reload) \<union> set (dm_channels mgr)" for c
    using shaped_log [of c] assms(2) that by force
  have len: "length (dm_channels reload) = length (dm_channels mgr)" using map_eq_imp_length_eq [OF assms(1)] .
  have "channel_name (dm_channels mgr ! i) = channel_name (dm_channels reload ! i)
      \<and> channel_sample_count (dm_channels mgr ! i) = channel_sample_count (dm_channels reload ! i)"
    if "i < length (dm_channels mgr)" for i
    using arg_cong [OF assms(1), of "\<lambda>xs. xs ! i"] that len count [of "dm_channels mgr ! i"]
      count [of "dm_channels reload ! i"] by simp
  then show ?thesis by (auto simp: same_channels_def len list_all_length)
qed

text \<open>
  C9. A copy is verified or nothing is claimed. Take a source file that loads, whose channels the writer
  accepts and are at most 65534 (it accepts two more, whose indices the reader takes for its signature and
  trailer blocks), with no text or binary value of \<open>2 ^ 32 - 13\<close> bytes or more; and a JSON library that keeps integers exact and parses the metablock it
  printed for the copy. A target that cannot be written ends the program with exit code 1 and leaves the disk
  as it was. Without channels it ends with exit code 1 and has emptied the target. Otherwise the target
  afterwards holds a file that loads to the same names, datatypes and timed samples, every other file
  untouched, also when the target is the source itself; and the program ends with success, unless it may not
  read the target back, which is exit code 1. Under these conditions its own check never reports a mismatch.
\<close>

theorem copy_tool_outcome:
  fixes ex :: "'n externals"
  assumes "disk_read d src = Inr bytes" and "load_from_file ex fill (source bytes) (Some (length bytes)) = Inr mgr"
    and "from_manager (dm_meta mgr) (dm_channels mgr) = Inr b"
    and "length (wb_channels b) \<le> 0xFFFE" and "\<forall>dat \<in> set (wb_channel_data b). texts_fit dat"
    and "exact_integers (ex_serde_json ex)"
    and "\<forall>defs. autobump_size_of_length_value (wb_channels b) (wb_channel_data b) False = Inr defs
           \<longrightarrow> prints_faithfully (ex_serde_json ex)
                 (metablock_document (ex_serde_json ex) now (copied_file_info (mb_file_info (dm_meta mgr))) defs)"
  shows "if dst \<in> set (dk_unwritable d)
    then copy_tool ex now partial fill fill' [src, dst] d = (Inl (ExitCode 1), d)
    else if wb_channels b = []
    then copy_tool ex now partial fill fill' [src, dst] d
           = (Inl (ExitCode 1), d\<lparr>dk_files := (dk_files d)(dst \<mapsto> [])\<rparr>)
    else (\<exists>out copy. copy_tool ex now partial fill fill' [src, dst] d
              = (if dst \<in> set (dk_unreadable d) then Inl (ExitCode 1) else Inr (),
                 d\<lparr>dk_files := (dk_files d)(dst \<mapsto> out)\<rparr>)
            \<and> load_from_file ex fill' (source out) (Some (length out)) = Inr copy
            \<and> map (\<lambda>c. (channel_name c, channel_data_type c, channel_log c)) (dm_channels copy)
                = map (\<lambda>c. (channel_name c, channel_data_type c, channel_log c)) (dm_channels mgr))"
proof -
  have src: "load_path ex fill d src = Inr mgr" using assms(1,2) by (simp add: load_path_def)
  note tool = copy_tool_def src write_manager_at_def write_builder_at_def assms(3)
  consider "dst \<in> set (dk_unwritable d)" | "dst \<notin> set (dk_unwritable d)" "wb_channels b = []"
    | "dst \<notin> set (dk_unwritable d)" "wb_channels b \<noteq> []" by blast
  then show ?thesis
  proof cases
    case 1
    then show ?thesis by (simp add: tool fail_with_def)
  next
    case 2
    then show ?thesis by (simp add: tool Let_def write_to_def fail_with_def)
  next
    case 3
    note False = 3(2)
    obtain st where st: "load_from_stream_with_size ex st (Some (length bytes)) = Inr mgr" using file_streamed [OF assms(2)] .
    then have readable: "\<forall>c \<in> set (dm_channels mgr). readable c" using streamed_readable by metis
    have plain: "writer_with_integrity IpNone b = b" using from_manager_integrity [OF assms(3)] by (cases b) (simp add: writer_with_integrity_def)
    obtain out where out: "write_to (ex_serde_json ex) (ex_crc32c ex) now b = Inr out"
      using copy_loads [OF readable assms(3) False assms(4,5), of IpNone ex now 0 None] assms(6,7) unfolding plain by auto
    obtain out' copy where copy: "write_to (ex_serde_json ex) (ex_crc32c ex) now b = Inr out'"
        "load_from_file ex fill' (source out') (Some (length out)) = Inr copy"
        "map (\<lambda>c. (channel_name c, channel_data_type c, channel_log c)) (dm_channels copy)
          = map (\<lambda>c. (channel_name c, channel_data_type c, channel_log c)) (dm_channels mgr)"
      using copy_loads [OF readable assms(3) False assms(4,5), of IpNone ex now fill' "Some (length out)"] assms(6,7)
      unfolding plain by auto
    have out': "out' = out" using out copy(1) by simp
    obtain st' where "load_from_stream_with_size ex st' (Some (length out)) = Inr copy" using file_streamed [OF copy(2)] .
    then have same: "same_channels copy mgr"
      using same_views_same_channels [OF copy(3)] streamed_shape st by blast
    have "load_path ex fill' (d\<lparr>dk_files := (dk_files d)(dst \<mapsto> out)\<rparr>) dst
        = (if dst \<in> set (dk_unreadable d) then Inl (Io OtherIo) else Inr copy)"
      using copy(2) by (simp add: load_path_def disk_read_def out')
    then have "copy_tool ex now partial fill fill' [src, dst] d
        = (if dst \<in> set (dk_unreadable d) then Inl (ExitCode 1) else Inr (), d\<lparr>dk_files := (dk_files d)(dst \<mapsto> out)\<rparr>)"
      using 3 same by (simp add: tool Let_def out fail_with_def)
    with 3 copy(2,3) show ?thesis unfolding out' by (simp only: if_False) blast
  qed
qed

text \<open>A file is copied onto itself: external functions that read the document of the source and that of its copy.\<close>

definition demo_tool_externals :: "int externals" where
  "demo_tool_externals = demo_copy_externals
     \<lparr>ex_serde_json := (ex_serde_json demo_copy_externals)
        \<lparr>sj_from_slice := (\<lambda>bs. if bs = [] then Some (demo_document ''double'')
            else sj_from_slice (ex_serde_json demo_copy_externals) bs)\<rparr>\<rparr>"

lemma demo_tool_document:
  "metablock_document (ex_serde_json demo_tool_externals) now info defs
     = metablock_document (ex_serde_json demo_copy_externals) now info defs"
proof -
  have "json_f64 (ex_serde_json demo_tool_externals) = json_f64 (ex_serde_json demo_copy_externals)"
      "sj_number_u64 (ex_serde_json demo_tool_externals) = sj_number_u64 (ex_serde_json demo_copy_externals)"
      "sj_number_i64 (ex_serde_json demo_tool_externals) = sj_number_i64 (ex_serde_json demo_copy_externals)"
    by (simp_all add: fun_eq_iff json_f64_def demo_tool_externals_def)
  then show ?thesis
    by (simp add: metablock_document_def file_fields_def channel_def_to_json_def channel_fields_def)
qed

lemma demo_tool_conditions:
  "exact_integers (ex_serde_json demo_tool_externals)"
  "prints_faithfully (ex_serde_json demo_copy_externals) doc \<Longrightarrow> prints_faithfully (ex_serde_json demo_tool_externals) doc"
proof -
  show "exact_integers (ex_serde_json demo_tool_externals)"
    using demo_copy_conditions(4) by (simp add: exact_integers_def demo_tool_externals_def)
  assume prints: "prints_faithfully (ex_serde_json demo_copy_externals) doc"
  have "same_integers (ex_serde_json demo_tool_externals) = same_integers (ex_serde_json demo_copy_externals)"
    by (simp add: fun_eq_iff same_integers_def demo_tool_externals_def)
  moreover have "sj_to_vec_pretty (ex_serde_json demo_tool_externals) doc = sj_to_vec_pretty (ex_serde_json demo_copy_externals) doc"
    by (simp add: demo_tool_externals_def)
  moreover have "sj_from_slice (ex_serde_json demo_tool_externals) bs = sj_from_slice (ex_serde_json demo_copy_externals) bs"
    if "sj_to_vec_pretty (ex_serde_json demo_copy_externals) doc = Some bs" for bs
    using that by (auto simp: demo_tool_externals_def demo_copy_externals_def demo_externals_def demo_serde_def)
  ultimately show "prints_faithfully (ex_serde_json demo_tool_externals) doc"
    using prints by (auto simp: prints_faithfully_def)
qed

lemma demo_tool_parsed: "parse_metablock_json (ex_serde_json demo_tool_externals) [] = Inr demo_meta"
  by (simp add: parse_metablock_json_def demo_tool_externals_def demo_copy_externals_def demo_externals_def demo_serde_def
      demo_document_def as_object_def get_as_def parse_file_info_def parse_channels_def parse_infos_def parse_channel_def
      as_i64_def as_u64_def as_str_def parse_channel_type_def parse_data_type_def validate_size_of_length_value_def
      demo_meta_def demo_channel_def)

lemma demo_tool_original:
  obtains original where "load_from_file demo_tool_externals 8 (source demo_file) file_size = Inr original"
    and "map channel_name (dm_channels original) = [''t'']" and "dm_meta original = demo_meta"
    and "from_manager (dm_meta original) (dm_channels original) = Inr demo_copy"
proof -
  let ?ex = "demo_externals (Some (demo_document ''double''))"
  have "open_metablock demo_tool_externals (source demo_file) = open_metablock ?ex (source demo_file)"
    using open_metablock_written [where s = "source demo_file" and body = "[]" and crc = None and data = "[]"
        and ex = demo_tool_externals and meta = demo_meta] demo_tool_parsed
    by (simp add: demo_file_opened) (simp add: demo_file_def source_def)
  then have "load_from_file demo_tool_externals 8 (source demo_file) file_size
      = load_from_file ?ex 8 (source demo_file) file_size"
    by (simp add: load_from_file_def demo_file_plain load_from_stream_with_size_def demo_tool_externals_def
        demo_copy_externals_def demo_externals_def)
  with demo_original [of file_size] that show ?thesis by (metis list.simps(8,9))
qed

theorem copy_tool_outcome_witness:
  "\<exists>out copy. copy_tool demo_tool_externals ''now'' [] 8 5 [''a'', ''a'']
       \<lparr>dk_files = [''a'' \<mapsto> demo_file], dk_unreadable = [], dk_unwritable = [''b''], dk_directory = True\<rparr>
     = (Inr (), \<lparr>dk_files = [''a'' \<mapsto> out], dk_unreadable = [], dk_unwritable = [''b''], dk_directory = True\<rparr>)
     \<and> load_from_file demo_tool_externals 5 (source out) (Some (length out)) = Inr copy
     \<and> map channel_name (dm_channels copy) = [''t'']"
proof -
  let ?d = "\<lparr>dk_files = [''a'' \<mapsto> demo_file], dk_unreadable = [], dk_unwritable = [''b''], dk_directory = True\<rparr>"
  obtain mgr where mgr: "load_from_file demo_tool_externals 8 (source demo_file) (Some (length demo_file)) = Inr mgr"
      "map channel_name (dm_channels mgr) = [''t'']" "dm_meta mgr = demo_meta"
      "from_manager (dm_meta mgr) (dm_channels mgr) = Inr demo_copy" using demo_tool_original .
  have read: "disk_read ?d ''a'' = Inr demo_file" by (simp add: disk_read_def)
  have prints: "\<forall>defs. autobump_size_of_length_value (wb_channels demo_copy) (wb_channel_data demo_copy) False = Inr defs
     \<longrightarrow> prints_faithfully (ex_serde_json demo_tool_externals)
           (metablock_document (ex_serde_json demo_tool_externals) ''now'' (copied_file_info (mb_file_info (dm_meta mgr))) defs)"
    using demo_copy_conditions(6) by (auto simp: mgr(3) demo_tool_document intro: demo_tool_conditions(2))
  obtain out copy where out: "copy_tool demo_tool_externals ''now'' [] 8 5 [''a'', ''a''] ?d
        = (Inr (), ?d\<lparr>dk_files := (dk_files ?d)(''a'' \<mapsto> out)\<rparr>)"
      "load_from_file demo_tool_externals 5 (source out) (Some (length out)) = Inr copy"
      "map (\<lambda>c. (channel_name c, channel_data_type c, channel_log c)) (dm_channels copy)
        = map (\<lambda>c. (channel_name c, channel_data_type c, channel_log c)) (dm_channels mgr)"
    using copy_tool_outcome [OF read mgr(1,4) demo_copy_conditions(2,3) demo_tool_conditions(1) prints, of "''a''" "[]" 5]
      demo_copy_conditions(1) by (auto split: if_splits)
  have "map channel_name (dm_channels copy) = map channel_name (dm_channels mgr)"
    using arg_cong [OF out(3), of "map fst"] by (simp add: comp_def)
  with out(1,2) mgr(2) show ?thesis by (intro exI [of _ out] exI [of _ copy]) simp
qed

end
