(* ===== verification/CrcRefs.thy ===== *)
theory CrcRefs
  imports CopyTool
begin

text \<open>
  The generator \<open>examples/gen_crc_refs.rs\<close>: two files at integrity level crc. The sine and the logarithm of the
  standard library have no fixed precision and are parameters; printed lines are left out.
\<close>

section \<open>The program\<close>

record math =
  f64_sin :: "f64 \<Rightarrow> f64"
  f64_log10 :: "f64 \<Rightarrow> f64"

definition f64_tenth :: f64 where "f64_tenth = 0x3FB999999999999A"

definition double_channel :: "string \<Rightarrow> channel_def" where
  "double_channel name = channel_def_default\<lparr>cd_name := name, cd_data_type := DtDouble\<rparr>"

text \<open>The names with their rates: \<open>100.0\<close>, \<open>1000.0\<close> and \<open>10_000.0\<close>.\<close>

definition vibration_channels :: "(string \<times> f64) list" where
  "vibration_channels =
     [(''Sensor/Vibration100Hz'', 0x4059000000000000), (''Sensor/Vibration1kHz'', 0x408F400000000000),
      (''Sensor/Vibration10kHz'', 0x40C3880000000000)]"

definition vibration :: "math \<Rightarrow> f64 \<Rightarrow> f64 list" where
  "vibration fm rate =
     map (\<lambda>i. f64_sin fm (f64_mul (f64_mul (f64_of_nat i) f64_tenth) (f64_log10 fm rate))) [0..<100]"

definition add_vibration :: "math \<Rightarrow> writer_builder \<Rightarrow> string \<times> f64 \<Rightarrow> osf_error + writer_builder" where
  "add_vibration fm b entry =
     (case entry of (name, rate) \<Rightarrow>
       and_then (unwrap (add_channel (double_channel name) b)) (\<lambda>(idx, b1).
         unwrap (add_equidistant_segment_f64 idx 1000000 rate (vibration fm rate) b1)))"

definition crc_builder :: writer_builder where
  "crc_builder = set_creator ''osf-core:gen_crc_refs'' writer_builder_new"

text \<open>\<open>with_integrity(Crc32c)\<close>, \<open>write_to_file\<close> and \<open>unwrap\<close>.\<close>

definition save_crc :: "'n externals \<Rightarrow> string \<Rightarrow> byte list \<Rightarrow> string \<Rightarrow> writer_builder \<Rightarrow> program" where
  "save_crc ex now partial path b d =
     (case write_builder_at ex now partial (writer_with_integrity IpCrc32c b) path d of
        (r, d') \<Rightarrow> with_value (unwrap r) (\<lambda>_ d. (Inr (), d)) d')"

definition write_equidistant :: "'n externals \<Rightarrow> math \<Rightarrow> string \<Rightarrow> byte list \<Rightarrow> program" where
  "write_equidistant ex fm now partial =
     with_value (exec_all (add_vibration fm) crc_builder vibration_channels)
       (save_crc ex now partial ''osf5_crc_equidistant.osf'')"

definition variable_times :: "i64 list" where
  "variable_times = map (\<lambda>i. 1000000 + of_nat i * 1000000) [0..<10]"

definition variable_strings :: "string list" where
  "variable_strings = map (\<lambda>i. ''event-'' @ pad_left 3 (show_nat i)) [0..<10]"

definition variable_binaries :: "byte list list" where
  "variable_binaries = map (\<lambda>i. [of_nat i, of_nat i + 1, of_nat i + 2]) [0..<10]"

definition log_channel :: channel_def where
  "log_channel = channel_def_default\<lparr>cd_name := ''Sensor/Log'', cd_data_type := DtString\<rparr>"

definition blob_channel :: channel_def where
  "blob_channel = channel_def_default\<lparr>cd_name := ''Sensor/Blob'', cd_data_type := DtBinary\<rparr>"

definition variable_builder :: "osf_error + writer_builder" where
  "variable_builder =
     and_then (unwrap (add_channel log_channel crc_builder)) (\<lambda>(s, b1).
     and_then (unwrap (add_string_samples s variable_times variable_strings b1)) (\<lambda>b2.
     and_then (unwrap (add_channel blob_channel b2)) (\<lambda>(bin, b3).
       unwrap (add_binary_samples bin variable_times variable_binaries b3))))"

definition write_variable :: "'n externals \<Rightarrow> string \<Rightarrow> byte list \<Rightarrow> program" where
  "write_variable ex now partial =
     with_value variable_builder (save_crc ex now partial ''osf5_crc_variable.osf'')"

definition gen_crc_refs :: "'n externals \<Rightarrow> math \<Rightarrow> string \<Rightarrow> string \<Rightarrow> byte list \<Rightarrow> program" where
  "gen_crc_refs ex fm now now' partial d =
     (if \<not> dk_directory d then (Inl (Panicked ''called Result::unwrap() on an Err value''), d)
      else seq_then (write_equidistant ex fm now partial) (write_variable ex now' partial) d)"

section \<open>The calls\<close>

definition vibration_calls :: "math \<Rightarrow> writer_call list" where
  "vibration_calls fm = concat (map (\<lambda>(i, name, rate). [AddChannel (double_channel name),
     AddSegmentF64 (of_nat i) 1000000 rate (vibration fm rate)]) (List.enumerate 0 vibration_channels))"

definition variable_calls :: "writer_call list" where
  "variable_calls = [AddChannel log_channel, AddStrings 0 variable_times variable_strings,
     AddChannel blob_channel, AddBinaries 1 variable_times variable_binaries]"

lemma unwrap_Inr [simp]: "unwrap (Inr v) = Inr v"
  by (simp add: unwrap_def)

definition vibration_builder :: "math \<Rightarrow> writer_builder" where
  "vibration_builder fm = writer_builder_new
     \<lparr>wb_name_to_index := [''Sensor/Vibration100Hz'' \<mapsto> 0, ''Sensor/Vibration1kHz'' \<mapsto> 1, ''Sensor/Vibration10kHz'' \<mapsto> 2],
      wb_channels := map (double_channel \<circ> fst) vibration_channels,
      wb_channel_data := map (\<lambda>(name, rate). CdEquidistant [\<lparr>sd_start_timestamp_ns = 1000000, sd_sample_rate_hz = rate,
         sd_values = NvDouble (vibration fm rate)\<rparr>]) vibration_channels\<rparr>"

definition crc_info :: file_info_draft where
  "crc_info = file_info_draft_default\<lparr>fd_creator := Some ''osf-core:gen_crc_refs''\<rparr>"

lemmas builder_calls = add_channel_def add_equidistant_segment_f64_def add_equidistant_segment_inner_def
  add_string_samples_def add_binary_samples_def append_variable_def insert_variable_def channel_def_at_def
  update_data_def index_at_def

lemma rates_positive: "\<forall>(name, rate) \<in> set vibration_channels. \<not> f64_is_nan rate \<and> \<not> f64_le_zero rate"
  by (simp add: vibration_channels_def f64_is_nan_def f64_le_zero_def f64_is_zero_def f64_sign_def abs_bits_def inf_bits_def)

lemma vibration_built:
  "exec_all writer_step writer_builder_new (vibration_calls fm) = Inr (vibration_builder fm)"
  "exec_all (add_vibration fm) crc_builder vibration_channels = Inr ((vibration_builder fm)\<lparr>wb_file_info := crc_info\<rparr>)"
  using rates_positive
  by (simp_all add: vibration_calls_def vibration_builder_def vibration_channels_def add_vibration_def crc_builder_def
      set_creator_def crc_info_def writer_builder_new_def double_channel_def channel_def_default_def builder_calls Let_def)

definition variable_built :: writer_builder where
  "variable_built = writer_builder_new
     \<lparr>wb_name_to_index := [''Sensor/Log'' \<mapsto> 0, ''Sensor/Blob'' \<mapsto> 1],
      wb_channels := [log_channel, blob_channel],
      wb_channel_data := [CdVariable variable_times (Some variable_strings) None,
        CdVariable variable_times None (Some variable_binaries)]\<rparr>"

lemma variable_lengths [simp]:
  "length variable_times = 10" "length variable_strings = 10" "length variable_binaries = 10"
  by (simp_all add: variable_times_def variable_strings_def variable_binaries_def)

lemma variable_builder_built:
  "exec_all writer_step writer_builder_new variable_calls = Inr variable_built"
  "variable_builder = Inr (variable_built\<lparr>wb_file_info := crc_info\<rparr>)"
  by (simp_all add: variable_calls_def variable_built_def variable_builder_def crc_builder_def set_creator_def crc_info_def
      writer_builder_new_def log_channel_def blob_channel_def channel_def_default_def builder_calls Let_def)

section \<open>The two files\<close>

abbreviation channel_view :: "channel \<Rightarrow> string \<times> data_type \<times> (osf_error + (i64 \<times> sample) list)" where
  "channel_view c \<equiv> (channel_name c, channel_data_type c, channel_log c)"

text \<open>A builder the calls have filled is saved, and the saved file loads with the samples of the calls.\<close>

lemma crc_saved:
  fixes ex :: "'n externals"
  assumes calls: "\<forall>c \<in> set calls. good_call c" "exec_all writer_step writer_builder_new calls = Inr b"
    and n: "wb_channels b \<noteq> []" "length (wb_channels b) \<le> 0xFFFE"
    and fit: "\<forall>dat \<in> set (wb_channel_data b). texts_fit dat"
    and bump: "autobump_size_of_length_value (wb_channels b) (wb_channel_data b) True = Inr (wb_channels b)"
    and exact: "exact_integers (ex_serde_json ex)"
    and prints: "prints_faithfully (ex_serde_json ex) (metablock_document (ex_serde_json ex) now crc_info (wb_channels b))"
    and path: "path \<notin> set (dk_unwritable d)"
  obtains out m where
    "save_crc ex now partial path (b\<lparr>wb_file_info := crc_info\<rparr>) d = (Inr (), d\<lparr>dk_files := (dk_files d)(path \<mapsto> out)\<rparr>)"
    "load_from_file ex fill (source out) file_size = Inr m"
    "map channel_view (dm_channels m) = map (\<lambda>(name, dt, entries). (name, dt, Inr entries)) (fold call_log calls [])"
    "rs_blocks_crc_failed (dm_stats m) = 0" "rs_blocks_total (dm_stats m) = rs_blocks_read (dm_stats m)"
proof -
  have doc: "\<forall>defs. autobump_size_of_length_value (wb_channels b) (wb_channel_data b) (IpCrc32c = IpCrc32c) = Inr defs
      \<longrightarrow> prints_faithfully (ex_serde_json ex) (metablock_document (ex_serde_json ex) now crc_info defs)"
    using bump prints by simp
  from written_file_loads [OF calls n fit _ exact doc, of fill file_size]
  obtain out m where out: "write_to (ex_serde_json ex) (ex_crc32c ex) now (b\<lparr>wb_integrity := IpCrc32c, wb_file_info := crc_info\<rparr>) = Inr out"
    and m: "load_from_file ex fill (source out) file_size = Inr m"
    "map channel_view (dm_channels m) = map (\<lambda>(name, dt, entries). (name, dt, Inr entries)) (fold call_log calls [])"
    "rs_blocks_crc_failed (dm_stats m) = 0" "rs_blocks_total (dm_stats m) = rs_blocks_read (dm_stats m)"
    by auto
  have "writer_with_integrity IpCrc32c (b\<lparr>wb_file_info := crc_info\<rparr>) = b\<lparr>wb_integrity := IpCrc32c, wb_file_info := crc_info\<rparr>"
    by (simp add: writer_with_integrity_def)
  then have "save_crc ex now partial path (b\<lparr>wb_file_info := crc_info\<rparr>) d = (Inr (), d\<lparr>dk_files := (dk_files d)(path \<mapsto> out)\<rparr>)"
    using path by (simp add: save_crc_def write_builder_at_def out with_value_def)
  from that [OF this m] show ?thesis .
qed

lemma vibration_bump:
  "autobump_size_of_length_value (wb_channels (vibration_builder fm)) (wb_channel_data (vibration_builder fm)) True
     = Inr (wb_channels (vibration_builder fm))"
  by (simp add: vibration_builder_def vibration_channels_def autobump_size_of_length_value_def index_at_def bump_one_def
      double_channel_def channel_def_default_def crc_reserve_def MAX_BLOCK_PAYLOAD_U16_def)

lemma short_texts: "\<forall>s \<in> set variable_strings. rust_string s \<and> length s = 9" "\<forall>b \<in> set variable_binaries. length b = 3"
proof -
  have "list_all (\<lambda>s. rust_string s \<and> length s = 9) variable_strings" by code_simp
  then show "\<forall>s \<in> set variable_strings. rust_string s \<and> length s = 9" by (simp only: list_all_iff)
  show "\<forall>b \<in> set variable_binaries. length b = 3" by (auto simp: variable_binaries_def)
qed

lemma foldr_max_bound: "\<forall>x \<in> set xs. x \<le> k \<Longrightarrow> foldr max xs 0 \<le> (k :: nat)"
  by (induction xs) auto

lemma longest_same:
  assumes "\<forall>x \<in> set xs. length x = k"
  shows "longest (Some xs) \<le> k"
  using foldr_max_bound [of "map length xs" k] assms by (simp add: longest_def foldr_map comp_def)

lemma longest_none: "longest None = 0"
  by (simp add: longest_def)

lemma variable_bump:
  "autobump_size_of_length_value (wb_channels variable_built) (wb_channel_data variable_built) True = Inr (wb_channels variable_built)"
proof -
  have "longest (Some variable_strings) \<le> 9" "longest (Some variable_binaries) \<le> 3"
    using short_texts by (simp_all add: longest_same)
  then show ?thesis
    by (simp add: longest_none variable_built_def autobump_size_of_length_value_def index_at_def bump_one_def log_channel_def
        blob_channel_def channel_def_default_def crc_reserve_def MAX_BLOCK_PAYLOAD_U16_def)
qed

section \<open>Both files load\<close>

definition vibration_entries :: "math \<Rightarrow> f64 \<Rightarrow> (i64 \<times> sample) list" where
  "vibration_entries fm rate = map (\<lambda>(k, v). (time_at 1000000 rate k, NumSample (VrDouble v))) (List.enumerate 0 (vibration fm rate))"

definition vibration_document :: "'n externals \<Rightarrow> string \<Rightarrow> 'n json" where
  "vibration_document ex now
     = metablock_document (ex_serde_json ex) now crc_info (map (double_channel \<circ> fst) vibration_channels)"

definition variable_document :: "'n externals \<Rightarrow> string \<Rightarrow> 'n json" where
  "variable_document ex now = metablock_document (ex_serde_json ex) now crc_info [log_channel, blob_channel]"

lemma vibration_logged:
  "segment_log \<lparr>sd_start_timestamp_ns = 1000000, sd_sample_rate_hz = rate, sd_values = NvDouble (vibration fm rate)\<rparr>
     = vibration_entries fm rate"
  by (rule nth_equalityI)
     (simp_all add: segment_log_def vibration_entries_def nth_enumerate_eq case_prod_unfold)

lemma vibration_log:
  "fold call_log (vibration_calls fm) [] = map (\<lambda>(name, rate). (name, DtDouble, vibration_entries fm rate)) vibration_channels"
  by (simp add: vibration_calls_def vibration_channels_def append_log_def vibration_logged double_channel_def channel_def_default_def)

lemma variable_log:
  "fold call_log variable_calls [] =
     [(''Sensor/Log'', DtString, zip variable_times (map (VarSample \<circ> VrString) variable_strings)),
      (''Sensor/Blob'', DtBinary, zip variable_times (map (VarSample \<circ> VrBinary) variable_binaries))]"
  by (simp add: variable_calls_def append_log_def log_channel_def blob_channel_def channel_def_default_def)

lemma good_calls:
  "\<forall>c \<in> set (vibration_calls fm). good_call c" "\<forall>c \<in> set variable_calls. good_call c"
  using short_texts by (auto simp: vibration_calls_def variable_calls_def)

lemma crc_texts_fit:
  "\<forall>dat \<in> set (wb_channel_data (vibration_builder fm)). texts_fit dat"
  "\<forall>dat \<in> set (wb_channel_data variable_built). texts_fit dat"
  using short_texts
  by (auto simp: vibration_builder_def variable_built_def vibration_channels_def texts_fit_def text_fits_def)

text \<open>
  Both reference files are written and load with the samples the program computed. On a disk that can be
  written, with a JSON library that prints the two metablocks faithfully, \<open>gen_crc_refs\<close> ends normally and leaves
  two new files. Any loader finds in the first the three vibration channels with their hundred values each, at the
  times the rate gives; in the second the ten texts and the ten binary values. No frame fails its checksum.
\<close>

theorem crc_references_load:
  fixes ex :: "'n externals"
  assumes "exact_integers (ex_serde_json ex)"
    and "prints_faithfully (ex_serde_json ex) (vibration_document ex now)"
    and "prints_faithfully (ex_serde_json ex) (variable_document ex now')"
    and "dk_directory d" and "dk_unwritable d = []"
  shows "\<exists>a b m m'. gen_crc_refs ex fm now now' partial d
       = (Inr (), d\<lparr>dk_files := (dk_files d)(''osf5_crc_equidistant.osf'' \<mapsto> a, ''osf5_crc_variable.osf'' \<mapsto> b)\<rparr>)
     \<and> load_from_file ex fill (source a) file_size = Inr m \<and> load_from_file ex fill (source b) file_size' = Inr m'
     \<and> map channel_view (dm_channels m)
         = map (\<lambda>(name, rate). (name, DtDouble, Inr (vibration_entries fm rate))) vibration_channels
     \<and> map channel_view (dm_channels m')
         = [(''Sensor/Log'', DtString, Inr (zip variable_times (map (VarSample \<circ> VrString) variable_strings))),
            (''Sensor/Blob'', DtBinary, Inr (zip variable_times (map (VarSample \<circ> VrBinary) variable_binaries)))]
     \<and> rs_blocks_crc_failed (dm_stats m) = 0 \<and> rs_blocks_crc_failed (dm_stats m') = 0"
proof -
  have channels: "wb_channels (vibration_builder fm) = map (double_channel \<circ> fst) vibration_channels"
      "wb_channels variable_built = [log_channel, blob_channel]"
    by (simp_all add: vibration_builder_def variable_built_def)
  have some: "wb_channels (vibration_builder fm) \<noteq> []" "length (wb_channels (vibration_builder fm)) \<le> 0xFFFE"
      "wb_channels variable_built \<noteq> []" "length (wb_channels variable_built) \<le> 0xFFFE"
    by (simp_all add: channels vibration_channels_def)
  obtain a m where a: "save_crc ex now partial ''osf5_crc_equidistant.osf'' ((vibration_builder fm)\<lparr>wb_file_info := crc_info\<rparr>) d
        = (Inr (), d\<lparr>dk_files := (dk_files d)(''osf5_crc_equidistant.osf'' \<mapsto> a)\<rparr>)"
      "load_from_file ex fill (source a) file_size = Inr m"
      "map channel_view (dm_channels m) = map (\<lambda>(name, dt, entries). (name, dt, Inr entries)) (fold call_log (vibration_calls fm) [])"
      "rs_blocks_crc_failed (dm_stats m) = 0" "rs_blocks_total (dm_stats m) = rs_blocks_read (dm_stats m)"
    using crc_saved [OF good_calls(1) vibration_built(1) some(1,2) crc_texts_fit(1) vibration_bump assms(1)
        assms(2) [unfolded vibration_document_def, folded channels(1)], of "''osf5_crc_equidistant.osf''" d partial fill file_size]
      assms(5) by auto
  let ?d = "d\<lparr>dk_files := (dk_files d)(''osf5_crc_equidistant.osf'' \<mapsto> a)\<rparr>"
  obtain b m' where b: "save_crc ex now' partial ''osf5_crc_variable.osf'' (variable_built\<lparr>wb_file_info := crc_info\<rparr>) ?d
        = (Inr (), ?d\<lparr>dk_files := (dk_files ?d)(''osf5_crc_variable.osf'' \<mapsto> b)\<rparr>)"
      "load_from_file ex fill (source b) file_size' = Inr m'"
      "map channel_view (dm_channels m') = map (\<lambda>(name, dt, entries). (name, dt, Inr entries)) (fold call_log variable_calls [])"
      "rs_blocks_crc_failed (dm_stats m') = 0" "rs_blocks_total (dm_stats m') = rs_blocks_read (dm_stats m')"
    using crc_saved [OF good_calls(2) variable_builder_built(1) some(3,4) crc_texts_fit(2) variable_bump assms(1)
        assms(3) [unfolded variable_document_def, folded channels(2)], of "''osf5_crc_variable.osf''" ?d partial fill file_size']
      assms(5) by auto
  have "gen_crc_refs ex fm now now' partial d
      = (Inr (), d\<lparr>dk_files := (dk_files d)(''osf5_crc_equidistant.osf'' \<mapsto> a, ''osf5_crc_variable.osf'' \<mapsto> b)\<rparr>)"
    using assms(4) a(1) b(1)
    by (simp add: gen_crc_refs_def seq_then_def write_equidistant_def write_variable_def with_value_def vibration_built(2)
        variable_builder_built(2))
  then show ?thesis using a(2-4) b(2-4) unfolding vibration_log variable_log
    by (intro exI [of _ a] exI [of _ b] exI [of _ m] exI [of _ m']) (simp add: case_prod_unfold)
qed

text \<open>A JSON library that tells the two documents apart, on an empty disk.\<close>

definition two_documents :: "int externals" where
  "two_documents =
     (let none = demo_externals None; first = vibration_document none ''t''; second = variable_document none ''u''
      in none\<lparr>ex_serde_json := (ex_serde_json none)
        \<lparr>sj_to_vec_pretty := (\<lambda>doc. Some (if doc = first then [1] else [2])),
         sj_from_slice := (\<lambda>bs. Some (if bs = [1] then first else second))\<rparr>\<rparr>)"

lemma two_documents_conditions:
  "exact_integers (ex_serde_json two_documents)"
  "prints_faithfully (ex_serde_json two_documents) (vibration_document two_documents ''t'')"
  "prints_faithfully (ex_serde_json two_documents) (variable_document two_documents ''u'')"
proof -
  let ?none = "demo_externals None"
  have fields: "json_f64 (ex_serde_json two_documents) = json_f64 (ex_serde_json ?none)"
      "sj_number_u64 (ex_serde_json two_documents) = sj_number_u64 (ex_serde_json ?none)"
      "sj_number_i64 (ex_serde_json two_documents) = sj_number_i64 (ex_serde_json ?none)"
    by (simp_all add: fun_eq_iff json_f64_def two_documents_def Let_def)
  have docs: "vibration_document two_documents now = vibration_document ?none now"
      "variable_document two_documents now = variable_document ?none now" for now
    by (simp_all add: vibration_document_def variable_document_def metablock_document_def file_fields_def
        channel_def_to_json_def channel_fields_def fields)
  show "exact_integers (ex_serde_json two_documents)"
    using demo_serde_exact [of None] by (simp add: exact_integers_def two_documents_def demo_externals_def Let_def)
  show "prints_faithfully (ex_serde_json two_documents) (vibration_document two_documents ''t'')"
      "prints_faithfully (ex_serde_json two_documents) (variable_document two_documents ''u'')"
    unfolding docs prints_faithfully_def
    by (simp_all add: two_documents_def Let_def json.rel_refl same_integers_def)
qed

theorem crc_references_load_witness:
  "\<exists>a b m m'. gen_crc_refs two_documents \<lparr>f64_sin = (\<lambda>x. x), f64_log10 = (\<lambda>x. x)\<rparr> ''t'' ''u'' []
         \<lparr>dk_files = Map.empty, dk_unreadable = [], dk_unwritable = [], dk_directory = True\<rparr>
       = (Inr (), \<lparr>dk_files = [''osf5_crc_equidistant.osf'' \<mapsto> a, ''osf5_crc_variable.osf'' \<mapsto> b], dk_unreadable = [],
            dk_unwritable = [], dk_directory = True\<rparr>)
     \<and> load_from_file two_documents 3 (source a) None = Inr m \<and> map channel_name (dm_channels m) = map fst vibration_channels
     \<and> load_from_file two_documents 3 (source b) (Some 9) = Inr m' \<and> map channel_name (dm_channels m') = [''Sensor/Log'', ''Sensor/Blob'']"
proof -
  let ?fm = "\<lparr>f64_sin = (\<lambda>x. x), f64_log10 = (\<lambda>x. x)\<rparr>"
  let ?d = "\<lparr>dk_files = Map.empty, dk_unreadable = [], dk_unwritable = [], dk_directory = True\<rparr>"
  obtain a b m m' where out: "gen_crc_refs two_documents ?fm ''t'' ''u'' [] ?d
        = (Inr (), ?d\<lparr>dk_files := (dk_files ?d)(''osf5_crc_equidistant.osf'' \<mapsto> a, ''osf5_crc_variable.osf'' \<mapsto> b)\<rparr>)"
      "load_from_file two_documents 3 (source a) None = Inr m" "load_from_file two_documents 3 (source b) (Some 9) = Inr m'"
      "map channel_view (dm_channels m)
         = map (\<lambda>(name, rate). (name, DtDouble, Inr (vibration_entries ?fm rate))) vibration_channels"
      "map channel_view (dm_channels m')
         = [(''Sensor/Log'', DtString, Inr (zip variable_times (map (VarSample \<circ> VrString) variable_strings))),
            (''Sensor/Blob'', DtBinary, Inr (zip variable_times (map (VarSample \<circ> VrBinary) variable_binaries)))]"
    using crc_references_load [OF two_documents_conditions, of ?d ?fm "[]" 3 None "Some 9"] by auto
  have "map channel_name (dm_channels m) = map fst vibration_channels"
      "map channel_name (dm_channels m') = [''Sensor/Log'', ''Sensor/Blob'']"
    using arg_cong [OF out(4), of "map fst"] arg_cong [OF out(5), of "map fst"] by (simp_all add: comp_def case_prod_unfold)
  with out(1-3) show ?thesis by (intro exI [of _ a] exI [of _ b] exI [of _ m] exI [of _ m']) simp
qed

end
