(* ===== verification/Documents.thy ===== *)
theory Documents
  imports MetaXml
begin

text \<open>
  Whole metablocks in both formats: an OSF4 XML document and an OSF5 JSON document with the same
  content are parsed to the same metablock, up to the version number.
\<close>

section \<open>The same content\<close>

text \<open>Texts and numbers of the file entry.\<close>

definition same_float :: "'n serde_json \<Rightarrow> 'n json option \<Rightarrow> string option \<Rightarrow> bool" where
  "same_float sj v s \<longleftrightarrow>
     v = None \<and> s = None
     \<or> (\<exists>n x t. v = Some (JNumber n) \<and> sj_as_f64 sj n = Some x \<and> s = Some t \<and> parse_f64 t = Some x)"

definition location_keys :: "string set" where
  "location_keys =
     {''created_at_latitude'', ''created_at_longitude'', ''created_at_altitude'',
      ''latitude'', ''longitude'', ''altitude''}"

definition same_file_entry :: "'n serde_json \<Rightarrow> (string \<rightharpoonup> string) \<Rightarrow> 'n json_map \<Rightarrow> bool" where
  "same_file_entry sj attrs obj \<longleftrightarrow>
     (\<forall>k. k \<notin> location_keys \<longrightarrow> map_of obj k = map_option JString (attrs k))
     \<and> (\<forall>k \<in> location_keys. same_float sj (map_of obj k) (attrs k))"

definition same_texts :: "(string \<rightharpoonup> string) \<Rightarrow> 'n json_map \<Rightarrow> bool" where
  "same_texts attrs obj \<longleftrightarrow> (\<forall>k. map_of obj k = map_option JString (attrs k))"

definition same_channel :: "'n serde_json \<Rightarrow> xml_attr list \<Rightarrow> 'n json_map \<Rightarrow> bool" where
  "same_channel sj start obj \<longleftrightarrow>
     (\<exists>attrs. collect_attrs start Map.empty = Inr attrs \<and> same_channel_entry sj attrs obj)"

definition same_info :: "xml_attr list \<Rightarrow> 'n json_map \<Rightarrow> bool" where
  "same_info start obj \<longleftrightarrow> (\<exists>attrs. collect_attrs start Map.empty = Inr attrs \<and> same_texts attrs obj)"

section \<open>Entry by entry\<close>

lemma same_float_parsed:
  "same_float sj (map_of obj k) (attrs k) \<Longrightarrow> parse_optional_f64 attrs k = Inr (get_as (as_f64 sj) obj k)"
  by (auto simp: same_float_def parse_optional_f64_def get_as_def as_f64_def)

lemma file_entries_agree:
  assumes "collect_attrs root Map.empty = Inr attrs" and "same_file_entry sj attrs obj"
    and "map_of osf ''file'' = Some (JObject obj)"
  shows "\<exists>fi. parse_optimeas_attrs root (file_info_default\<lparr>fi_version := 4\<rparr>) = Inr (fi\<lparr>fi_version := 4\<rparr>)
     \<and> parse_file_info sj osf = Inr fi"
proof -
  have texts: "get_as (value_to_string sj) obj k = attrs k" if "k \<notin> location_keys" for k
    using assms(2) that same_text [of obj k "attrs k"] by (simp add: same_file_entry_def)
  have floats: "parse_optional_f64 attrs k = Inr (get_as (as_f64 sj) obj k)" if "k \<in> location_keys" for k
    using assms(2) that unfolding same_file_entry_def by (intro same_float_parsed) blast
  have short: "short_location attrs s (get_as (as_f64 sj) obj l) = Inr (location_field sj obj l s)"
    if "s \<in> location_keys" for s l
    by (simp add: short_location_def location_field_def floats [OF that] split: option.split)
  show ?thesis
    by (simp add: parse_optimeas_attrs_def parse_file_info_def assms(1,3) floats short texts location_keys_def
          file_info_default_def)
qed

lemma info_entries_agree:
  assumes "same_info start obj"
  shows "parse_info_attrs start = Inr c \<longleftrightarrow> parse_info sj (JObject obj) = Inr c"
proof -
  obtain attrs where attrs: "collect_attrs start Map.empty = Inr attrs" and same: "same_texts attrs obj"
    using assms by (auto simp: same_info_def)
  have texts: "get_as as_str obj k = attrs k" "get_as (value_to_string sj) obj k = attrs k"
    "map_of obj k = map_option JString (attrs k)" for k
    using same same_text [of obj k "attrs k"] by (simp_all add: same_texts_def)
  have "(case map_of obj ''value'' of Some (JString s) \<Rightarrow> s | Some other \<Rightarrow> sj_to_string sj other | None \<Rightarrow> [])
      = (case attrs ''value'' of Some v \<Rightarrow> v | None \<Rightarrow> [])"
    by (simp add: texts(3) split: option.split)
  then show ?thesis
    by (simp add: parse_info_attrs_def parse_info_def attrs as_object_def texts(1,2) and_then_eq_Inr_iff)
qed

lemma channel_objects_agree:
  assumes "same_channel sj start obj"
  shows "parse_channel_attrs start = Inr c \<longleftrightarrow> parse_channel sj obj = Inr c"
proof -
  from assms obtain attrs where "collect_attrs start Map.empty = Inr attrs" "same_channel_entry sj attrs obj"
    unfolding same_channel_def by blast
  then show ?thesis by (rule formats_agree)
qed

text \<open>Two lists of results that agree entry by entry agree up to the first error.\<close>

lemma first_errors_agree:
  assumes "list_all2 (\<lambda>x y. \<forall>c. f x = Inr c \<longleftrightarrow> g y = Inr c) xs ys"
  shows "first_error (map f xs) = Inr cs \<longleftrightarrow> first_error (map g ys) = Inr cs"
  using assms
proof (induction arbitrary: cs)
  case (Cons x xs y ys)
  then show ?case by (auto simp: and_then_eq_Inr_iff)
qed simp

section \<open>The XML document\<close>

text \<open>
  Events the parser acts on; declarations, comments, texts, CDATA sections and the like are not among them, and
  the loop passes over them wherever they stand.
\<close>

fun significant :: "xml_event option \<Rightarrow> bool" where
  "significant None = True"
| "significant (Some (XStart _ _)) = True"
| "significant (Some (XEmpty _ _)) = True"
| "significant (Some (XEnd _)) = True"
| "significant _ = False"

lemma skip_filter:
  "skip_to_end_named name (filter significant evs) = map_ok (filter significant) (skip_to_end_named name evs)"
proof (induction name evs rule: skip_to_end_named.induct)
  case (3 name ev evs)
  then show ?case by (cases ev) auto
qed simp_all

lemma loop_filter: "xml_loop st mb (filter significant evs) = xml_loop st mb evs"
proof (induction "length evs" arbitrary: st mb evs rule: less_induct)
  case less
  note IH = less.hyps
  show ?case
  proof (cases evs)
    case (Cons ev evs')
    have rest: "xml_loop st' mb' (filter significant evs') = xml_loop st' mb' evs'" for st' mb'
      by (rule IH) (simp add: Cons)
    have skip: "and_then (skip_to_end_named name (filter significant evs')) (xml_loop st' mb')
        = and_then (skip_to_end_named name evs') (xml_loop st' mb')" for name st' mb'
      using IH skip_to_end_named_length [of name evs']
      by (cases "skip_to_end_named name evs'") (simp_all add: skip_filter Cons)
    show ?thesis
    proof (cases ev)
      case (Some e)
      then show ?thesis
        by (cases e; cases st) (simp_all add: Cons rest skip split: option.split)
    qed (simp add: Cons)
  qed simp
qed

text \<open>
  The children of the root. An entry of a list is an element of any name, written with one tag or with two; only
  those named \<open>channel\<close>, or \<open>info\<close>, count. Any other child is passed over with its content.
\<close>

datatype xml_entry = Entry (entry_name: string) (entry_attrs: "xml_attr list") (entry_closed: bool)

datatype xml_child =
    ChannelsChild "xml_attr list" "xml_entry list"
  | InfosChild "xml_attr list" "xml_entry list"
  | OtherChild string "xml_attr list" "xml_event list"
  | EmptyChild string "xml_attr list"

fun entry_events :: "xml_entry \<Rightarrow> xml_event list" where
  "entry_events (Entry name attrs closed) =
     (if closed then [XEmpty name attrs] else [XStart name attrs, XEnd name])"

fun child_events :: "xml_child \<Rightarrow> xml_event list" where
  "child_events (ChannelsChild attrs entries) =
     XStart ''channels'' attrs # concat (map entry_events entries) @ [XEnd ''channels'']"
| "child_events (InfosChild attrs entries) =
     XStart ''infos'' attrs # concat (map entry_events entries) @ [XEnd ''infos'']"
| "child_events (OtherChild name attrs content) = XStart name attrs # content @ [XEnd name]"
| "child_events (EmptyChild name attrs) = [XEmpty name attrs]"

text \<open>
  Names the parser can tell apart, for elements written with two tags: one in a list does not take the name of a
  list or of the root, another child not that of a list.
\<close>

definition plain_entry :: "xml_entry \<Rightarrow> bool" where
  "plain_entry e \<longleftrightarrow> entry_closed e \<or> entry_name e \<notin> {''channels'', ''infos'', ''optimeas''}"

fun plain_child :: "xml_child \<Rightarrow> bool" where
  "plain_child (ChannelsChild attrs entries) = list_all plain_entry entries"
| "plain_child (InfosChild attrs entries) = list_all plain_entry entries"
| "plain_child (OtherChild name attrs content) \<longleftrightarrow> name \<notin> {''channels'', ''infos''} \<and> XEnd name \<notin> set content"
| "plain_child (EmptyChild name attrs) = True"

definition entries_named :: "string \<Rightarrow> xml_entry list \<Rightarrow> xml_attr list list" where
  "entries_named name entries = map entry_attrs (filter (\<lambda>e. entry_name e = name) entries)"

fun channel_entries :: "xml_child \<Rightarrow> xml_attr list list" where
  "channel_entries (ChannelsChild attrs entries) = entries_named ''channel'' entries"
| "channel_entries _ = []"

fun info_entries :: "xml_child \<Rightarrow> xml_attr list list" where
  "info_entries (InfosChild attrs entries) = entries_named ''info'' entries"
| "info_entries _ = []"

definition document_events :: "xml_attr list \<Rightarrow> xml_child list \<Rightarrow> xml_event list" where
  "document_events root children = XStart ''optimeas'' root # concat (map child_events children) @ [XEnd ''optimeas'']"

lemma loop_channel_entries:
  "list_all plain_entry entries \<Longrightarrow>
   xml_loop InChannels mb (map Some (concat (map entry_events entries)) @ evs) =
     and_then (first_error (map parse_channel_attrs (entries_named ''channel'' entries))) (\<lambda>cs.
       xml_loop InChannels (mb\<lparr>mb_channels := mb_channels mb @ cs\<rparr>) evs)"
proof (induction entries arbitrary: mb)
  case (Cons e entries)
  obtain name attrs closed where e: "e = Entry name attrs closed" by (cases e)
  show ?case
  proof (cases "name = ''channel''")
    case True
    with Cons show ?thesis
      by (cases "parse_channel_attrs attrs"; cases "first_error (map parse_channel_attrs (entries_named ''channel'' entries))")
         (simp_all add: e entries_named_def add_xml_channel_def plain_entry_def leave_element_def)
  next
    case False
    with Cons show ?thesis
      by (auto simp: e entries_named_def add_xml_channel_def plain_entry_def leave_element_def)
  qed
qed (simp add: entries_named_def)

lemma loop_info_entries:
  "list_all plain_entry entries \<Longrightarrow>
   xml_loop InInfos mb (map Some (concat (map entry_events entries)) @ evs) =
     and_then (first_error (map parse_info_attrs (entries_named ''info'' entries))) (\<lambda>is.
       xml_loop InInfos (mb\<lparr>mb_infos := mb_infos mb @ is\<rparr>) evs)"
proof (induction entries arbitrary: mb)
  case (Cons e entries)
  obtain name attrs closed where e: "e = Entry name attrs closed" by (cases e)
  show ?case
  proof (cases "name = ''info''")
    case True
    with Cons show ?thesis
      by (cases "parse_info_attrs attrs"; cases "first_error (map parse_info_attrs (entries_named ''info'' entries))")
         (simp_all add: e entries_named_def add_xml_info_def plain_entry_def leave_element_def)
  next
    case False
    with Cons show ?thesis
      by (auto simp: e entries_named_def add_xml_info_def plain_entry_def leave_element_def)
  qed
qed (simp add: entries_named_def)

lemma loop_child:
  assumes "plain_child child"
  shows "xml_loop InOptimeas mb (map Some (child_events child) @ evs) =
     and_then (first_error (map parse_channel_attrs (channel_entries child))) (\<lambda>cs.
     and_then (first_error (map parse_info_attrs (info_entries child))) (\<lambda>is.
       xml_loop InOptimeas (mb\<lparr>mb_channels := mb_channels mb @ cs, mb_infos := mb_infos mb @ is\<rparr>) evs))"
  using assms
  by (cases child)
     (auto simp: enter_child_def loop_channel_entries loop_info_entries leave_element_def skip_unknown)

text \<open>The loop accepts a document when all its entries are accepted, and returns them in order.\<close>

lemma loop_children:
  assumes "list_all plain_child children"
  shows "xml_loop InOptimeas mb (map Some (concat (map child_events children)) @ evs) = Inr meta \<longleftrightarrow>
     (\<exists>cs is. first_error (map parse_channel_attrs (concat (map channel_entries children))) = Inr cs
        \<and> first_error (map parse_info_attrs (concat (map info_entries children))) = Inr is
        \<and> xml_loop InOptimeas (mb\<lparr>mb_channels := mb_channels mb @ cs, mb_infos := mb_infos mb @ is\<rparr>) evs = Inr meta)"
  using assms
proof (induction children arbitrary: mb)
  case (Cons child children)
  then show ?case
    by (cases "first_error (map parse_channel_attrs (channel_entries child))";
        cases "first_error (map parse_info_attrs (info_entries child))")
       (auto simp: loop_child first_error_append and_then_eq_Inr_iff map_ok_eq_Inr_iff)
qed simp

lemma document_loop:
  assumes "filter significant (qx (from_utf8_lossy xml)) = map Some (document_events root children)"
    and "list_all plain_child children"
    and "parse_optimeas_attrs root (file_info_default\<lparr>fi_version := 4\<rparr>) = Inr fi"
  shows "parse_metablock_xml qx xml = Inr meta \<longleftrightarrow>
     (\<exists>cs is. first_error (map parse_channel_attrs (concat (map channel_entries children))) = Inr cs
        \<and> first_error (map parse_info_attrs (concat (map info_entries children))) = Inr is
        \<and> meta = \<lparr>mb_file_info = fi, mb_channels = cs, mb_infos = is\<rparr>)"
proof -
  have "parse_metablock_xml qx xml
      = xml_loop TopLevel (meta_block_default\<lparr>mb_file_info := file_info_default\<lparr>fi_version := 4\<rparr>\<rparr>)
          (map Some (document_events root children))"
    unfolding parse_metablock_xml_def assms(1) [symmetric] by (simp only: loop_filter)
  then show ?thesis
    using assms(3)
    by (auto simp: document_events_def loop_children [OF assms(2)] leave_element_def meta_block_default_def)
qed

section \<open>Document by document\<close>



end
