(* ===== verification/Report.thy ===== *)
theory Report
  imports Float64 Stats Text
begin

text \<open>
  The text reports of \<open>stats.rs\<close>: the \<open>Display\<close> instances of the statistics, with the sizes
  and durations they print. \<open>format!\<close> with a precision prints the exact decimal value of the
  \<open>f64\<close> rounded to that many digits, ties to even. The elapsed time comes from the system
  clock and is an argument.
\<close>

section \<open>Fixed-point formatting\<close>

text \<open>The order and the sum of \<open>f64\<close> values; comparisons with NaN are false.\<close>

definition f64_key :: "f64 \<Rightarrow> int" where
  "f64_key x = (if f64_sign x then - int (abs_bits x) else int (abs_bits x))"

definition f64_less :: "f64 \<Rightarrow> f64 \<Rightarrow> bool" where
  "f64_less a b \<longleftrightarrow> \<not> f64_is_nan a \<and> \<not> f64_is_nan b \<and> f64_key a < f64_key b"

definition f64_signed_mag :: "f64 \<Rightarrow> int" where
  "f64_signed_mag x = (if f64_sign x then - int (f64_mag x) else int (f64_mag x))"

definition f64_add :: "f64 \<Rightarrow> f64 \<Rightarrow> f64" where
  "f64_add a b =
     (if f64_is_nan a \<or> f64_is_nan b then f64_nan
      else if f64_is_inf a then (if f64_is_inf b \<and> f64_sign a \<noteq> f64_sign b then f64_nan else a)
      else if f64_is_inf b then b
      else (let v = f64_signed_mag a + f64_signed_mag b
            in f64_make (v < 0 \<or> v = 0 \<and> f64_sign a \<and> f64_sign b) (round_bits (nat \<bar>v\<bar>) 1)))"

text \<open>\<open>format!("{x:.p}")\<close>; \<open>fixed_point p n\<close> prints the number \<open>n / 10 ^ p\<close>.\<close>

definition fixed_point :: "nat \<Rightarrow> nat \<Rightarrow> string" where
  "fixed_point p n =
     show_nat (n div 10 ^ p) @ (if p = 0 then [] else CHR ''.'' # pad_left p (show_nat (n mod 10 ^ p)))"

definition format_fixed :: "nat \<Rightarrow> f64 \<Rightarrow> string" where
  "format_fixed p x =
     (if f64_is_nan x then ''NaN''
      else (if f64_sign x then ''-'' else []) @
           (if f64_is_inf x then ''inf'' else fixed_point p (rne (f64_mag x * 10 ^ p) unit_scale)))"

section \<open>Sizes and durations\<close>

definition KB :: nat where "KB = 1024"
definition MB :: nat where "MB = 1024 * KB"
definition GB :: nat where "GB = 1024 * MB"

definition fmt_bytes :: "nat \<Rightarrow> string" where
  "fmt_bytes b =
     (if GB \<le> b then format_fixed 2 (f64_div (f64_of_nat b) (f64_of_nat GB)) @ '' GB''
      else if MB \<le> b then format_fixed 2 (f64_div (f64_of_nat b) (f64_of_nat MB)) @ '' MB''
      else if KB \<le> b then format_fixed 2 (f64_div (f64_of_nat b) (f64_of_nat KB)) @ '' KB''
      else show_nat b @ '' B'')"

text \<open>\<open>std::time::Duration\<close>: whole seconds and less than \<open>10 ^ 9\<close> nanoseconds.\<close>

record duration =
  dur_secs :: u64
  dur_nanos :: u32

definition as_secs_f64 :: "duration \<Rightarrow> f64" where
  "as_secs_f64 d =
     f64_add (f64_of_nat (unat (dur_secs d))) (f64_div (f64_of_nat (unat (dur_nanos d))) (f64_of_nat 1000000000))"

definition fmt_duration :: "duration \<Rightarrow> string" where
  "fmt_duration d =
     (let secs = as_secs_f64 d
      in if f64_less secs (f64_of_nat 1) then format_fixed 0 (f64_mul secs (f64_of_nat 1000)) @ '' ms''
         else format_fixed 2 secs @ '' s'')"

section \<open>The reports\<close>

fun show_compression_format :: "compression_format \<Rightarrow> string" where
  "show_compression_format CfNone = ''none''"
| "show_compression_format CfZlib = ''zlib''"
| "show_compression_format CfGzip = ''gzip''"

fun show_integrity_profile :: "integrity_profile \<Rightarrow> string" where
  "show_integrity_profile IpNone = ''none''"
| "show_integrity_profile IpCrc32c = ''crc32c''"
| "show_integrity_profile IpEd25519 = ''ed25519''"

text \<open>One \<open>writeln!\<close> per element.\<close>

definition report_lines :: "duration \<Rightarrow> reader_stats \<Rightarrow> string list" where
  "report_lines elapsed s =
     [''File size:       '' @ (case rs_file_size_bytes s of None \<Rightarrow> ''(streaming)'' | Some n \<Rightarrow> fmt_bytes n),
      ''Header:          '' @ fmt_bytes (rs_header_size_bytes s),
      ''Metablock:       '' @ fmt_bytes (rs_metablock_size_bytes s),
      ''Data section:    '' @ fmt_bytes (rs_data_section_size_bytes s),
      ''Read in:         '' @ fmt_duration elapsed,
      [],
      ''Channels total:        '' @ show_nat (rs_channels_total s),
      ''With data:             '' @ show_nat (rs_channels_with_data s),
      ''Unsupported:           '' @ show_nat (rs_channels_unsupported s),
      [],
      ''Blocks total:          '' @ show_nat (rs_blocks_total s),
      ''Read:                  '' @ show_nat (rs_blocks_read s),
      ''Skipped (unsupp.):     '' @ show_nat (rs_blocks_skipped_unsupported s),
      ''Skipped (deprec.):     '' @ show_nat (rs_blocks_skipped_deprecated_type s),
      ''Skipped (status ev.):  '' @ show_nat (rs_blocks_skipped_status_event s),
      ''Skipped (reserved):    '' @ show_nat (rs_blocks_skipped_reserved_type s),
      ''Skipped (zero-len):    '' @ show_nat (rs_blocks_skipped_zero_length s),
      ''Truncated:             '' @ show_nat (rs_blocks_truncated s)]
     @ (if rs_trailer_seen s then [''Trailer block:         present''] else [])
     @ (if rs_compressed s
        then [''Compressed:            yes ('' @ show_compression_format (rs_compression_format s) @ '')''] else [])
     @ (if rs_integrity s \<noteq> IpNone
        then [''Integrity:             '' @ show_integrity_profile (rs_integrity s),
              ''Blocks CRC-failed:     '' @ show_nat (rs_blocks_crc_failed s)]
             @ (if rs_blocks_signature_skipped s > 0
                then [''Signature blocks:      '' @ show_nat (rs_blocks_signature_skipped s)
                        @ '' (skipped, unverified)'']
                else [])
        else [])"

definition display_reader_stats :: "duration \<Rightarrow> reader_stats \<Rightarrow> string" where
  "display_reader_stats elapsed s = concat (map (\<lambda>line. line @ [CHR 0x0A]) (report_lines elapsed s))"

definition display_channel_stats :: "channel_stats \<Rightarrow> string" where
  "display_channel_stats c =
     ''blocks='' @ show_nat (cs_blocks_read c) @ ''+'' @ show_nat (cs_blocks_skipped c)
     @ ''skipped samples='' @ show_nat (cs_samples_total c) @ '' bytes='' @ fmt_bytes (cs_bytes_payload c)
     @ '' segments='' @ show_nat (cs_segments c) @ '' ts=''
     @ (case cs_time_range_ns c of None \<Rightarrow> ''-'' | Some (a, b) \<Rightarrow> show_int (sint a) @ ''..'' @ show_int (sint b))"

section \<open>Exact arithmetic\<close>

lemma bitlen_times_2: "0 < n \<Longrightarrow> bitlen (n * 2 ^ j) = bitlen n + j"
proof (induction j)
  case 0
  then show ?case by simp
next
  case (Suc j)
  then show ?case by (subst bitlen.simps) (simp add: mult.left_commute)
qed

lemma bitlen_le: "n < 2 ^ j \<Longrightarrow> bitlen n \<le> j"
proof (rule ccontr)
  assume n: "n < 2 ^ j" and "\<not> bitlen n \<le> j"
  then have "j \<le> bitlen n - 1" "0 < n" by (auto intro: gr0I)
  then have "2 ^ j \<le> (2::nat) ^ (bitlen n - 1)" by simp
  also have "... \<le> n" using \<open>0 < n\<close> by (rule bitlen_lower)
  finally show False using n by simp
qed

lemma rne_scale: "0 < c \<Longrightarrow> rne (p * c) (d * c) = rne p d"
proof -
  assume c: "0 < c"
  have "d * c < 2 * (p mod d * c) \<longleftrightarrow> d < 2 * (p mod d)"
    and "2 * (p mod d * c) = d * c \<longleftrightarrow> 2 * (p mod d) = d"
    using c mult_less_cancel2 [of d c "2 * (p mod d)"] mult_cancel2 [of "2 * (p mod d)" c d] by simp_all
  then show ?thesis using c by (simp add: rne_def Let_def mult_mod_left [symmetric] del: mult_mod_left)
qed

text \<open>A magnitude of at most 53 significant bits survives rounding.\<close>

lemma mag_round_exact:
  assumes v: "v = m * 2 ^ j" and m: "0 < m" "m < 2 ^ 53" and j: "j \<le> 1992" and q: "0 < q"
  shows "mag_of_bits (round_bits (v * q) q) = v" and "round_bits (v * q) q < inf_bits"
proof -
  let ?k = "bitlen v - 53"
  have len: "bitlen v = bitlen m + j" using v m(1) by (simp add: bitlen_times_2)
  have k: "?k \<le> j" "bitlen m \<le> 53" using bitlen_le [OF m(2)] len by simp_all
  define w where "w = m * 2 ^ (j - ?k)"
  have vw: "v = w * 2 ^ ?k" using k(1) by (simp add: v w_def mult.assoc flip: power_add)
  have wpos: "0 < w" using m(1) by (simp add: w_def)
  have wlen: "bitlen w = bitlen m + (j - ?k)" using m(1) by (simp add: w_def bitlen_times_2)
  then have "bitlen w \<le> 53" using len k(2) by linarith
  then have w53: "w < 2 ^ 53" using bitlen_upper [of w] power_increasing [of "bitlen w" 53 "2::nat"] by simp
  have w52: "2 ^ 52 \<le> w" if "?k \<noteq> 0"
  proof -
    have "bitlen w = 53" using wlen len that k by simp
    then show ?thesis using bitlen_lower [OF wpos] by simp
  qed
  have bits: "round_bits (v * q) q = min (?k * 2 ^ 52 + w) inf_bits"
  proof -
    have "v * q div q = v" and "0 < q * 2 ^ ?k" using q by simp_all
    moreover have "v * q = w * (q * 2 ^ ?k)" by (subst vw) (simp only: ac_simps)
    ultimately show ?thesis by (simp only: round_bits_def Let_def rne_exact)
  qed
  have small: "?k * 2 ^ 52 + w < inf_bits"
  proof -
    have "?k * 2 ^ 52 \<le> 1992 * 2 ^ 52" using k(1) j by (intro mult_right_mono) simp_all
    then show ?thesis using w53 by (simp add: inf_bits_def)
  qed
  show "round_bits (v * q) q < inf_bits" using bits small by simp
  have "mag_of_bits (?k * 2 ^ 52 + w) = w * 2 ^ ?k"
  proof (cases "2 ^ 52 \<le> w")
    case True
    then have "w div 2 ^ 52 = 1" "w mod 2 ^ 52 = w - 2 ^ 52"
      using w53 by (simp_all add: div_nat_eqI le_mod_geq)
    then have "(?k * 2 ^ 52 + w) div 2 ^ 52 = Suc ?k" "(?k * 2 ^ 52 + w) mod 2 ^ 52 = w - 2 ^ 52"
      by simp_all
    then show ?thesis using True by (simp add: mag_of_bits_def)
  next
    case False
    then show ?thesis using w52 by (auto simp: mag_of_bits_def)
  qed
  then show "mag_of_bits (round_bits (v * q) q) = v" using bits small vw by simp
qed

text \<open>Sizes below \<open>2 ^ 53\<close> and their quotients by a power of two are exact.\<close>

lemma mag_of_nat: "0 < b \<Longrightarrow> b < 2 ^ 53 \<Longrightarrow> f64_mag (f64_of_nat b) = b * unit_scale \<and> abs_bits (f64_of_nat b) < inf_bits"
  using mag_round_exact [of "b * unit_scale" b 1074 1]
  by (simp add: f64_mag_def f64_of_nat_def round_bits_le_inf unit_scale_def)

lemma format_quotient:
  assumes b: "0 < b" "b < 2 ^ 53" and j: "j \<le> 52"
  shows "format_fixed 2 (f64_div (f64_of_nat b) (f64_of_nat (2 ^ j))) = fixed_point 2 (rne (100 * b) (2 ^ j))"
proof -
  let ?a = "f64_of_nat b" and ?c = "f64_of_nat (2 ^ j)"
  define v where "v = b * 2 ^ (1074 - j)"
  have scale: "unit_scale = 2 ^ j * 2 ^ (1074 - j)" using j by (simp add: unit_scale_def flip: power_add)
  have "(2::nat) ^ j < 2 ^ 53" using j by (intro power_strict_increasing) simp_all
  note a = mag_of_nat [OF b] and c = mag_of_nat [OF _ this]
  have "0 < abs_bits ?c" using c unit_scale_pos by (auto simp: f64_mag_def mag_of_bits_def simp del: unit_scale_pos intro!: gr0I)
  then have c_pos: "f64_gt_zero ?c" and fin: "\<not> f64_is_inf ?a" "\<not> f64_is_inf ?c"
    using f64_nonneg_of_nat [of "2 ^ j"] a c by (simp_all add: f64_gt_zero_def f64_nonneg_def f64_is_zero_def f64_is_inf_def)
  have "f64_mag ?a * unit_scale = v * (2 ^ j * unit_scale)"
    using a by (simp add: v_def) (simp add: scale)
  then have x: "f64_div ?a ?c = f64_make False (round_bits (v * (2 ^ j * unit_scale)) (2 ^ j * unit_scale))"
    using c by (simp only: zero_less_power zero_less_numeral f64_div_nonneg [OF f64_nonneg_of_nat c_pos fin(1)] if_not_P [OF fin(2)])
  have exact: "mag_of_bits (round_bits (v * (2 ^ j * unit_scale)) (2 ^ j * unit_scale)) = v"
      "round_bits (v * (2 ^ j * unit_scale)) (2 ^ j * unit_scale) < inf_bits"
    using mag_round_exact [OF v_def b, of "2 ^ j * unit_scale"] by simp_all
  have "rne (v * 10 ^ 2) unit_scale = rne (100 * b * 2 ^ (1074 - j)) (2 ^ j * 2 ^ (1074 - j))"
    unfolding scale v_def by (simp add: ac_simps)
  then have digits: "rne (v * 10 ^ 2) unit_scale = rne (100 * b) (2 ^ j)" by (simp only: rne_scale zero_less_power zero_less_numeral)
  show ?thesis
    using exact digits unfolding x by (simp add: format_fixed_def f64_mag_def)
qed

lemma rne_nearest: "0 < d \<Longrightarrow> 2 * \<bar>int (d * rne p d) - int p\<bar> \<le> int d"
proof -
  assume d: "0 < d"
  define q r where "q = d * (p div d)" and "r = p mod d"
  have p: "p = q + r" and r: "r < d" using d by (simp_all add: q_def r_def)
  have "d * rne p d = (if d < 2 * r \<or> (2 * r = d \<and> odd (p div d)) then q + d else q)"
    by (simp add: rne_def Let_def q_def r_def)
  then show ?thesis using p r by (auto simp: abs_if)
qed

section \<open>What a report prints\<close>

text \<open>
  C40. The sizes in the reports are right to the last digit. Below 1024 bytes the exact number is
  printed. From there to 2^53 bytes, the printed number of hundredths of the printed unit is a
  nearest one to the size; the unit is the largest of KB, MB and GB that is not larger than the
  size. So a size just below a unit may read \<open>1024.00\<close> of the smaller one.
\<close>

theorem printed_sizes_are_nearest:
  assumes "b < 2 ^ 53"
  shows "if b < 1024 then fmt_bytes b = show_nat b @ '' B''
         else \<exists>unit name h. (unit, name) \<in> {(KB, '' KB''), (MB, '' MB''), (GB, '' GB'')}
           \<and> unit \<le> b \<and> (b < 1024 * unit \<or> unit = GB)
           \<and> fmt_bytes b = show_nat (h div 100) @ ''.'' @ pad_left 2 (show_nat (h mod 100)) @ name
           \<and> 2 * \<bar>int (unit * h) - int (100 * b)\<bar> \<le> int unit"
proof (cases "b < 1024")
  case True
  then show ?thesis by (simp add: fmt_bytes_def KB_def MB_def GB_def)
next
  case False
  have unit: "fmt_bytes b = format_fixed 2 (f64_div (f64_of_nat b) (f64_of_nat unit)) @ name \<Longrightarrow>
      (unit, name) \<in> {(KB, '' KB''), (MB, '' MB''), (GB, '' GB'')} \<Longrightarrow> unit = 2 ^ j \<Longrightarrow> j \<le> 52 \<Longrightarrow> unit \<le> b \<Longrightarrow>
      b < 1024 * unit \<or> unit = GB \<Longrightarrow> ?thesis" for unit name j
    unfolding if_not_P [OF False]
    using False assms format_quotient [of b j] rne_nearest [of unit "100 * b"]
    by (intro exI [of _ unit] exI [of _ name] exI [of _ "rne (100 * b) unit"]) (simp add: fixed_point_def)
  consider "GB \<le> b" | "MB \<le> b" "b < GB" | "KB \<le> b" "b < MB" using False by (force simp: KB_def)
  then show ?thesis
  proof cases
    case 1
    then show ?thesis by (intro unit [of GB "'' GB''" 30]) (simp_all add: fmt_bytes_def KB_def MB_def GB_def)
  next
    case 2
    then show ?thesis by (intro unit [of MB "'' MB''" 20]) (simp_all add: fmt_bytes_def KB_def MB_def GB_def)
  next
    case 3
    then show ?thesis by (intro unit [of KB "'' KB''" 10]) (simp_all add: fmt_bytes_def KB_def MB_def GB_def)
  qed
qed

text \<open>One byte less than a megabyte.\<close>

theorem printed_sizes_are_nearest_witness: "fmt_bytes 1048575 = ''1024.00 KB''"
proof -
  obtain unit name h where unit: "(unit, name) \<in> {(KB, '' KB''), (MB, '' MB''), (GB, '' GB'')}" "unit \<le> 1048575"
      and out: "fmt_bytes 1048575 = show_nat (h div 100) @ ''.'' @ pad_left 2 (show_nat (h mod 100)) @ name"
      and near: "2 * \<bar>int (unit * h) - int (100 * 1048575)\<bar> \<le> int unit"
    using printed_sizes_are_nearest [of 1048575] by auto
  have kb: "unit = 1024" "name = '' KB''" using unit by (auto simp: KB_def MB_def GB_def)
  have h: "h = 102400" using near unfolding kb(1) by (simp add: abs_if split: if_splits)
  show ?thesis unfolding out h kb by (simp add: show_nat.simps digit_char_def pad_left_def char_of_def bit_Suc_0_iff)
qed

end
