(* ===== verification/Console.thy ===== *)
theory Console
  imports Report "HOL-Library.Multiset" "HOL-Library.Product_Lexorder"
begin

text \<open>
  What the printing examples share: characters of UTF-8 texts, the padding of \<open>format!\<close>, shortened names,
  lines of output, and tables of the largest entries.
\<close>

section \<open>Characters\<close>

text \<open>\<open>str::chars\<close>: a character is a byte and the continuation bytes after it.\<close>

definition cont_char :: "char \<Rightarrow> bool" where
  "cont_char c = utf8_cont (of_char c)"

function utf8_chars :: "string \<Rightarrow> string list" where
  "utf8_chars [] = []"
| "utf8_chars (c # cs) = (c # takeWhile cont_char cs) # utf8_chars (dropWhile cont_char cs)"
  by pat_completeness auto

termination
  by (relation "measure length") (simp_all add: length_dropWhile_le le_imp_less_Suc)

definition char_count :: "string \<Rightarrow> nat" where
  "char_count s = length (utf8_chars s)"

definition take_chars :: "nat \<Rightarrow> string \<Rightarrow> string" where
  "take_chars n s = concat (take n (utf8_chars s))"

text \<open>Padding to a width, and the character of an ellipsis.\<close>

definition align_left :: "nat \<Rightarrow> string \<Rightarrow> string" where
  "align_left w s = s @ replicate (w - char_count s) (CHR '' '')"

definition align_right :: "nat \<Rightarrow> string \<Rightarrow> string" where
  "align_right w s = replicate (w - char_count s) (CHR '' '') @ s"

definition dashes :: "nat \<Rightarrow> string" where
  "dashes n = replicate n (CHR ''-'')"

definition ellipsis :: string where
  "ellipsis = [CHR 0xE2, CHR 0x80, CHR 0xA6]"

definition println :: "string \<Rightarrow> string" where
  "println line = line @ [CHR 0x0A]"

text \<open>\<open>truncate_to\<close> of \<open>inspect.rs\<close> and \<open>dump.rs\<close>.\<close>

definition truncate_to :: "string \<Rightarrow> nat \<Rightarrow> string" where
  "truncate_to s n = (if char_count s \<le> n then s else take_chars (n - 1) s @ ellipsis)"

text \<open>The optional count on the command line: \<open>10\<close> when it is absent or not a number.\<close>

definition top_argument :: "string option \<Rightarrow> nat" where
  "top_argument arg =
     (case arg of None \<Rightarrow> 10 | Some s \<Rightarrow> (case parse_unsigned (2 ^ 64) s of None \<Rightarrow> 10 | Some n \<Rightarrow> n))"

section \<open>Widths\<close>

lemma concat_utf8_chars [simp]: "concat (utf8_chars s) = s"
  by (induction s rule: utf8_chars.induct) simp_all

lemma span_append:
  assumes "\<forall>d \<in> set k. cont_char d" and "t = [] \<or> \<not> cont_char (hd t)"
  shows "takeWhile cont_char (k @ t) = k" and "dropWhile cont_char (k @ t) = t"
  using assms by (cases t; simp add: takeWhile_append2 dropWhile_append2)+

lemma prefix_head:
  "s = [] \<or> \<not> cont_char (hd s) \<Longrightarrow> concat (take m (utf8_chars s)) = [] \<or> \<not> cont_char (hd (concat (take m (utf8_chars s))))"
  by (cases s) (simp_all add: take_Cons')

lemma utf8_chars_prefix: "utf8_chars (concat (take n (utf8_chars s))) = take n (utf8_chars s)"
proof (induction s arbitrary: n rule: utf8_chars.induct)
  case (2 c cs)
  show ?case
  proof (cases n)
    case (Suc m)
    let ?k = "takeWhile cont_char cs" and ?rest = "dropWhile cont_char cs"
    let ?t = "concat (take m (utf8_chars ?rest))"
    have "?rest = [] \<or> \<not> cont_char (hd ?rest)" by (metis hd_dropWhile)
    then have "?t = [] \<or> \<not> cont_char (hd ?t)" by (rule prefix_head)
    moreover have "\<forall>d \<in> set ?k. cont_char d" by (auto dest: set_takeWhileD)
    ultimately have "takeWhile cont_char (?k @ ?t) = ?k" "dropWhile cont_char (?k @ ?t) = ?t"
      by (simp_all only: span_append)
    then show ?thesis using "2.IH" Suc by simp
  qed simp
qed simp

lemma utf8_chars_append:
  assumes "s' = [] \<or> \<not> cont_char (hd s')"
  shows "utf8_chars (s @ s') = utf8_chars s @ utf8_chars s'"
proof (induction s rule: utf8_chars.induct)
  case (2 c cs)
  have "takeWhile cont_char (cs @ s') = takeWhile cont_char cs"
      "dropWhile cont_char (cs @ s') = dropWhile cont_char cs @ s'"
    using assms by (cases s'; induction cs; simp)+
  with "2.IH" show ?case by simp
qed simp

lemma char_count_append: "s' = [] \<or> \<not> cont_char (hd s') \<Longrightarrow> char_count (s @ s') = char_count s + char_count s'"
  by (simp add: char_count_def utf8_chars_append)

lemma char_count_replicate: "\<not> cont_char c \<Longrightarrow> char_count (replicate n c) = n"
  by (induction n) (auto simp: char_count_def takeWhile_eq_Nil_iff dropWhile_eq_self_iff)

lemma char_count_ellipsis: "char_count ellipsis = 1"
  unfolding char_count_def ellipsis_def by code_simp

text \<open>A shortened name fits, and a name shortened to the width of its column fills it exactly.\<close>

lemma truncated_fits: "char_count (truncate_to s n) \<le> Suc (n - 1)"
proof -
  have "char_count (take_chars (n - 1) s @ ellipsis) = char_count (take_chars (n - 1) s) + char_count ellipsis"
    by (rule char_count_append) (simp add: ellipsis_def cont_char_def utf8_cont_def)
  moreover have "char_count (take_chars (n - 1) s) \<le> n - 1"
    by (simp add: char_count_def take_chars_def utf8_chars_prefix)
  ultimately show ?thesis by (simp add: truncate_to_def char_count_ellipsis) arith
qed

lemma aligned_width: "char_count (align_left w s) = max w (char_count s)"
proof -
  have "\<not> cont_char (CHR '' '')" by (simp add: cont_char_def utf8_cont_def)
  then show ?thesis
    unfolding align_left_def
    by (subst char_count_append) (auto simp: char_count_replicate hd_replicate simp flip: gr0_conv_Suc)
qed

lemma column_width: "0 < w \<Longrightarrow> char_count (align_left w (truncate_to s w)) = w"
  using truncated_fits [of s w] by (simp add: aligned_width)

section \<open>The largest entries\<close>

text \<open>
  \<open>sort_by\<close> is stable: descending by the number of samples, then ascending by index; and \<open>take\<close>.
\<close>

definition top_entries :: "('a \<Rightarrow> nat) \<Rightarrow> ('a \<Rightarrow> u16) \<Rightarrow> nat \<Rightarrow> 'a list \<Rightarrow> 'a list" where
  "top_entries amount index n xs = take n (sort_key (\<lambda>x. (- int (amount x), unat (index x))) xs)"

lemma top_entries_permuted:
  assumes "mset xs = mset ys" and "distinct (map index ys)"
  shows "top_entries amount index n xs = top_entries amount index n ys"
proof -
  have "inj_on index (set ys)" using assms(2) by (simp add: distinct_map)
  then have "inj_on (\<lambda>x. (- int (amount x), unat (index x))) (set ys)"
    by (simp add: inj_on_def) (metis word_unat_eq_iff)
  moreover have "set xs = set ys" using assms(1) mset_eq_setD by blast
  ultimately have "sort_key (\<lambda>x. (- int (amount x), unat (index x))) xs = sort_key (\<lambda>x. (- int (amount x), unat (index x))) ys"
    using assms(1) by (intro sort_key_inj_key_eq) simp_all
  then show ?thesis by (simp add: top_entries_def)
qed

lemma top_entries_best:
  assumes "y \<in> set (top_entries amount index n xs)" and "z \<in> set xs" and "z \<notin> set (top_entries amount index n xs)"
  shows "amount z \<le> amount y"
proof -
  let ?k = "\<lambda>x. (- int (amount x), unat (index x))"
  let ?s = "sort_key ?k xs"
  have "z \<in> set (take n ?s @ drop n ?s)" using assms(2) by (simp only: append_take_drop_id set_sort)
  then have "z \<in> set (drop n ?s)" using assms(3) by (simp only: set_append Un_iff top_entries_def) blast
  then have z: "?k z \<in> set (map ?k (drop n ?s))" by simp
  have y: "?k y \<in> set (map ?k (take n ?s))" using assms(1) by (simp add: top_entries_def)
  have "sorted (map ?k (take n ?s) @ map ?k (drop n ?s))"
    unfolding map_append [symmetric] append_take_drop_id by (rule sorted_sort_key)
  then have "\<forall>a \<in> set (map ?k (take n ?s)). \<forall>b \<in> set (map ?k (drop n ?s)). a \<le> b"
    unfolding sorted_append by (elim conjE)
  from bspec [OF this y] have "?k y \<le> ?k z" using z by (rule bspec)
  then show ?thesis by (simp add: less_eq_prod_def) linarith
qed

lemma top_entries_length: "length (top_entries amount index n xs) = min n (length xs)"
  by (simp add: top_entries_def)

lemma top_entries_subset: "set (top_entries amount index n xs) \<subseteq> set xs"
  unfolding top_entries_def using set_take_subset by (metis set_sort)

lemma top_entries_distinct: "distinct xs \<Longrightarrow> distinct (top_entries amount index n xs)"
  by (simp add: top_entries_def)

lemma top_entries_sorted: "sorted_wrt (\<lambda>x y. amount y \<le> amount x) (top_entries amount index n xs)"
proof -
  let ?k = "\<lambda>x. (- int (amount x), unat (index x))"
  have "sorted (map ?k (take n (sort_key ?k xs)))"
    unfolding take_map [symmetric] by (intro sorted_wrt_take sorted_sort_key)
  then have "sorted_wrt (\<lambda>x y. ?k x \<le> ?k y) (top_entries amount index n xs)"
    by (simp only: sorted_wrt_map top_entries_def)
  then show ?thesis by (rule sorted_wrt_mono_rel [rotated]) (auto simp: less_eq_prod_def)
qed

end
