(* ===== verification/Inspect.thy ===== *)
theory Inspect
  imports Console CopyTool
begin

text \<open>
  The program \<open>examples/inspect.rs\<close>: the header and the metablock of a file, printed. The result is how
  the process ends and what it has written to standard output.
\<close>

section \<open>Output\<close>

fun format_channel_type :: "channel_type \<Rightarrow> string" where
  "format_channel_type CtScalar = ''scalar''"
| "format_channel_type CtVector = ''vector''"
| "format_channel_type CtMatrix = ''matrix''"
| "format_channel_type CtBinary = ''binary''"
| "format_channel_type (CtUnsupported s) = CHR ''?'' # s"

fun format_data_type :: "data_type \<Rightarrow> string" where
  "format_data_type DtBool = ''bool''"
| "format_data_type DtInt8 = ''int8''"
| "format_data_type DtInt16 = ''int16''"
| "format_data_type DtInt32 = ''int32''"
| "format_data_type DtInt64 = ''int64''"
| "format_data_type DtUInt8 = ''uint8''"
| "format_data_type DtUInt16 = ''uint16''"
| "format_data_type DtUInt32 = ''uint32''"
| "format_data_type DtUInt64 = ''uint64''"
| "format_data_type DtFloat = ''float''"
| "format_data_type DtDouble = ''double''"
| "format_data_type DtString = ''string''"
| "format_data_type DtBinary = ''binary''"
| "format_data_type DtByteArray = ''binary''"
| "format_data_type DtGpsLocation = ''gpsloc''"
| "format_data_type (DtUnsupported s) = CHR ''?'' # s"

definition or_dash :: "string option \<Rightarrow> string" where
  "or_dash s = (case s of None \<Rightarrow> ''-'' | Some t \<Rightarrow> t)"

definition format_channel :: "meta_channel \<Rightarrow> nat \<Rightarrow> string" where
  "format_channel chan name_width =
     (let display_name = truncate_to (mc_name chan) name_width;
          ct = format_channel_type (mc_channel_type chan);
          dt = format_data_type (mc_data_type chan);
          unit = (case mc_physical_unit chan of Some u \<Rightarrow> if u = [] then ''-'' else u | None \<Rightarrow> ''-'');
          incr = (case mc_time_increment_ns chan of
                    Some n \<Rightarrow> ''incr_ns='' @ show_int (sint n) | None \<Rightarrow> ''incr_ns=-'')
      in ''['' @ align_right 3 (show_nat (unat (mc_index chan))) @ ''] '' @ align_left name_width display_name
         @ ''  '' @ align_left 11 ct @ ''  '' @ align_left 8 dt @ ''  unit='' @ align_left 8 unit @ ''  '' @ incr)"

fun compressed_label :: "compression_format \<Rightarrow> string" where
  "compressed_label CfNone = ''no''"
| "compressed_label CfZlib = ''yes (zlib)''"
| "compressed_label CfGzip = ''yes (gzip)''"

fun debug_version :: "osf_version \<Rightarrow> string" where
  "debug_version Osf4 = ''Osf4''"
| "debug_version Osf5 = ''Osf5''"

definition name_column :: "meta_channel list \<Rightarrow> nat" where
  "name_column chans = min (fold max (map (char_count \<circ> mc_name) chans) 0) 48"

definition print_summary :: "string \<Rightarrow> magic_header \<Rightarrow> meta_block \<Rightarrow> compression_format \<Rightarrow> string" where
  "print_summary path header mb compression_format =
     println (''path:           '' @ path)
     @ println (''compressed:     '' @ compressed_label compression_format)
     @ println (''version:        '' @ debug_version (mh_version header))
     @ println (''metablock_len:  '' @ show_nat (mh_metablock_len header) @ '' bytes'')
     @ println (''created_utc:    '' @ or_dash (fi_created_utc (mb_file_info mb)))
     @ println (''creator:        '' @ or_dash (fi_creator (mb_file_info mb)))
     @ println (''channels:       '' @ show_nat (length (mb_channels mb)))
     @ (if mb_channels mb \<noteq> []
        then concat (map (\<lambda>chan. println (''   '' @ format_channel chan (name_column (mb_channels mb))))
                       (mb_channels mb))
        else [])
     @ println (''infos:          '' @ show_nat (length (mb_infos mb)))"

section \<open>The program\<close>

text \<open>The header and the metablock, without the checksum of the metablock.\<close>

definition inspect_metablock :: "'n externals \<Rightarrow> stream \<Rightarrow> osf_error + (magic_header \<times> meta_block)" where
  "inspect_metablock ex s =
     (let (h, s1) = parse_magic_header s in
      and_then h (\<lambda>header.
        (let (b, s2) = read_body (mh_metablock_len header) s1 in
         and_then b (\<lambda>body.
         and_then (parse_metablock ex (mh_version header) body) (\<lambda>metablock. Inr (header, metablock))))))"

definition inspect :: "'n externals \<Rightarrow> nat \<Rightarrow> string list \<Rightarrow> disk \<Rightarrow> (stopped + unit) \<times> string" where
  "inspect ex fill args d =
     (case args of
        [] \<Rightarrow> (Inl (ExitCode 2), [])
      | path # _ \<Rightarrow>
          (case disk_read d path of
             Inl _ \<Rightarrow> (Inl (ExitCode 1), [])
           | Inr bytes \<Rightarrow>
               (case detect_and_wrap fill (source bytes) of
                  Inl _ \<Rightarrow> (Inl (ExitCode 1), [])
                | Inr st \<Rightarrow>
                    (case inspect_metablock ex (read_source (ex_flate2 ex) st) of
                       Inl e \<Rightarrow> (Inl (fail_with e), [])
                     | Inr (header, metablock) \<Rightarrow>
                         (Inr (), print_summary path header metablock (detected_format st))))))"

section \<open>Against the loader\<close>

text \<open>Where the loader gets past the metablock, the program reads the same one; the checksum is the only gap.\<close>

lemma inspected_metablock:
  obtains want got where "open_metablock ex s = Inl (MetablockCrcMismatch want got)"
  | "inspect_metablock ex s = map_ok (\<lambda>(header, meta, _). (header, meta)) (open_metablock ex s)"
proof (cases "fst (parse_magic_header s)")
  case (Inr header)
  note header = Inr
  show ?thesis
  proof (cases "fst (read_body (mh_metablock_len header) (snd (parse_magic_header s)))")
    case (Inr body)
    then show ?thesis
      using that header
      by (cases "verify_metablock_crc (ex_crc32c ex) (mh_metablock_crc header) body";
          cases "parse_metablock ex (mh_version header) body")
         (auto simp: open_metablock_def inspect_metablock_def case_prod_unfold Let_def verify_metablock_crc_def
            split: option.splits if_splits)
  qed (use that header in \<open>simp add: open_metablock_def inspect_metablock_def case_prod_unfold Let_def\<close>)
qed (use that in \<open>simp add: open_metablock_def inspect_metablock_def case_prod_unfold Let_def\<close>)

lemma inspected_stream:
  assumes "disk_read d path = Inr bytes" and "detect_and_wrap fill (source bytes) = Inr st"
    and "open_metablock ex (read_source (ex_flate2 ex) st) = Inr (header, meta, s1, s2)"
  shows "inspect ex fill (path # rest) d = (Inr (), print_summary path header meta (detected_format st))"
proof -
  have "inspect_metablock ex (read_source (ex_flate2 ex) st) = Inr (header, meta)"
    using assms(3) by (cases rule: inspected_metablock [of ex "read_source (ex_flate2 ex) st"]) simp_all
  with assms(1,2) show ?thesis by (simp add: inspect_def)
qed

text \<open>
  C31. The program shows what the loader sees. When the loader loads a path, the program succeeds and prints
  the loaded metablock, its length and the compression of the loaded file. When the program succeeds and
  the loader refuses the file, either the blocks are at fault, and the metablock printed is the one of the
  file, or the metablock fails its checksum: the program prints a damaged metablock as if it were sound.
\<close>

theorem inspect_agrees_with_loader:
  shows "(\<forall>m. load_path ex fill d path = Inr m \<longrightarrow>
      (\<exists>header. mh_metablock_len header = rs_metablock_size_bytes (dm_stats m)
         \<and> inspect ex fill (path # rest) d
             = (Inr (), print_summary path header (dm_meta m) (rs_compression_format (dm_stats m)))))
   \<and> (\<forall>e out. load_path ex fill d path = Inl e \<and> inspect ex fill (path # rest) d = (Inr (), out) \<longrightarrow>
      (\<exists>want got. e = MetablockCrcMismatch want got)
      \<or> (\<exists>bytes st header meta s1 s2. disk_read d path = Inr bytes \<and> detect_and_wrap fill (source bytes) = Inr st
            \<and> open_metablock ex (read_source (ex_flate2 ex) st) = Inr (header, meta, s1, s2)
            \<and> out = print_summary path header meta (detected_format st)))"
proof (intro conjI allI impI)
  fix m assume m: "load_path ex fill d path = Inr m"
  then obtain bytes st where st: "disk_read d path = Inr bytes" "detect_and_wrap fill (source bytes) = Inr st"
      "load_from_stream_with_size ex st (Some (length bytes)) = Inr m"
    by (auto simp: load_path_def load_from_file_def and_then_eq_Inr_iff split: sum.splits)
  then obtain header meta s1 s2 where
      "open_metablock ex (read_source (ex_flate2 ex) st) = Inr (header, meta, s1, s2)"
      "dm_meta m = meta" "rs_metablock_size_bytes (dm_stats m) = mh_metablock_len header"
      "rs_compression_format (dm_stats m) = detected_format st"
    by (auto simp: load_from_stream_with_size_def and_then_eq_Inr_iff map_ok_eq_Inr_iff case_prod_unfold Let_def)
  then show "\<exists>header. mh_metablock_len header = rs_metablock_size_bytes (dm_stats m)
      \<and> inspect ex fill (path # rest) d
          = (Inr (), print_summary path header (dm_meta m) (rs_compression_format (dm_stats m)))"
    using inspected_stream [OF st(1,2)] by (intro exI [of _ header]) simp
next
  fix e out assume e: "load_path ex fill d path = Inl e \<and> inspect ex fill (path # rest) d = (Inr (), out)"
  then obtain bytes st where st: "disk_read d path = Inr bytes" "detect_and_wrap fill (source bytes) = Inr st"
    by (auto simp: inspect_def split: sum.splits)
  let ?opened = "open_metablock ex (read_source (ex_flate2 ex) st)"
  have loader: "load_from_stream_with_size ex st (Some (length bytes)) = Inl e"
    using e st by (simp add: load_path_def load_from_file_def)
  show "(\<exists>want got. e = MetablockCrcMismatch want got)
      \<or> (\<exists>bytes st header meta s1 s2. disk_read d path = Inr bytes \<and> detect_and_wrap fill (source bytes) = Inr st
            \<and> open_metablock ex (read_source (ex_flate2 ex) st) = Inr (header, meta, s1, s2)
            \<and> out = print_summary path header meta (detected_format st))"
  proof (cases ?opened)
    case (Inl e')
    then have "e' = e" using loader by (simp add: load_from_stream_with_size_def)
    moreover have "inspect_metablock ex (read_source (ex_flate2 ex) st) \<noteq> Inl e'" using e st by (auto simp: inspect_def)
    ultimately have "\<exists>want got. e = MetablockCrcMismatch want got"
      using Inl by (cases rule: inspected_metablock [of ex "read_source (ex_flate2 ex) st"]) auto
    then show ?thesis ..
  next
    case (Inr opened)
    then obtain header meta s1 s2 where opened: "?opened = Inr (header, meta, s1, s2)" by (cases opened) auto
    moreover have "out = print_summary path header meta (detected_format st)"
      using inspected_stream [OF st opened] e by simp
    ultimately show ?thesis using st by blast
  qed
qed

text \<open>A sound file, and the same file with a checksum its metablock does not have.\<close>

lemma demo_damaged:
  "open_metablock demo_tool_externals (source (write_magic_header 0 (Some 7))) = Inl (MetablockCrcMismatch 7 0)"
  "\<exists>header. inspect_metablock demo_tool_externals (source (write_magic_header 0 (Some 7))) = Inr (header, demo_meta)"
proof -
  let ?s = "source (write_magic_header 0 (Some 7))"
  have "pending ?s = write_magic_header 0 (Some 7) @ []" by (simp add: source_def)
  note header = parse_magic_header_write [OF _ this]
  show "open_metablock demo_tool_externals ?s = Inl (MetablockCrcMismatch 7 0)"
    by (simp add: open_metablock_def header read_body_def verify_metablock_crc_def demo_tool_externals_def
        demo_copy_externals_def demo_externals_def read_exact_def)
  show "\<exists>header. inspect_metablock demo_tool_externals ?s = Inr (header, demo_meta)"
    by (simp add: inspect_metablock_def header read_body_def read_exact_def parse_metablock_def demo_tool_parsed)
qed

theorem inspect_agrees_with_loader_witness:
  "\<exists>d m header out. load_path demo_tool_externals 8 d ''a'' = Inr m
     \<and> inspect demo_tool_externals 8 [''a''] d = (Inr (), print_summary ''a'' header (dm_meta m) (rs_compression_format (dm_stats m)))
     \<and> load_path demo_tool_externals 8 d ''b'' = Inl (MetablockCrcMismatch 7 0)
     \<and> inspect demo_tool_externals 8 [''b''] d = (Inr (), out)"
proof -
  let ?d = "\<lparr>dk_files = [''a'' \<mapsto> demo_file, ''b'' \<mapsto> write_magic_header 0 (Some 7)],
              dk_unreadable = [], dk_unwritable = [], dk_directory = True\<rparr>"
  obtain m where "load_from_file demo_tool_externals 8 (source demo_file) (Some (length demo_file)) = Inr m"
    using demo_tool_original .
  then have m: "load_path demo_tool_externals 8 ?d ''a'' = Inr m" by (simp add: load_path_def disk_read_def)
  then obtain header where header: "inspect demo_tool_externals 8 [''a''] ?d
      = (Inr (), print_summary ''a'' header (dm_meta m) (rs_compression_format (dm_stats m)))"
    using conjunct1 [OF inspect_agrees_with_loader [of demo_tool_externals 8 ?d "''a''" "[]"]] by blast
  have plain: "detect_and_wrap 8 (source (write_magic_header 0 (Some 7))) = Inr (Plain (source (write_magic_header 0 (Some 7))))"
    by (rule written_is_plain [where rest = "[]"]) (simp add: source_def)
  have "load_path demo_tool_externals 8 ?d ''b'' = Inl (MetablockCrcMismatch 7 0)"
    by (simp add: load_path_def disk_read_def load_from_file_def plain load_from_stream_with_size_def demo_damaged(1))
  moreover obtain out where "inspect demo_tool_externals 8 [''b''] ?d = (Inr (), out)"
    using demo_damaged(2) by (auto simp: inspect_def disk_read_def plain)
  ultimately show ?thesis using m header by blast
qed

end
