(* ===== verification/Tables.thy ===== *)
theory Tables
  imports Inspect
begin

text \<open>
  The programs \<open>examples/stats.rs\<close>, and of \<open>examples/dump.rs\<close> the table of the largest channels. The hash map
  \<open>per_channel\<close> is one of its enumerations.
\<close>

section \<open>\<open>stats\<close>\<close>

definition format_bytes :: "nat \<Rightarrow> string" where
  "format_bytes b =
     (if MB \<le> b then format_fixed 2 (f64_div (f64_of_nat b) (f64_of_nat MB)) @ '' MB''
      else if KB \<le> b then format_fixed 2 (f64_div (f64_of_nat b) (f64_of_nat KB)) @ '' KB''
      else show_nat b @ '' B'')"

definition short_name :: "string \<Rightarrow> string" where
  "short_name name = (if char_count name > 40 then take_chars 39 name @ ellipsis else name)"

definition stats_heading :: "nat \<Rightarrow> string" where
  "stats_heading taken =
     println (''Top '' @ show_nat taken @ '' channels by sample count:'')
     @ println (''   '' @ align_right 5 ''index'' @ ''  '' @ align_left 40 ''name'' @ ''  '' @ align_right 10 ''samples''
         @ ''  '' @ align_right 9 ''bytes'' @ ''  '' @ align_right 8 ''segments'' @ ''  time range (ns)'')
     @ println (''   '' @ dashes 5 @ ''  '' @ dashes 40 @ ''  '' @ dashes 10 @ ''  '' @ dashes 9 @ ''  '' @ dashes 8
         @ ''  '' @ dashes 20)"

definition stats_row :: "u16 \<times> channel_stats \<Rightarrow> string" where
  "stats_row entry =
     (case entry of (idx, cs) \<Rightarrow>
       (let name = short_name (cs_name cs);
            ts = (case cs_time_range_ns cs of
                    None \<Rightarrow> ''-'' | Some (a, b) \<Rightarrow> show_int (sint a) @ ''..'' @ show_int (sint b))
        in println (''   '' @ align_right 5 (show_nat (unat idx)) @ ''  '' @ align_left 40 name
             @ ''  '' @ align_right 10 (show_nat (cs_samples_total cs))
             @ ''  '' @ align_right 9 (format_bytes (cs_bytes_payload cs))
             @ ''  '' @ align_right 8 (show_nat (cs_segments cs)) @ ''  '' @ ts)))"

definition print_top_channels :: "(u16 \<times> channel_stats) list \<Rightarrow> nat \<Rightarrow> string" where
  "print_top_channels per_channel top_n =
     (if per_channel = [] then []
      else stats_heading (min top_n (length per_channel))
           @ concat (map stats_row (top_entries (cs_samples_total \<circ> snd) fst (min top_n (length per_channel)) per_channel)))"

definition stats_tool :: "'n externals \<Rightarrow> nat \<Rightarrow> duration \<Rightarrow> string list \<Rightarrow> disk \<Rightarrow> (stopped + unit) \<times> string" where
  "stats_tool ex fill elapsed args d =
     (case args of
        [] \<Rightarrow> (Inl (ExitCode 2), [])
      | path # rest \<Rightarrow>
          (let top_n = top_argument (case rest of [] \<Rightarrow> None | s # _ \<Rightarrow> Some s) in
           case disk_read d path of
             Inl _ \<Rightarrow> (Inl (ExitCode 1), [])
           | Inr bytes \<Rightarrow>
               (case read_file ex fill (source bytes) (length bytes) of
                  Inl e \<Rightarrow> (Inl (fail_with e), [])
                | Inr (_, _, stats) \<Rightarrow>
                    (Inr (), println (''File:            '' @ path) @ display_reader_stats elapsed stats @ println []
                       @ print_top_channels (rs_per_channel stats) top_n))))"

section \<open>The table of \<open>dump\<close>\<close>

fun channel_kind :: "channel \<Rightarrow> string" where
  "channel_kind (Equidistant _) = ''equidistant''"
| "channel_kind (Timestamped _) = ''timestamped''"
| "channel_kind (VariableChannel _) = ''variable''"

fun segment_count :: "channel \<Rightarrow> nat" where
  "segment_count (Equidistant c) = length (ec_segments c)"
| "segment_count _ = 0"

definition dump_heading :: "nat \<Rightarrow> string" where
  "dump_heading taken =
     println (''Top '' @ show_nat taken @ '' channels by sample count:'')
     @ println (''   '' @ align_right 5 ''index'' @ ''  '' @ align_left 40 ''name'' @ ''  '' @ align_left 11 ''type''
         @ ''  '' @ align_right 10 ''samples'' @ ''  '' @ align_right 8 ''segments'' @ ''  unit'')
     @ println (''   '' @ dashes 5 @ ''  '' @ dashes 40 @ ''  '' @ dashes 11 @ ''  '' @ dashes 10 @ ''  '' @ dashes 8
         @ ''  ----'')"

definition dump_row :: "channel \<Rightarrow> string" where
  "dump_row chan =
     println (''   '' @ align_right 5 (show_nat (unat (channel_index chan))) @ ''  ''
       @ align_left 40 (truncate_to (channel_name chan) 40) @ ''  '' @ align_left 11 (channel_kind chan)
       @ ''  '' @ align_right 10 (show_nat (channel_sample_count chan))
       @ ''  '' @ align_right 8 (show_nat (segment_count chan)) @ ''  '' @ or_dash (channel_physical_unit chan))"

definition dump_top_channels :: "data_manager \<Rightarrow> nat \<Rightarrow> string" where
  "dump_top_channels mgr top_n =
     (if dm_channels mgr = [] then []
      else dump_heading (min top_n (length (dm_channels mgr)))
           @ concat (map dump_row (top_entries channel_sample_count channel_index
                                     (min top_n (length (dm_channels mgr))) (dm_channels mgr))))"

section \<open>What the tables show\<close>

lemma short_name_truncated: "short_name name = truncate_to name 40"
  by (simp add: short_name_def truncate_to_def)

text \<open>
  C33. The table of the largest channels is a function of the statistics. \<open>HashMap\<close> enumerates its entries in any
  order, and the program sorts them: whatever the order, it prints the same text, with one row for each of
  the \<open>top_n\<close> channels that have the most samples (no channel left out has more than one shown), largest
  first, and a name column of exactly 40 characters, however long or short the names are.
\<close>

theorem stats_table_is_canonical:
  assumes "mset per_channel = mset per_channel'" and "distinct (map fst per_channel)" and "per_channel \<noteq> []"
  shows "\<exists>rows. print_top_channels per_channel top_n = stats_heading (length rows) @ concat (map stats_row rows)
     \<and> print_top_channels per_channel' top_n = print_top_channels per_channel top_n
     \<and> length rows = min top_n (length per_channel) \<and> distinct rows \<and> set rows \<subseteq> set per_channel
     \<and> sorted_wrt (\<lambda>p q. cs_samples_total (snd q) \<le> cs_samples_total (snd p)) rows
     \<and> (\<forall>p \<in> set rows. \<forall>q \<in> set per_channel - set rows. cs_samples_total (snd q) \<le> cs_samples_total (snd p))
     \<and> (\<forall>p \<in> set rows. char_count (align_left 40 (short_name (cs_name (snd p)))) = 40)"
proof -
  let ?rows = "top_entries (cs_samples_total \<circ> snd) fst (min top_n (length per_channel)) per_channel"
  have len: "length per_channel' = length per_channel" using mset_eq_length [OF assms(1)] by simp
  have same: "top_entries (cs_samples_total \<circ> snd) fst n per_channel' = top_entries (cs_samples_total \<circ> snd) fst n per_channel"
    for n using top_entries_permuted [OF assms(1) [symmetric] assms(2)] .
  have shown: "length ?rows = min top_n (length per_channel)" by (simp add: top_entries_length)
  have "print_top_channels per_channel top_n = stats_heading (length ?rows) @ concat (map stats_row ?rows)"
    using assms(3) by (simp add: print_top_channels_def top_entries_length)
  moreover have "print_top_channels per_channel' top_n = print_top_channels per_channel top_n"
    using assms(1,3) len by (auto simp: print_top_channels_def same)
  moreover have "distinct ?rows" "set ?rows \<subseteq> set per_channel"
    using assms(2) top_entries_subset top_entries_distinct distinct_map by metis+
  moreover have "sorted_wrt (\<lambda>p q. cs_samples_total (snd q) \<le> cs_samples_total (snd p)) ?rows"
    using top_entries_sorted [of "cs_samples_total \<circ> snd" fst] by simp
  moreover have "\<forall>p \<in> set ?rows. \<forall>q \<in> set per_channel - set ?rows. cs_samples_total (snd q) \<le> cs_samples_total (snd p)"
    using top_entries_best [of _ "cs_samples_total \<circ> snd" fst] by fastforce
  moreover have "char_count (align_left 40 (short_name name)) = 40" for name
    using column_width [of 40] by (simp add: short_name_truncated)
  ultimately show ?thesis using shown by (intro exI [of _ ?rows] conjI) blast+
qed

text \<open>Two orders of a map with two entries, of which the larger is shown.\<close>

theorem stats_table_is_canonical_witness:
  "\<exists>row. print_top_channels [(3, channel_stats_default), (4, channel_stats_default\<lparr>cs_samples_total := 7\<rparr>)] 1
       = stats_heading 1 @ stats_row row
     \<and> print_top_channels [(4, channel_stats_default\<lparr>cs_samples_total := 7\<rparr>), (3, channel_stats_default)] 1
       = stats_heading 1 @ stats_row row
     \<and> row = (4, channel_stats_default\<lparr>cs_samples_total := 7\<rparr>)"
proof -
  let ?a = "(3, channel_stats_default) :: u16 \<times> channel_stats"
  let ?b = "(4, channel_stats_default\<lparr>cs_samples_total := 7\<rparr>) :: u16 \<times> channel_stats"
  have diff: "?a \<noteq> ?b" by simp
  obtain rows where rows: "print_top_channels [?a, ?b] 1 = stats_heading (length rows) @ concat (map stats_row rows)"
      "print_top_channels [?b, ?a] 1 = print_top_channels [?a, ?b] 1" "length rows = min 1 (length [?a, ?b])"
      "set rows \<subseteq> set [?a, ?b]"
      "\<forall>p \<in> set rows. \<forall>q \<in> set [?a, ?b] - set rows. cs_samples_total (snd q) \<le> cs_samples_total (snd p)"
    using stats_table_is_canonical [of "[?a, ?b]" "[?b, ?a]" 1] by auto
  then obtain row where row: "rows = [row]" by (cases rows) auto
  have "row = ?b" using rows(4,5) diff by (auto simp: row channel_stats_default_def)
  then show ?thesis using rows(1,2) row by (intro exI [of _ ?b]) simp
qed

end
