(* ===== verification/Dump.thy ===== *)
theory Dump
  imports Tables
begin

text \<open>
  The program \<open>examples/dump.rs\<close>: the table of the largest channels and the first samples of one channel. How
  the standard library writes floating-point numbers (the shortest text that reads back) and quotes
  strings is a parameter.
\<close>

section \<open>Samples\<close>

record formats =
  fmt_f32 :: "f32 \<Rightarrow> string"
  fmt_f64 :: "f64 \<Rightarrow> string"
  fmt_quoted :: "string \<Rightarrow> string"

fun debug_data_type :: "formats \<Rightarrow> data_type \<Rightarrow> string" where
  "debug_data_type fm DtBool = ''Bool''"
| "debug_data_type fm DtInt8 = ''Int8''"
| "debug_data_type fm DtInt16 = ''Int16''"
| "debug_data_type fm DtInt32 = ''Int32''"
| "debug_data_type fm DtInt64 = ''Int64''"
| "debug_data_type fm DtUInt8 = ''UInt8''"
| "debug_data_type fm DtUInt16 = ''UInt16''"
| "debug_data_type fm DtUInt32 = ''UInt32''"
| "debug_data_type fm DtUInt64 = ''UInt64''"
| "debug_data_type fm DtFloat = ''Float''"
| "debug_data_type fm DtDouble = ''Double''"
| "debug_data_type fm DtString = ''String''"
| "debug_data_type fm DtBinary = ''Binary''"
| "debug_data_type fm DtByteArray = ''ByteArray''"
| "debug_data_type fm DtGpsLocation = ''GpsLocation''"
| "debug_data_type fm (DtUnsupported s) = ''Unsupported('' @ fmt_quoted fm s @ '')''"

fun format_numeric :: "formats \<Rightarrow> numeric_value_ref \<Rightarrow> string" where
  "format_numeric fm (VrBool v) = (if v then ''true'' else ''false'')"
| "format_numeric fm (VrInt8 v) = show_int (sint v)"
| "format_numeric fm (VrInt16 v) = show_int (sint v)"
| "format_numeric fm (VrInt32 v) = show_int (sint v)"
| "format_numeric fm (VrInt64 v) = show_int (sint v)"
| "format_numeric fm (VrUInt8 v) = show_nat (unat v)"
| "format_numeric fm (VrUInt16 v) = show_nat (unat v)"
| "format_numeric fm (VrUInt32 v) = show_nat (unat v)"
| "format_numeric fm (VrUInt64 v) = show_nat (unat v)"
| "format_numeric fm (VrFloat v) = fmt_f32 fm v"
| "format_numeric fm (VrDouble v) = fmt_f64 fm v"
| "format_numeric fm (VrGpsLocation g) =
     ''('' @ fmt_f64 fm (latitude g) @ '', '' @ fmt_f64 fm (longitude g) @ '', '' @ fmt_f64 fm (altitude g) @ '')''"

fun format_variable :: "formats \<Rightarrow> variable_value_ref \<Rightarrow> string" where
  "format_variable fm (VrString s) = fmt_quoted fm (truncate_to s 60)"
| "format_variable fm (VrBinary b) = ''<'' @ show_nat (length b) @ '' bytes>''"

fun format_sample :: "formats \<Rightarrow> sample \<Rightarrow> string" where
  "format_sample fm (NumSample v) = format_numeric fm v"
| "format_sample fm (VarSample v) = format_variable fm v"

section \<open>One channel in detail\<close>

text \<open>What the iterator of a channel yields, one result per step.\<close>

fun sample_items :: "channel \<Rightarrow> (osf_error + (i64 \<times> sample)) list" where
  "sample_items (Equidistant c) =
     map (map_ok (apsnd NumSample)) (concat (map (segment_samples (ec_samples c)) (ec_segments c)))"
| "sample_items (Timestamped c) =
     map (\<lambda>(i, ts). map_ok (\<lambda>v. (ts, NumSample v)) (numeric_value_ref_at (tc_values c) i))
       (List.enumerate 0 (tc_timestamps_ns c))"
| "sample_items (VariableChannel c) =
     map (\<lambda>(i, ts). map_ok (\<lambda>v. (ts, VarSample v))
         (case vc_string_values c of
            Some s \<Rightarrow> map_ok VrString (index_at s i)
          | None \<Rightarrow> (case vc_binary_values c of
                      Some b \<Rightarrow> map_ok VrBinary (index_at b i)
                    | None \<Rightarrow> Inl (Panic ''VariableChannel must have either string_values or binary_values''))))
       (List.enumerate 0 (vc_timestamps_ns c))"

definition sample_line :: "formats \<Rightarrow> nat \<Rightarrow> i64 \<times> sample \<Rightarrow> string" where
  "sample_line fm i entry =
     println (''     '' @ show_nat i @ '':  ts='' @ show_int (sint (fst entry)) @ ''  value='' @ format_sample fm (snd entry))"

text \<open>The loop over the samples: a panic of the iterator ends the program after the lines before it.\<close>

fun print_samples :: "formats \<Rightarrow> nat \<Rightarrow> (osf_error + (i64 \<times> sample)) list \<Rightarrow> (stopped + unit) \<times> string" where
  "print_samples fm i [] = (Inr (), [])"
| "print_samples fm i (Inl e # rest) = (Inl (panicked e), [])"
| "print_samples fm i (Inr entry # rest) = apsnd ((@) (sample_line fm i entry)) (print_samples fm (Suc i) rest)"

definition segment_line :: "formats \<Rightarrow> nat \<times> segment \<Rightarrow> string" where
  "segment_line fm entry =
     (case entry of (i, seg) \<Rightarrow>
       println (''     ['' @ show_nat i @ ''] start='' @ show_int (sint (start_timestamp_ns seg)) @ '' ns  rate=''
         @ fmt_f64 fm (sample_rate_hz seg) @ '' Hz  count='' @ show_nat (sample_count seg)))"

fun segment_lines :: "formats \<Rightarrow> channel \<Rightarrow> string" where
  "segment_lines fm (Equidistant c) =
     println (''   segments:       '' @ show_nat (length (ec_segments c)))
     @ concat (map (segment_line fm) (List.enumerate 0 (ec_segments c)))"
| "segment_lines fm _ = []"

definition detail_heading :: "formats \<Rightarrow> channel \<Rightarrow> string" where
  "detail_heading fm chan =
     println ''First channel detail:''
     @ println (''   name:           '' @ channel_name chan)
     @ println (''   data type:      '' @ debug_data_type fm (channel_data_type chan))
     @ println (''   sample count:   '' @ show_nat (channel_sample_count chan))
     @ segment_lines fm chan
     @ println ''   first 5 samples:''"

definition print_first_channel_detail :: "formats \<Rightarrow> channel \<Rightarrow> (stopped + unit) \<times> string" where
  "print_first_channel_detail fm chan =
     apsnd ((@) (detail_heading fm chan)) (print_samples fm 0 (take 5 (sample_items chan)))"

section \<open>The program\<close>

definition as_millis :: "duration \<Rightarrow> nat" where
  "as_millis t = unat (dur_secs t) * 1000 + unat (dur_nanos t) div 1000000"

definition dump_summary :: "string \<Rightarrow> duration \<Rightarrow> data_manager \<Rightarrow> string" where
  "dump_summary path load_time mgr =
     println (''File:            '' @ path)
     @ println (''Channels:        '' @ show_nat (length (dm_channels mgr)) @ '' (''
         @ show_nat (length (filter (\<lambda>c. \<not> channel_is_empty c) (dm_channels mgr))) @ '' with data, ''
         @ show_nat (rs_channels_unsupported (dm_stats mgr)) @ '' unsupported)'')
     @ println (''Load time:       '' @ show_nat (as_millis load_time) @ '' ms'')
     @ println []"

definition dump_tool ::
  "'n externals \<Rightarrow> formats \<Rightarrow> nat \<Rightarrow> duration \<Rightarrow> string list \<Rightarrow> disk \<Rightarrow> (stopped + unit) \<times> string"
where
  "dump_tool ex fm fill load_time args d =
     (case args of
        [] \<Rightarrow> (Inl (ExitCode 2), [])
      | path # rest \<Rightarrow>
          (let top_n = top_argument (case rest of [] \<Rightarrow> None | s # _ \<Rightarrow> Some s) in
           case load_path ex fill d path of
             Inl e \<Rightarrow> (Inl (fail_with e), [])
           | Inr mgr \<Rightarrow>
               apsnd ((@) (dump_summary path load_time mgr @ dump_top_channels mgr top_n))
                 (case find (\<lambda>c. \<not> channel_is_empty c) (dm_channels mgr) of
                    None \<Rightarrow> (Inr (), [])
                  | Some first \<Rightarrow> apsnd ((@) (println [])) (print_first_channel_detail fm first))))"

section \<open>What the program prints\<close>

lemma map_ok_compose: "map_ok f (map_ok g r) = map_ok (f \<circ> g) r"
  by (cases r) simp_all

lemma first_error_map_ok: "first_error (map (map_ok f) rs) = map_ok (map f) (first_error rs)"
proof (induction rs)
  case (Cons r rs)
  then show ?case by (cases r; cases "first_error rs") simp_all
qed simp

lemma sample_items_log: "first_error (sample_items c) = channel_log c"
proof (cases c)
  case (Equidistant e)
  then show ?thesis by (simp add: first_error_map_ok ec_samples_with_time_def del: map_map)
next
  case (Timestamped t)
  then show ?thesis
    by (simp add: tc_samples_with_time_def map_ok_compose comp_def case_prod_unfold flip: first_error_map_ok)
next
  case (VariableChannel v)
  then show ?thesis
    by (simp add: vc_samples_with_time_def map_ok_compose comp_def case_prod_unfold flip: first_error_map_ok)
qed

lemma print_all: "print_samples fm i (map Inr entries)
    = (Inr (), concat (map (case_prod (sample_line fm)) (List.enumerate i entries)))"
  by (induction entries arbitrary: i) simp_all

text \<open>
  C32. On a file that loads the program always succeeds, and the detail view is honest. After the summary and the
  table it shows nothing more when no channel has a sample. Otherwise the channel it shows is the first in file
  order that has one, and the lines are its first five samples, with the times and values the iterator gives,
  numbered from 0: no value is skipped and no panic of the iterator is possible. On a file that does not load
  it prints nothing and fails.
\<close>

theorem dump_shows_first_samples:
  "case load_path ex fill d path of
     Inl e \<Rightarrow> dump_tool ex fm fill elapsed (path # rest) d = (Inl (fail_with e), [])
   | Inr mgr \<Rightarrow> \<exists>detail.
       dump_tool ex fm fill elapsed (path # rest) d = (Inr (), dump_summary path elapsed mgr
         @ dump_top_channels mgr (top_argument (case rest of [] \<Rightarrow> None | s # _ \<Rightarrow> Some s)) @ detail)
       \<and> (if list_all channel_is_empty (dm_channels mgr) then detail = []
          else \<exists>before first after entries.
            dm_channels mgr = before @ first # after \<and> list_all channel_is_empty before
            \<and> channel_log first = Inr entries \<and> entries \<noteq> []
            \<and> detail = println [] @ detail_heading fm first
                 @ concat (map (\<lambda>i. sample_line fm i (entries ! i)) [0..<min 5 (length entries)]))"
proof (cases "load_path ex fill d path")
  case (Inr mgr)
  define top_n where "top_n = top_argument (case rest of [] \<Rightarrow> None | s # _ \<Rightarrow> Some s)"
  let ?full = "\<lambda>c. \<not> channel_is_empty c"
  show ?thesis
  proof (cases "find ?full (dm_channels mgr)")
    case None
    then have empty: "list_all channel_is_empty (dm_channels mgr)" by (auto simp: find_None_iff list_all_iff)
    with None Inr show ?thesis
      by (simp add: dump_tool_def Let_def)
  next
    case (Some first)
    then obtain i where i: "i < length (dm_channels mgr)" "?full (dm_channels mgr ! i)" "first = dm_channels mgr ! i"
        "\<forall>j < i. \<not> ?full (dm_channels mgr ! j)"
      by (auto simp: find_Some_iff)
    have split: "dm_channels mgr = take i (dm_channels mgr) @ first # drop (Suc i) (dm_channels mgr)"
        "list_all channel_is_empty (take i (dm_channels mgr))"
      using i by (simp_all add: id_take_nth_drop [symmetric] list_all_length)
    have "first \<in> set (dm_channels mgr)" using i by simp
    moreover obtain bytes where "load_from_file ex fill (source bytes) (Some (length bytes)) = Inr mgr"
      using Inr by (auto simp: load_path_def split: sum.splits)
    then obtain st file_size where "load_from_stream_with_size ex st file_size = Inr mgr"
      using file_streamed by metis
    ultimately have "channel_shape first" using streamed_shape by blast
    from shaped_log [OF this] obtain entries where entries: "channel_log first = Inr entries"
        "channel_sample_count first = length entries" .
    have "entries \<noteq> []" using i(2,3) entries(2) by (auto simp: channel_is_empty_def)
    have "sample_items first = map Inr entries"
      using entries(1) by (simp add: first_error_Inr flip: sample_items_log)
    then have "print_samples fm 0 (take 5 (sample_items first))
        = (Inr (), concat (map (case_prod (sample_line fm)) (List.enumerate 0 (take 5 entries))))"
      by (simp add: take_map print_all)
    moreover have "map (case_prod (sample_line fm)) (List.enumerate 0 (take 5 entries))
        = map (\<lambda>i. sample_line fm i (entries ! i)) [0..<min 5 (length entries)]"
      by (rule nth_equalityI) (simp_all add: nth_enumerate_eq min.commute)
    ultimately have shown: "print_first_channel_detail fm first = (Inr (), detail_heading fm first
        @ concat (map (\<lambda>i. sample_line fm i (entries ! i)) [0..<min 5 (length entries)]))"
      by (simp add: print_first_channel_detail_def)
    have "\<not> list_all channel_is_empty (dm_channels mgr)" using i(1,2) by (auto simp: list_all_length)
    moreover have "dump_tool ex fm fill elapsed (path # rest) d = (Inr (), dump_summary path elapsed mgr
        @ dump_top_channels mgr top_n @ println [] @ detail_heading fm first
        @ concat (map (\<lambda>i. sample_line fm i (entries ! i)) [0..<min 5 (length entries)]))"
      using Some Inr shown by (simp add: dump_tool_def Let_def top_n_def)
    ultimately show ?thesis using Inr split entries(1) \<open>entries \<noteq> []\<close>
      unfolding top_n_def by (simp only: sum.case if_False) blast
  qed
qed (simp add: dump_tool_def Let_def)

end
