(* ===== verification/FrameMachine.thy ===== *)
theory FrameMachine
  imports Frames
begin

text \<open>
  The block reader as a machine on frames: the frame that stands at the cursor is a function of the bytes
  left and of the declared channels, and it alone determines where the cursor stands after a call of \<open>next\<close>,
  what is counted and what is yielded.
\<close>

section \<open>The frame at the cursor\<close>

text \<open>
  \<open>CutFrame\<close> carries how many bytes of channel index and length field are complete; \<open>WholeFrame\<close> carries the
  channel, the bytes of index and length field, and the data.
\<close>

datatype frame =
    NoFrame | TrailerFrame | UnknownFrame u16 | WidthlessFrame | CutFrame u16 nat
  | WholeFrame u16 "byte list" "byte list"

text \<open>The bytes of the length field of a channel; signature blocks have four.\<close>

definition frame_width :: "block_reader \<Rightarrow> u16 \<Rightarrow> nat option" where
  "frame_width r channel =
     (if br_integrity r \<noteq> IpNone \<and> channel = SIGNATURE_CHANNEL_INDEX then Some 4
      else map_option (unat \<circ> ci_size_of_length_value) (br_channels r channel))"

definition sized_frame :: "byte list \<Rightarrow> u16 \<Rightarrow> nat \<Rightarrow> frame" where
  "sized_frame bytes channel w =
     (if w \<noteq> 2 \<and> w \<noteq> 4 then WidthlessFrame
      else if length bytes < 2 + w then CutFrame channel 2
      else (let n = le_decode (take w (drop 2 bytes))
            in if length bytes < 2 + w + n then CutFrame channel (2 + w)
               else WholeFrame channel (take (2 + w) bytes) (take n (drop (2 + w) bytes))))"

definition first_frame :: "block_reader \<Rightarrow> frame" where
  "first_frame r =
     (let bytes = pending (br_inner r); channel = from_le (take 2 bytes)
      in if length bytes < 2 then NoFrame
         else if channel = TRAILER_CHANNEL_INDEX then TrailerFrame
         else (case frame_width r channel of
                 None \<Rightarrow> UnknownFrame channel
               | Some w \<Rightarrow> sized_frame bytes channel w))"

definition channel_unsupported :: "block_reader \<Rightarrow> u16 \<Rightarrow> bool" where
  "channel_unsupported r channel \<longleftrightarrow>
     \<not> (br_integrity r \<noteq> IpNone \<and> channel = SIGNATURE_CHANNEL_INDEX)
     \<and> (\<exists>info. br_channels r channel = Some info \<and> is_unsupported (ci_data_type info))"

text \<open>
  What becomes of a whole frame: a block skipped for a reason, or the payload to decode. The checksum covers
  the whole frame but its last four bytes, which hold it.
\<close>

definition verdict :: "(byte list \<Rightarrow> u32) \<Rightarrow> block_reader \<Rightarrow> u16 \<Rightarrow> byte list \<Rightarrow> byte list \<Rightarrow> skip_reason + byte list" where
  "verdict crc32c r channel head data =
     (let body = take (length data - 4) data
      in if br_integrity r \<noteq> IpNone \<and> channel = SIGNATURE_CHANNEL_INDEX then Inl SignatureBlock
         else if data = [] then Inl ZeroLengthBlock
         else if channel_unsupported r channel then Inl UnsupportedDataType
         else if br_integrity r = IpNone then Inr data
         else if length data < 5 \<or> crc32c (head @ body) \<noteq> from_le (drop (length data - 4) data) then Inl CrcFailed
         else Inr body)"

section \<open>The contract of one call\<close>

text \<open>The cursor past \<open>n\<close> bytes, all of them accounted for.\<close>

definition past :: "nat \<Rightarrow> progress \<Rightarrow> progress" where
  "past n s = s\<lparr>pg_left := pg_left s - n, pg_accounted := pg_accounted s + n\<rparr>"

definition count_passed :: "progress \<Rightarrow> progress" where
  "count_passed s = s\<lparr>pg_skipped := pg_skipped s + 1, pg_channel_skipped := pg_channel_skipped s + 1\<rparr>"

definition count_taken :: "nat \<Rightarrow> progress \<Rightarrow> progress" where
  "count_taken k s =
     s\<lparr>pg_read := pg_read s + 1, pg_channel_read := pg_channel_read s + 1,
       pg_channel_samples := pg_channel_samples s + k\<rparr>"

text \<open>The data of a decoded block: its item, and what is counted for it.\<close>

fun decoded_as :: "progress \<Rightarrow> item \<Rightarrow> progress \<Rightarrow> bool" where
  "decoded_as s None s' \<longleftrightarrow> False"
| "decoded_as s (Some (Inl e)) s' \<longleftrightarrow> (\<exists>m. e = InvalidBlock m) \<and> s' = s"
| "decoded_as s (Some (Inr b)) s' \<longleftrightarrow>
     s' = (if is_skipped (blk_kind b) then count_passed s else count_taken (kind_samples (blk_kind b)) s)"

definition whole_contract ::
  "(byte list \<Rightarrow> u32) \<Rightarrow> block_reader \<Rightarrow> u16 \<Rightarrow> byte list \<Rightarrow> byte list \<Rightarrow> item \<Rightarrow> progress \<Rightarrow> bool"
where
  "whole_contract crc32c r channel head data it s' \<longleftrightarrow>
     (let s = past (length head + length data) (progress_of r)
      in case verdict crc32c r channel head data of
           Inl reason \<Rightarrow> (\<exists>captured. it = skipped_item channel reason (length data) captured) \<and> s' = count_passed s
         | Inr payload \<Rightarrow>
             it = fst (dispatch channel (the (br_channels r channel)) (of_nat (length data)) (hd payload) (tl payload) r)
             \<and> decoded_as s it s')"

text \<open>
  The trailer block ends the stream: the index, four bytes of length, the data and, when there are so many bytes,
  the 40 of the magic trailer. The four bytes of the length are accounted for even where they are missing.
\<close>

definition trailer_contract :: "block_reader \<Rightarrow> item \<Rightarrow> progress \<Rightarrow> bool" where
  "trailer_contract r it s' \<longleftrightarrow>
     (let s = progress_of r; bytes = pending (br_inner r); fails = faulty (br_inner r);
          n = le_decode (take 4 (drop 2 bytes));
          short = (length bytes < 6 \<or> length bytes < 6 + n)
      in it = (if fails \<and> short then Some (Inl (Io OtherIo)) else None)
         \<and> s' = s\<lparr>pg_done := True, pg_left := length bytes - (46 + n),
                  pg_truncated := (if short \<and> \<not> fails then max (pg_truncated s) 1 else pg_truncated s),
                  pg_accounted := pg_accounted s
                    + (if short then 6 else if length bytes < 46 + n then 6 + n else 46 + n)\<rparr>)"

definition frame_contract :: "(byte list \<Rightarrow> u32) \<Rightarrow> block_reader \<Rightarrow> item \<Rightarrow> progress \<Rightarrow> bool" where
  "frame_contract crc32c r it s' \<longleftrightarrow>
     (let s = progress_of r; fails = faulty (br_inner r)
      in if br_finished r then it = None \<and> s' = s
         else case first_frame r of
             NoFrame \<Rightarrow>
               it = (if fails then Some (Inl (Io OtherIo)) else None) \<and> s' = s\<lparr>pg_done := True, pg_left := 0\<rparr>
           | TrailerFrame \<Rightarrow> trailer_contract r it s'
           | UnknownFrame channel \<Rightarrow>
               it = Some (Inl (UnknownChannelIndex channel)) \<and> s' = (past 2 s)\<lparr>pg_done := True\<rparr>
           | WidthlessFrame \<Rightarrow>
               (\<exists>m. it = Some (Inl (InvalidMetablock m))) \<and> s' = (past 2 s)\<lparr>pg_done := True\<rparr>
           | CutFrame channel n \<Rightarrow>
               (let loud = (2 < n \<and> channel_unsupported r channel)
                in it = (if fails then Some (Inl (Io OtherIo))
                         else if loud then Some (Inl (Io UnexpectedEof)) else None)
                   \<and> s' = s\<lparr>pg_done := (\<not> (fails \<and> loud)), pg_left := 0,
                            pg_truncated := (if fails then pg_truncated s else max (pg_truncated s) 1),
                            pg_accounted := pg_accounted s + n\<rparr>)
           | WholeFrame channel head data \<Rightarrow> whole_contract crc32c r channel head data it s')"

text \<open>What is left is the end of what was there.\<close>

definition behind :: "byte list \<Rightarrow> byte list \<Rightarrow> bool" where
  "behind bytes rest \<longleftrightarrow> (\<exists>n. rest = drop n bytes)"

lemma behind_intros [simp]: "behind bytes []" "behind bytes bytes" "behind bytes (drop n bytes)"
proof -
  show "behind bytes []" unfolding behind_def by (rule exI [of _ "length bytes"]) simp
  show "behind bytes bytes" unfolding behind_def by (rule exI [of _ 0]) simp
qed (auto simp: behind_def)

definition obeys :: "(byte list \<Rightarrow> u32) \<Rightarrow> block_reader \<Rightarrow> item \<times> block_reader \<Rightarrow> bool" where
  "obeys crc32c r res \<longleftrightarrow>
     (case res of (it, r') \<Rightarrow>
       frame_contract crc32c r it (progress_of r') \<and> behind (pending (br_inner r)) (pending (br_inner r')))"

section \<open>Moving the cursor\<close>

declare add_2_eq_Suc [simp del] add_2_eq_Suc' [simp del]

definition advance :: "nat \<Rightarrow> block_reader \<Rightarrow> block_reader" where
  "advance n r = add_bytes n (r\<lparr>br_inner := (br_inner r)\<lparr>pending := drop n (pending (br_inner r))\<rparr>\<rparr>)"

definition emptied :: "block_reader \<Rightarrow> block_reader" where
  "emptied r = r\<lparr>br_inner := (br_inner r)\<lparr>pending := []\<rparr>\<rparr>"

lemma advance_frame [simp]:
  "br_inner (advance n r) = (br_inner r)\<lparr>pending := drop n (pending (br_inner r))\<rparr>"
  "br_osf_version (advance n r) = br_osf_version r" "br_channels (advance n r) = br_channels r"
  "br_finished (advance n r) = br_finished r" "br_capture_skipped (advance n r) = br_capture_skipped r"
  "br_integrity (advance n r) = br_integrity r"
  by (simp_all add: advance_def)

lemma emptied_frame [simp]:
  "br_inner (emptied r) = (br_inner r)\<lparr>pending := []\<rparr>" "br_channels (emptied r) = br_channels r"
  "br_finished (emptied r) = br_finished r" "br_integrity (emptied r) = br_integrity r"
  by (simp_all add: emptied_def)

lemma progress_advance [simp]: "progress_of (advance n r) = past n (progress_of r)"
  by (simp add: advance_def past_def progress_fields)

lemma progress_emptied [simp]: "progress_of (emptied r) = (progress_of r)\<lparr>pg_left := 0\<rparr>"
  by (simp add: emptied_def)

lemma past_add [simp]: "past m (past n s) = past (n + m) s"
  by (simp add: past_def)

lemma inner_whole:
  "n \<le> length (pending (br_inner r)) \<Longrightarrow>
     inner_exact n r = (Got (take n (pending (br_inner r))), r\<lparr>br_inner := (br_inner r)\<lparr>pending := drop n (pending (br_inner r))\<rparr>\<rparr>)"
  "n \<le> length (pending (br_inner r)) \<Longrightarrow>
     inner_drain n r = (Got (), r\<lparr>br_inner := (br_inner r)\<lparr>pending := drop n (pending (br_inner r))\<rparr>\<rparr>)"
  by (simp_all add: inner_exact_def inner_drain_def read_exact_def drain_def)

lemma inner_short:
  "length (pending (br_inner r)) < n \<Longrightarrow> inner_exact n r = (exhausted (br_inner r), emptied r)"
  "length (pending (br_inner r)) < n \<Longrightarrow> inner_drain n r = (exhausted (br_inner r), emptied r)"
  by (simp_all add: inner_exact_def inner_drain_def read_exact_def drain_def emptied_def exhausted_def)

lemma unat_from_le: "length bs \<le> 4 \<Longrightarrow> unat (from_le bs :: u32) = le_decode bs"
proof -
  assume "length bs \<le> 4"
  then have "(256 :: nat) ^ length bs \<le> 256 ^ 4" by (intro power_increasing) simp_all
  then have "le_decode bs < 2 ^ 32" using le_decode_less [of bs] by simp
  then show ?thesis by (simp add: from_le_def unat_of_nat take_bit_nat_eq_self)
qed

lemma from_le_nat: "from_le bs = (of_nat (le_decode bs) :: u32)"
  by (simp add: from_le_def)

lemma advance_advance [simp]: "advance m (advance n r) = advance (n + m) r"
  by (simp add: advance_def add_bytes_def add.assoc add.commute)

lemma advance_eq: "add_bytes n (r\<lparr>br_inner := (br_inner r)\<lparr>pending := drop n (pending (br_inner r))\<rparr>\<rparr>) = advance n r"
  by (simp add: advance_def)

lemma progress_done [simp]: "past n (progress_of r)\<lparr>pg_left := 0\<rparr> = (progress_of r)\<lparr>pg_left := 0, pg_accounted := pg_accounted (progress_of r) + n\<rparr>"
  by (simp add: past_def)

lemma trailer_done_inner [simp]: "br_inner (trailer_done r) = br_inner r"
  by (simp add: trailer_done_def)

section \<open>Headers\<close>

lemma next_block_started:
  assumes "\<not> br_finished r" and "2 \<le> length (pending (br_inner r))"
  shows "next_block crc32c r =
     (let channel = from_le (take 2 (pending (br_inner r)))
      in if channel = TRAILER_CHANNEL_INDEX then next_trailer (advance 2 r)
         else if br_integrity r \<noteq> IpNone \<and> channel = SIGNATURE_CHANNEL_INDEX then next_signature channel (advance 2 r)
         else next_channel_block crc32c channel (advance 2 r))"
  using assms by (simp add: next_block_def inner_whole advance_eq Let_def)

lemma length_field_read:
  assumes "w = 2 \<or> w = 4"
  shows "read_length_field w r =
     (if length (pending (br_inner r)) < unat w
      then (if faulty (br_inner r) then Inl (Io OtherIo) else Inr None, emptied r)
      else (Inr (Some (of_nat (le_decode (take (unat w) (pending (br_inner r)))))),
            r\<lparr>br_inner := (br_inner r)\<lparr>pending := drop (unat w) (pending (br_inner r))\<rparr>\<rparr>))"
  using assms by (auto simp: read_length_field_def inner_whole inner_short exhausted_def from_le_nat)

text \<open>The header bytes of a frame are what the reader feeds to the checksum.\<close>

lemma header_bytes:
  assumes "w = 2 \<or> w = 4" and "2 + unat w \<le> length bytes"
  shows "u16_le (from_le (take 2 bytes)) @ length_field_bytes w (of_nat (le_decode (take (unat w) (drop 2 bytes))))
    = take (2 + unat w) bytes"
proof -
  let ?xs = "take (unat w) (drop 2 bytes)"
  have two: "u16_le (from_le xs) = xs" if "length xs = 2" for xs
  proof -
    have "le_decode xs < 2 ^ 16" using le_decode_less [of xs] that by simp
    then show ?thesis using le_encode_decode [of xs] that
      by (simp add: u16_le_def from_le_def unat_of_nat take_bit_nat_eq_self)
  qed
  have len: "length ?xs = unat w" using assms(2) by simp
  then have "unat (of_nat (le_decode ?xs) :: u32) = le_decode ?xs"
    using unat_from_le [of ?xs] assms(1) by (auto simp: from_le_nat)
  then have "length_field_bytes w (of_nat (le_decode ?xs)) = le_encode (unat w) (le_decode ?xs)"
    using assms(1) by (auto simp: length_field_bytes_def u32_le_def take_le_encode)
  also have "\<dots> = ?xs" using le_encode_decode [of ?xs] len by simp
  finally show ?thesis using assms(2) two [of "take 2 bytes"] by (simp add: take_add)
qed

section \<open>Frame by frame\<close>

lemma decode_contract:
  assumes "br_capture_skipped r1 = br_capture_skipped r" "br_osf_version r1 = br_osf_version r" "payload \<noteq> []"
  shows "fst (decode_payload channel info len payload r1) = fst (dispatch channel info len (hd payload) (tl payload) r)
     \<and> decoded_as (progress_of r1) (fst (decode_payload channel info len payload r1))
         (progress_of (snd (decode_payload channel info len payload r1)))
     \<and> br_inner (snd (decode_payload channel info len payload r1)) = br_inner r1"
proof -
  obtain cb body where p: "payload = cb # body" using assms(3) by (cases payload) auto
  have "fst (dispatch channel info len cb body r1) = fst (dispatch channel info len cb body r)"
    by (cases "cb_kind (decode_control_byte cb)")
       (simp_all add: dispatch_def Let_def assms(1,2) split: sum.split prod.split)
  moreover obtain it r2 where d: "dispatch channel info len cb body r1 = (it, r2)" by fastforce
  have "decoded_as (progress_of r1) it (progress_of r2)" "br_inner r2 = br_inner r1"
    using dispatch_outcome [of channel len r1 info cb body] unfolding d
    by (cases; simp add: skipped_item_def block_item_def count_passed_def count_taken_def)+
  ultimately show ?thesis by (simp add: p decode_payload_def d)
qed

lemma signature_contract:
  assumes "\<not> br_finished r" and "2 \<le> length (pending (br_inner r))"
    and "br_integrity r \<noteq> IpNone" and "from_le (take 2 (pending (br_inner r))) = SIGNATURE_CHANNEL_INDEX"
  shows "obeys crc32c r (next_block crc32c r)"
proof -
  let ?bytes = "pending (br_inner r)" and ?n = "le_decode (take 4 (drop 2 (pending (br_inner r))))"
  have n: "unat (from_le (take 4 (drop 2 ?bytes)) :: u32) = ?n" by (rule unat_from_le) simp
  have ne: "SIGNATURE_CHANNEL_INDEX \<noteq> TRAILER_CHANNEL_INDEX"
    by (simp add: SIGNATURE_CHANNEL_INDEX_def TRAILER_CHANNEL_INDEX_def)
  have step: "next_block crc32c r = next_signature SIGNATURE_CHANNEL_INDEX (advance 2 r)"
    using next_block_started [OF assms(1,2), of crc32c] assms(3,4) ne by simp
  have frame: "first_frame r = sized_frame ?bytes SIGNATURE_CHANNEL_INDEX 4"
    using assms ne by (simp add: first_frame_def frame_width_def)
  have quiet: "\<not> channel_unsupported r SIGNATURE_CHANNEL_INDEX" using assms(3) by (simp add: channel_unsupported_def)
  consider "length ?bytes < 6" | "6 \<le> length ?bytes" "length ?bytes < 6 + ?n" | "6 + ?n \<le> length ?bytes" by linarith
  then show ?thesis
  proof cases
    case 1
    then show ?thesis using assms(1) quiet
      by (auto simp: step obeys_def frame_contract_def frame sized_frame_def next_signature_def inner_short exhausted_def
          stop_truncated_def stop_error_def Let_def past_def progress_fields)
  next
    case 2
    then show ?thesis using assms(1) quiet
      by (auto simp: step obeys_def frame_contract_def frame sized_frame_def next_signature_def inner_whole inner_short n exhausted_def
          stop_truncated_def stop_error_def Let_def past_def progress_fields)
  next
    case 3
    then show ?thesis using assms(1,3)
      by (auto simp: step obeys_def frame_contract_def frame sized_frame_def next_signature_def inner_whole n Let_def
          whole_contract_def verdict_def count_passed_def past_def progress_fields ac_simps)
  qed
qed

lemma trailer_obeys:
  assumes "\<not> br_finished r" and "2 \<le> length (pending (br_inner r))"
    and "from_le (take 2 (pending (br_inner r))) = TRAILER_CHANNEL_INDEX"
  shows "obeys crc32c r (next_block crc32c r)"
proof -
  let ?bytes = "pending (br_inner r)" and ?n = "le_decode (take 4 (drop 2 (pending (br_inner r))))"
  have n: "unat (from_le (take 4 (drop 2 ?bytes)) :: u32) = ?n" by (rule unat_from_le) simp
  have step: "next_block crc32c r = next_trailer (advance 2 r)"
    using next_block_started [OF assms(1,2), of crc32c] assms(3) by simp
  have frame: "first_frame r = TrailerFrame" using assms by (simp add: first_frame_def)
  note defs = step obeys_def frame_contract_def frame trailer_contract_def next_trailer_def consume_trailer_def
    consume_magic_trailer_def MAGIC_TRAILER_LEN_def stop_error_def inner_whole inner_short exhausted_def Let_def n
  consider "length ?bytes < 6" | "6 \<le> length ?bytes" "length ?bytes < 6 + ?n"
    | "6 + ?n \<le> length ?bytes" "length ?bytes < 46 + ?n" | "46 + ?n \<le> length ?bytes" by linarith
  then show ?thesis
    by cases (use assms(1) in \<open>auto simp: defs past_def progress_fields ac_simps\<close>)
qed

text \<open>A whole frame obeys its verdict.\<close>

lemma whole_skipped:
  assumes "\<not> br_finished r" "first_frame r = WholeFrame channel head data" "verdict crc32c r channel head data = Inl reason"
  shows "obeys crc32c r (skipped_item channel reason (length data) captured,
    record_skip channel len reason (advance (length head + length data) r))"
  using assms by (auto simp: obeys_def frame_contract_def whole_contract_def count_passed_def past_def)

lemma whole_decoded:
  assumes "\<not> br_finished r" "first_frame r = WholeFrame channel head data" "verdict crc32c r channel head data = Inr payload"
    and "payload \<noteq> []" "br_channels r channel = Some info"
  shows "obeys crc32c r (decode_payload channel info (of_nat (length data)) payload (advance (length head + length data) r))"
proof -
  let ?after = "advance (length head + length data) r"
  obtain it r' where d: "decode_payload channel info (of_nat (length data)) payload ?after = (it, r')" by fastforce
  show ?thesis using decode_contract [of ?after r payload channel info "of_nat (length data)"] assms
    by (auto simp: d obeys_def frame_contract_def whole_contract_def)
qed

text \<open>A channel block, once its length field is read: the reader stands at the data.\<close>

lemma channel_header_read:
  assumes fin: "\<not> br_finished r" and two: "2 \<le> length (pending (br_inner r))"
    and ch: "channel = from_le (take 2 (pending (br_inner r)))" "channel \<noteq> TRAILER_CHANNEL_INDEX"
      "br_integrity r = IpNone \<or> channel \<noteq> SIGNATURE_CHANNEL_INDEX"
    and info: "br_channels r channel = Some info" and w: "w = ci_size_of_length_value info" "w = 2 \<or> w = 4"
    and long: "2 + unat w \<le> length (pending (br_inner r))"
    and n: "n = le_decode (take (unat w) (drop 2 (pending (br_inner r))))"
  shows "unat (of_nat n :: u32) = n" and "next_block crc32c r =
      (if n = 0 then (skipped_item channel ZeroLengthBlock 0 None, record_skip channel 0 ZeroLengthBlock (advance (2 + unat w) r))
       else (case unsupported_reason info of
               Some reason \<Rightarrow> skip_block channel (of_nat n) reason (advance (2 + unat w) r)
             | None \<Rightarrow> next_payload crc32c channel info (of_nat n) (advance (2 + unat w) r)))"
proof -
  show unat: "unat (of_nat n :: u32) = n"
    using unat_from_le [of "take (unat w) (drop 2 (pending (br_inner r)))"] w(2) by (auto simp: n from_le_nat)
  then have zero: "(of_nat n :: u32) = 0 \<longleftrightarrow> n = 0" by (metis unat_eq_zero)
  have started: "next_block crc32c r = next_channel_block crc32c channel (advance 2 r)"
    using next_block_started [OF fin two, of crc32c] ch by (auto simp: Let_def)
  define r1 where "r1 = advance 2 r\<lparr>br_inner := (br_inner (advance 2 r))
      \<lparr>pending := drop (unat w) (pending (br_inner (advance 2 r)))\<rparr>\<rparr>"
  have "read_length_field w (advance 2 r) = (Inr (Some (of_nat n)), r1)"
    using length_field_read [OF w(2), of "advance 2 r"] long by (auto simp: r1_def n)
  moreover have "add_bytes (unat w) r1 = advance (2 + unat w) r" by (simp only: r1_def advance_eq advance_advance)
  ultimately show "next_block crc32c r =
      (if n = 0 then (skipped_item channel ZeroLengthBlock 0 None, record_skip channel 0 ZeroLengthBlock (advance (2 + unat w) r))
       else (case unsupported_reason info of
               Some reason \<Rightarrow> skip_block channel (of_nat n) reason (advance (2 + unat w) r)
             | None \<Rightarrow> next_payload crc32c channel info (of_nat n) (advance (2 + unat w) r)))"
    unfolding started next_channel_block_def by (simp add: info w(1) [symmetric] zero Let_def cong: option.case_cong)
qed

text \<open>The data of a block: cut short, or whole.\<close>

lemma data_cut:
  assumes "length (pending (br_inner r)) < h + n" and "h \<le> length (pending (br_inner r))" and "unat len = n"
  shows "skip_block channel len reason (advance h r)
      = (Some (Inl (Io (if faulty (br_inner r) then OtherIo else UnexpectedEof))),
         if faulty (br_inner r) then emptied (advance h r) else finish (note_truncated (emptied (advance h r))))"
    and "next_payload crc32c channel info len (advance h r)
      = (if faulty (br_inner r) then stop_error (Io OtherIo) (emptied (advance h r)) else stop_truncated (emptied (advance h r)))"
proof -
  have "length (pending (br_inner (advance h r))) < unat len" using assms by simp
  then show "skip_block channel len reason (advance h r)
      = (Some (Inl (Io (if faulty (br_inner r) then OtherIo else UnexpectedEof))),
         if faulty (br_inner r) then emptied (advance h r) else finish (note_truncated (emptied (advance h r))))"
    and "next_payload crc32c channel info len (advance h r)
      = (if faulty (br_inner r) then stop_error (Io OtherIo) (emptied (advance h r)) else stop_truncated (emptied (advance h r)))"
    by (simp_all only: skip_block_def next_payload_def inner_short) (auto simp: exhausted_def)
qed

lemma data_whole:
  assumes "h + n \<le> length (pending (br_inner r))" and "unat len = n" and "data = take n (drop h (pending (br_inner r)))"
  shows "\<exists>captured. skip_block channel len reason (advance h r)
      = (skipped_item channel reason n captured, record_skip channel len reason (advance (h + n) r))"
    and "next_payload crc32c channel info len (advance h r) =
      (if br_integrity r = IpNone then decode_payload channel info len data (advance (h + n) r)
       else (case strip_frame_crc crc32c channel (ci_size_of_length_value info) len (br_capture_skipped r) data of
               Inl captured \<Rightarrow> (skipped_item channel CrcFailed n captured, record_skip channel len CrcFailed (advance (h + n) r))
             | Inr stripped \<Rightarrow> decode_payload channel info len stripped (advance (h + n) r)))"
proof -
  define r2 where "r2 = advance h r\<lparr>br_inner := (br_inner (advance h r))
      \<lparr>pending := drop n (pending (br_inner (advance h r)))\<rparr>\<rparr>"
  have "n \<le> length (pending (br_inner (advance h r)))" using assms(1) by simp
  from inner_whole [OF this] have got: "inner_exact n (advance h r) = (Got data, r2)" "inner_drain n (advance h r) = (Got (), r2)"
    by (simp_all only: r2_def) (simp add: assms(3))
  have moved: "add_bytes n r2 = advance (h + n) r" by (simp only: r2_def advance_eq advance_advance)
  have same: "br_integrity r2 = br_integrity r" "br_capture_skipped r2 = br_capture_skipped r" by (simp_all add: r2_def)
  show "\<exists>captured. skip_block channel len reason (advance h r)
      = (skipped_item channel reason n captured, record_skip channel len reason (advance (h + n) r))"
    by (auto simp: skip_block_def assms(2) got moved)
  show "next_payload crc32c channel info len (advance h r) =
      (if br_integrity r = IpNone then decode_payload channel info len data (advance (h + n) r)
       else (case strip_frame_crc crc32c channel (ci_size_of_length_value info) len (br_capture_skipped r) data of
               Inl captured \<Rightarrow> (skipped_item channel CrcFailed n captured, record_skip channel len CrcFailed (advance (h + n) r))
             | Inr stripped \<Rightarrow> decode_payload channel info len stripped (advance (h + n) r)))"
    by (simp add: next_payload_def assms(2) got moved same Let_def cong: sum.case_cong)
qed

lemma channel_block_obeys:
  assumes fin: "\<not> br_finished r" and two: "2 \<le> length (pending (br_inner r))"
    and ch: "channel = from_le (take 2 (pending (br_inner r)))" "channel \<noteq> TRAILER_CHANNEL_INDEX"
      "br_integrity r = IpNone \<or> channel \<noteq> SIGNATURE_CHANNEL_INDEX"
    and info: "br_channels r channel = Some info" and w: "w = ci_size_of_length_value info" "w = 2 \<or> w = 4"
    and long: "2 + unat w \<le> length (pending (br_inner r))"
  shows "obeys crc32c r (next_block crc32c r)"
proof -
  let ?bytes = "pending (br_inner r)" and ?h = "2 + unat w"
  define n where "n = le_decode (take (unat w) (drop 2 ?bytes))"
  define head data where parts: "head = take ?h ?bytes" "data = take n (drop ?h ?bytes)"
  note n = channel_header_read(1) [OF assms n_def] and step = channel_header_read(2) [OF assms n_def, of crc32c]
  have "frame_width r channel = Some (unat w)" "unat w = 2 \<or> unat w = 4"
    using ch(3) info w by (auto simp: frame_width_def)
  then have frame: "first_frame r = (if length ?bytes < ?h + n then CutFrame channel ?h else WholeFrame channel head data)"
    and loud: "2 < ?h"
    using two ch(1,2) long by (auto simp: first_frame_def sized_frame_def Let_def n_def parts)
  have unsup: "channel_unsupported r channel \<longleftrightarrow> is_unsupported (ci_data_type info)"
    using ch(3) info by (auto simp: channel_unsupported_def)
  have unsigned: "\<not> (br_integrity r \<noteq> IpNone \<and> channel = SIGNATURE_CHANNEL_INDEX)" using ch(3) by blast
  show ?thesis
  proof (cases "length ?bytes < ?h + n")
    case True
    then have "n \<noteq> 0" using long by auto
    with True show ?thesis using fin loud
      by (auto simp: step data_cut [OF True long n] obeys_def frame_contract_def frame unsup unsupported_reason_def
          stop_truncated_def stop_error_def Let_def past_def progress_fields)
  next
    case False
    then have whole: "first_frame r = WholeFrame channel head data" using frame by simp
    have len: "?h + n \<le> length ?bytes" "length data = n" "length head = ?h" using False by (simp_all add: parts)
    note skipped = whole_skipped [OF fin whole, unfolded len(2,3)]
      and decoded = whole_decoded [OF fin whole _ _ info, unfolded len(2,3)]
      and read = data_whole [OF len(1) n parts(2)]
    consider "n = 0" | "n \<noteq> 0" "is_unsupported (ci_data_type info)"
      | "n \<noteq> 0" "\<not> is_unsupported (ci_data_type info)" "br_integrity r = IpNone"
      | "n \<noteq> 0" "\<not> is_unsupported (ci_data_type info)" "br_integrity r \<noteq> IpNone" by blast
    then show ?thesis
    proof cases
      case 1
      have "verdict crc32c r channel head data = Inl ZeroLengthBlock" using 1 len unsigned by (simp add: verdict_def Let_def)
      from skipped [OF this] 1 show ?thesis by (simp add: step)
    next
      case 2
      have "verdict crc32c r channel head data = Inl UnsupportedDataType"
        using 2 len unsigned by (auto simp: verdict_def Let_def unsup)
      moreover obtain captured where "skip_block channel (of_nat n) UnsupportedDataType (advance ?h r)
          = (skipped_item channel UnsupportedDataType n captured, record_skip channel (of_nat n) UnsupportedDataType (advance (?h + n) r))"
        using read(1) by blast
      ultimately show ?thesis using skipped 2 by (simp add: step unsupported_reason_def)
    next
      case 3
      then have "data \<noteq> []" using len(2) by auto
      then have "verdict crc32c r channel head data = Inr data" using 3 by (simp add: verdict_def Let_def unsup)
      from decoded [OF this \<open>data \<noteq> []\<close>] 3 show ?thesis by (simp add: step unsupported_reason_def read(2))
    next
      case 4
      let ?body = "take (length data - 4) data"
      have full: "data \<noteq> []" using 4 len(2) by auto
      have "crc32c_of_parts crc32c [u16_le channel, length_field_bytes w (of_nat n), ?body] = crc32c (head @ ?body)"
        using header_bytes [OF w(2) long] by (simp add: crc32c_of_parts_def parts(1) ch(1) n_def flip: append_assoc)
      then have strip: "strip_frame_crc crc32c channel w (of_nat n) (br_capture_skipped r) data =
          (case verdict crc32c r channel head data of
             Inl _ \<Rightarrow> Inl (if length data < 5 then None else if br_capture_skipped r then Some ?body else None)
           | Inr payload \<Rightarrow> Inr payload)"
        and reason: "verdict crc32c r channel head data = Inl why \<Longrightarrow> why = CrcFailed"
        and payload: "verdict crc32c r channel head data = Inr payload \<Longrightarrow> payload \<noteq> []" for why payload
        using 4 full unsigned by (auto simp: strip_frame_crc_def verdict_def unsup Let_def split: if_splits)
      show ?thesis
      proof (cases "verdict crc32c r channel head data")
        case (Inl why)
        then show ?thesis using skipped [OF Inl] reason 4 by (auto simp: step unsupported_reason_def read(2) strip w(1) [symmetric])
      next
        case (Inr payload)
        then show ?thesis using decoded [OF Inr payload [OF Inr]] 4
          by (simp add: step unsupported_reason_def read(2) strip w(1) [symmetric])
      qed
    qed
  qed
qed

section \<open>What a call leaves as it was\<close>

text \<open>The declared channels, the level, the version, the capture flag, and whether the source fails at its end.\<close>

definition setup_of ::
  "block_reader \<Rightarrow> (u16 \<rightharpoonup> channel_info) \<times> integrity_profile \<times> osf_version \<times> bool \<times> bool"
where
  "setup_of r = (br_channels r, br_integrity r, br_osf_version r, br_capture_skipped r, faulty (br_inner r))"

lemma setup_updates [simp]:
  "setup_of (r\<lparr>br_stats := st\<rparr>) = setup_of r" "setup_of (add_bytes n r) = setup_of r" "setup_of (finish r) = setup_of r"
  "setup_of (note_truncated r) = setup_of r" "setup_of (trailer_done r) = setup_of r"
  "setup_of (record_skip channel len reason r) = setup_of r" "setup_of (record_read channel len n f r) = setup_of r"
  by (simp_all add: setup_of_def add_bytes_def finish_def note_truncated_def trailer_done_def record_skip_def
      record_read_def Let_def)

lemma setup_inner [simp]:
  "inner_exact n r = (res, r') \<Longrightarrow> setup_of r' = setup_of r"
  "inner_drain n r = (res', r') \<Longrightarrow> setup_of r' = setup_of r"
  by (auto simp: inner_exact_def inner_drain_def setup_of_def read_exact_faulty drain_faulty split: prod.splits)

lemma setup_stopped [simp]:
  "setup_of (snd (stop_truncated r)) = setup_of r" "setup_of (snd (stop_error e r)) = setup_of r"
  by (simp_all add: stop_truncated_def stop_error_def)

lemma setup_dispatch [simp]:
  "setup_of (snd (dispatch channel info len cb body r)) = setup_of r"
  "setup_of (snd (decode_payload channel info len payload r)) = setup_of r"
proof -
  show dispatched: "setup_of (snd (dispatch channel info len cb body r)) = setup_of r" for cb body
    by (cases "cb_kind (decode_control_byte cb)") (auto simp: dispatch_def Let_def split: sum.split prod.split)
  show "setup_of (snd (decode_payload channel info len payload r)) = setup_of r"
    by (simp add: decode_payload_def dispatched split: list.split)
qed

lemma setup_trailer [simp]: "setup_of (snd (next_trailer r)) = setup_of r"
proof -
  have tail: "setup_of (consume_magic_trailer r') = setup_of r'" for r'
    by (auto simp: consume_magic_trailer_def split: io.split prod.split)
  have "setup_of (snd (consume_trailer r)) = setup_of r"
    by (auto simp: consume_trailer_def tail Let_def split: io.split prod.split dest!: setup_inner)
  then show ?thesis by (auto simp: next_trailer_def split: prod.split option.split)
qed

lemma setup_skip [simp]: "setup_of (snd (skip_block channel len reason r)) = setup_of r"
  by (auto simp: skip_block_def split: io.split prod.split)

lemma setup_signature [simp]: "setup_of (snd (next_signature channel r)) = setup_of r"
  by (auto simp: next_signature_def Let_def split: io.split prod.split dest!: setup_inner)

lemma setup_payload [simp]: "setup_of (snd (next_payload crc32c channel info len r)) = setup_of r"
  by (auto simp: next_payload_def Let_def split: io.split prod.split sum.split dest!: setup_inner)

lemma setup_channel_block [simp]: "setup_of (snd (next_channel_block crc32c channel r)) = setup_of r"
proof -
  have field: "setup_of r' = setup_of r" if "read_length_field w r = (res, r')" for w res r'
    using that by (auto simp: read_length_field_def split: io.splits prod.splits if_splits)
  show ?thesis
    by (auto simp: next_channel_block_def Let_def split: prod.split sum.split option.split dest!: field)
qed

lemma setup_kept: "setup_of (snd (next_block crc32c r)) = setup_of r"
  by (auto simp: next_block_def Let_def split: io.split prod.split dest!: setup_inner)

section \<open>The reader refines the machine\<close>

lemma next_block_obeys: "obeys crc32c r (next_block crc32c r)"
proof (cases "br_finished r \<or> length (pending (br_inner r)) < 2")
  case True
  then show ?thesis
    by (auto simp: next_block_def inner_short obeys_def frame_contract_def first_frame_def exhausted_def stop_error_def
        progress_fields Let_def)
next
  case False
  then have fin: "\<not> br_finished r" and two: "2 \<le> length (pending (br_inner r))" by auto
  define channel :: u16 where "channel = from_le (take 2 (pending (br_inner r)))"
  note started = next_block_started [OF fin two, of crc32c, folded channel_def]
  consider "channel = TRAILER_CHANNEL_INDEX" | "br_integrity r \<noteq> IpNone" "channel = SIGNATURE_CHANNEL_INDEX"
    | "channel \<noteq> TRAILER_CHANNEL_INDEX" "br_integrity r = IpNone \<or> channel \<noteq> SIGNATURE_CHANNEL_INDEX" by blast
  then show ?thesis
  proof cases
    case 3
    show ?thesis
    proof (cases "br_channels r channel")
      case None
      then show ?thesis using fin two 3
        by (auto simp: started next_channel_block_def stop_error_def obeys_def frame_contract_def first_frame_def
            frame_width_def channel_def Let_def)
    next
      case (Some info)
      let ?w = "ci_size_of_length_value info"
      have frame: "first_frame r = sized_frame (pending (br_inner r)) channel (unat ?w)"
        using two 3 Some by (auto simp: first_frame_def frame_width_def channel_def Let_def)
      consider "?w \<noteq> 2 \<and> ?w \<noteq> 4" | "?w = 2 \<or> ?w = 4" "length (pending (br_inner r)) < 2 + unat ?w"
        | "?w = 2 \<or> ?w = 4" "2 + unat ?w \<le> length (pending (br_inner r))" by linarith
      then show ?thesis
      proof cases
        case 1
        then have "unat ?w \<noteq> 2 \<and> unat ?w \<noteq> 4" using word_unat_eq_iff [of ?w 2] word_unat_eq_iff [of ?w 4] by simp
        with 1 show ?thesis using fin 3 Some
          by (auto simp: started next_channel_block_def read_length_field_def stop_error_def obeys_def frame_contract_def
              frame sized_frame_def)
      next
        case 2
        moreover have "length (pending (br_inner (advance 2 r))) = length (pending (br_inner r)) - 2" by simp
        ultimately have "length (pending (br_inner (advance 2 r))) < unat ?w" using two by linarith
        with 2 show ?thesis using fin 3 Some
          by (auto simp: started next_channel_block_def length_field_read stop_error_def stop_truncated_def obeys_def
              frame_contract_def frame sized_frame_def Let_def past_def progress_fields)
      next
        case 3
        then show ?thesis using channel_block_obeys [OF fin two channel_def _ _ Some refl] \<open>channel \<noteq> TRAILER_CHANNEL_INDEX\<close>
          \<open>br_integrity r = IpNone \<or> channel \<noteq> SIGNATURE_CHANNEL_INDEX\<close> by blast
      qed
    qed
  next
    case 1
    then show ?thesis using trailer_obeys [OF fin two] unfolding channel_def by blast
  next
    case 2
    then show ?thesis using signature_contract [OF fin two] unfolding channel_def by blast
  qed
qed



end
