(* ===== verification/Interleaved.thy ===== *)
theory Interleaved
  imports LoadLaws
begin

text \<open>
  Streams that no writer of the library lays out: timestamped blocks of several channels in any order,
  with skipped blocks between them. What a manager makes of them, and of a frame of length zero.
\<close>

section \<open>Feeding interleaved blocks\<close>

text \<open>A block a channel of the datatype can take: timestamped samples of its type, or a skipped one.\<close>

fun timestamped_kind :: "data_type \<Rightarrow> block_kind \<Rightarrow> bool" where
  "timestamped_kind dt (AbsTimestampData p) \<longleftrightarrow> timestamped_payload_data_type p = dt"
| "timestamped_kind dt (Skipped _ _ _) \<longleftrightarrow> True"
| "timestamped_kind dt _ \<longleftrightarrow> False"

fun kind_log :: "block_kind \<Rightarrow> (i64 \<times> sample) list" where
  "kind_log (AbsTimestampData p) = tp_samples p"
| "kind_log _ = []"

text \<open>The samples of one channel, in stream order.\<close>

definition stream_log :: "u16 \<Rightarrow> block list \<Rightarrow> (i64 \<times> sample) list" where
  "stream_log i blks = concat (map (kind_log \<circ> blk_kind) (filter (\<lambda>blk. blk_channel_index blk = i) blks))"

lemma stream_log_simps [simp]:
  "stream_log i [] = []"
  "stream_log i (blk # blks)
     = (if blk_channel_index blk = i then kind_log (blk_kind blk) else []) @ stream_log i blks"
  "stream_log i (blks @ blks') = stream_log i blks @ stream_log i blks'"
  by (simp_all add: stream_log_def)

definition collected :: "builders \<Rightarrow> meta_channel list \<Rightarrow> (u16 \<Rightarrow> (i64 \<times> sample) list) \<Rightarrow> bool" where
  "collected builders ms log \<longleftrightarrow>
     (\<forall>m \<in> set ms. \<exists>b. builders (mc_index m) = Some b \<and> bl_wf b \<and> accepts_abs b
        \<and> identity_of b = identity_of (builder_for m) \<and> builder_log b = log (mc_index m))"

lemma timestamped_step:
  assumes "bl_wf b" and "accepts_abs b" and "timestamped_kind (bl_data_type b) k"
  obtains b' where "apply_block b k = Inr b'" "bl_wf b'" "accepts_abs b'" "identity_of b' = identity_of b"
    "builder_log b' = builder_log b @ kind_log k"
proof (cases k)
  case (AbsTimestampData p)
  then obtain b' where b': "apply_block b k = Inr b'" "accepts_abs b'"
    using abs_accepted [OF assms(1) _ assms(2), of p] assms(3) by auto
  then show ?thesis using replay_step [OF assms(1) b'(1)] AbsTimestampData by (intro that [of b']) simp_all
next
  case (Skipped reason n payload)
  then show ?thesis using assms by (intro that [of b]) simp_all
qed (use assms(3) in auto)

lemma feed_timestamped:
  "collected builders ms log \<Longrightarrow>
   \<forall>blk \<in> set blks. \<exists>m \<in> set ms. blk_channel_index blk = mc_index m \<and> timestamped_kind (mc_data_type m) (blk_kind blk) \<Longrightarrow>
   \<exists>builders'. exec_all feed_block builders (map Inr blks) = Inr builders'
      \<and> collected builders' ms (\<lambda>i. log i @ stream_log i blks)"
proof (induction blks arbitrary: builders log)
  case Nil
  then show ?case by simp
next
  case (Cons blk blks)
  let ?i = "blk_channel_index blk" and ?k = "blk_kind blk"
  obtain m where m: "m \<in> set ms" "?i = mc_index m" "timestamped_kind (mc_data_type m) ?k"
    using Cons.prems(2) by auto
  obtain b where b: "builders ?i = Some b" "bl_wf b" "accepts_abs b" "identity_of b = identity_of (builder_for m)"
      "builder_log b = log ?i"
    using Cons.prems(1) m(1,2) unfolding collected_def by metis
  have "bl_data_type b = mc_data_type m" using identity_fields(3) [OF b(4)] by simp
  then obtain b' where b': "apply_block b ?k = Inr b'" "bl_wf b'" "accepts_abs b'" "identity_of b' = identity_of b"
      "builder_log b' = builder_log b @ kind_log ?k"
    using timestamped_step [OF b(2,3)] m(3) by metis
  have step: "feed_block builders (Inr blk) = Inr (builders(?i \<mapsto> b'))"
    using b(1) b'(1) by (simp add: feed_block_def)
  let ?log = "\<lambda>i. log i @ (if ?i = i then kind_log ?k else [])"
  have "collected (builders(?i \<mapsto> b')) ms ?log"
    unfolding collected_def
  proof
    fix m' assume m': "m' \<in> set ms"
    then obtain c where c: "builders (mc_index m') = Some c" "bl_wf c" "accepts_abs c"
        "identity_of c = identity_of (builder_for m')" "builder_log c = log (mc_index m')"
      using Cons.prems(1) unfolding collected_def by metis
    show "\<exists>c'. (builders(?i \<mapsto> b')) (mc_index m') = Some c' \<and> bl_wf c' \<and> accepts_abs c'
        \<and> identity_of c' = identity_of (builder_for m') \<and> builder_log c' = ?log (mc_index m')"
      using b b' c by (cases "?i = mc_index m'") auto
  qed
  from Cons.IH [OF this] Cons.prems(2) step show ?case by (simp del: fun_upd_apply)
qed

definition is_equidistant :: "channel \<Rightarrow> bool" where
  "is_equidistant c \<longleftrightarrow> (\<exists>e. c = Equidistant e)"

lemma timestamped_channel:
  assumes "bl_wf b" and "accepts_abs b" and "finalize b = Some c"
  shows "channel_log c = Inr [] \<or> \<not> is_equidistant c"
proof (cases "builder_log b = []")
  case True
  then show ?thesis using finalize_channel(1) [OF assms(1,3)] by simp
next
  case False
  then show ?thesis using assms(2,3)
    by (cases "bl_state b")
       (auto simp: finalize_def builder_log_def accepts_abs_def is_equidistant_def to_timestamped_def to_variable_def)
qed

lemma stream_built:
  assumes dist: "distinct (map mc_index (mb_channels meta))"
    and supported: "\<forall>m \<in> set (mb_channels meta). \<not> is_unsupported (mc_data_type m)"
    and typed: "\<forall>blk \<in> set blks. \<exists>m \<in> set (mb_channels meta). blk_channel_index blk = mc_index m
      \<and> timestamped_kind (mc_data_type m) (blk_kind blk)"
  obtains channels by_name by_index where
    "build_channels meta (map Inr blks) = Inr (channels, by_name, by_index)"
    "map (\<lambda>c. (channel_index c, channel_name c, channel_data_type c, channel_log c)) channels
       = map (\<lambda>m. (mc_index m, mc_name m, mc_data_type m, Inr (stream_log (mc_index m) blks))) (mb_channels meta)"
    "\<forall>c \<in> set channels. channel_log c = Inr [] \<or> \<not> is_equidistant c"
proof -
  let ?init = "foldl insert_builder Map.empty (mb_channels meta)"
  have "collected ?init (mb_channels meta) (\<lambda>_. [])"
    using initial_builder_at [OF dist] fresh_builder(1,2) supported by (simp add: collected_def builder_for_wf)
  from feed_timestamped [OF this typed] obtain builders where
    fed: "exec_all feed_block ?init (map Inr blks) = Inr builders"
      "collected builders (mb_channels meta) (\<lambda>i. stream_log i blks)" by auto
  have "\<forall>m \<in> set (mb_channels meta). \<not> is_unsupported (mc_data_type m)
        \<and> (\<exists>b. builders (mc_index m) = Some b \<and> bl_wf b \<and> identity_of b = identity_of (builder_for m)
              \<and> builder_log b = stream_log (mc_index m) blks)"
    using fed(2) supported unfolding collected_def by blast
  from built_channels [OF dist fed(1) this] obtain channels by_name by_index where c:
    "build_channels meta (map Inr blks) = Inr (channels, by_name, by_index)"
    "map (\<lambda>c. (channel_index c, channel_name c, channel_data_type c, channel_log c)) channels
       = map (\<lambda>m. (mc_index m, mc_name m, mc_data_type m, Inr (stream_log (mc_index m) blks))) (mb_channels meta)"
    "\<forall>c \<in> set channels. \<exists>m \<in> set (mb_channels meta). \<exists>b. builders (mc_index m) = Some b \<and> finalize b = Some c" .
  have "\<forall>c \<in> set channels. channel_log c = Inr [] \<or> \<not> is_equidistant c"
  proof
    fix c assume "c \<in> set channels"
    then obtain b where "bl_wf b" "accepts_abs b" "finalize b = Some c"
      using c(3) fed(2) unfolding collected_def by fastforce
    then show "channel_log c = Inr [] \<or> \<not> is_equidistant c" by (rule timestamped_channel)
  qed
  with c(1,2) show ?thesis by (rule that)
qed

section \<open>Loading\<close>

text \<open>A file whose blocks are timestamped samples of its channels, or skipped.\<close>

lemma stream_loads:
  assumes plain: "detect_and_wrap fill s = Inr (Plain s)"
    and opened: "open_metablock ex s = Inr (header, meta, s1, rest)"
    and dist: "distinct (map mc_index (mb_channels meta))"
    and supported: "\<forall>m \<in> set (mb_channels meta). \<not> is_unsupported (mc_data_type m)"
    and typed: "\<forall>blk \<in> set blks. \<exists>m \<in> set (mb_channels meta). blk_channel_index blk = mc_index m
      \<and> timestamped_kind (mc_data_type m) (blk_kind blk)"
    and run: "items (ex_crc32c ex) (sized file_size (with_integrity (mh_integrity header) (block_reader_new rest meta)))
      = (map Inr blks, r')"
  obtains m where "load_from_file ex fill s file_size = Inr m"
    "map (\<lambda>c. (channel_index c, channel_name c, channel_data_type c, channel_log c)) (dm_channels m)
       = map (\<lambda>c. (mc_index c, mc_name c, mc_data_type c, Inr (stream_log (mc_index c) blks))) (mb_channels meta)"
    "\<forall>c \<in> set (dm_channels m). channel_log c = Inr [] \<or> \<not> is_equidistant c"
    "trouble (dm_stats m) = trouble (br_stats r')"
    "rs_blocks_read (dm_stats m) = length (filter (\<lambda>blk. \<not> is_skipped (blk_kind blk)) blks)"
    "rs_blocks_total (dm_stats m) = length blks"
proof -
  obtain channels by_name by_index where c:
    "build_channels meta (map Inr blks) = Inr (channels, by_name, by_index)"
    "map (\<lambda>c. (channel_index c, channel_name c, channel_data_type c, channel_log c)) channels
       = map (\<lambda>m. (mc_index m, mc_name m, mc_data_type m, Inr (stream_log (mc_index m) blks))) (mb_channels meta)"
    "\<forall>c \<in> set channels. channel_log c = Inr [] \<or> \<not> is_equidistant c"
    using stream_built [OF dist supported typed] .
  let ?m = "\<lparr>dm_meta = meta,
      dm_stats = (final_stats r')\<lparr>rs_metablock_size_bytes := mh_metablock_len header, rs_compressed := False,
                   rs_compression_format := CfNone\<rparr>,
      dm_channels = channels, dm_by_name = by_name, dm_by_index = by_index\<rparr>"
  have "load_from_file ex fill s file_size = Inr ?m"
    using run by (simp add: load_from_file_def plain load_from_stream_with_size_def opened c(1) sized_def)
  moreover have "trouble (dm_stats ?m) = trouble (br_stats r')"
    by (simp add: final_stats_def Let_def trouble_def)
  ultimately show ?thesis using that [of ?m] c(2,3) run_counters [OF run] by simp
qed

section \<open>Frames of length zero\<close>

text \<open>The channel index and a length of 0, and nothing else.\<close>

definition zero_frame :: "u16 \<Rightarrow> u8 \<Rightarrow> byte list" where
  "zero_frame channel width = frame_prefix channel width 0"

definition zero_length_item :: "u16 \<Rightarrow> block" where
  "zero_length_item channel = \<lparr>blk_channel_index = channel, blk_kind = Skipped ZeroLengthBlock 0 None\<rparr>"

definition zero_length_seen :: "nat list \<times> bool" where
  "zero_length_seen = ([0, 0, 0, 0, 0, 1, 0, 0], False)"

lemma zero_frame_skipped:
  assumes at: "reader_at cfg r" and pend: "pending (br_inner r) = zero_frame channel width @ rest"
    and ok: "writable cfg channel dt width frame_crc" and calm: "trouble (br_stats r) = no_trouble"
  obtains r' where "next_block crc32c r = (Some (Inr (zero_length_item channel)), r')" "reader_at cfg r'"
    "pending (br_inner r') = rest" "faulty (br_inner r') = faulty (br_inner r)"
    "trouble (br_stats r') = zero_length_seen"
proof -
  let ?info = "\<lparr>ci_data_type = dt, ci_size_of_length_value = width\<rparr>"
  have "data_frame r channel ?info 0 rest"
    using at ok pend by (auto simp: data_frame_def writable_def reader_at_def zero_frame_def)
  note step = next_block_data_frame [OF this, of crc32c]
  let ?r = "record_skip channel 0 ZeroLengthBlock (at_data width rest r)"
  show ?thesis
  proof (rule that [of ?r])
    show "next_block crc32c r = (Some (Inr (zero_length_item channel)), ?r)"
      by (simp add: step zero_length_item_def skipped_item_def)
    show "reader_at cfg ?r" "pending (br_inner ?r) = rest" "faulty (br_inner ?r) = faulty (br_inner r)"
      using at by (simp_all add: reader_at_def record_skip_def)
    have "trouble (br_stats (at_data width rest r)) = no_trouble" using calm by simp
    then show "trouble (br_stats ?r) = zero_length_seen"
      unfolding no_trouble_counters
      by (simp add: record_skip_def trouble_def zero_length_seen_def update_channel_def)
  qed
qed

text \<open>Blocks, a frame of length zero, more blocks.\<close>

lemma zero_frame_between:
  assumes a: "delivers cfg crc32c bytes blks" and b: "delivers cfg crc32c bytes' blks'"
    and at: "reader_at cfg r" and pend: "pending (br_inner r) = bytes @ zero_frame channel width @ bytes'"
    and inner: "\<not> faulty (br_inner r)" and ok: "writable cfg channel dt width frame_crc"
    and calm: "trouble (br_stats r) = no_trouble"
  obtains r' where "items crc32c r = (map Inr (blks @ zero_length_item channel # blks'), r')"
    "trouble (br_stats r') = zero_length_seen"
proof -
  obtain r1 where r1: "resumes cfg r (zero_frame channel width @ bytes') r1"
      "items crc32c r = apfst ((@) (map Inr blks)) (items crc32c r1)"
    using items_prefix [OF a at pend] by blast
  obtain r2 where r2: "next_block crc32c r1 = (Some (Inr (zero_length_item channel)), r2)" "reader_at cfg r2"
      "pending (br_inner r2) = bytes'" "\<not> faulty (br_inner r2)" "trouble (br_stats r2) = zero_length_seen"
    using zero_frame_skipped [OF _ _ ok, of r1 bytes' crc32c] r1(1) inner calm by (auto simp: resumes_def)
  obtain r' where r': "items crc32c r2 = (map Inr blks', r')" "trouble (br_stats r') = trouble (br_stats r2)"
    using items_delivered [OF b r2(2-4)] by blast
  have "items crc32c r1 = (Inr (zero_length_item channel) # map Inr blks', r')"
    using r2(1) r'(1) by (simp add: items.simps [of crc32c r1])
  then show ?thesis using that [of r'] r1(2) r'(2) r2(5) by simp
qed

section \<open>The order of blocks\<close>

text \<open>The blocks of one channel, in stream order.\<close>

definition kinds_of :: "u16 \<Rightarrow> block list \<Rightarrow> block_kind list" where
  "kinds_of i blks = map blk_kind (filter (\<lambda>blk. blk_channel_index blk = i) blks)"

lemma kinds_of_simps [simp]:
  "kinds_of i [] = []"
  "kinds_of i (blk # blks) = (if blk_channel_index blk = i then [blk_kind blk] else []) @ kinds_of i blks"
  by (simp_all add: kinds_of_def)

text \<open>The block loop treats every channel on its own.\<close>

definition fed_alone :: "channel_builder option \<Rightarrow> block_kind list \<Rightarrow> channel_builder option \<Rightarrow> bool" where
  "fed_alone b kinds b' \<longleftrightarrow>
     (case b of None \<Rightarrow> kinds = [] \<and> b' = None | Some c \<Rightarrow> \<exists>c'. replay c kinds = Inr c' \<and> b' = Some c')"

lemma fed_alone_step:
  "builders (blk_channel_index blk) = Some b \<Longrightarrow> apply_block b (blk_kind blk) = Inr b1 \<Longrightarrow>
   fed_alone (builders i) (kinds_of i (blk # blks)) c
     \<longleftrightarrow> fed_alone ((builders(blk_channel_index blk \<mapsto> b1)) i) (kinds_of i blks) c"
  by (cases "blk_channel_index blk = i") (simp_all add: fed_alone_def)

lemma feed_each:
  "exec_all feed_block builders (map Inr blks) = Inr builders'
     \<longleftrightarrow> (\<forall>i. fed_alone (builders i) (kinds_of i blks) (builders' i))"
proof (induction blks arbitrary: builders)
  case Nil
  have "fed_alone (builders i) [] (builders' i) \<longleftrightarrow> builders i = builders' i" for i
    by (auto simp: fed_alone_def split: option.split)
  then show ?case by (simp add: fun_eq_iff)
next
  case (Cons blk blks)
  let ?i = "blk_channel_index blk"
  show ?case
  proof (cases "builders ?i")
    case None
    then have "\<not> fed_alone (builders ?i) (kinds_of ?i (blk # blks)) (builders' ?i)" by (simp add: fed_alone_def)
    then have "\<not> (\<forall>i. fed_alone (builders i) (kinds_of i (blk # blks)) (builders' i))" by metis
    then show ?thesis using None by (simp add: feed_block_def del: kinds_of_simps)
  next
    case (Some b)
    show ?thesis
    proof (cases "apply_block b (blk_kind blk)")
      case (Inl e)
      then have "\<not> fed_alone (builders ?i) (kinds_of ?i (blk # blks)) (builders' ?i)"
        using Some by (simp add: fed_alone_def)
      then have "\<not> (\<forall>i. fed_alone (builders i) (kinds_of i (blk # blks)) (builders' i))" by metis
      then show ?thesis using Some Inl by (simp add: feed_block_def del: kinds_of_simps)
    next
      case (Inr b1)
      have "exec_all feed_block builders (map Inr (blk # blks))
          = exec_all feed_block (builders(?i \<mapsto> b1)) (map Inr blks)"
        using Some Inr by (simp add: feed_block_def)
      then show ?thesis
        by (simp only: Cons.IH fed_alone_step [where builders = builders and blk = blk, OF Some Inr])
    qed
  qed
qed

text \<open>
  C5. Only the order of a channel's own blocks counts. For any metablock and any two streams of blocks, of
  all types, skipped ones included, in which every channel has the same blocks in the same order,
  \<open>build_channels\<close> accepts both or neither, and gives the same channels and lookup tables, however the
  blocks of different channels are interleaved.
\<close>

theorem interleaving_is_irrelevant:
  assumes "\<forall>i. kinds_of i blks = kinds_of i blks'"
  shows "build_channels meta (map Inr blks) = Inr out \<longleftrightarrow> build_channels meta (map Inr blks') = Inr out"
proof -
  have "exec_all feed_block builders (map Inr blks) = Inr builders'
      \<longleftrightarrow> exec_all feed_block builders (map Inr blks') = Inr builders'" for builders builders'
    using assms by (simp add: feed_each)
  then show ?thesis by (simp add: build_channels_def)
qed

theorem interleaving_is_irrelevant_witness:
  "\<exists>out.
     build_channels \<lparr>mb_file_info = file_info_default, mb_channels = [demo_channel 1 ''x'' DtInt8, demo_channel 2 ''y'' DtInt8],
         mb_infos = []\<rparr>
       (map Inr [\<lparr>blk_channel_index = 1, blk_kind = AbsTimestampData (TpInt8 [(5, 7)])\<rparr>,
                 \<lparr>blk_channel_index = 2, blk_kind = AbsTimestampData (TpInt8 [(9, 3)])\<rparr>]) = Inr out
     \<and> build_channels \<lparr>mb_file_info = file_info_default, mb_channels = [demo_channel 1 ''x'' DtInt8, demo_channel 2 ''y'' DtInt8],
         mb_infos = []\<rparr>
       (map Inr [\<lparr>blk_channel_index = 2, blk_kind = AbsTimestampData (TpInt8 [(9, 3)])\<rparr>,
                 \<lparr>blk_channel_index = 1, blk_kind = AbsTimestampData (TpInt8 [(5, 7)])\<rparr>]) = Inr out"
proof -
  let ?x = "\<lparr>blk_channel_index = 1, blk_kind = AbsTimestampData (TpInt8 [(5, 7)])\<rparr>"
  let ?y = "\<lparr>blk_channel_index = 2, blk_kind = AbsTimestampData (TpInt8 [(9, 3)])\<rparr>"
  let ?meta = "\<lparr>mb_file_info = file_info_default, mb_channels = [demo_channel 1 ''x'' DtInt8, demo_channel 2 ''y'' DtInt8],
         mb_infos = []\<rparr>"
  have "\<exists>bs. exec_all feed_block (foldl insert_builder Map.empty (mb_channels ?meta)) (map Inr [?x, ?y]) = Inr bs"
    by (simp add: feed_block_def insert_builder_def builder_for_def demo_channel_def
          initial_state_for_def apply_abs_timestamped_def expect_data_type_def init_arm_def split_pairs_def)
  then obtain out where "build_channels ?meta (map Inr [?x, ?y]) = Inr out"
    by (metis build_channels_def map_ok_simps(2))
  moreover have "\<forall>i. kinds_of i [?x, ?y] = kinds_of i [?y, ?x]" by simp
  ultimately show ?thesis using interleaving_is_irrelevant by blast
qed

section \<open>Damaged files\<close>



end
