(* ===== verification/Malformed.thy ===== *)
theory Malformed
  imports Interleaved CopyTool
begin

text \<open>
  The generator \<open>examples/gen_malformed_refs.rs\<close>: two files from the writer, spliced around a frame of length
  zero that no writer emits, saved, loaded and checked. A panic is the error \<open>Panic\<close>; printed lines are left
  out. The two files are written one after the other, at the times \<open>now_a\<close> and \<open>now_b\<close>.
\<close>

section \<open>The donor files\<close>

definition f64_half :: f64 where "f64_half = 0x3FE0000000000000"

definition sample_at :: "nat \<Rightarrow> i64 \<times> f64" where
  "sample_at i = (1000000 + of_nat i * 1000, f64_mul (f64_of_nat i) f64_half)"

definition donor_def :: channel_def where
  "donor_def = channel_def_default\<lparr>cd_name := ''Sensor/Double'', cd_data_type := DtDouble\<rparr>"

definition donor_file :: "'n externals \<Rightarrow> string \<Rightarrow> nat \<Rightarrow> nat \<Rightarrow> osf_error + byte list" where
  "donor_file ex now first count =
     (let b = set_creator ''osf-core:gen_malformed_refs'' writer_builder_new;
          samples = map sample_at [first..<first + count]
      in and_then (expect ''add channel'' (add_channel donor_def b)) (\<lambda>(idx, b1).
         and_then (expect ''add samples''
             (add_timestamped_samples idx (map fst samples) (NvDouble (map snd samples)) b1)) (\<lambda>b2.
           expect ''write to buffer'' (write_to (ex_serde_json ex) (ex_crc32c ex) now b2))))"

text \<open>The slice of the metablock panics when the file is too short for it.\<close>

definition parse_header_and_metablock ::
  "'n externals \<Rightarrow> byte list \<Rightarrow> osf_error + (magic_header \<times> meta_block \<times> nat)"
where
  "parse_header_and_metablock ex bytes =
     (let (h, rest) = parse_magic_header (source bytes) in
      and_then (expect ''donor file has a valid magic header'' h) (\<lambda>hdr.
        (let metablock_start = length bytes - length (pending rest);
             metablock_end = metablock_start + mh_metablock_len hdr
         in and_then (ok_or (Panic ''range end index out of range'')
                        (slice_at bytes metablock_start (mh_metablock_len hdr))) (\<lambda>body.
            and_then (expect ''donor file metablock parses'' (parse_metablock ex (mh_version hdr) body)) (\<lambda>meta.
              Inr (hdr, meta, metablock_end))))))"

section \<open>The splice\<close>

text \<open>The comparison of \<open>f64\<close>, and of metablocks: the positions of the file information are floats.\<close>

definition f64_eq :: "f64 \<Rightarrow> f64 \<Rightarrow> bool" where
  "f64_eq x y \<longleftrightarrow> \<not> f64_is_nan x \<and> \<not> f64_is_nan y \<and> (x = y \<or> f64_is_zero x \<and> f64_is_zero y)"

definition same_position :: "f64 option \<Rightarrow> f64 option \<Rightarrow> bool" where
  "same_position x y = (case (x, y) of (None, None) \<Rightarrow> True | (Some a, Some b) \<Rightarrow> f64_eq a b | _ \<Rightarrow> False)"

definition same_file_info :: "file_info \<Rightarrow> file_info \<Rightarrow> bool" where
  "same_file_info a b \<longleftrightarrow>
     fi_version a = fi_version b \<and> fi_created_utc a = fi_created_utc b \<and> fi_creator a = fi_creator b
     \<and> same_position (fi_created_at_latitude a) (fi_created_at_latitude b)
     \<and> same_position (fi_created_at_longitude a) (fi_created_at_longitude b)
     \<and> same_position (fi_created_at_altitude a) (fi_created_at_altitude b)
     \<and> fi_reason a = fi_reason b \<and> fi_namespace_sep a = fi_namespace_sep b \<and> fi_tag a = fi_tag b
     \<and> fi_comment a = fi_comment b"

definition same_metablock :: "meta_block \<Rightarrow> meta_block \<Rightarrow> bool" where
  "same_metablock a b \<longleftrightarrow>
     same_file_info (mb_file_info a) (mb_file_info b) \<and> mb_channels a = mb_channels b \<and> mb_infos a = mb_infos b"

definition spliced_file :: "'n externals \<Rightarrow> string \<Rightarrow> string \<Rightarrow> osf_error + byte list" where
  "spliced_file ex now_a now_b =
     and_then (donor_file ex now_a 0 5) (\<lambda>donor_a.
     and_then (donor_file ex now_b 5 5) (\<lambda>donor_b.
     and_then (parse_header_and_metablock ex donor_a) (\<lambda>(header_a, meta_a, _).
     and_then (parse_header_and_metablock ex donor_b) (\<lambda>(header_b, meta_b, block_start_b).
     and_then (assert_that (mh_version header_a = mh_version header_b) ''donor files disagree on OSF version'') (\<lambda>_.
     and_then (assert_that (mh_metablock_len header_a = mh_metablock_len header_b)
                 ''donor files' metablocks differ in length - they must declare the same single channel'') (\<lambda>_.
     (let meta_b_masked = meta_b\<lparr>mb_file_info := (mb_file_info meta_b)
            \<lparr>fi_created_utc := fi_created_utc (mb_file_info meta_a)\<rparr>\<rparr> in
      and_then (assert_that (same_metablock meta_a meta_b_masked)
                  ''donor files' metablocks diverge beyond created_utc - donor_file() must write an identical channel definition for both halves'') (\<lambda>_.
      and_then (index_at (mb_channels meta_a) 0) (\<lambda>channel.
      and_then (assert_that (mc_size_of_length_value channel = 2)
                  (''the bad frame assumes sizeoflengthvalue = 2, but donor_file() now writes ''
                   @ show_nat (unat (mc_size_of_length_value channel)) @ '' - update the frame construction below'')) (\<lambda>_.
        Inr (donor_a @ u16_le 0 @ u16_le 0 @ drop block_start_b donor_b)))))))))))"

section \<open>The check of the file\<close>

definition expected_samples :: "(i64 \<times> f64) list" where
  "expected_samples = map sample_at [0..<10]"

definition same_samples :: "(i64 \<times> f64) list \<Rightarrow> (i64 \<times> f64) list \<Rightarrow> bool" where
  "same_samples = list_all2 (\<lambda>(t, v) (t', v'). t = t' \<and> f64_eq v v')"

definition assert_counts :: "reader_stats \<Rightarrow> osf_error + unit" where
  "assert_counts stats =
     and_then (assert_that (rs_blocks_total stats = 3) ''expected 2 real blocks + 1 bad frame'') (\<lambda>_.
     and_then (assert_that (rs_blocks_read stats = 2) ''expected exactly the two donor blocks'') (\<lambda>_.
     and_then (assert_that (rs_blocks_skipped_zero_length stats = 1) ''expected exactly one zero-length skip'') (\<lambda>_.
     and_then (assert_that (rs_blocks_skipped_unsupported stats = 0) ''assertion failed'') (\<lambda>_.
     and_then (assert_that (rs_blocks_skipped_deprecated_type stats = 0) ''assertion failed'') (\<lambda>_.
     and_then (assert_that (rs_blocks_skipped_reserved_type stats = 0) ''assertion failed'') (\<lambda>_.
     and_then (assert_that (rs_blocks_truncated stats = 0) ''assertion failed'') (\<lambda>_.
     and_then (assert_that (rs_blocks_crc_failed stats = 0) ''assertion failed'') (\<lambda>_.
     and_then (assert_that (rs_blocks_signature_skipped stats = 0) ''assertion failed'') (\<lambda>_.
       assert_that (\<not> rs_trailer_seen stats) ''donor file unexpectedly carries a trailer block'')))))))))"

definition assert_spliced :: "data_manager \<Rightarrow> osf_error + unit" where
  "assert_spliced mgr =
     and_then (dm_channel mgr ''Sensor/Double'') (\<lambda>found.
       case found of
         None \<Rightarrow> Inl (Panic ''channel present'')
       | Some (Timestamped tc) \<Rightarrow>
           and_then (expect ''channel holds double samples'' (tc_as_doubles_flat tc)) (\<lambda>decoded.
           and_then (assert_that (same_samples decoded expected_samples)
                       ''decoded samples do not match the expected splice'') (\<lambda>_.
             assert_counts (dm_stats mgr)))
       | Some _ \<Rightarrow> Inl (Panic ''Sensor/Double unexpectedly not a timestamped channel''))"

section \<open>The program\<close>

definition corpus_path :: string where
  "corpus_path = ''osf5_zero_length_block.osf''"

definition write_zero_length_block :: "'n externals \<Rightarrow> nat \<Rightarrow> string \<Rightarrow> string \<Rightarrow> program" where
  "write_zero_length_block ex fill now_a now_b =
     with_value (spliced_file ex now_a now_b) (\<lambda>out d.
       if corpus_path \<in> set (dk_unwritable d) then (Inl (Panicked ''write corpus file''), d)
       else (let d' = d\<lparr>dk_files := (dk_files d)(corpus_path \<mapsto> out)\<rparr> in
             with_value (expect ''corpus file loads'' (load_path ex fill d' corpus_path)) (\<lambda>mgr.
             with_value (assert_spliced mgr) (\<lambda>_ d. (Inr (), d))) d'))"

definition gen_malformed_refs :: "'n externals \<Rightarrow> nat \<Rightarrow> string \<Rightarrow> string \<Rightarrow> program" where
  "gen_malformed_refs ex fill now_a now_b d =
     (if \<not> dk_directory d then (Inl (Panicked ''create malformed dir''), d)
      else write_zero_length_block ex fill now_a now_b d)"

end
