(* ===== verification/MalformedLaws.thy ===== *)
theory MalformedLaws
  imports Malformed
begin

text \<open>
  The spliced file of \<open>gen_malformed_refs.rs\<close> passes the checks the program makes of it: one block of
  samples, the frame of length zero, one block of samples.
\<close>

section \<open>One donor file\<close>

definition donor_samples :: "nat \<Rightarrow> (i64 \<times> f64) list" where
  "donor_samples first = map sample_at [first..<first + 5]"

definition donor_data :: "nat \<Rightarrow> channel_data" where
  "donor_data first = CdTimestamped (map fst (donor_samples first)) (NvDouble (map snd (donor_samples first)))"

definition donor_blk :: "nat \<Rightarrow> block" where
  "donor_blk first = \<lparr>blk_channel_index = 0, blk_kind = AbsTimestampData (TpDouble (donor_samples first))\<rparr>"

definition donor_info :: file_info_draft where
  "donor_info = file_info_draft_default\<lparr>fd_creator := Some ''osf-core:gen_malformed_refs''\<rparr>"

definition donor_meta :: "string \<Rightarrow> meta_block" where
  "donor_meta now =
     \<lparr>mb_file_info = file_info_default\<lparr>fi_version := 5, fi_created_utc := Some now,
        fi_creator := Some ''osf-core:gen_malformed_refs'', fi_tag := Some DEFAULT_TAG\<rparr>,
      mb_channels = [meta_channel_of 0 donor_def], mb_infos = []\<rparr>"

lemma donor_def_fields [simp]:
  "cd_name donor_def = ''Sensor/Double''" "cd_data_type donor_def = DtDouble" "cd_size_of_length_value donor_def = 2"
  "cd_channel_type donor_def = CtScalar" "def_wf donor_def"
  by (simp_all add: donor_def_def channel_def_default_def def_wf_def)

lemma length_donor_samples [simp]: "length (donor_samples first) = 5"
  by (simp add: donor_samples_def)

lemma donor_described:
  "distinct (map mc_index (mb_channels (donor_meta now)))"
  "\<forall>m \<in> set (mb_channels (donor_meta now)). \<not> is_unsupported (mc_data_type m)"
  by (simp_all add: donor_meta_def meta_channel_of_def)

lemma donor_writable: "writable (config_for IpNone (donor_meta now)) 0 DtDouble 2 False"
  using new_reader_at(5) [OF donor_described(1), of "meta_channel_of 0 donor_def" now IpNone]
  by (simp add: writable_def donor_meta_def meta_channel_of_def config_for_def
      TRAILER_CHANNEL_INDEX_def SIGNATURE_CHANNEL_INDEX_def)

text \<open>Samples that fit one chunk are written as one block.\<close>

lemma one_chunk_written:
  assumes width: "width = 2 \<or> width = 4" and size: "numeric_byte_size (nv_data_type nv) = Inr n"
    and m: "m = (max_block_payload_reserved width frame_crc - 5) div (8 + n)"
    and len: "0 < nv_len nv" "nv_len nv \<le> m" "length ts = nv_len nv"
  obtains bs where "abs_loop crc32c channel width ts nv m frame_crc 0 (nv_len nv) = Inr bs"
    "\<And>cfg. writable cfg channel (nv_data_type nv) width frame_crc \<Longrightarrow>
       delivers cfg crc32c bs [\<lparr>blk_channel_index = channel, blk_kind = AbsTimestampData (tp_of ts nv 0 (nv_len nv))\<rparr>]"
proof -
  let ?k = "nv_len nv"
  have le: "0 + ?k \<le> length ts" "0 + ?k \<le> nv_len nv" using len(3) by simp_all
  obtain bs where bs: "abs_loop crc32c channel width ts nv m frame_crc 0 ?k = Inr bs"
    using abs_loop_total [OF width size m refl len(3) [symmetric]] by blast
  have chunk: "min (?k - 0) (max m 1) = ?k" using len(1,2) by simp
  have rest: "abs_loop crc32c channel width ts nv m frame_crc (0 + ?k) ?k = Inr []"
    by (simp add: abs_loop.simps)
  from bs obtain samples where
      samples: "write_timestamped_numeric_run ts nv 0 ?k = Inr samples"
      "write_block crc32c channel width
         (write_u8 (CONTROL_ABS_TIMESTAMP OR MULTI_SAMPLE_FLAG) @ write_u32 (of_nat ?k) @ samples) frame_crc = Inr bs"
    unfolding abs_loop.simps [of crc32c channel width ts nv m frame_crc 0 ?k] Let_def chunk rest
    using len(1) by (auto simp: and_then_eq_Inr_iff)
  show ?thesis
    by (rule that [OF bs]) (rule delivers_one [OF abs_block_yields [OF le samples]])
qed

lemma donor_data_written:
  obtains data where "write_data_blocks crc32c [donor_def] [donor_data first] False = Inr data"
    "delivers (config_for IpNone (donor_meta now)) crc32c data [donor_blk first]"
proof -
  let ?ts = "map fst (donor_samples first)" and ?nv = "NvDouble (map snd (donor_samples first))"
  have width: "(2 :: u8) = 2 \<or> (2 :: u8) = 4" by simp
  have "nv_len ?nv \<le> (max_block_payload_reserved 2 False - 5) div (8 + 8)"
    by (simp add: max_block_payload_reserved_def max_block_payload_def MAX_BLOCK_PAYLOAD_U16_def crc_reserve_def)
  then obtain bs where bs: "abs_loop crc32c 0 2 ?ts ?nv ((max_block_payload_reserved 2 False - 5) div (8 + 8)) False 0 (nv_len ?nv) = Inr bs"
    "\<And>cfg. writable cfg 0 DtDouble 2 False \<Longrightarrow>
       delivers cfg crc32c bs [\<lparr>blk_channel_index = 0, blk_kind = AbsTimestampData (tp_of ?ts ?nv 0 (nv_len ?nv))\<rparr>]"
    using one_chunk_written [OF width _ refl, of ?nv 8 False ?ts crc32c 0] by auto
  have "writable (config_for IpNone (donor_meta now)) 0 DtDouble 2 False"
    by (rule donor_writable)
  then have "delivers (config_for IpNone (donor_meta now)) crc32c bs [donor_blk first]"
    using bs(2) by (simp add: donor_blk_def zip_map_fst_snd)
  moreover have "write_data_blocks crc32c [donor_def] [donor_data first] False = Inr bs"
    using bs(1)
    by (simp add: write_data_blocks_def index_at_def write_channel_def donor_data_def write_abs_timestamp_numeric_def Let_def)
  ultimately show ?thesis using that by blast
qed

text \<open>The metablock: what the writer prints for the one channel.\<close>

definition donor_document :: "'n externals \<Rightarrow> string \<Rightarrow> 'n json" where
  "donor_document ex now = metablock_document (ex_serde_json ex) now donor_info [donor_def]"

lemma donor_printed:
  fixes ex :: "'n externals"
  assumes exact: "exact_integers (ex_serde_json ex)"
    and prints: "prints_faithfully (ex_serde_json ex) (donor_document ex now)"
  obtains body where "sj_to_vec_pretty (ex_serde_json ex) (donor_document ex now) = Some body"
    "build_metablock_json (ex_serde_json ex) now donor_info [donor_def] = Inr body" "length body < 2 ^ 63"
    "parse_metablock_json (ex_serde_json ex) body = Inr (donor_meta now)"
proof -
  have wf: "\<forall>d \<in> set [donor_def]. def_wf d" by simp
  from parse_printed_metablock [OF exact prints [unfolded donor_document_def] wf]
  obtain body fi where m: "build_metablock_json (ex_serde_json ex) now donor_info [donor_def] = Inr body"
      "length body < 2 ^ 63"
      "parse_metablock_json (ex_serde_json ex) body = Inr \<lparr>mb_file_info = fi\<lparr>fi_version := 5\<rparr>,
         mb_channels = map (\<lambda>(i, def). meta_channel_of (of_nat i) def) (List.enumerate 0 [donor_def]), mb_infos = []\<rparr>"
      "fi_created_utc fi = Some now"
      "fi_creator fi = Some (case fd_creator donor_info of Some s \<Rightarrow> s | None \<Rightarrow> DEFAULT_CREATOR)"
      "fi_tag fi = Some (case fd_tag donor_info of Some s \<Rightarrow> s | None \<Rightarrow> DEFAULT_TAG)"
      "fi_reason fi = fd_reason donor_info" "fi_namespace_sep fi = fd_namespace_sep donor_info"
      "fi_comment fi = fd_comment donor_info"
      "fd_created_at_latitude donor_info = None \<longrightarrow> fi_created_at_latitude fi = None"
      "fd_created_at_longitude donor_info = None \<longrightarrow> fi_created_at_longitude fi = None"
      "fd_created_at_altitude donor_info = None \<longrightarrow> fi_created_at_altitude fi = None" .
  have "fi\<lparr>fi_version := 5\<rparr> = mb_file_info (donor_meta now)"
    using m(4-) by (simp add: donor_meta_def donor_info_def file_info_draft_default_def file_info_default_def)
  then have "parse_metablock_json (ex_serde_json ex) body = Inr (donor_meta now)"
    using m(3) by (simp add: donor_meta_def)
  moreover have "sj_to_vec_pretty (ex_serde_json ex) (donor_document ex now) = Some body"
    using m(1) by (auto simp: build_metablock_json_def donor_document_def split: option.splits)
  ultimately show ?thesis using that m(1,2) by blast
qed

lemma donor_written:
  fixes ex :: "'n externals"
  assumes exact: "exact_integers (ex_serde_json ex)"
    and prints: "prints_faithfully (ex_serde_json ex) (donor_document ex now)"
  obtains body data where "sj_to_vec_pretty (ex_serde_json ex) (donor_document ex now) = Some body"
    "donor_file ex now first 5 = Inr (write_magic_header (length body) None @ body @ data)" "length body < 2 ^ 63"
    "parse_metablock_json (ex_serde_json ex) body = Inr (donor_meta now)"
    "delivers (config_for IpNone (donor_meta now)) (ex_crc32c ex) data [donor_blk first]"
proof -
  obtain body where body: "sj_to_vec_pretty (ex_serde_json ex) (donor_document ex now) = Some body"
    "build_metablock_json (ex_serde_json ex) now donor_info [donor_def] = Inr body" "length body < 2 ^ 63"
    "parse_metablock_json (ex_serde_json ex) body = Inr (donor_meta now)"
    using donor_printed [OF assms] .
  obtain data where data: "write_data_blocks (ex_crc32c ex) [donor_def] [donor_data first] False = Inr data"
    "delivers (config_for IpNone (donor_meta now)) (ex_crc32c ex) data [donor_blk first]"
    using donor_data_written .
  have bump: "autobump_size_of_length_value [donor_def] [donor_data first] False = Inr [donor_def]"
    by (simp add: autobump_size_of_length_value_def index_at_def bump_one_def crc_reserve_def donor_data_def
        MAX_BLOCK_PAYLOAD_U16_def)
  let ?b = "writer_builder_new\<lparr>wb_file_info := donor_info, wb_name_to_index := [''Sensor/Double'' \<mapsto> 0],
      wb_channels := [donor_def], wb_channel_data := [donor_data first]\<rparr>"
  have "write_to (ex_serde_json ex) (ex_crc32c ex) now ?b = Inr (write_magic_header (length body) None @ body @ data)"
    by (simp add: write_to_def writer_builder_new_def bump body(2) data(1))
  then have "donor_file ex now first 5 = Inr (write_magic_header (length body) None @ body @ data)"
    by (simp add: donor_file_def set_creator_def add_channel_def writer_builder_new_def add_timestamped_def
        append_timestamped_numeric_def channel_def_at_def update_data_def index_at_def donor_data_def donor_samples_def
        donor_info_def Let_def del: upt.simps)
  from that [OF body(1) this body(3,4) data(2)] show ?thesis .
qed

section \<open>The splice\<close>

lemma donor_parsed:
  fixes ex :: "'n externals"
  assumes "length body < 2 ^ 63" and "parse_metablock_json (ex_serde_json ex) body = Inr (donor_meta now)"
  shows "parse_header_and_metablock ex (write_magic_header (length body) None @ body @ data)
    = Inr (\<lparr>mh_version = Osf5, mh_metablock_len = length body, mh_integrity = IpNone, mh_metablock_crc = None\<rparr>,
           donor_meta now, length (write_magic_header (length body) None) + length body)"
proof -
  let ?bytes = "write_magic_header (length body) None @ body @ data"
  have "pending (source ?bytes) = ?bytes" by (simp add: source_def)
  moreover have "length body < 2 ^ 64" using assms(1) by simp
  ultimately have "parse_magic_header (source ?bytes)
      = (Inr \<lparr>mh_version = Osf5, mh_metablock_len = length body, mh_integrity = IpNone, mh_metablock_crc = None\<rparr>,
         (source ?bytes)\<lparr>pending := body @ data\<rparr>)"
    using parse_magic_header_write [of "length body" "source ?bytes" None "body @ data"] by simp
  then show ?thesis using assms(2) by (simp add: parse_header_and_metablock_def slice_at_def parse_metablock_def)
qed

lemma masked_donor:
  "same_metablock (donor_meta now_a) ((donor_meta now_b)\<lparr>mb_file_info := (mb_file_info (donor_meta now_b))
     \<lparr>fi_created_utc := fi_created_utc (mb_file_info (donor_meta now_a))\<rparr>\<rparr>)"
  by (simp add: donor_meta_def same_metablock_def same_file_info_def same_position_def file_info_default_def)

lemma same_donor_config: "config_for IpNone (donor_meta now_b) = config_for IpNone (donor_meta now_a)"
  by (simp add: config_for_def donor_meta_def meta_version_def block_reader_new_def file_info_default_def Let_def
      case_prod_unfold)

text \<open>Either the two metablocks have one length, and the file is spliced, or the program stops before it writes.\<close>

lemma spliced:
  fixes ex :: "'n externals"
  assumes exact: "exact_integers (ex_serde_json ex)"
    and prints: "prints_faithfully (ex_serde_json ex) (donor_document ex now_a)"
      "prints_faithfully (ex_serde_json ex) (donor_document ex now_b)"
  obtains body data data' where
    "spliced_file ex now_a now_b
       = (if map_option length (sj_to_vec_pretty (ex_serde_json ex) (donor_document ex now_a))
             = map_option length (sj_to_vec_pretty (ex_serde_json ex) (donor_document ex now_b))
          then Inr (write_magic_header (length body) None @ body @ data @ zero_frame 0 2 @ data')
          else Inl (Panic ''donor files' metablocks differ in length - they must declare the same single channel''))"
    "length body < 2 ^ 63" "parse_metablock_json (ex_serde_json ex) body = Inr (donor_meta now_a)"
    "delivers (config_for IpNone (donor_meta now_a)) (ex_crc32c ex) data [donor_blk 0]"
    "delivers (config_for IpNone (donor_meta now_a)) (ex_crc32c ex) data' [donor_blk 5]"
proof -
  obtain body data where a: "sj_to_vec_pretty (ex_serde_json ex) (donor_document ex now_a) = Some body"
    "donor_file ex now_a 0 5 = Inr (write_magic_header (length body) None @ body @ data)" "length body < 2 ^ 63"
    "parse_metablock_json (ex_serde_json ex) body = Inr (donor_meta now_a)"
    "delivers (config_for IpNone (donor_meta now_a)) (ex_crc32c ex) data [donor_blk 0]"
    using donor_written [OF exact prints(1)] .
  obtain body' data' where b: "sj_to_vec_pretty (ex_serde_json ex) (donor_document ex now_b) = Some body'"
    "donor_file ex now_b 5 5 = Inr (write_magic_header (length body') None @ body' @ data')" "length body' < 2 ^ 63"
    "parse_metablock_json (ex_serde_json ex) body' = Inr (donor_meta now_b)"
    "delivers (config_for IpNone (donor_meta now_b)) (ex_crc32c ex) data' [donor_blk 5]"
    using donor_written [OF exact prints(2)] .
  have channel: "index_at (mb_channels (donor_meta now_a)) 0 = Inr (meta_channel_of 0 donor_def)"
    by (simp add: donor_meta_def index_at_def)
  have frame: "zero_frame 0 2 = u16_le 0 @ u16_le 0" by code_simp
  have "spliced_file ex now_a now_b
       = (if length body = length body'
          then Inr (write_magic_header (length body) None @ body @ data @ zero_frame 0 2 @ data')
          else Inl (Panic ''donor files' metablocks differ in length - they must declare the same single channel''))"
    by (simp add: spliced_file_def a(2) b(2) donor_parsed [OF a(3,4)] donor_parsed [OF b(3,4)] assert_that_def
        masked_donor channel meta_channel_of_def frame)
  then show ?thesis
    using that [OF _ a(3,4,5) b(5) [unfolded same_donor_config [of now_b now_a]]] by (simp add: a(1) b(1))
qed

section \<open>The file passes its checks\<close>

definition spliced_log :: "(i64 \<times> sample) list" where
  "spliced_log = map (apsnd (NumSample \<circ> VrDouble)) expected_samples"

lemma expected_samples_split: "expected_samples = donor_samples 0 @ donor_samples 5"
  unfolding expected_samples_def donor_samples_def map_append [symmetric]
  by (rule arg_cong [where f = "map sample_at"]) (simp add: upt_conv_Cons)

text \<open>The expected values are numbers.\<close>

lemma sample_is_number: "\<not> f64_is_nan (snd (sample_at i))"
proof -
  have half: "\<not> f64_is_nan f64_half" "\<not> f64_is_inf f64_half" "\<not> f64_is_zero f64_half"
    by (simp_all add: f64_half_def f64_is_nan_def f64_is_inf_def f64_is_zero_def abs_bits_def inf_bits_def)
  moreover have "\<not> f64_is_nan (f64_of_nat i)" using f64_nonneg_of_nat [of i] by (simp add: f64_nonneg_def)
  moreover have "f64_is_inf x \<Longrightarrow> \<not> f64_is_zero x" for x
    by (simp add: f64_is_inf_def f64_is_zero_def inf_bits_def)
  ultimately show ?thesis by (simp add: sample_at_def f64_mul_def Let_def round_bits_le_inf)
qed

lemma expected_samples_same: "same_samples expected_samples expected_samples"
  using sample_is_number
  by (auto simp: same_samples_def list_all2_same expected_samples_def f64_eq_def simp del: upt.simps split: prod.splits)
     (metis snd_conv)

lemma spliced_channel_ok:
  assumes "dm_channel m ''Sensor/Double'' = Inr (Some c)" and "channel_shape c" and "\<not> is_equidistant c"
    and "channel_data_type c = DtDouble" and "channel_log c = Inr spliced_log"
    and "trouble (dm_stats m) = zero_length_seen" and "rs_blocks_read (dm_stats m) = 2" and "rs_blocks_total (dm_stats m) = 3"
  shows "assert_spliced m = Inr ()"
proof (cases c)
  case (Timestamped t)
  then obtain v where v: "tc_as_doubles_flat t = Inr v" "channel_log c = Inr (map (apsnd (NumSample \<circ> VrDouble)) v)"
    using tc_flat_pairs [OF assms(2) [unfolded Timestamped] selectors(11)] assms(4)
    by (auto simp: flat_pairs_def tc_as_doubles_flat_def)
  have "inj (apsnd (NumSample \<circ> VrDouble) :: i64 \<times> f64 \<Rightarrow> i64 \<times> sample)"
    by (auto simp: inj_on_def)
  moreover have "map (apsnd (NumSample \<circ> VrDouble)) v = map (apsnd (NumSample \<circ> VrDouble)) expected_samples"
    using v(2) assms(5) by (simp add: spliced_log_def)
  ultimately have "v = expected_samples" by (simp only: inj_map_eq_map)
  moreover have "assert_counts (dm_stats m) = Inr ()"
    using assms(6-8) by (simp add: assert_counts_def assert_that_def trouble_def zero_length_seen_def)
  ultimately show ?thesis
    using v(1) Timestamped by (simp add: assert_spliced_def assms(1) assert_that_def expected_samples_same)
next
  case (VariableChannel v)
  then show ?thesis using assms(2,4) by (simp add: channel_shape_def)
qed (use assms(3) in \<open>simp add: is_equidistant_def\<close>)

lemma spliced_loads:
  fixes ex :: "'n externals"
  assumes body: "length body < 2 ^ 63" "parse_metablock_json (ex_serde_json ex) body = Inr (donor_meta now)"
    and data: "delivers (config_for IpNone (donor_meta now)) (ex_crc32c ex) data [donor_blk 0]"
      "delivers (config_for IpNone (donor_meta now)) (ex_crc32c ex) data' [donor_blk 5]"
  obtains m where
    "load_from_file ex fill (source (write_magic_header (length body) None @ body @ data @ zero_frame 0 2 @ data')) file_size = Inr m"
    "assert_spliced m = Inr ()" "map channel_log (dm_channels m) = [Inr spliced_log]"
proof -
  let ?s = "source (write_magic_header (length body) None @ body @ data @ zero_frame 0 2 @ data')"
  let ?meta = "donor_meta now" and ?blks = "[donor_blk 0, zero_length_item 0, donor_blk 5]"
  have pend: "pending ?s = write_magic_header (length body) None @ body @ (data @ zero_frame 0 2 @ data')"
    by (simp add: source_def)
  have opened: "open_metablock ex ?s = Inr (\<lparr>mh_version = Osf5, mh_metablock_len = length body, mh_integrity = IpNone,
        mh_metablock_crc = None\<rparr>, ?meta, ?s\<lparr>pending := body @ data @ zero_frame 0 2 @ data'\<rparr>,
        source (data @ zero_frame 0 2 @ data'))"
    using open_metablock_written [OF body(1) pend _ body(2)] by (simp add: source_def)
  have plain: "detect_and_wrap fill ?s = Inr (Plain ?s)" by (rule written_is_plain [OF pend])
  note new = new_reader_at(1-4) [OF donor_described(1), where profile = IpNone and file_size = file_size]
  obtain r' where r': "items (ex_crc32c ex) (sized file_size (with_integrity IpNone
        (block_reader_new (source (data @ zero_frame 0 2 @ data')) ?meta))) = (map Inr ?blks, r')"
      "trouble (br_stats r') = zero_length_seen"
    using zero_frame_between [OF data new(1-3) donor_writable new(4)] by auto
  have typed: "\<forall>blk \<in> set ?blks. \<exists>m \<in> set (mb_channels ?meta). blk_channel_index blk = mc_index m
      \<and> timestamped_kind (mc_data_type m) (blk_kind blk)"
    by (simp add: donor_meta_def meta_channel_of_def donor_blk_def zero_length_item_def)
  obtain m where m: "load_from_file ex fill ?s file_size = Inr m"
    and view: "map (\<lambda>c. (channel_index c, channel_name c, channel_data_type c, channel_log c)) (dm_channels m)
       = map (\<lambda>c. (mc_index c, mc_name c, mc_data_type c, Inr (stream_log (mc_index c) ?blks))) (mb_channels ?meta)"
    and stamped: "\<forall>c \<in> set (dm_channels m). channel_log c = Inr [] \<or> \<not> is_equidistant c"
    and counts: "trouble (dm_stats m) = trouble (br_stats r')"
      "rs_blocks_read (dm_stats m) = length (filter (\<lambda>blk. \<not> is_skipped (blk_kind blk)) ?blks)"
      "rs_blocks_total (dm_stats m) = length ?blks"
    using stream_loads [OF plain opened donor_described typed, of file_size r'] r'(1) by auto
  have log: "stream_log 0 ?blks = spliced_log"
    by (simp add: donor_blk_def zero_length_item_def spliced_log_def expected_samples_split)
  then obtain c where c: "dm_channels m = [c]" "channel_name c = ''Sensor/Double''" "channel_data_type c = DtDouble"
      "channel_log c = Inr spliced_log"
    using view by (auto simp: donor_meta_def meta_channel_of_def map_eq_Cons_conv)
  obtain st where st: "load_from_stream_with_size ex st file_size = Inr m" using file_streamed [OF m] .
  have found: "dm_channel m ''Sensor/Double'' = Inr (Some c)" using streamed_lookups [OF st] c by simp
  have shape: "channel_shape c" using streamed_shape [OF st] c by simp
  have "spliced_log \<noteq> []" by (simp add: spliced_log_def expected_samples_def)
  then have "\<not> is_equidistant c" using stamped c by auto
  then have "assert_spliced m = Inr ()"
    using spliced_channel_ok [OF found shape _ c(3,4)] counts r'(2) by (simp add: donor_blk_def zero_length_item_def)
  then show ?thesis using that m c by simp
qed

text \<open>The spliced file exists when the two metablocks have one length, loads, and passes the checks.\<close>

lemma spliced_outcome:
  fixes ex :: "'n externals"
  assumes "exact_integers (ex_serde_json ex)"
    and "\<forall>now \<in> {now_a, now_b}. prints_faithfully (ex_serde_json ex) (donor_document ex now)"
  obtains (differ)
      "map_option length (sj_to_vec_pretty (ex_serde_json ex) (donor_document ex now_a))
         \<noteq> map_option length (sj_to_vec_pretty (ex_serde_json ex) (donor_document ex now_b))"
      "spliced_file ex now_a now_b
         = Inl (Panic ''donor files' metablocks differ in length - they must declare the same single channel'')"
  | (same) out m m' where
      "map_option length (sj_to_vec_pretty (ex_serde_json ex) (donor_document ex now_a))
         = map_option length (sj_to_vec_pretty (ex_serde_json ex) (donor_document ex now_b))"
      "spliced_file ex now_a now_b = Inr out"
      "load_from_file ex fill (source out) (Some (length out)) = Inr m" "assert_spliced m = Inr ()"
      "load_from_file ex fill' (source out) file_size = Inr m'"
      "map channel_log (dm_channels m') = [Inr (map (\<lambda>i. (fst (sample_at i), NumSample (VrDouble (snd (sample_at i))))) [0..<10])]"
proof -
  obtain body data data' where s: "spliced_file ex now_a now_b
       = (if map_option length (sj_to_vec_pretty (ex_serde_json ex) (donor_document ex now_a))
             = map_option length (sj_to_vec_pretty (ex_serde_json ex) (donor_document ex now_b))
          then Inr (write_magic_header (length body) None @ body @ data @ zero_frame 0 2 @ data')
          else Inl (Panic ''donor files' metablocks differ in length - they must declare the same single channel''))"
    and parts: "length body < 2 ^ 63" "parse_metablock_json (ex_serde_json ex) body = Inr (donor_meta now_a)"
      "delivers (config_for IpNone (donor_meta now_a)) (ex_crc32c ex) data [donor_blk 0]"
      "delivers (config_for IpNone (donor_meta now_a)) (ex_crc32c ex) data' [donor_blk 5]"
    using spliced [OF assms(1)] assms(2) by blast
  let ?out = "write_magic_header (length body) None @ body @ data @ zero_frame 0 2 @ data'"
  obtain m where m: "load_from_file ex fill (source ?out) (Some (length ?out)) = Inr m" "assert_spliced m = Inr ()"
    using spliced_loads [OF parts, of fill "Some (length ?out)"] .
  obtain m' where m': "load_from_file ex fill' (source ?out) file_size = Inr m'" "map channel_log (dm_channels m') = [Inr spliced_log]"
    using spliced_loads [OF parts, of fill' file_size] .
  have log: "spliced_log = map (\<lambda>i. (fst (sample_at i), NumSample (VrDouble (snd (sample_at i))))) [0..<10]"
    by (simp add: spliced_log_def expected_samples_def apsnd_def map_prod_def case_prod_unfold comp_def del: upt.simps)
  show thesis
  proof (cases "map_option length (sj_to_vec_pretty (ex_serde_json ex) (donor_document ex now_a))
      = map_option length (sj_to_vec_pretty (ex_serde_json ex) (donor_document ex now_b))")
    case True
    then show thesis using s by (intro same [OF True _ m m' [unfolded log]]) simp
  next
    case False
    then show thesis using s by (intro differ) simp_all
  qed
qed

text \<open>
  C14. The generator of the malformed file succeeds, or tells what stopped it. Take a JSON library that keeps integers exact and
  parses the two metablocks it prints for the donor files. Without the target directory the program panics, and
  when the two metablocks differ in length it panics at its guard; the same when the file cannot be written:
  the disk is then as it was. Otherwise it saves a file, and nothing else on the disk is touched, in which any
  loader finds one channel with the ten samples in order, none lost at the frame no writer emits. The program
  ends normally, this file having passed every check it makes (two blocks, one frame of length zero, no other
  trouble), unless it may not read back what it has written, where it panics and leaves the file behind.
\<close>

theorem malformed_reference_checked:
  fixes ex :: "'n externals"
  assumes "exact_integers (ex_serde_json ex)"
    and "\<forall>now \<in> {now_a, now_b}. prints_faithfully (ex_serde_json ex) (donor_document ex now)"
  shows "if \<not> dk_directory d then gen_malformed_refs ex fill now_a now_b d = (Inl (Panicked ''create malformed dir''), d)
    else if map_option length (sj_to_vec_pretty (ex_serde_json ex) (donor_document ex now_a))
           \<noteq> map_option length (sj_to_vec_pretty (ex_serde_json ex) (donor_document ex now_b))
    then gen_malformed_refs ex fill now_a now_b d
       = (Inl (Panicked ''donor files' metablocks differ in length - they must declare the same single channel''), d)
    else if corpus_path \<in> set (dk_unwritable d)
    then gen_malformed_refs ex fill now_a now_b d = (Inl (Panicked ''write corpus file''), d)
    else \<exists>out m. gen_malformed_refs ex fill now_a now_b d
         = (if corpus_path \<in> set (dk_unreadable d) then Inl (Panicked ''corpus file loads'') else Inr (),
            d\<lparr>dk_files := (dk_files d)(corpus_path \<mapsto> out)\<rparr>)
       \<and> load_from_file ex fill' (source out) file_size = Inr m
       \<and> map channel_log (dm_channels m) = [Inr (map (\<lambda>i. (fst (sample_at i), NumSample (VrDouble (snd (sample_at i))))) [0..<10])]"
proof -
  note program = gen_malformed_refs_def write_zero_length_block_def with_value_def panicked_def
  show ?thesis
  proof (cases rule: spliced_outcome [OF assms, where fill = fill and fill' = fill' and file_size = file_size])
    case 1
    then show ?thesis by (simp only: if_True simp_thms) (simp add: program)
  next
    case (2 out m m')
    note same = 2
    let ?d = "d\<lparr>dk_files := (dk_files d)(corpus_path \<mapsto> out)\<rparr>"
    have load: "load_path ex fill ?d corpus_path
        = (if corpus_path \<in> set (dk_unreadable d) then Inl (Io OtherIo) else Inr m)"
      using same(3) by (simp add: load_path_def disk_read_def)
    have unread: "expect msg (Inl (Io OtherIo)) = Inl (Panic msg)" for msg by (simp add: expect_def)
    have runs: "gen_malformed_refs ex fill now_a now_b d =
        (if \<not> dk_directory d then (Inl (Panicked ''create malformed dir''), d)
         else if corpus_path \<in> set (dk_unwritable d) then (Inl (Panicked ''write corpus file''), d)
         else (if corpus_path \<in> set (dk_unreadable d) then Inl (Panicked ''corpus file loads'') else Inr (), ?d))"
      using load same(4)
      by (cases "corpus_path \<in> set (dk_unreadable d)")
         (simp_all only: program same(2) sum.case Let_def expect_Inr unread osf_error.case if_True if_False cong: if_cong)
    have loads: "\<exists>out' m. (if corpus_path \<in> set (dk_unreadable d) then Inl (Panicked ''corpus file loads'') else Inr (), ?d)
         = (if corpus_path \<in> set (dk_unreadable d) then Inl (Panicked ''corpus file loads'') else Inr (),
            d\<lparr>dk_files := (dk_files d)(corpus_path \<mapsto> out')\<rparr>)
       \<and> load_from_file ex fill' (source out') file_size = Inr m
       \<and> map channel_log (dm_channels m) = [Inr (map (\<lambda>i. (fst (sample_at i), NumSample (VrDouble (snd (sample_at i))))) [0..<10])]"
      using same(5,6) by (intro exI conjI) (rule refl)
    show ?thesis unfolding runs
      using loads by (cases "dk_directory d"; cases "corpus_path \<in> set (dk_unwritable d)";
          simp only: same(1) not_True_eq_False not_False_eq_True if_True if_False simp_thms)
  qed
qed

text \<open>Both files written at one time, to an empty disk.\<close>

theorem malformed_reference_checked_witness:
  "\<exists>out m. gen_malformed_refs
       (demo_externals (Some (metablock_document (demo_serde None) ''now'' donor_info [donor_def]))) 3 ''now'' ''now''
       \<lparr>dk_files = Map.empty, dk_unreadable = [], dk_unwritable = [], dk_directory = True\<rparr>
     = (Inr (), \<lparr>dk_files = [corpus_path \<mapsto> out], dk_unreadable = [], dk_unwritable = [], dk_directory = True\<rparr>)
     \<and> load_from_file (demo_externals (Some (metablock_document (demo_serde None) ''now'' donor_info [donor_def]))) 4
         (source out) None = Inr m
     \<and> length (dm_channels m) = 1"
proof -
  let ?ex = "demo_externals (Some (metablock_document (demo_serde None) ''now'' donor_info [donor_def]))"
  let ?d = "\<lparr>dk_files = Map.empty, dk_unreadable = [], dk_unwritable = [], dk_directory = True\<rparr>"
  have "exact_integers (ex_serde_json ?ex)" "\<forall>now \<in> {''now'', ''now''}. prints_faithfully (ex_serde_json ?ex) (donor_document ?ex now)"
    by (simp_all add: demo_externals_def demo_serde_exact donor_document_def demo_serde_prints)
  from malformed_reference_checked [OF this, of ?d 3 4 None]
  obtain out m where "gen_malformed_refs ?ex 3 ''now'' ''now'' ?d = (Inr (), ?d\<lparr>dk_files := (dk_files ?d)(corpus_path \<mapsto> out)\<rparr>)"
      "load_from_file ?ex 4 (source out) None = Inr m" and logs: "length (map channel_log (dm_channels m)) = length [()]"
    by auto
  then show ?thesis by (intro exI [of _ out] exI [of _ m]) simp
qed

end
