(* ===== verification/MessageRefs.thy ===== *)
theory MessageRefs
  imports Interleaved Access Disk
begin

text \<open>
  The generator \<open>examples/gen_message_event_refs.rs\<close>: the same five messages as \<open>bcMessageEvent\<close> blocks and
  as \<open>bcAbsTimeStampData\<close> blocks, in two OSF4 files, which the program compares with the files on disk or
  writes, loads and checks. A panic is the error \<open>Panic\<close>; printed lines are left out.
\<close>

section \<open>Sample data\<close>

definition BASE_TIMESTAMP_NS :: i64 where "BASE_TIMESTAMP_NS = 1768478400000000000"
definition TIMESTAMP_STEP_NS :: i64 where "TIMESTAMP_STEP_NS = 5000000000"

definition COUNTER_VALUES :: "u32 list" where "COUNTER_VALUES = [10, 20, 30, 40, 50]"

definition LONG_MESSAGE :: string where
  "LONG_MESSAGE = concat (replicate 6 (replicate 50 (CHR ''A'')))"

text \<open>Texts are their UTF-8 bytes.\<close>

definition MESSAGE_TEXTS :: "string list" where
  "MESSAGE_TEXTS =
     [''OSF-DEMO-0001'',
      ''no signal'',
      [],
      ''Gr'' @ [CHR 0xC3, CHR 0xBC, CHR 0xC3, CHR 0x9F] @ ''e aus S'' @ [CHR 0xC3, CHR 0xA4] @ ''ckingen ''
        @ [CHR 0xE2, CHR 0x9C, CHR 0x93],
      LONG_MESSAGE]"

definition COUNTER_CHANNEL_INDEX :: u16 where "COUNTER_CHANNEL_INDEX = 0"
definition MESSAGE_CHANNEL_INDEX :: u16 where "MESSAGE_CHANNEL_INDEX = 1"

definition CREATED_UTC_MESSAGE_EVENT :: string where "CREATED_UTC_MESSAGE_EVENT = ''2026-07-28T18:29:32.047Z''"
definition CREATED_UTC_EQUIVALENT :: string where "CREATED_UTC_EQUIVALENT = ''2026-07-28T18:29:32.058Z''"

text \<open>\<open>BASE_TIMESTAMP_NS + i * TIMESTAMP_STEP_NS\<close>.\<close>

definition sample_time :: "nat \<Rightarrow> i64" where
  "sample_time i = BASE_TIMESTAMP_NS + of_nat i * TIMESTAMP_STEP_NS"

section \<open>Blocks\<close>

definition counter_block :: "i64 \<Rightarrow> u32 \<Rightarrow> byte list" where
  "counter_block timestamp_ns v =
     u16_le COUNTER_CHANNEL_INDEX @ u16_le (1 + 8 + 4) @ [0x08] @ u64_le timestamp_ns @ u32_le v"

text \<open>The sums of lengths panic on overflow, as in a debug build, which \<open>cargo run --example\<close> makes.\<close>

definition checked_u32 :: "nat \<Rightarrow> osf_error + u32" where
  "checked_u32 n = (if 2 ^ 32 \<le> n then Inl (Panic ''attempt to add with overflow'') else Inr (of_nat n))"

definition payload_len :: "byte list \<Rightarrow> osf_error + u32" where
  "payload_len payload =
     (if 2 ^ 32 \<le> length payload then Inl (Panic ''message payload fits in u32'')
      else Inr (of_nat (length payload)))"

definition message_event_block :: "i64 \<Rightarrow> string \<Rightarrow> osf_error + byte list" where
  "message_event_block timestamp_ns txt =
     (let payload = bytes_of_string txt in
      and_then (payload_len payload) (\<lambda>n.
      and_then (checked_u32 (1 + 8 + 4 + unat n)) (\<lambda>len.
        Inr (u16_le MESSAGE_CHANNEL_INDEX @ u32_le len @ [0x04] @ u64_le timestamp_ns @ u32_le n @ payload))))"

definition legacy_string_block :: "i64 \<Rightarrow> string \<Rightarrow> osf_error + byte list" where
  "legacy_string_block timestamp_ns txt =
     (let payload = bytes_of_string txt in
      and_then (payload_len payload) (\<lambda>payload_len.
      and_then (checked_u32 (1 + 8 + unat payload_len + 1)) (\<lambda>len.
        Inr (u16_le MESSAGE_CHANNEL_INDEX @ u32_le len @ [0x08] @ u64_le timestamp_ns @ payload @ [0x00]))))"

section \<open>Files\<close>

text \<open>An attribute as it is written, and a line feed.\<close>

definition written_attr :: "string \<Rightarrow> string \<Rightarrow> string" where
  "written_attr name val = '' '' @ name @ ''='' @ [CHR 0x22] @ val @ [CHR 0x22]"

definition lf :: string where "lf = [CHR 0x0A]"

definition metablock_xml :: "string \<Rightarrow> string" where
  "metablock_xml created_utc =
     ''<?xml'' @ written_attr ''version'' ''1.0'' @ written_attr ''encoding'' ''UTF-8'' @ ''?>'' @ lf
     @ ''<optimeas'' @ written_attr ''creator'' [] @ written_attr ''created_utc'' created_utc
       @ written_attr ''namespacesep'' ''.'' @ ''>'' @ lf
     @ ''  <channels'' @ written_attr ''count'' ''2'' @ ''>'' @ lf
     @ ''    <channel'' @ written_attr ''index'' ''0'' @ written_attr ''name'' ''Demo.Counter''
       @ written_attr ''channeltype'' ''scalar'' @ written_attr ''datatype'' ''uint32''
       @ written_attr ''sizeoflengthvalue'' ''2'' @ ''/>'' @ lf
     @ ''    <channel'' @ written_attr ''index'' ''1'' @ written_attr ''name'' ''Demo.Message''
       @ written_attr ''channeltype'' ''scalar'' @ written_attr ''datatype'' ''string''
       @ written_attr ''sizeoflengthvalue'' ''4'' @ ''/>'' @ lf
     @ ''  </channels>'' @ lf
     @ ''</optimeas>'' @ lf"

definition assemble_file :: "string \<Rightarrow> byte list \<Rightarrow> byte list" where
  "assemble_file created_utc block_section =
     (let metablock = bytes_of_string (metablock_xml created_utc)
      in bytes_of_string (''OSF4 '' @ show_nat (length metablock) @ lf) @ metablock @ block_section)"

definition counter_at :: "nat \<Rightarrow> osf_error + byte list" where
  "counter_at i = map_ok (counter_block (sample_time i)) (index_at COUNTER_VALUES i)"

definition build_message_event_file :: "osf_error + byte list" where
  "build_message_event_file =
     and_then (first_error (map counter_at [0..<5])) (\<lambda>counters.
     and_then (first_error (map (\<lambda>i. and_then (index_at MESSAGE_TEXTS i) (message_event_block (sample_time i)))
                 [0..<5])) (\<lambda>messages.
       Inr (assemble_file CREATED_UTC_MESSAGE_EVENT (concat counters @ concat messages))))"

definition build_equivalent_file :: "osf_error + byte list" where
  "build_equivalent_file =
     and_then (first_error (map (\<lambda>i.
         and_then (counter_at i) (\<lambda>counter.
         map_ok (\<lambda>message. counter @ message)
           (and_then (index_at MESSAGE_TEXTS i) (legacy_string_block (sample_time i))))) [0..<5])) (\<lambda>blocks.
       Inr (assemble_file CREATED_UTC_EQUIVALENT (concat blocks)))"

section \<open>The checks\<close>

definition assert_counter_channel :: "data_manager \<Rightarrow> osf_error + unit" where
  "assert_counter_channel mgr =
     and_then (dm_channel mgr ''Demo.Counter'') (\<lambda>found.
       case found of
         None \<Rightarrow> Inl (Panic ''Demo.Counter channel missing'')
       | Some (Timestamped tc) \<Rightarrow>
           (case tc_as_uint32_flat tc of
              Inl _ \<Rightarrow> Inl (Panic ''Demo.Counter not uint32'')
            | Inr decoded \<Rightarrow>
                and_then (first_error (map (\<lambda>i. map_ok (Pair (sample_time i)) (index_at COUNTER_VALUES i)) [0..<5]))
                  (\<lambda>expected. assert_that (decoded = expected)
                                ''Demo.Counter samples do not match the expected sequence''))
       | Some _ \<Rightarrow> Inl (Panic ''Demo.Counter unexpectedly not a timestamped channel''))"

definition assert_message_channel :: "data_manager \<Rightarrow> osf_error + unit" where
  "assert_message_channel mgr =
     and_then (dm_channel mgr ''Demo.Message'') (\<lambda>found.
       case found of
         None \<Rightarrow> Inl (Panic ''Demo.Message channel missing'')
       | Some (VariableChannel vc) \<Rightarrow>
           (case as_strings vc of
              Inl _ \<Rightarrow> Inl (Panic ''Demo.Message not string'')
            | Inr texts \<Rightarrow>
                and_then (first_error (map (\<lambda>i. map_ok (Pair (sample_time i)) (index_at MESSAGE_TEXTS i)) [0..<5]))
                  (\<lambda>expected. assert_that (zip (vc_timestamps_ns vc) texts = expected)
                                ''Demo.Message samples do not match the expected sequence''))
       | Some _ \<Rightarrow> Inl (Panic ''Demo.Message unexpectedly not a variable channel''))"

text \<open>\<open>load_from_file\<close> on the bytes of an existing file, whose size is known, and \<open>expect\<close>.\<close>

definition load_expect :: "'n externals \<Rightarrow> nat \<Rightarrow> string \<Rightarrow> byte list \<Rightarrow> osf_error + data_manager" where
  "load_expect ex fill msg bytes =
     (case load_from_file ex fill (source bytes) (Some (length bytes)) of
        Inl _ \<Rightarrow> Inl (Panic msg)
      | Inr m \<Rightarrow> Inr m)"

definition verify_message_event_file :: "'n externals \<Rightarrow> nat \<Rightarrow> byte list \<Rightarrow> osf_error + unit" where
  "verify_message_event_file ex fill bytes =
     and_then (load_expect ex fill ''message-event file loads'' bytes) (\<lambda>mgr.
     and_then (assert_counter_channel mgr) (\<lambda>_.
     and_then (assert_message_channel mgr) (\<lambda>_.
     (let stats = dm_stats mgr in
      and_then (assert_that (rs_blocks_total stats = 10) ''expected 5 counter + 5 message blocks'') (\<lambda>_.
      and_then (assert_that (rs_blocks_read stats = 10) ''expected all 10 blocks read'') (\<lambda>_.
      and_then (assert_that (rs_blocks_skipped_deprecated_type stats = 0)
                  ''bcMessageEvent blocks must no longer be counted as deprecated skips'') (\<lambda>_.
      and_then (assert_that (rs_blocks_skipped_status_event stats = 0) ''assertion failed'') (\<lambda>_.
      and_then (assert_that (rs_blocks_skipped_unsupported stats = 0) ''assertion failed'') (\<lambda>_.
      and_then (assert_that (rs_blocks_skipped_reserved_type stats = 0) ''assertion failed'') (\<lambda>_.
      and_then (assert_that (rs_blocks_skipped_zero_length stats = 0) ''assertion failed'') (\<lambda>_.
      assert_that (rs_blocks_truncated stats = 0) ''assertion failed'')))))))))))"

definition verify_equivalent_file :: "'n externals \<Rightarrow> nat \<Rightarrow> byte list \<Rightarrow> osf_error + unit" where
  "verify_equivalent_file ex fill bytes =
     and_then (load_expect ex fill ''equivalent file loads'' bytes) (\<lambda>mgr.
     and_then (assert_counter_channel mgr) (\<lambda>_.
     and_then (assert_message_channel mgr) (\<lambda>_.
     (let stats = dm_stats mgr in
      and_then (assert_that (rs_blocks_total stats = 10) ''expected 5 counter + 5 message blocks'') (\<lambda>_.
      and_then (assert_that (rs_blocks_read stats = 10) ''expected all 10 blocks read'') (\<lambda>_.
      and_then (assert_that (rs_blocks_skipped_deprecated_type stats = 0) ''assertion failed'') (\<lambda>_.
      and_then (assert_that (rs_blocks_skipped_unsupported stats = 0) ''assertion failed'') (\<lambda>_.
      and_then (assert_that (rs_blocks_skipped_reserved_type stats = 0) ''assertion failed'') (\<lambda>_.
      and_then (assert_that (rs_blocks_skipped_zero_length stats = 0) ''assertion failed'') (\<lambda>_.
      assert_that (rs_blocks_truncated stats = 0) ''assertion failed''))))))))))"

section \<open>The program\<close>

definition compare_or_write :: "string \<Rightarrow> byte list \<Rightarrow> program" where
  "compare_or_write path bytes d =
     (case disk_read d path of
        Inr existing \<Rightarrow> if existing = bytes then (Inr (), d) else (Inl (ExitCode 1), d)
      | Inl NotFound \<Rightarrow>
          if path \<in> set (dk_unwritable d) then (Inl (Panicked ''write new reference file''), d)
          else (Inr (), d\<lparr>dk_files := (dk_files d)(path \<mapsto> bytes)\<rparr>)
      | Inl OtherReadError \<Rightarrow> (Inl (ExitCode 1), d))"

definition check_file :: "(byte list \<Rightarrow> osf_error + unit) \<Rightarrow> string \<Rightarrow> program" where
  "check_file check path d =
     (case disk_read d path of
        Inl _ \<Rightarrow> (Inl (Panicked ''file loads''), d)
      | Inr bytes \<Rightarrow> (case check bytes of Inl e \<Rightarrow> (Inl (panicked e), d) | Inr _ \<Rightarrow> (Inr (), d)))"

definition message_event_path :: string where
  "message_event_path = ''osf4_message_event_string.osf''"

definition equivalent_path :: string where
  "equivalent_path = ''osf4_message_event_string_equivalent.osf''"

definition gen_message_event_refs :: "'n externals \<Rightarrow> nat \<Rightarrow> program" where
  "gen_message_event_refs ex fill d =
     (if \<not> dk_directory d then (Inl (Panicked ''create examples/generated dir''), d)
      else seq_then (with_value build_message_event_file (compare_or_write message_event_path))
          (seq_then (with_value build_equivalent_file (compare_or_write equivalent_path))
          (seq_then (check_file (verify_message_event_file ex fill) message_event_path)
             (check_file (verify_equivalent_file ex fill) equivalent_path))) d)"

end
