(* ===== verification/MessageLaws.thy ===== *)
theory MessageLaws
  imports MessageRefs
begin

text \<open>
  Both encodings of a message are read as the same sample, the generated files pass their own checks,
  and the generator changes no file that exists.
\<close>

section \<open>The three frames\<close>

lemma checked_u32_Inr: "checked_u32 n = Inr w \<longleftrightarrow> n < 2 ^ 32 \<and> w = of_nat n"
  by (auto simp: checked_u32_def)

lemma payload_len_Inr: "payload_len bs = Inr w \<longleftrightarrow> length bs < 2 ^ 32 \<and> w = of_nat (length bs)"
  by (auto simp: payload_len_def)

lemma length_u32: "n < 2 ^ 32 \<Longrightarrow> unat (of_nat n :: u32) = n"
  by (simp add: unat_of_nat take_bit_nat_eq_self)

text \<open>The frame of a payload, without a checksum.\<close>

lemma plain_frame:
  assumes "width = 2 \<and> length payload < 65536 \<or> width = 4 \<and> length payload < 2 ^ 32"
  shows "write_block crc32c channel width payload False
    = Inr (frame_prefix channel width (of_nat (length payload)) @ payload)"
proof -
  have "length payload < 2 ^ 32" using assms by auto
  note len = length_u32 [OF this]
  have "write_length_field width (of_nat (length payload)) = Some (length_field_bytes width (of_nat (length payload)))"
    using assms len by (intro write_length_field_bytes) auto
  then show ?thesis
    using assms by (auto simp: write_block_def Let_def MAX_BLOCK_PAYLOAD_U16_def crc_reserve_def frame_prefix_def write_defs)
qed

lemma counter_yields:
  assumes "writable cfg COUNTER_CHANNEL_INDEX DtUInt32 2 False"
  shows "yields cfg crc32c (counter_block ts v)
    \<lparr>blk_channel_index = COUNTER_CHANNEL_INDEX, blk_kind = AbsTimestampData (TpUInt32 [(ts, v)])\<rparr>"
proof -
  have "length_field_bytes 2 13 = u16_le 13" by code_simp
  then have block: "write_block crc32c COUNTER_CHANNEL_INDEX 2 (0x08 # (u64_le ts @ u32_le v)) False
      = Inr (counter_block ts v)"
    by (subst plain_frame) (simp_all add: counter_block_def frame_prefix_def)
  have control: "decode_control_byte 0x08 = \<lparr>cb_kind = CkAbsTimeStampData, cb_multi_sample = False\<rparr>" by code_simp
  have parse: "parse_abs_timestamp_data (u64_le ts @ u32_le v) DtUInt32 False version = Inr (TpUInt32 [(ts, v)])" for version
    using u32_codec.keyed_run_enc [OF i64_key, where xs = "[(ts, v)]" and rest = "[]"]
    by (simp add: parse_abs_timestamp_data_def read_sample_count_def pairs_of_def write_defs)
  show ?thesis
    by (rule yields_written [OF block assms], rule dispatch_decoded(3) [OF control])
       (simp_all only: channel_info.select_convs parse, simp)
qed

lemma dispatch_message:
  "decode_control_byte cb = \<lparr>cb_kind = CkMessageEvent, cb_multi_sample = False\<rparr> \<Longrightarrow>
   message_event_datatype_supported (ci_data_type info) \<Longrightarrow>
   parse_message_event body (ci_data_type info) = Inr tp \<Longrightarrow>
   \<exists>n f. dispatch channel info len cb body r
     = (block_item channel (AbsTimestampData tp), record_read channel len n f r)"
  by (auto simp: dispatch_def)

lemma message_event_yields:
  assumes "writable cfg MESSAGE_CHANNEL_INDEX DtString 4 False" and "rust_string txt"
    and "message_event_block ts txt = Inr bs"
  shows "yields cfg crc32c bs
    \<lparr>blk_channel_index = MESSAGE_CHANNEL_INDEX, blk_kind = AbsTimestampData (TpString [(ts, txt)])\<rparr>"
proof -
  let ?payload = "bytes_of_string txt" and ?n = "of_nat (length (bytes_of_string txt)) :: u32"
  have n: "unat ?n = length ?payload" "13 + length ?payload < 2 ^ 32"
    and bs: "bs = u16_le MESSAGE_CHANNEL_INDEX @ u32_le (of_nat (13 + length ?payload)) @ 0x04 # u64_le ts @ u32_le ?n @ ?payload"
    using assms(3) length_u32 [of "length ?payload"]
    by (auto simp: message_event_block_def Let_def and_then_eq_Inr_iff payload_len_Inr checked_u32_Inr)
  have "write_block crc32c MESSAGE_CHANNEL_INDEX 4 (0x04 # (u64_le ts @ u32_le ?n @ ?payload)) False = Inr bs"
    using n(2) by (subst plain_frame) (simp_all add: bs frame_prefix_def length_field_bytes_def)
  note block = this
  have control: "decode_control_byte 0x04 = \<lparr>cb_kind = CkMessageEvent, cb_multi_sample = False\<rparr>" by code_simp
  have parse: "parse_message_event (u64_le ts @ u32_le ?n @ ?payload) DtString = Inr (TpString [(ts, txt)])"
    using n(1) from_utf8_bytes_of_string [OF assms(2)]
    by (simp add: parse_message_event_def read_u64_le read_u32_le build_string_or_binary_def)
  show ?thesis
    by (rule yields_written [OF block assms(1)], rule dispatch_message [OF control])
       (simp_all only: channel_info.select_convs parse, simp_all)
qed

lemma legacy_yields:
  assumes "writable cfg MESSAGE_CHANNEL_INDEX DtString 4 False" and "rc_version cfg = Osf4" and "rust_string txt"
    and "legacy_string_block ts txt = Inr bs"
  shows "yields cfg crc32c bs
    \<lparr>blk_channel_index = MESSAGE_CHANNEL_INDEX, blk_kind = AbsTimestampData (TpString [(ts, txt)])\<rparr>"
proof -
  let ?payload = "bytes_of_string txt"
  have n: "10 + length ?payload < 2 ^ 32"
    and bs: "bs = u16_le MESSAGE_CHANNEL_INDEX @ u32_le (of_nat (10 + length ?payload)) @ 0x08 # u64_le ts @ ?payload @ [0]"
    using assms(4) length_u32 [of "length ?payload"]
    by (auto simp: legacy_string_block_def Let_def and_then_eq_Inr_iff payload_len_Inr checked_u32_Inr)
  have "write_block crc32c MESSAGE_CHANNEL_INDEX 4 (0x08 # (u64_le ts @ ?payload @ [0])) False = Inr bs"
    using n by (subst plain_frame) (simp_all add: bs frame_prefix_def length_field_bytes_def)
  note block = this
  have control: "decode_control_byte 0x08 = \<lparr>cb_kind = CkAbsTimeStampData, cb_multi_sample = False\<rparr>" by code_simp
  have parse: "parse_abs_timestamp_data (u64_le ts @ ?payload @ [0]) DtString False Osf4 = Inr (TpString [(ts, txt)])"
    using from_utf8_bytes_of_string [OF assms(3)]
    by (simp add: parse_abs_timestamp_data_def parse_abs_timestamp_string_or_binary_def parse_variable_n_def
        parse_one_variable_def read_u64_le strip_osf4_terminator_def build_string_or_binary_def)
  show ?thesis
    by (rule yields_written [OF block assms(1)], rule dispatch_decoded(3) [OF control])
       (simp_all only: channel_info.select_convs assms(2) parse, simp)
qed

section \<open>One sample, two encodings\<close>

text \<open>
  C29. A message reads the same in both encodings. For every valid text short enough for its length field, a
  text that ends in zero bytes and an empty one included, both block builders succeed, and a reader of an
  OSF4 file that meets either block in front of any further bytes yields the same decoded block, one sample
  with exactly the given time and text, and stands at the first of the further bytes.
\<close>

theorem message_encodings_agree:
  assumes "rust_string txt" and "length txt < 2 ^ 32 - 13"
    and "br_osf_version r = Osf4" and "br_integrity r = IpNone" and "\<not> br_finished r"
    and "br_channels r MESSAGE_CHANNEL_INDEX = Some \<lparr>ci_data_type = DtString, ci_size_of_length_value = 4\<rparr>"
  shows "\<exists>event legacy. message_event_block ts txt = Inr event \<and> legacy_string_block ts txt = Inr legacy
     \<and> (\<forall>bs \<in> {event, legacy}. \<exists>r'.
          next_block crc32c (r\<lparr>br_inner := source (bs @ after)\<rparr>)
            = (Some (Inr \<lparr>blk_channel_index = MESSAGE_CHANNEL_INDEX,
                          blk_kind = AbsTimestampData (TpString [(ts, txt)])\<rparr>), r')
          \<and> pending (br_inner r') = after)"
proof -
  let ?cfg = "\<lparr>rc_channels = br_channels r, rc_version = Osf4, rc_integrity = IpNone\<rparr>"
  let ?blk = "\<lparr>blk_channel_index = MESSAGE_CHANNEL_INDEX, blk_kind = AbsTimestampData (TpString [(ts, txt)])\<rparr>"
  have len: "length (bytes_of_string txt) = length txt" by (simp add: bytes_of_string_def)
  have u: "unat (of_nat (length txt) :: u32) = length txt" using assms(2) by (intro length_u32) simp
  obtain event legacy where e: "message_event_block ts txt = Inr event" "legacy_string_block ts txt = Inr legacy"
    using assms(2) by (auto simp: message_event_block_def legacy_string_block_def payload_len_def checked_u32_def Let_def len u)
  have ok: "writable ?cfg MESSAGE_CHANNEL_INDEX DtString 4 False"
    using assms(6)
    by (simp add: writable_def MESSAGE_CHANNEL_INDEX_def TRAILER_CHANNEL_INDEX_def SIGNATURE_CHANNEL_INDEX_def)
  have y: "yields ?cfg crc32c event ?blk" "yields ?cfg crc32c legacy ?blk"
    using message_event_yields [OF ok assms(1) e(1)] legacy_yields [OF ok _ assms(1) e(2)] by simp_all
  have read: "\<exists>r'. next_block crc32c (r\<lparr>br_inner := source (bs @ after)\<rparr>) = (Some (Inr ?blk), r')
      \<and> pending (br_inner r') = after" if y: "yields ?cfg crc32c bs ?blk" for bs
  proof -
    have "reader_at ?cfg (r\<lparr>br_inner := source (bs @ after)\<rparr>)" using assms(3-5) by (simp add: reader_at_def)
    moreover have "pending (br_inner (r\<lparr>br_inner := source (bs @ after)\<rparr>)) = bs @ after" by (simp add: source_def)
    ultimately obtain r' where "next_block crc32c (r\<lparr>br_inner := source (bs @ after)\<rparr>) = (Some (Inr ?blk), r')"
        "resumes ?cfg (r\<lparr>br_inner := source (bs @ after)\<rparr>) after r'"
      using y unfolding yields_def by blast
    then show ?thesis by (auto simp: resumes_def)
  qed
  show ?thesis using e read [OF y(1)] read [OF y(2)] by blast
qed

theorem message_encodings_agree_witness:
  "\<exists>event legacy. message_event_block 7 ''a'' = Inr event \<and> legacy_string_block 7 ''a'' = Inr legacy
     \<and> (\<forall>bs \<in> {event, legacy}. \<exists>r'.
          next_block (\<lambda>_. 0) (demo_reader DtString 4 IpNone []
              \<lparr>br_osf_version := Osf4,
               br_channels := [1 \<mapsto> \<lparr>ci_data_type = DtString, ci_size_of_length_value = 4\<rparr>],
               br_inner := source (bs @ [9])\<rparr>)
            = (Some (Inr \<lparr>blk_channel_index = 1, blk_kind = AbsTimestampData (TpString [(7, ''a'')])\<rparr>), r')
          \<and> pending (br_inner r') = [9])"
  using message_encodings_agree [of "''a''" "demo_reader DtString 4 IpNone []
              \<lparr>br_osf_version := Osf4,
               br_channels := [1 \<mapsto> \<lparr>ci_data_type = DtString, ci_size_of_length_value = 4\<rparr>]\<rparr>" 7 "\<lambda>_. 0" "[9]"]
  by (simp add: MESSAGE_CHANNEL_INDEX_def rust_string_ascii ascii_char_def demo_reader_def)

section \<open>The metablock of the files\<close>

definition attr_at :: "string \<Rightarrow> string \<Rightarrow> xml_attr" where
  "attr_at name val = AttrAt (bytes_of_string name) (Some val)"

text \<open>The events of the document, in the way \<open>quick-xml\<close> reports them when it trims texts.\<close>

definition refs_events :: "string \<Rightarrow> xml_event list" where
  "refs_events created_utc =
     [XDecl,
      XStart ''optimeas'' [attr_at ''creator'' [], attr_at ''created_utc'' created_utc, attr_at ''namespacesep'' ''.''],
      XStart ''channels'' [attr_at ''count'' ''2''],
      XEmpty ''channel'' [attr_at ''index'' ''0'', attr_at ''name'' ''Demo.Counter'', attr_at ''channeltype'' ''scalar'',
        attr_at ''datatype'' ''uint32'', attr_at ''sizeoflengthvalue'' ''2''],
      XEmpty ''channel'' [attr_at ''index'' ''1'', attr_at ''name'' ''Demo.Message'', attr_at ''channeltype'' ''scalar'',
        attr_at ''datatype'' ''string'', attr_at ''sizeoflengthvalue'' ''4''],
      XEnd ''channels'', XEnd ''optimeas'']"

definition lexes_refs :: "quick_xml \<Rightarrow> string \<Rightarrow> bool" where
  "lexes_refs qx created_utc \<longleftrightarrow> qx (metablock_xml created_utc) = map Some (refs_events created_utc)"

definition refs_channel :: "u16 \<Rightarrow> string \<Rightarrow> data_type \<Rightarrow> u8 \<Rightarrow> meta_channel" where
  "refs_channel index name dt width =
     \<lparr>mc_index = index, mc_name = name, mc_reference = None, mc_channel_type = CtScalar, mc_data_type = dt,
      mc_time_increment_ns = None, mc_size_of_length_value = width, mc_mime_type = None, mc_spectrum_type = None,
      mc_physical_unit = None, mc_physical_dimension = None, mc_display_name = None, mc_comment = None\<rparr>"

definition refs_meta :: "string \<Rightarrow> meta_block" where
  "refs_meta created_utc =
     \<lparr>mb_file_info = file_info_default\<lparr>fi_version := 4, fi_created_utc := Some created_utc, fi_creator := Some [],
        fi_namespace_sep := Some ''.''\<rparr>,
      mb_channels = [refs_channel COUNTER_CHANNEL_INDEX ''Demo.Counter'' DtUInt32 2,
                     refs_channel MESSAGE_CHANNEL_INDEX ''Demo.Message'' DtString 4],
      mb_infos = []\<rparr>"

lemma attr_keys:
  "from_utf8_lossy (bytes_of_string ''creator'') = ''creator''"
  "from_utf8_lossy (bytes_of_string ''created_utc'') = ''created_utc''"
  "from_utf8_lossy (bytes_of_string ''namespacesep'') = ''namespacesep''"
  "from_utf8_lossy (bytes_of_string ''index'') = ''index''"
  "from_utf8_lossy (bytes_of_string ''name'') = ''name''"
  "from_utf8_lossy (bytes_of_string ''channeltype'') = ''channeltype''"
  "from_utf8_lossy (bytes_of_string ''datatype'') = ''datatype''"
  "from_utf8_lossy (bytes_of_string ''sizeoflengthvalue'') = ''sizeoflengthvalue''"
  by (intro from_utf8_lossy_string rust_string_ascii; simp add: ascii_char_def)+

lemma small_numbers:
  "parse_unsigned (2 ^ 16) ''0'' = Some 0" "parse_unsigned (2 ^ 16) ''1'' = Some 1"
  "parse_unsigned (2 ^ 32) ''2'' = Some 2" "parse_unsigned (2 ^ 32) ''4'' = Some 4"
  by (simp_all add: parse_unsigned_def is_ascii_digit_def digits_value_def digit_value_def)

lemma refs_channel_parsed:
  assumes "parse_unsigned (2 ^ 16) index = Some i" and "parse_data_type dt = Inr t"
    and "parse_unsigned (2 ^ 32) width = Some w" and "validate_size_of_length_value (of_nat w) = Inr v"
  shows "parse_channel_attrs [attr_at ''index'' index, attr_at ''name'' name, attr_at ''channeltype'' ''scalar'',
        attr_at ''datatype'' dt, attr_at ''sizeoflengthvalue'' width] = Inr (refs_channel (of_nat i) name t v)"
  using assms
  by (simp add: attr_at_def parse_channel_attrs_def attr_keys parse_channel_type_def parse_optional_i64_def
      refs_channel_def)

lemma refs_root_parsed:
  "parse_optimeas_attrs [attr_at ''creator'' [], attr_at ''created_utc'' created_utc, attr_at ''namespacesep'' ''.'']
       (file_info_default\<lparr>fi_version := 4\<rparr>)
     = Inr (mb_file_info (refs_meta created_utc))"
  by (simp add: parse_optimeas_attrs_def attr_at_def attr_keys parse_optional_f64_def short_location_def refs_meta_def
      file_info_default_def)

lemma refs_parsed_events:
  "xml_loop TopLevel (meta_block_default\<lparr>mb_file_info := file_info_default\<lparr>fi_version := 4\<rparr>\<rparr>)
     (map Some (refs_events created_utc)) = Inr (refs_meta created_utc)"
proof -
  have counter: "parse_channel_attrs [attr_at ''index'' ''0'', attr_at ''name'' ''Demo.Counter'',
        attr_at ''channeltype'' ''scalar'', attr_at ''datatype'' ''uint32'', attr_at ''sizeoflengthvalue'' ''2'']
      = Inr (refs_channel COUNTER_CHANNEL_INDEX ''Demo.Counter'' DtUInt32 2)"
    using refs_channel_parsed [OF small_numbers(1) _ small_numbers(3), of "''uint32''" DtUInt32 2]
    by (simp add: parse_data_type_def validate_size_of_length_value_def COUNTER_CHANNEL_INDEX_def)
  have message: "parse_channel_attrs [attr_at ''index'' ''1'', attr_at ''name'' ''Demo.Message'',
        attr_at ''channeltype'' ''scalar'', attr_at ''datatype'' ''string'', attr_at ''sizeoflengthvalue'' ''4'']
      = Inr (refs_channel MESSAGE_CHANNEL_INDEX ''Demo.Message'' DtString 4)"
    using refs_channel_parsed [OF small_numbers(2) _ small_numbers(4), of "''string''" DtString 4]
    by (simp add: parse_data_type_def validate_size_of_length_value_def MESSAGE_CHANNEL_INDEX_def)
  show ?thesis
    by (simp add: refs_events_def refs_root_parsed counter message enter_child_def add_xml_channel_def
        leave_element_def meta_block_default_def) (simp add: refs_meta_def)
qed

lemma ascii_metablock:
  assumes "\<forall>c \<in> set created_utc. ascii_char c"
  shows "\<forall>c \<in> set (metablock_xml created_utc). ascii_char c"
  using assms by (simp add: metablock_xml_def written_attr_def lf_def ascii_char_def)

lemma length_metablock: "length (metablock_xml created_utc) = 354 + length created_utc"
  by (simp add: metablock_xml_def written_attr_def lf_def)

lemma refs_opened:
  assumes "lexes_refs (ex_quick_xml ex) created_utc" and "\<forall>c \<in> set created_utc. ascii_char c"
    and "length created_utc < 1000"
  shows "detect_and_wrap fill (source (assemble_file created_utc data)) = Inr (Plain (source (assemble_file created_utc data)))"
    and "\<exists>header s1. open_metablock ex (source (assemble_file created_utc data)) = Inr (header, refs_meta created_utc, s1, source data)
       \<and> mh_integrity header = IpNone"
proof -
  let ?body = "bytes_of_string (metablock_xml created_utc)"
  have whole: "assemble_file created_utc data
      = bytes_of_string (''OSF4 '' @ show_nat (length ?body)) @ 10 # ?body @ data"
    by (simp add: assemble_file_def Let_def lf_def bytes_of_string_def)
  then obtain tl where tl: "assemble_file created_utc data = 0x4F # 0x53 # tl"
    by (simp add: bytes_of_string_def)
  then show "detect_and_wrap fill (source (assemble_file created_utc data)) = Inr (Plain (source (assemble_file created_utc data)))"
    by (cases fill)
       (auto simp: detect_and_wrap_def peek_format_def fill_buf_def take_Cons' source_def split: list.split)
  have len: "length ?body < 2000" using assms(3) by (simp add: bytes_of_string_def length_metablock)
  have parsed: "parse_metablock_xml (ex_quick_xml ex) ?body = Inr (refs_meta created_utc)"
    using assms(1) from_utf8_lossy_string [OF rust_string_ascii [OF ascii_metablock [OF assms(2)]]]
    by (simp add: parse_metablock_xml_def lexes_refs_def refs_parsed_events)
  have "parse_magic_header (source (assemble_file created_utc data)) =
     (Inr \<lparr>mh_version = Osf4, mh_metablock_len = length ?body, mh_integrity = IpNone, mh_metablock_crc = None\<rparr>,
      source (?body @ data))"
    using parse_osf4_header [of "length ?body" "source (assemble_file created_utc data)" "?body @ data"] len
    by (simp add: whole source_def)
  then show "\<exists>header s1. open_metablock ex (source (assemble_file created_utc data)) = Inr (header, refs_meta created_utc, s1, source data)
       \<and> mh_integrity header = IpNone"
    using len parsed
    by (simp add: open_metablock_def read_body_def source_def read_exact_append verify_metablock_crc_def
        parse_metablock_def)
qed

section \<open>The blocks of the files\<close>

definition counter_blk :: "nat \<Rightarrow> block" where
  "counter_blk i = \<lparr>blk_channel_index = COUNTER_CHANNEL_INDEX,
     blk_kind = AbsTimestampData (TpUInt32 [(sample_time i, COUNTER_VALUES ! i)])\<rparr>"

definition message_blk :: "nat \<Rightarrow> block" where
  "message_blk i = \<lparr>blk_channel_index = MESSAGE_CHANNEL_INDEX,
     blk_kind = AbsTimestampData (TpString [(sample_time i, MESSAGE_TEXTS ! i)])\<rparr>"

lemma text_counts [simp]: "length COUNTER_VALUES = 5" "length MESSAGE_TEXTS = 5"
  by (simp_all add: COUNTER_VALUES_def MESSAGE_TEXTS_def)

lemma message_texts_ok: "\<forall>txt \<in> set MESSAGE_TEXTS. rust_string txt \<and> length txt \<le> 300"
proof -
  have long: "LONG_MESSAGE = replicate 300 (CHR ''A'')"
    by (simp add: LONG_MESSAGE_def numeral_eq_Suc)
  have "rust_string LONG_MESSAGE" by (intro rust_string_ascii) (simp add: long ascii_char_def)
  moreover have "rust_string ''OSF-DEMO-0001''" "rust_string ''no signal''" "rust_string []"
    by (intro rust_string_ascii; simp add: ascii_char_def)+
  moreover have "rust_string (''Gr'' @ [CHR 0xC3, CHR 0xBC, CHR 0xC3, CHR 0x9F] @ ''e aus S'' @ [CHR 0xC3, CHR 0xA4]
      @ ''ckingen '' @ [CHR 0xE2, CHR 0x9C, CHR 0x93])" by code_simp
  ultimately show ?thesis by (simp add: MESSAGE_TEXTS_def long)
qed

definition refs_config :: "string \<Rightarrow> reader_config" where
  "refs_config created_utc = config_for IpNone (refs_meta created_utc)"

lemma refs_distinct: "distinct (map mc_index (mb_channels (refs_meta created_utc)))"
  by (simp add: refs_meta_def refs_channel_def COUNTER_CHANNEL_INDEX_def MESSAGE_CHANNEL_INDEX_def)

lemma refs_writable:
  "writable (refs_config created_utc) COUNTER_CHANNEL_INDEX DtUInt32 2 False"
  "writable (refs_config created_utc) MESSAGE_CHANNEL_INDEX DtString 4 False"
  "rc_version (refs_config created_utc) = Osf4"
proof -
  note at = new_reader_at(5) [OF refs_distinct, of _ created_utc IpNone, folded refs_config_def]
  show "writable (refs_config created_utc) COUNTER_CHANNEL_INDEX DtUInt32 2 False"
    using at [of "refs_channel COUNTER_CHANNEL_INDEX ''Demo.Counter'' DtUInt32 2"]
    by (simp add: writable_def refs_meta_def refs_channel_def refs_config_def config_for_def COUNTER_CHANNEL_INDEX_def
        TRAILER_CHANNEL_INDEX_def SIGNATURE_CHANNEL_INDEX_def)
  show "writable (refs_config created_utc) MESSAGE_CHANNEL_INDEX DtString 4 False"
    using at [of "refs_channel MESSAGE_CHANNEL_INDEX ''Demo.Message'' DtString 4"]
    by (simp add: writable_def refs_meta_def refs_channel_def refs_config_def config_for_def MESSAGE_CHANNEL_INDEX_def
        TRAILER_CHANNEL_INDEX_def SIGNATURE_CHANNEL_INDEX_def)
  show "rc_version (refs_config created_utc) = Osf4"
    by (simp add: refs_config_def config_for_def meta_version_def refs_meta_def)
qed

text \<open>A loop that appends frames: what it appends is delivered.\<close>

lemma loop_delivers:
  assumes "\<And>i. i \<in> set ixs \<Longrightarrow> \<exists>bs. f i = Inr bs \<and> delivers cfg crc32c bs (g i)"
  obtains bss where "first_error (map f ixs) = Inr bss" "delivers cfg crc32c (concat bss) (concat (map g ixs))"
proof -
  have "\<exists>bss. first_error (map f ixs) = Inr bss \<and> delivers cfg crc32c (concat bss) (concat (map g ixs))"
    using assms
  proof (induction ixs)
    case Nil
    then show ?case by (simp add: delivers.none)
  next
    case (Cons i ixs)
    obtain bs where "f i = Inr bs" "delivers cfg crc32c bs (g i)" using Cons.prems [of i] by auto
    moreover obtain bss where "first_error (map f ixs) = Inr bss" "delivers cfg crc32c (concat bss) (concat (map g ixs))"
      using Cons.IH Cons.prems by auto
    ultimately show ?case by (auto intro: delivers_append)
  qed
  then show ?thesis using that by blast
qed

lemma counter_delivers:
  assumes "i < 5"
  shows "\<exists>bs. counter_at i = Inr bs \<and> delivers (refs_config created_utc) crc32c bs [counter_blk i]"
  using assms delivers_one [OF counter_yields [OF refs_writable(1)]]
  by (simp add: counter_at_def index_at_def counter_blk_def)

lemma message_total:
  assumes "length txt \<le> 300"
  shows "\<exists>bs. message_event_block ts txt = Inr bs" "\<exists>bs. legacy_string_block ts txt = Inr bs"
proof -
  have "length (bytes_of_string txt) \<le> 300" "unat (of_nat (length (bytes_of_string txt)) :: u32) = length (bytes_of_string txt)"
    using assms length_u32 [of "length txt"] by (simp_all add: bytes_of_string_def)
  then show "\<exists>bs. message_event_block ts txt = Inr bs" "\<exists>bs. legacy_string_block ts txt = Inr bs"
    by (simp_all add: message_event_block_def legacy_string_block_def payload_len_def checked_u32_def Let_def)
qed

lemma message_delivers:
  assumes "i < 5"
  shows "\<exists>bs. and_then (index_at MESSAGE_TEXTS i) (message_event_block (sample_time i)) = Inr bs
      \<and> delivers (refs_config created_utc) crc32c bs [message_blk i]"
    and "\<exists>bs. and_then (index_at MESSAGE_TEXTS i) (legacy_string_block (sample_time i)) = Inr bs
      \<and> delivers (refs_config created_utc) crc32c bs [message_blk i]"
proof -
  have ok: "rust_string (MESSAGE_TEXTS ! i)" "length (MESSAGE_TEXTS ! i) \<le> 300"
    using message_texts_ok assms nth_mem [of i MESSAGE_TEXTS] by auto
  have at: "index_at MESSAGE_TEXTS i = Inr (MESSAGE_TEXTS ! i)" using assms by (simp add: index_at_def)
  obtain bs1 where bs1: "message_event_block (sample_time i) (MESSAGE_TEXTS ! i) = Inr bs1"
    using message_total(1) [OF ok(2)] by blast
  show "\<exists>bs. and_then (index_at MESSAGE_TEXTS i) (message_event_block (sample_time i)) = Inr bs
      \<and> delivers (refs_config created_utc) crc32c bs [message_blk i]"
    using bs1 delivers_one [OF message_event_yields [OF refs_writable(2) ok(1) bs1]]
    unfolding at message_blk_def by simp
  obtain bs2 where bs2: "legacy_string_block (sample_time i) (MESSAGE_TEXTS ! i) = Inr bs2"
    using message_total(2) [OF ok(2)] by blast
  show "\<exists>bs. and_then (index_at MESSAGE_TEXTS i) (legacy_string_block (sample_time i)) = Inr bs
      \<and> delivers (refs_config created_utc) crc32c bs [message_blk i]"
    using bs2 delivers_one [OF legacy_yields [OF refs_writable(2,3) ok(1) bs2]]
    unfolding at message_blk_def by simp
qed

definition message_event_blocks :: "block list" where
  "message_event_blocks = map counter_blk [0..<5] @ map message_blk [0..<5]"

definition equivalent_blocks :: "block list" where
  "equivalent_blocks = concat (map (\<lambda>i. [counter_blk i, message_blk i]) [0..<5])"

lemma message_event_file_built:
  obtains data where "build_message_event_file = Inr (assemble_file CREATED_UTC_MESSAGE_EVENT data)"
    "delivers (refs_config CREATED_UTC_MESSAGE_EVENT) crc32c data message_event_blocks"
proof -
  have small: "i < 5" if "i \<in> set [0..<5]" for i :: nat using that by simp
  obtain counters where c: "first_error (map counter_at [0..<5]) = Inr counters"
      "delivers (refs_config CREATED_UTC_MESSAGE_EVENT) crc32c (concat counters) (concat (map (\<lambda>i. [counter_blk i]) [0..<5]))"
    using loop_delivers [OF counter_delivers [OF small]] .
  obtain messages where m:
      "first_error (map (\<lambda>i. and_then (index_at MESSAGE_TEXTS i) (message_event_block (sample_time i))) [0..<5]) = Inr messages"
      "delivers (refs_config CREATED_UTC_MESSAGE_EVENT) crc32c (concat messages) (concat (map (\<lambda>i. [message_blk i]) [0..<5]))"
    using loop_delivers [OF message_delivers(1) [OF small]] .
  have "concat (map (\<lambda>i. [f i]) ixs) = map f ixs" for f :: "nat \<Rightarrow> block" and ixs
    by (induction ixs) simp_all
  then show ?thesis
    using that [of "concat counters @ concat messages"] delivers_append [OF c(2) m(2)]
    by (simp add: build_message_event_file_def c(1) m(1) message_event_blocks_def del: upt.simps)
qed

lemma equivalent_file_built:
  obtains data where "build_equivalent_file = Inr (assemble_file CREATED_UTC_EQUIVALENT data)"
    "delivers (refs_config CREATED_UTC_EQUIVALENT) crc32c data equivalent_blocks"
proof -
  let ?f = "\<lambda>i. and_then (counter_at i) (\<lambda>counter. map_ok (\<lambda>message. counter @ message)
           (and_then (index_at MESSAGE_TEXTS i) (legacy_string_block (sample_time i))))"
  have one: "\<exists>bs. ?f i = Inr bs \<and> delivers (refs_config CREATED_UTC_EQUIVALENT) crc32c bs [counter_blk i, message_blk i]"
    if "i \<in> set [0..<5]" for i
  proof -
    have i: "i < 5" using that by simp
    obtain bs bs' where "counter_at i = Inr bs" "delivers (refs_config CREATED_UTC_EQUIVALENT) crc32c bs [counter_blk i]"
        "and_then (index_at MESSAGE_TEXTS i) (legacy_string_block (sample_time i)) = Inr bs'"
        "delivers (refs_config CREATED_UTC_EQUIVALENT) crc32c bs' [message_blk i]"
      using counter_delivers [OF i] message_delivers(2) [OF i] by metis
    then show ?thesis using delivers_append by fastforce
  qed
  obtain bss where "first_error (map ?f [0..<5]) = Inr bss"
      "delivers (refs_config CREATED_UTC_EQUIVALENT) crc32c (concat bss) equivalent_blocks"
    using loop_delivers [OF one] unfolding equivalent_blocks_def .
  then show ?thesis using that [of "concat bss"] by (simp add: build_equivalent_file_def del: upt.simps)
qed

section \<open>The files pass their checks\<close>

definition counter_log :: "(i64 \<times> sample) list" where
  "counter_log = map (\<lambda>i. (sample_time i, NumSample (VrUInt32 (COUNTER_VALUES ! i)))) [0..<5]"

definition message_log :: "(i64 \<times> sample) list" where
  "message_log = map (\<lambda>i. (sample_time i, VarSample (VrString (MESSAGE_TEXTS ! i)))) [0..<5]"

text \<open>The blocks of either file.\<close>

definition refs_blocks :: "block list \<Rightarrow> bool" where
  "refs_blocks blks \<longleftrightarrow> length blks = 10 \<and> (\<forall>blk \<in> set blks. \<exists>i. blk = counter_blk i \<or> blk = message_blk i)
     \<and> stream_log COUNTER_CHANNEL_INDEX blks = counter_log \<and> stream_log MESSAGE_CHANNEL_INDEX blks = message_log"

lemma generated_blocks: "refs_blocks message_event_blocks" "refs_blocks equivalent_blocks"
  by (auto simp: refs_blocks_def message_event_blocks_def equivalent_blocks_def counter_blk_def message_blk_def
      COUNTER_CHANNEL_INDEX_def MESSAGE_CHANNEL_INDEX_def counter_log_def message_log_def upt_rec)

lemma first_error_pairs:
  "n \<le> length xs \<Longrightarrow>
   first_error (map (\<lambda>i. map_ok (Pair (f i)) (index_at xs i)) [0..<n]) = Inr (map (\<lambda>i. (f i, xs ! i)) [0..<n])"
  by (rule first_error_in_range) (simp add: index_at_def)

lemma counter_channel_ok:
  assumes "dm_channel m ''Demo.Counter'' = Inr (Some c)" and "channel_shape c" and "\<not> is_equidistant c"
    and "channel_data_type c = DtUInt32" and "channel_log c = Inr counter_log"
  shows "assert_counter_channel m = Inr ()"
proof (cases c)
  case (Timestamped t)
  then obtain v where v: "tc_as_uint32_flat t = Inr v" "channel_log c = Inr (map (apsnd (NumSample \<circ> VrUInt32)) v)"
    using tc_flat_pairs [OF assms(2) [unfolded Timestamped] selectors(8)] assms(4)
    by (auto simp: flat_pairs_def tc_as_uint32_flat_def)
  have "inj (apsnd (NumSample \<circ> VrUInt32) :: i64 \<times> u32 \<Rightarrow> i64 \<times> sample)"
    by (auto simp: inj_on_def)
  moreover have "map (apsnd (NumSample \<circ> VrUInt32)) v
      = map (apsnd (NumSample \<circ> VrUInt32)) (map (\<lambda>i. (sample_time i, COUNTER_VALUES ! i)) [0..<5])"
    using v(2) assms(5) by (simp add: counter_log_def comp_def del: upt.simps)
  ultimately have "v = map (\<lambda>i. (sample_time i, COUNTER_VALUES ! i)) [0..<5]" by (simp only: inj_map_eq_map)
  then show ?thesis
    using v(1) Timestamped by (simp add: assert_counter_channel_def assms(1) first_error_pairs assert_that_def del: upt.simps)
next
  case (VariableChannel v)
  then show ?thesis using assms(2,4) by (simp add: channel_shape_def)
qed (use assms(3) in \<open>simp add: is_equidistant_def\<close>)

lemma message_channel_ok:
  assumes "dm_channel m ''Demo.Message'' = Inr (Some c)" and "channel_shape c" and "channel_data_type c = DtString"
    and "channel_log c = Inr message_log"
  shows "assert_message_channel m = Inr ()"
proof (cases c)
  case (VariableChannel v)
  then obtain texts where t: "as_strings v = Inr texts"
      "channel_log c = Inr (zip (vc_timestamps_ns v) (map (VarSample \<circ> VrString) texts))"
    using variable_text_access [OF assms(2) [unfolded VariableChannel]] assms(3) by (auto simp: text_access_def)
  have "inj (apsnd (VarSample \<circ> VrString) :: i64 \<times> string \<Rightarrow> i64 \<times> sample)"
    by (auto simp: inj_on_def)
  moreover have "map (apsnd (VarSample \<circ> VrString)) (zip (vc_timestamps_ns v) texts)
      = map (apsnd (VarSample \<circ> VrString)) (map (\<lambda>i. (sample_time i, MESSAGE_TEXTS ! i)) [0..<5])"
    using t(2) assms(4) by (simp add: message_log_def map_apsnd_zip comp_def del: upt.simps)
  ultimately have "zip (vc_timestamps_ns v) texts = map (\<lambda>i. (sample_time i, MESSAGE_TEXTS ! i)) [0..<5]"
    by (simp only: inj_map_eq_map)
  then show ?thesis
    using t(1) VariableChannel by (simp add: assert_message_channel_def assms(1) first_error_pairs assert_that_def del: upt.simps)
next
  case (Equidistant e)
  then show ?thesis using assms(2,3) by (cases "ec_samples e") (auto simp: channel_shape_def)
next
  case (Timestamped t)
  then show ?thesis using assms(2,3) by (cases "tc_values t") (auto simp: channel_shape_def)
qed

lemma refs_file_checked:
  assumes lex: "lexes_refs (ex_quick_xml ex) created_utc" and created: "\<forall>c \<in> set created_utc. ascii_char c"
      "length created_utc < 1000"
    and d: "delivers (refs_config created_utc) (ex_crc32c ex) data blks" and blks: "refs_blocks blks"
  obtains m where "load_from_file ex fill (source (assemble_file created_utc data)) file_size = Inr m"
    "assert_counter_channel m = Inr ()" "assert_message_channel m = Inr ()" "trouble (dm_stats m) = no_trouble"
    "rs_blocks_read (dm_stats m) = 10" "rs_blocks_total (dm_stats m) = 10"
    "map channel_log (dm_channels m) = [Inr counter_log, Inr message_log]"
proof -
  let ?s = "source (assemble_file created_utc data)" and ?meta = "refs_meta created_utc"
  obtain header s1 where opened: "open_metablock ex ?s = Inr (header, ?meta, s1, source data)" "mh_integrity header = IpNone"
    using refs_opened(2) [OF lex created] by blast
  have supported: "\<forall>m \<in> set (mb_channels ?meta). \<not> is_unsupported (mc_data_type m)"
    by (simp add: refs_meta_def refs_channel_def)
  have typed: "\<forall>blk \<in> set blks. \<exists>m \<in> set (mb_channels ?meta). blk_channel_index blk = mc_index m
      \<and> timestamped_kind (mc_data_type m) (blk_kind blk)"
    using blks by (fastforce simp: refs_blocks_def refs_meta_def refs_channel_def counter_blk_def message_blk_def)
  note new = new_reader_at(1-4) [OF refs_distinct, where profile = IpNone and file_size = file_size,
      folded refs_config_def]
  obtain r' where r': "items (ex_crc32c ex) (sized file_size (with_integrity (mh_integrity header)
        (block_reader_new (source data) ?meta))) = (map Inr blks, r')" "trouble (br_stats r') = no_trouble"
    and decoded: "list_all (\<lambda>blk. \<not> is_skipped (blk_kind blk)) blks"
    using items_delivered [OF d new(1-3)] new(4) opened(2) by auto
  obtain m where m: "load_from_file ex fill ?s file_size = Inr m"
    and view: "map (\<lambda>c. (channel_index c, channel_name c, channel_data_type c, channel_log c)) (dm_channels m)
       = map (\<lambda>c. (mc_index c, mc_name c, mc_data_type c, Inr (stream_log (mc_index c) blks))) (mb_channels ?meta)"
    and stamped: "\<forall>c \<in> set (dm_channels m). channel_log c = Inr [] \<or> \<not> is_equidistant c"
    and calm: "trouble (dm_stats m) = trouble (br_stats r')"
    and counts: "rs_blocks_read (dm_stats m) = length (filter (\<lambda>blk. \<not> is_skipped (blk_kind blk)) blks)"
      "rs_blocks_total (dm_stats m) = length blks"
    using stream_loads [OF refs_opened(1) [OF lex created] opened(1) refs_distinct supported typed r'(1)] .
  have view2: "map (\<lambda>c. (channel_index c, channel_name c, channel_data_type c, channel_log c)) (dm_channels m)
      = [(COUNTER_CHANNEL_INDEX, ''Demo.Counter'', DtUInt32, Inr counter_log),
         (MESSAGE_CHANNEL_INDEX, ''Demo.Message'', DtString, Inr message_log)]"
    using view blks by (simp add: refs_meta_def refs_channel_def refs_blocks_def)
  then obtain c0 c1 where c: "dm_channels m = [c0, c1]" by (auto simp: map_eq_Cons_conv)
  obtain st where st: "load_from_stream_with_size ex st file_size = Inr m" using file_streamed [OF m] .
  have shapes: "channel_shape c0" "channel_shape c1" using streamed_shape [OF st] c by simp_all
  have found: "dm_channel m ''Demo.Counter'' = Inr (Some c0)" "dm_channel m ''Demo.Message'' = Inr (Some c1)"
    using streamed_lookups [OF st] view2 by (simp_all add: c)
  have "counter_log \<noteq> []" by (simp add: counter_log_def)
  then have "assert_counter_channel m = Inr ()"
    using counter_channel_ok [OF found(1) shapes(1)] stamped view2 by (auto simp: c)
  moreover have "assert_message_channel m = Inr ()"
    using message_channel_ok [OF found(2) shapes(2)] view2 by (simp add: c)
  moreover have "filter (\<lambda>blk. \<not> is_skipped (blk_kind blk)) blks = blks" using decoded by (simp add: list_all_iff)
  ultimately show ?thesis
    using that [OF m] calm r'(2) counts blks view2 by (simp add: refs_blocks_def c)
qed

lemma created_ascii:
  "\<forall>c \<in> set CREATED_UTC_MESSAGE_EVENT. ascii_char c" "length CREATED_UTC_MESSAGE_EVENT < 1000"
  "\<forall>c \<in> set CREATED_UTC_EQUIVALENT. ascii_char c" "length CREATED_UTC_EQUIVALENT < 1000"
  by (simp_all add: CREATED_UTC_MESSAGE_EVENT_def CREATED_UTC_EQUIVALENT_def ascii_char_def)

lemma checks_pass:
  assumes "load_from_file ex fill (source bytes) (Some (length bytes)) = Inr m"
    and "assert_counter_channel m = Inr ()" and "assert_message_channel m = Inr ()"
    and "trouble (dm_stats m) = no_trouble" and "rs_blocks_read (dm_stats m) = 10" and "rs_blocks_total (dm_stats m) = 10"
  shows "verify_message_event_file ex fill bytes = Inr ()" and "verify_equivalent_file ex fill bytes = Inr ()"
  using assms
  by (simp_all add: verify_message_event_file_def verify_equivalent_file_def load_expect_def assert_that_def
      no_trouble_counters Let_def)

text \<open>
  C13. The two reference files hold the same channels. Both files are built; each, read through a source with
  any buffering, passes every check of its verifier (both channels sample by sample, 10 blocks, all read,
  nothing skipped or truncated); and although one file is ordered by channel and encodes messages as
  \<open>bcMessageEvent\<close>, and the other alternates and uses \<open>bcAbsTimeStampData\<close>, the loaded channels have the same
  timed samples. \<open>quick-xml\<close> is only assumed to tokenise the two metablocks.
\<close>

theorem reference_files_agree:
  assumes "lexes_refs (ex_quick_xml ex) CREATED_UTC_MESSAGE_EVENT"
    and "lexes_refs (ex_quick_xml ex) CREATED_UTC_EQUIVALENT"
  shows "\<exists>event equivalent m m'.
     build_message_event_file = Inr event \<and> build_equivalent_file = Inr equivalent
     \<and> verify_message_event_file ex fill event = Inr () \<and> verify_equivalent_file ex fill' equivalent = Inr ()
     \<and> load_from_file ex fill (source event) (Some (length event)) = Inr m
     \<and> load_from_file ex fill' (source equivalent) (Some (length equivalent)) = Inr m'
     \<and> map channel_log (dm_channels m) = map channel_log (dm_channels m')"
proof -
  obtain data where e: "build_message_event_file = Inr (assemble_file CREATED_UTC_MESSAGE_EVENT data)"
    "delivers (refs_config CREATED_UTC_MESSAGE_EVENT) (ex_crc32c ex) data message_event_blocks"
    using message_event_file_built .
  obtain data' where q: "build_equivalent_file = Inr (assemble_file CREATED_UTC_EQUIVALENT data')"
    "delivers (refs_config CREATED_UTC_EQUIVALENT) (ex_crc32c ex) data' equivalent_blocks"
    using equivalent_file_built .
  let ?e = "assemble_file CREATED_UTC_MESSAGE_EVENT data" and ?q = "assemble_file CREATED_UTC_EQUIVALENT data'"
  obtain m where m: "load_from_file ex fill (source ?e) (Some (length ?e)) = Inr m"
    "assert_counter_channel m = Inr ()" "assert_message_channel m = Inr ()" "trouble (dm_stats m) = no_trouble"
    "rs_blocks_read (dm_stats m) = 10" "rs_blocks_total (dm_stats m) = 10"
    "map channel_log (dm_channels m) = [Inr counter_log, Inr message_log]"
    using refs_file_checked [OF assms(1) created_ascii(1,2) e(2) generated_blocks(1)] .
  obtain m' where m': "load_from_file ex fill' (source ?q) (Some (length ?q)) = Inr m'"
    "assert_counter_channel m' = Inr ()" "assert_message_channel m' = Inr ()" "trouble (dm_stats m') = no_trouble"
    "rs_blocks_read (dm_stats m') = 10" "rs_blocks_total (dm_stats m') = 10"
    "map channel_log (dm_channels m') = [Inr counter_log, Inr message_log]"
    using refs_file_checked [OF assms(2) created_ascii(3,4) q(2) generated_blocks(2)] .
  have "map channel_log (dm_channels m) = map channel_log (dm_channels m')" using m(7) m'(7) by simp
  then show ?thesis
    using e(1) q(1) checks_pass(1) [OF m(1-6)] checks_pass(2) [OF m'(1-6)] m(1) m'(1) by blast
qed

text \<open>A tokeniser that finds the creation time where the document has it.\<close>

definition demo_refs_externals :: "int externals" where
  "demo_refs_externals =
     (demo_externals None)\<lparr>ex_quick_xml := (\<lambda>doc. map Some (refs_events (take 24 (drop 73 doc))))\<rparr>"

lemma demo_refs_lexes:
  "lexes_refs (ex_quick_xml demo_refs_externals) CREATED_UTC_MESSAGE_EVENT"
  "lexes_refs (ex_quick_xml demo_refs_externals) CREATED_UTC_EQUIVALENT"
proof -
  have "take 24 (drop 73 (metablock_xml CREATED_UTC_MESSAGE_EVENT)) = CREATED_UTC_MESSAGE_EVENT"
    "take 24 (drop 73 (metablock_xml CREATED_UTC_EQUIVALENT)) = CREATED_UTC_EQUIVALENT" by code_simp+
  then show "lexes_refs (ex_quick_xml demo_refs_externals) CREATED_UTC_MESSAGE_EVENT"
    "lexes_refs (ex_quick_xml demo_refs_externals) CREATED_UTC_EQUIVALENT"
    by (simp_all add: lexes_refs_def demo_refs_externals_def)
qed

theorem reference_files_agree_witness:
  "\<exists>event. build_message_event_file = Inr event \<and> verify_message_event_file demo_refs_externals 8 event = Inr ()"
  using reference_files_agree [OF demo_refs_lexes, of 8 8] by blast

section \<open>The program\<close>

lemma compare_keeps_files: "keeps_files (compare_or_write path bytes)"
  by (auto simp: keeps_files_def compare_or_write_def disk_read_def map_le_def split: sum.split read_error.split option.split)

lemma check_keeps_files: "keeps_files (check_file check path)"
  by (auto simp: keeps_files_def check_file_def split: sum.split)

lemma generator_keeps_files: "keeps_files (gen_message_event_refs ex fill)"
proof -
  have "keeps_files (seq_then (with_value build_message_event_file (compare_or_write message_event_path))
          (seq_then (with_value build_equivalent_file (compare_or_write equivalent_path))
          (seq_then (check_file (verify_message_event_file ex fill) message_event_path)
             (check_file (verify_equivalent_file ex fill) equivalent_path))))"
    by (intro keeps_files_seq keeps_files_value compare_keeps_files check_keeps_files)
  then show ?thesis by (simp add: keeps_files_def gen_message_event_refs_def)
qed

text \<open>
  C30. The generator reproduces or stops, and never overwrites. Whatever is on the disk, readable and writable or
  not, whatever the XML library does and however the run ends, no file is changed or removed. Where the directory
  exists, every path can be read and written, and the XML library splits the two metablocks into the events
  they are written as: if each of the two files is absent or holds the
  generated bytes, the run ends normally with both files in place and nothing else touched; if either holds
  anything else, the exit code is 1.
\<close>

theorem generator_never_overwrites:
  "dk_files d \<subseteq>\<^sub>m dk_files (snd (gen_message_event_refs ex fill d))
    \<and> (lexes_refs (ex_quick_xml ex) CREATED_UTC_MESSAGE_EVENT \<and> lexes_refs (ex_quick_xml ex) CREATED_UTC_EQUIVALENT
        \<and> dk_directory d \<and> dk_unreadable d = [] \<and> dk_unwritable d = []
      \<longrightarrow> (\<exists>event equivalent. build_message_event_file = Inr event \<and> build_equivalent_file = Inr equivalent
        \<and> (if dk_files d message_event_path \<in> {None, Some event} \<and> dk_files d equivalent_path \<in> {None, Some equivalent}
           then gen_message_event_refs ex fill d
             = (Inr (), d\<lparr>dk_files := (dk_files d)(message_event_path \<mapsto> event, equivalent_path \<mapsto> equivalent)\<rparr>)
           else fst (gen_message_event_refs ex fill d) = Inl (ExitCode 1))))"
proof (intro conjI impI, goal_cases)
  case 1
  show ?case using generator_keeps_files [of ex fill] by (simp add: keeps_files_def)
next
  case 2
  then have lexes: "lexes_refs (ex_quick_xml ex) CREATED_UTC_MESSAGE_EVENT" "lexes_refs (ex_quick_xml ex) CREATED_UTC_EQUIVALENT"
    and d: "dk_directory d" "dk_unreadable d = []" "dk_unwritable d = []" by simp_all
  obtain data where e: "build_message_event_file = Inr (assemble_file CREATED_UTC_MESSAGE_EVENT data)"
    "delivers (refs_config CREATED_UTC_MESSAGE_EVENT) (ex_crc32c ex) data message_event_blocks"
    using message_event_file_built .
  obtain data' where q: "build_equivalent_file = Inr (assemble_file CREATED_UTC_EQUIVALENT data')"
    "delivers (refs_config CREATED_UTC_EQUIVALENT) (ex_crc32c ex) data' equivalent_blocks"
    using equivalent_file_built .
  let ?e = "assemble_file CREATED_UTC_MESSAGE_EVENT data" and ?q = "assemble_file CREATED_UTC_EQUIVALENT data'"
  have ve: "verify_message_event_file ex fill ?e = Inr ()"
    using refs_file_checked [OF lexes(1) created_ascii(1,2) e(2) generated_blocks(1), of fill "Some (length ?e)"]
      checks_pass(1) by metis
  have vq: "verify_equivalent_file ex fill ?q = Inr ()"
    using refs_file_checked [OF lexes(2) created_ascii(3,4) q(2) generated_blocks(2), of fill "Some (length ?q)"]
      checks_pass(2) by metis
  have ne: "message_event_path \<noteq> equivalent_path" by (simp add: message_event_path_def equivalent_path_def)
  have compared: "compare_or_write path bytes d' =
      (if dk_files d' path \<in> {None, Some bytes} then (Inr (), d'\<lparr>dk_files := (dk_files d')(path \<mapsto> bytes)\<rparr>)
       else (Inl (ExitCode 1), d'))" if "dk_unreadable d' = []" "dk_unwritable d' = []" for path bytes d'
    using that by (auto simp: compare_or_write_def disk_read_def fun_upd_idem split: option.split)
  have checked: "check_file check path d' = (Inr (), d')"
    if "dk_unreadable d' = []" "dk_files d' path = Some bytes" "check bytes = Inr ()" for check path bytes d'
    using that by (simp add: check_file_def disk_read_def)
  show ?case
    using d ne ve vq
    by (intro exI [of _ ?e] exI [of _ ?q])
       (auto simp: gen_message_event_refs_def seq_then_def with_value_def e(1) q(1) compared checked)
qed

theorem generator_never_overwrites_witness:
  "\<exists>event equivalent.
     gen_message_event_refs demo_refs_externals 8
       \<lparr>dk_files = Map.empty, dk_unreadable = [], dk_unwritable = [], dk_directory = True\<rparr>
     = (Inr (), \<lparr>dk_files = [message_event_path \<mapsto> event, equivalent_path \<mapsto> equivalent], dk_unreadable = [],
                 dk_unwritable = [], dk_directory = True\<rparr>)"
  using generator_never_overwrites [where ex = demo_refs_externals and fill = 8
      and d = "\<lparr>dk_files = Map.empty, dk_unreadable = [], dk_unwritable = [], dk_directory = True\<rparr>"] demo_refs_lexes
  by auto

end
