(* ===== verification/Bindings.thy ===== *)
theory Bindings
  imports Access Report
begin

text \<open>
  The reading half of the Python bindings (\<open>implementations/python/src\<close>): \<open>numpy_convert.rs\<close>,
  \<open>channel.rs\<close>, the lookups of \<open>manager.rs\<close> and \<open>error.rs\<close>. Python objects are what the bindings can
  tell apart: a one-dimensional array has an element type and is contiguous or not. The reports with
  \<open>{:?}\<close> of a text or \<open>{}\<close> of an \<open>f64\<close> are left out.
\<close>

section \<open>Python values\<close>

datatype np_array =
    NaBool "bool list"
  | NaInt8 "i8 list"
  | NaInt16 "i16 list"
  | NaInt32 "i32 list"
  | NaInt64 "i64 list"
  | NaUInt8 "u8 list"
  | NaUInt16 "u16 list"
  | NaUInt32 "u32 list"
  | NaUInt64 "u64 list"
  | NaFloat32 "f32 list"
  | NaFloat64 "f64 list"

text \<open>\<open>NpMatrix\<close> is a two-dimensional array of \<open>f64\<close>, by rows; \<open>PyOther\<close> is any other object.\<close>

datatype py_object =
    NpArray bool np_array
  | NpMatrix "f64 list list"
  | PyStrList "string list"
  | PyBytesList "byte list list"
  | PyNone
  | PyOther

text \<open>
  What a call raises. \<open>convert_error\<close> keeps the core error (the code keeps its message); a panic
  unwinds past it, and PyO3 raises \<open>PanicException\<close>.
\<close>

datatype py_error =
    OsfError osf_error
  | OsfErrorText string
  | ValueError string
  | NotContiguousError
  | PanicException string

fun convert_error :: "osf_error \<Rightarrow> py_error" where
  "convert_error (Panic msg) = PanicException msg"
| "convert_error err = OsfError err"

definition py_result :: "osf_error + 'a \<Rightarrow> py_error + 'a" where
  "py_result r = (case r of Inl e \<Rightarrow> Inl (convert_error e) | Inr v \<Rightarrow> Inr v)"

lemma py_result_simps [simp]:
  "py_result (Inl e) = Inl (convert_error e)" "py_result (Inr v) = Inr v"
  by (simp_all add: py_result_def)

lemma py_result_eq_Inr_iff [simp]: "py_result r = Inr v \<longleftrightarrow> r = Inr v"
  by (cases r) simp_all

section \<open>\<open>numpy_convert.rs\<close>\<close>

definition gps_row :: "gps_location \<Rightarrow> f64 list" where
  "gps_row g = [latitude g, longitude g, altitude g]"

fun numeric_values_to_pyobject :: "numeric_values \<Rightarrow> py_object" where
  "numeric_values_to_pyobject (NvBool v) = NpArray True (NaBool v)"
| "numeric_values_to_pyobject (NvInt8 v) = NpArray True (NaInt8 v)"
| "numeric_values_to_pyobject (NvInt16 v) = NpArray True (NaInt16 v)"
| "numeric_values_to_pyobject (NvInt32 v) = NpArray True (NaInt32 v)"
| "numeric_values_to_pyobject (NvInt64 v) = NpArray True (NaInt64 v)"
| "numeric_values_to_pyobject (NvUInt8 v) = NpArray True (NaUInt8 v)"
| "numeric_values_to_pyobject (NvUInt16 v) = NpArray True (NaUInt16 v)"
| "numeric_values_to_pyobject (NvUInt32 v) = NpArray True (NaUInt32 v)"
| "numeric_values_to_pyobject (NvUInt64 v) = NpArray True (NaUInt64 v)"
| "numeric_values_to_pyobject (NvFloat v) = NpArray True (NaFloat32 v)"
| "numeric_values_to_pyobject (NvDouble v) = NpArray True (NaFloat64 v)"
| "numeric_values_to_pyobject (NvGpsLocation v) = NpMatrix (map gps_row v)"

definition timestamps_ns_to_pyobject :: "i64 list \<Rightarrow> py_object" where
  "timestamps_ns_to_pyobject ts = NpArray True (NaInt64 ts)"

definition strings_to_pylist :: "string list \<Rightarrow> py_object" where
  "strings_to_pylist strings = PyStrList strings"

definition binaries_to_pylist :: "byte list list \<Rightarrow> py_object" where
  "binaries_to_pylist binaries = PyBytesList binaries"

section \<open>Channels\<close>

record py_segment =
  ps_start_timestamp_ns :: i64
  ps_sample_rate_hz :: f64
  ps_sample_count :: nat

record py_channel = pc_inner :: channel

fun data_type_to_str :: "data_type \<Rightarrow> string" where
  "data_type_to_str DtBool = ''bool''"
| "data_type_to_str DtInt8 = ''int8''"
| "data_type_to_str DtInt16 = ''int16''"
| "data_type_to_str DtInt32 = ''int32''"
| "data_type_to_str DtInt64 = ''int64''"
| "data_type_to_str DtUInt8 = ''uint8''"
| "data_type_to_str DtUInt16 = ''uint16''"
| "data_type_to_str DtUInt32 = ''uint32''"
| "data_type_to_str DtUInt64 = ''uint64''"
| "data_type_to_str DtFloat = ''float''"
| "data_type_to_str DtDouble = ''double''"
| "data_type_to_str DtString = ''string''"
| "data_type_to_str DtBinary = ''binary''"
| "data_type_to_str DtByteArray = ''binary''"
| "data_type_to_str DtGpsLocation = ''gpslocation''"
| "data_type_to_str (DtUnsupported _) = ''unsupported''"

definition py_channel_index :: "py_channel \<Rightarrow> u16" where
  "py_channel_index c = channel_index (pc_inner c)"

definition py_channel_name :: "py_channel \<Rightarrow> string" where
  "py_channel_name c = channel_name (pc_inner c)"

definition py_data_type :: "py_channel \<Rightarrow> string" where
  "py_data_type c = data_type_to_str (channel_data_type (pc_inner c))"

definition py_channel_type :: "py_channel \<Rightarrow> string" where
  "py_channel_type c =
     (case pc_inner c of
        Equidistant _ \<Rightarrow> ''equidistant''
      | Timestamped _ \<Rightarrow> ''timestamped''
      | VariableChannel _ \<Rightarrow> ''variable'')"

definition py_sample_count :: "py_channel \<Rightarrow> nat" where
  "py_sample_count c = channel_sample_count (pc_inner c)"

definition py_physical_unit :: "py_channel \<Rightarrow> string option" where
  "py_physical_unit c = channel_physical_unit (pc_inner c)"

definition py_display_name :: "py_channel \<Rightarrow> string option" where
  "py_display_name c = channel_display_name (pc_inner c)"

definition py_is_empty :: "py_channel \<Rightarrow> bool" where
  "py_is_empty c = channel_is_empty (pc_inner c)"

definition py_segment_of :: "segment \<Rightarrow> py_segment" where
  "py_segment_of s =
     \<lparr>ps_start_timestamp_ns = start_timestamp_ns s, ps_sample_rate_hz = sample_rate_hz s,
      ps_sample_count = sample_count s\<rparr>"

definition py_segments :: "py_channel \<Rightarrow> py_segment list" where
  "py_segments c = (case pc_inner c of Equidistant eq \<Rightarrow> map py_segment_of (ec_segments eq) | _ \<Rightarrow> [])"

definition py_samples :: "py_channel \<Rightarrow> py_object" where
  "py_samples c =
     (case pc_inner c of
        Equidistant eq \<Rightarrow> numeric_values_to_pyobject (ec_samples eq)
      | Timestamped ts \<Rightarrow> numeric_values_to_pyobject (tc_values ts)
      | VariableChannel var \<Rightarrow>
          (case as_strings var of
             Inr strings \<Rightarrow> strings_to_pylist strings
           | Inl _ \<Rightarrow> (case as_binaries var of
                         Inr binaries \<Rightarrow> binaries_to_pylist binaries
                       | Inl _ \<Rightarrow> PyNone)))"

text \<open>The nested loops of \<open>equidistant_timestamps\<close>: the code computes each time anew.\<close>

definition equidistant_timestamps :: "equidistant_channel \<Rightarrow> i64 list" where
  "equidistant_timestamps eq =
     concat (map (\<lambda>seg. map (\<lambda>i.
         if f64_gt_zero (sample_rate_hz seg) \<and> 0 < i
         then (let offset = f64_to_i64 (f64_div (f64_mul (f64_of_nat i) f64_1e9) (sample_rate_hz seg))
               in i64_saturating_add (start_timestamp_ns seg) offset)
         else start_timestamp_ns seg) [0..<sample_count seg])
       (ec_segments eq))"

definition py_timestamps_ns :: "py_channel \<Rightarrow> py_object" where
  "py_timestamps_ns c =
     (case pc_inner c of
        Equidistant eq \<Rightarrow> timestamps_ns_to_pyobject (equidistant_timestamps eq)
      | Timestamped ts \<Rightarrow> timestamps_ns_to_pyobject (tc_timestamps_ns ts)
      | VariableChannel var \<Rightarrow> timestamps_ns_to_pyobject (vc_timestamps_ns var))"

section \<open>Statistics\<close>

text \<open>\<open>PyStats\<close>: the statistics and the elapsed time, which the model keeps apart.\<close>

record py_stats =
  pst_inner :: reader_stats
  pst_elapsed :: duration

definition py_compressed :: "py_stats \<Rightarrow> bool" where
  "py_compressed s = rs_compressed (pst_inner s)"

definition py_compression_format :: "py_stats \<Rightarrow> string option" where
  "py_compression_format s =
     (case rs_compression_format (pst_inner s) of
        CfNone \<Rightarrow> None
      | CfZlib \<Rightarrow> Some ''zlib''
      | CfGzip \<Rightarrow> Some ''gzip'')"

definition py_channels_total :: "py_stats \<Rightarrow> nat" where
  "py_channels_total s = rs_channels_total (pst_inner s)"

definition py_channels_with_data :: "py_stats \<Rightarrow> nat" where
  "py_channels_with_data s = rs_channels_with_data (pst_inner s)"

definition py_blocks_total :: "py_stats \<Rightarrow> nat" where
  "py_blocks_total s = rs_blocks_total (pst_inner s)"

definition py_blocks_read :: "py_stats \<Rightarrow> nat" where
  "py_blocks_read s = rs_blocks_read (pst_inner s)"

definition py_blocks_truncated :: "py_stats \<Rightarrow> nat" where
  "py_blocks_truncated s = rs_blocks_truncated (pst_inner s)"

definition py_elapsed_ms :: "py_stats \<Rightarrow> f64" where
  "py_elapsed_ms s = f64_mul (as_secs_f64 (pst_elapsed s)) (f64_of_nat 1000)"

definition py_file_size_bytes :: "py_stats \<Rightarrow> nat option" where
  "py_file_size_bytes s = rs_file_size_bytes (pst_inner s)"

definition py_header_size_bytes :: "py_stats \<Rightarrow> nat" where
  "py_header_size_bytes s = rs_header_size_bytes (pst_inner s)"

definition py_metablock_size_bytes :: "py_stats \<Rightarrow> nat" where
  "py_metablock_size_bytes s = rs_metablock_size_bytes (pst_inner s)"

definition py_data_section_size_bytes :: "py_stats \<Rightarrow> nat" where
  "py_data_section_size_bytes s = rs_data_section_size_bytes (pst_inner s)"

definition py_trailer_seen :: "py_stats \<Rightarrow> bool" where
  "py_trailer_seen s = rs_trailer_seen (pst_inner s)"

definition py_integrity :: "py_stats \<Rightarrow> string" where
  "py_integrity s =
     (case rs_integrity (pst_inner s) of
        IpNone \<Rightarrow> ''none''
      | IpCrc32c \<Rightarrow> ''crc32c''
      | IpEd25519 \<Rightarrow> ''ed25519'')"

definition py_blocks_crc_failed :: "py_stats \<Rightarrow> nat" where
  "py_blocks_crc_failed s = rs_blocks_crc_failed (pst_inner s)"

definition py_blocks_signature_skipped :: "py_stats \<Rightarrow> nat" where
  "py_blocks_signature_skipped s = rs_blocks_signature_skipped (pst_inner s)"

definition py_blocks_skipped_zero_length :: "py_stats \<Rightarrow> nat" where
  "py_blocks_skipped_zero_length s = rs_blocks_skipped_zero_length (pst_inner s)"

definition py_blocks_skipped_deprecated_type :: "py_stats \<Rightarrow> nat" where
  "py_blocks_skipped_deprecated_type s = rs_blocks_skipped_deprecated_type (pst_inner s)"

definition py_blocks_skipped_status_event :: "py_stats \<Rightarrow> nat" where
  "py_blocks_skipped_status_event s = rs_blocks_skipped_status_event (pst_inner s)"

definition py_blocks_skipped_reserved_type :: "py_stats \<Rightarrow> nat" where
  "py_blocks_skipped_reserved_type s = rs_blocks_skipped_reserved_type (pst_inner s)"

definition py_verification_status :: "py_stats \<Rightarrow> string" where
  "py_verification_status s = verification_status (pst_inner s)"

definition show_bool :: "bool \<Rightarrow> string" where
  "show_bool b = (if b then ''true'' else ''false'')"

definition py_stats_repr :: "py_stats \<Rightarrow> string" where
  "py_stats_repr s =
     ''ReaderStats(channels_total='' @ show_nat (rs_channels_total (pst_inner s))
     @ '', blocks_total='' @ show_nat (rs_blocks_total (pst_inner s))
     @ '', elapsed_ms='' @ format_fixed 2 (py_elapsed_ms s)
     @ '', compressed='' @ show_bool (rs_compressed (pst_inner s)) @ '')''"

definition py_stats_str :: "py_stats \<Rightarrow> string" where
  "py_stats_str s = display_reader_stats (pst_elapsed s) (pst_inner s)"

section \<open>The manager\<close>

record py_data_manager =
  pdm_inner :: data_manager
  pdm_elapsed :: duration

definition py_dm_channel :: "py_data_manager \<Rightarrow> string \<Rightarrow> py_error + py_channel option" where
  "py_dm_channel m name =
     py_result (map_ok (map_option (\<lambda>c. \<lparr>pc_inner = c\<rparr>)) (dm_channel (pdm_inner m) name))"

definition py_dm_channel_by_index :: "py_data_manager \<Rightarrow> u16 \<Rightarrow> py_error + py_channel option" where
  "py_dm_channel_by_index m index =
     py_result (map_ok (map_option (\<lambda>c. \<lparr>pc_inner = c\<rparr>)) (dm_channel_by_index (pdm_inner m) index))"

definition py_dm_channels :: "py_data_manager \<Rightarrow> py_channel list" where
  "py_dm_channels m = map (\<lambda>c. \<lparr>pc_inner = c\<rparr>) (dm_channels (pdm_inner m))"

definition py_dm_stats :: "py_data_manager \<Rightarrow> py_stats" where
  "py_dm_stats m = \<lparr>pst_inner = dm_stats (pdm_inner m), pst_elapsed = pdm_elapsed m\<rparr>"

definition py_dm_len :: "py_data_manager \<Rightarrow> nat" where
  "py_dm_len m = length (dm_channels (pdm_inner m))"

definition py_dm_repr :: "py_data_manager \<Rightarrow> string" where
  "py_dm_repr m =
     ''DataManager(channels='' @ show_nat (length (dm_channels (pdm_inner m)))
     @ '', compressed='' @ show_bool (rs_compressed (dm_stats (pdm_inner m))) @ '')''"

text \<open>\<open>osf.load\<close>: the opened file as for \<open>load_from_file\<close>, and the time the load took.\<close>

definition py_load ::
  "'n externals \<Rightarrow> nat \<Rightarrow> duration \<Rightarrow> stream \<Rightarrow> nat option \<Rightarrow> py_error + py_data_manager"
where
  "py_load ex fill elapsed s file_size =
     map_ok (\<lambda>m. \<lparr>pdm_inner = m, pdm_elapsed = elapsed\<rparr>) (py_result (load_from_file ex fill s file_size))"

section \<open>What the arrays hold\<close>

fun array_samples :: "np_array \<Rightarrow> sample list" where
  "array_samples (NaBool v) = map (NumSample \<circ> VrBool) v"
| "array_samples (NaInt8 v) = map (NumSample \<circ> VrInt8) v"
| "array_samples (NaInt16 v) = map (NumSample \<circ> VrInt16) v"
| "array_samples (NaInt32 v) = map (NumSample \<circ> VrInt32) v"
| "array_samples (NaInt64 v) = map (NumSample \<circ> VrInt64) v"
| "array_samples (NaUInt8 v) = map (NumSample \<circ> VrUInt8) v"
| "array_samples (NaUInt16 v) = map (NumSample \<circ> VrUInt16) v"
| "array_samples (NaUInt32 v) = map (NumSample \<circ> VrUInt32) v"
| "array_samples (NaUInt64 v) = map (NumSample \<circ> VrUInt64) v"
| "array_samples (NaFloat32 v) = map (NumSample \<circ> VrFloat) v"
| "array_samples (NaFloat64 v) = map (NumSample \<circ> VrDouble) v"

fun row_gps :: "f64 list \<Rightarrow> gps_location option" where
  "row_gps [lat, lon, alt] = Some \<lparr>latitude = lat, longitude = lon, altitude = alt\<rparr>"
| "row_gps _ = None"

text \<open>The samples a Python object stands for, where it stands for samples at all.\<close>

fun py_elements :: "py_object \<Rightarrow> sample list option" where
  "py_elements (NpArray _ a) = Some (array_samples a)"
| "py_elements (NpMatrix rows) =
     map_option (map (NumSample \<circ> VrGpsLocation)) (those (map row_gps rows))"
| "py_elements (PyStrList v) = Some (map (VarSample \<circ> VrString) v)"
| "py_elements (PyBytesList v) = Some (map (VarSample \<circ> VrBinary) v)"
| "py_elements _ = None"

fun py_times :: "py_object \<Rightarrow> i64 list option" where
  "py_times (NpArray _ (NaInt64 ts)) = Some ts"
| "py_times _ = None"

lemma those_gps_rows: "those (map row_gps (map gps_row v)) = Some v"
  by (induction v) (simp_all add: gps_row_def)

lemma exported_elements: "py_elements (numeric_values_to_pyobject nv) = Some (map NumSample (refs_of nv))"
  by (cases nv) (simp_all add: those_gps_rows comp_def del: map_map, simp_all)

lemma exported_times: "py_times (timestamps_ns_to_pyobject ts) = Some ts"
  by (simp add: timestamps_ns_to_pyobject_def)

lemma equidistant_timestamps_segments: "equidistant_timestamps eq = segment_times (ec_segments eq)"
  unfolding equidistant_timestamps_def segment_times_def segment_timestamp_def Let_def ..

lemma segment_counts:
  "(\<Sum>seg\<leftarrow>segs. ps_sample_count (py_segment_of seg)) = length (segment_times segs)"
  by (simp add: segment_times_def length_concat comp_def py_segment_of_def)

text \<open>The arrays of a channel of the loaded shape.\<close>

lemma shaped_arrays:
  assumes shape: "channel_shape (pc_inner c)"
  shows "\<exists>entries. channel_log (pc_inner c) = Inr entries
     \<and> py_times (py_timestamps_ns c) = Some (map fst entries)
     \<and> py_elements (py_samples c) = Some (map snd entries)
     \<and> py_sample_count c = length entries
     \<and> (py_channel_type c = ''equidistant'' \<longrightarrow> (\<Sum>seg\<leftarrow>py_segments c. ps_sample_count seg) = length entries)"
proof -
  let ?c = "pc_inner c"
  obtain entries where log: "channel_log ?c = Inr entries" "channel_sample_count ?c = length entries"
    using shaped_log [OF shape] .
  show ?thesis
  proof (cases ?c)
    case (Equidistant e)
    then have tile: "segments_tile 0 (ec_segments e) (nv_len (ec_samples e))"
      using shape by (simp add: channel_shape_def)
    from Equidistant log(1) ec_log [OF tile]
    have entries: "entries = zip (segment_times (ec_segments e)) (map NumSample (refs_of (ec_samples e)))"
      by (simp add: map_apsnd_zip)
    have len: "length (segment_times (ec_segments e)) = nv_len (ec_samples e)"
      using segments_tile_times [OF tile] by simp
    then have "map fst entries = segment_times (ec_segments e)"
        "map snd entries = map NumSample (refs_of (ec_samples e))"
      by (simp_all add: entries)
    then show ?thesis using Equidistant log len
      by (simp add: py_samples_def py_timestamps_ns_def exported_elements exported_times
          equidistant_timestamps_segments py_sample_count_def py_segments_def segment_counts comp_def
          del: channel_log.simps)
  next
    case (Timestamped t)
    then have len: "length (tc_timestamps_ns t) = nv_len (tc_values t)" using shape by (simp add: channel_shape_def)
    from Timestamped log(1) tc_log [OF len]
    have entries: "entries = zip (tc_timestamps_ns t) (map NumSample (refs_of (tc_values t)))"
      by (simp add: map_apsnd_zip)
    then show ?thesis using Timestamped log len
      by (simp add: py_samples_def py_timestamps_ns_def exported_elements exported_times
          py_sample_count_def py_channel_type_def del: channel_log.simps)
  next
    case (VariableChannel v)
    then have "text_access ?c v" using shape variable_text_access by simp
    then show ?thesis using VariableChannel log shape
      by (cases "vc_data_type v = DtString")
         (auto simp: channel_shape_def text_access_def py_samples_def py_timestamps_ns_def as_strings_def
          as_binaries_def strings_to_pylist_def binaries_to_pylist_def exported_times py_sample_count_def
          py_channel_type_def simp del: channel_log.simps)
  qed
qed

text \<open>
  C11. Python sees the samples of the core library. For every channel of every manager \<open>osf.load\<close> returns,
  \<open>timestamps_ns()\<close> is an \<open>int64\<close> array and \<open>samples()\<close> an array or a list, both of length
  \<open>sample_count\<close>, that hold the times and the values of the core library's iteration in its order,
  although the bindings reconstruct equidistant times with code of their own; the segments cover
  exactly the samples of an equidistant channel.
\<close>

theorem python_arrays_agree:
  assumes "py_load ex fill elapsed s file_size = Inr m" and "c \<in> set (py_dm_channels m)"
  shows "\<exists>entries. channel_log (pc_inner c) = Inr entries
     \<and> py_times (py_timestamps_ns c) = Some (map fst entries)
     \<and> py_elements (py_samples c) = Some (map snd entries)
     \<and> py_sample_count c = length entries
     \<and> (py_channel_type c = ''equidistant'' \<longrightarrow> (\<Sum>seg\<leftarrow>py_segments c. ps_sample_count seg) = length entries)"
proof -
  have "load_from_file ex fill s file_size = Inr (pdm_inner m)" "pc_inner c \<in> set (dm_channels (pdm_inner m))"
    using assms by (auto simp: py_load_def py_dm_channels_def)
  then have "channel_shape (pc_inner c)" using file_streamed streamed_shape by metis
  then show ?thesis by (rule shaped_arrays)
qed

text \<open>A file written by the library, read from Python.\<close>

lemma demo_python_file:
  obtains s m where "py_load demo_written_externals 1 elapsed s file_size = Inr m"
    "map (channel_log \<circ> pc_inner) (py_dm_channels m) = [Inr [(5, NumSample (VrInt8 7))]]"
proof -
  have "\<exists>bytes m. write_to (ex_serde_json demo_written_externals) (ex_crc32c demo_written_externals) ''now''
         (demo_builder\<lparr>wb_integrity := IpNone, wb_file_info := file_info_draft_default\<rparr>) = Inr bytes
     \<and> load_from_file demo_written_externals 1 (source bytes) file_size = Inr m
     \<and> map (\<lambda>c. (channel_name c, channel_data_type c, channel_log c)) (dm_channels m)
         = map (\<lambda>(name, dt, entries). (name, dt, Inr entries))
             (fold call_log [AddChannel demo_def, AddTimestamped 0 [5] (NvInt8 [7])] [])
     \<and> rs_blocks_truncated (dm_stats m) = 0 \<and> rs_blocks_crc_failed (dm_stats m) = 0
     \<and> rs_blocks_total (dm_stats m) = rs_blocks_read (dm_stats m)
     \<and> rs_compression_format (dm_stats m) = CfNone
     \<and> fi_created_utc (mb_file_info (dm_meta m)) = Some ''now''
     \<and> fi_comment (mb_file_info (dm_meta m)) = fd_comment file_info_draft_default"
    by (rule written_file_loads [OF _ demo_calls]) (simp_all add: demo_conditions)
  then obtain bytes m where m: "load_from_file demo_written_externals 1 (source bytes) file_size = Inr m"
      "map (\<lambda>c. (channel_name c, channel_data_type c, channel_log c)) (dm_channels m)
        = [([], DtInt8, Inr [(5, NumSample (VrInt8 7))])]"
    unfolding demo_log by auto
  show ?thesis
  proof (rule that)
    show "py_load demo_written_externals 1 elapsed (source bytes) file_size = Inr \<lparr>pdm_inner = m, pdm_elapsed = elapsed\<rparr>"
      using m(1) by (simp add: py_load_def)
    show "map (channel_log \<circ> pc_inner) (py_dm_channels \<lparr>pdm_inner = m, pdm_elapsed = elapsed\<rparr>)
        = [Inr [(5, NumSample (VrInt8 7))]]"
      using m(2) by (auto simp: py_dm_channels_def)
  qed
qed

theorem python_arrays_agree_witness:
  "\<exists>s m c. py_load demo_written_externals 1 \<lparr>dur_secs = 0, dur_nanos = 5\<rparr> s (Some 99) = Inr m \<and> c \<in> set (py_dm_channels m)
     \<and> py_times (py_timestamps_ns c) = Some [5] \<and> py_elements (py_samples c) = Some [NumSample (VrInt8 7)]"
proof -
  obtain s m where m: "py_load demo_written_externals 1 \<lparr>dur_secs = 0, dur_nanos = 5\<rparr> s (Some 99) = Inr m"
      "map (channel_log \<circ> pc_inner) (py_dm_channels m) = [Inr [(5, NumSample (VrInt8 7))]]"
    by (rule demo_python_file)
  then obtain c where c: "c \<in> set (py_dm_channels m)" "channel_log (pc_inner c) = Inr [(5, NumSample (VrInt8 7))]"
    by (cases "py_dm_channels m") auto
  show ?thesis using python_arrays_agree [OF m(1) c(1)] c m(1) by auto
qed

end
