(* ===== verification/PyWriter.thy ===== *)
theory PyWriter
  imports Bindings
begin

text \<open>
  The writing half of the Python bindings (\<open>implementations/python/src/writer.rs\<close>): \<open>PyWriterBuilder\<close>
  and \<open>osf.save\<close>. The wrapper owns an \<open>Option<WriterBuilder>\<close>; \<open>None\<close> means consumed. A method returns its
  result or what it raises, together with the wrapper, which Python code that catches the exception
  still holds. Arguments arrive as PyO3 has converted them; files are the bytes written to them, and
  \<open>created\<close> is the outcome of \<open>File::create\<close>.
\<close>

section \<open>Writing to a path\<close>

definition write_to_file ::
  "'n externals \<Rightarrow> string \<Rightarrow> osf_error + unit \<Rightarrow> writer_builder \<Rightarrow> osf_error + byte list"
where
  "write_to_file ex now created b =
     and_then created (\<lambda>_. write_to (ex_serde_json ex) (ex_crc32c ex) now b)"

definition write_manager_to_file ::
  "'n externals \<Rightarrow> string \<Rightarrow> osf_error + unit \<Rightarrow> data_manager \<Rightarrow> osf_error + byte list"
where
  "write_manager_to_file ex now created manager =
     and_then (from_manager (dm_meta manager) (dm_channels manager)) (\<lambda>b. write_to_file ex now created b)"

section \<open>Texts\<close>

text \<open>The messages for unknown texts end before the text they quote.\<close>

definition parse_integrity_str :: "string \<Rightarrow> py_error + integrity_profile" where
  "parse_integrity_str s =
     (if s = ''none'' then Inr IpNone
      else if s = ''crc32c'' then Inr IpCrc32c
      else if s = ''ed25519'' then Inl (ValueError ''integrity ed25519 (signing) is not supported by the writer'')
      else Inl (ValueError ''unknown integrity''))"

definition parse_data_type_str :: "string \<Rightarrow> py_error + data_type" where
  "parse_data_type_str s =
     (if s = ''bool'' then Inr DtBool
      else if s = ''int8'' then Inr DtInt8
      else if s = ''int16'' then Inr DtInt16
      else if s = ''int32'' then Inr DtInt32
      else if s = ''int64'' then Inr DtInt64
      else if s = ''uint8'' then Inr DtUInt8
      else if s = ''uint16'' then Inr DtUInt16
      else if s = ''uint32'' then Inr DtUInt32
      else if s = ''uint64'' then Inr DtUInt64
      else if s = ''float'' then Inr DtFloat
      else if s = ''double'' then Inr DtDouble
      else if s = ''string'' then Inr DtString
      else if s = ''binary'' then Inr DtBinary
      else if s = ''gpslocation'' then Inr DtGpsLocation
      else Inl (ValueError ''unknown data_type''))"

definition parse_channel_type_str :: "string \<Rightarrow> py_error + channel_type" where
  "parse_channel_type_str s =
     (if s = ''scalar'' then Inr CtScalar
      else if s = ''vector'' then Inr CtVector
      else if s = ''matrix'' then Inr CtMatrix
      else if s = ''binary'' then Inr CtBinary
      else Inl (ValueError ''unknown channel_type''))"

section \<open>The wrapper\<close>

record py_writer_builder = pw_inner :: "writer_builder option"

type_synonym 'a py_method = "py_writer_builder \<Rightarrow> (py_error + 'a) \<times> py_writer_builder"

definition py_builder_new :: py_writer_builder where
  "py_builder_new = \<lparr>pw_inner = Some writer_builder_new\<rparr>"

definition builder_consumed :: py_error where
  "builder_consumed = OsfErrorText ''WriterBuilder already consumed by write_to_file()''"

text \<open>\<open>Option::take\<close> leaves \<open>None\<close> behind.\<close>

definition take_inner :: "writer_builder py_method" where
  "take_inner w = (ok_or builder_consumed (pw_inner w), w\<lparr>pw_inner := None\<rparr>)"

text \<open>The setters: take the builder out, store the changed builder, return \<open>self\<close>.\<close>

definition restore_inner :: "(writer_builder \<Rightarrow> writer_builder) \<Rightarrow> unit py_method" where
  "restore_inner f w =
     (case take_inner w of
        (Inl e, w') \<Rightarrow> (Inl e, w')
      | (Inr inner, w') \<Rightarrow> (Inr (), w'\<lparr>pw_inner := Some (f inner)\<rparr>))"

definition py_creator :: "string \<Rightarrow> unit py_method" where
  "py_creator v = restore_inner (set_creator v)"

definition py_tag :: "string \<Rightarrow> unit py_method" where
  "py_tag v = restore_inner (set_tag v)"

definition py_reason :: "string \<Rightarrow> unit py_method" where
  "py_reason v = restore_inner (set_reason v)"

definition py_location :: "f64 \<Rightarrow> f64 \<Rightarrow> f64 \<Rightarrow> unit py_method" where
  "py_location lat lon alt = restore_inner (set_location lat lon alt)"

definition py_namespace_sep :: "string \<Rightarrow> unit py_method" where
  "py_namespace_sep v = restore_inner (set_namespace_sep v)"

definition py_comment :: "string \<Rightarrow> unit py_method" where
  "py_comment v = restore_inner (set_comment v)"

definition py_with_integrity :: "string \<Rightarrow> unit py_method" where
  "py_with_integrity profile w =
     (case parse_integrity_str profile of
        Inl e \<Rightarrow> (Inl e, w)
      | Inr p \<Rightarrow> restore_inner (writer_with_integrity p) w)"

text \<open>
  \<open>self.inner.as_mut().ok_or_else(builder_consumed)?\<close> and a call on the builder; a failed call leaves
  the builder as it was.
\<close>

definition with_inner :: "(writer_builder \<Rightarrow> py_error + ('a \<times> writer_builder)) \<Rightarrow> 'a py_method" where
  "with_inner f w =
     (case pw_inner w of
        None \<Rightarrow> (Inl builder_consumed, w)
      | Some inner \<Rightarrow>
          (case f inner of
             Inl e \<Rightarrow> (Inl e, w)
           | Inr (v, inner') \<Rightarrow> (Inr v, w\<lparr>pw_inner := Some inner'\<rparr>)))"

text \<open>The arguments of \<open>add_channel\<close> and the defaults of its keyword arguments.\<close>

record channel_args =
  ca_name :: string
  ca_data_type :: string
  ca_channel_type :: string
  ca_physical_unit :: "string option"
  ca_physical_dimension :: "string option"
  ca_display_name :: "string option"
  ca_mime_type :: "string option"
  ca_reference :: "string option"
  ca_comment :: "string option"
  ca_size_of_length_value :: u8
  ca_time_increment_ns :: "i64 option"

definition channel_args_for :: "string \<Rightarrow> string \<Rightarrow> string \<Rightarrow> channel_args" where
  "channel_args_for name dt ct =
     \<lparr>ca_name = name, ca_data_type = dt, ca_channel_type = ct, ca_physical_unit = None,
      ca_physical_dimension = None, ca_display_name = None, ca_mime_type = None, ca_reference = None,
      ca_comment = None, ca_size_of_length_value = 2, ca_time_increment_ns = None\<rparr>"

definition py_channel_def :: "channel_args \<Rightarrow> data_type \<Rightarrow> channel_type \<Rightarrow> channel_def" where
  "py_channel_def args dt ct =
     \<lparr>cd_name = ca_name args, cd_data_type = dt, cd_channel_type = ct,
      cd_size_of_length_value = ca_size_of_length_value args, cd_physical_unit = ca_physical_unit args,
      cd_physical_dimension = ca_physical_dimension args, cd_display_name = ca_display_name args,
      cd_mime_type = ca_mime_type args, cd_spectrum_type = None, cd_reference = ca_reference args,
      cd_comment = ca_comment args, cd_time_increment_ns = ca_time_increment_ns args\<rparr>"

definition py_add_channel :: "channel_args \<Rightarrow> u16 py_method" where
  "py_add_channel args w =
     (case parse_data_type_str (ca_data_type args) of
        Inl e \<Rightarrow> (Inl e, w)
      | Inr dt \<Rightarrow>
          (case parse_channel_type_str (ca_channel_type args) of
             Inl e \<Rightarrow> (Inl e, w)
           | Inr ct \<Rightarrow>
               with_inner (\<lambda>inner. py_result (add_channel (py_channel_def args dt ct) inner)) w))"

section \<open>Samples\<close>

definition as_slice :: "bool \<Rightarrow> 'a list \<Rightarrow> py_error + 'a list" where
  "as_slice contiguous v = (if contiguous then Inr v else Inl NotContiguousError)"

definition py_done :: "osf_error + writer_builder \<Rightarrow> py_error + (unit \<times> writer_builder)" where
  "py_done r = map_ok (Pair ()) (py_result r)"

definition py_add_equidistant_segment :: "u16 \<Rightarrow> i64 \<Rightarrow> f64 \<Rightarrow> py_object \<Rightarrow> unit py_method" where
  "py_add_equidistant_segment channel start_ns rate_hz values_arg =
     with_inner (\<lambda>inner. case values_arg of
         NpArray contiguous (NaFloat64 arr) \<Rightarrow>
           and_then (as_slice contiguous arr) (\<lambda>slice.
             py_done (add_equidistant_segment_f64 channel start_ns rate_hz slice inner))
       | NpArray contiguous (NaFloat32 arr) \<Rightarrow>
           and_then (as_slice contiguous arr) (\<lambda>slice.
             py_done (add_equidistant_segment_f32 channel start_ns rate_hz slice inner))
       | _ \<Rightarrow> Inl (ValueError ''add_equidistant_segment expects a 1D float32 or float64 numpy array''))"

definition timestamp_slice :: "py_object \<Rightarrow> py_error + i64 list" where
  "timestamp_slice timestamps_ns =
     (case timestamps_ns of
        NpArray contiguous (NaInt64 ts) \<Rightarrow> as_slice contiguous ts
      | _ \<Rightarrow> Inl (ValueError ''timestamps_ns must be a 1D int64 numpy array''))"

text \<open>The macro \<open>try_dispatch\<close>: the element type of the array picks the method.\<close>

fun try_dispatch :: "u16 \<Rightarrow> i64 list \<Rightarrow> bool \<Rightarrow> np_array \<Rightarrow> writer_builder \<Rightarrow> py_error + (unit \<times> writer_builder)" where
  "try_dispatch ch ts contiguous (NaBool arr) b =
     and_then (as_slice contiguous arr) (\<lambda>s. py_done (add_timestamped_samples ch ts (NvBool s) b))"
| "try_dispatch ch ts contiguous (NaInt8 arr) b =
     and_then (as_slice contiguous arr) (\<lambda>s. py_done (add_timestamped_samples ch ts (NvInt8 s) b))"
| "try_dispatch ch ts contiguous (NaInt16 arr) b =
     and_then (as_slice contiguous arr) (\<lambda>s. py_done (add_timestamped_samples ch ts (NvInt16 s) b))"
| "try_dispatch ch ts contiguous (NaInt32 arr) b =
     and_then (as_slice contiguous arr) (\<lambda>s. py_done (add_timestamped_samples ch ts (NvInt32 s) b))"
| "try_dispatch ch ts contiguous (NaInt64 arr) b =
     and_then (as_slice contiguous arr) (\<lambda>s. py_done (add_timestamped_samples ch ts (NvInt64 s) b))"
| "try_dispatch ch ts contiguous (NaUInt8 arr) b =
     and_then (as_slice contiguous arr) (\<lambda>s. py_done (add_timestamped_samples ch ts (NvUInt8 s) b))"
| "try_dispatch ch ts contiguous (NaUInt16 arr) b =
     and_then (as_slice contiguous arr) (\<lambda>s. py_done (add_timestamped_samples ch ts (NvUInt16 s) b))"
| "try_dispatch ch ts contiguous (NaUInt32 arr) b =
     and_then (as_slice contiguous arr) (\<lambda>s. py_done (add_timestamped_samples ch ts (NvUInt32 s) b))"
| "try_dispatch ch ts contiguous (NaUInt64 arr) b =
     and_then (as_slice contiguous arr) (\<lambda>s. py_done (add_timestamped_samples ch ts (NvUInt64 s) b))"
| "try_dispatch ch ts contiguous (NaFloat32 arr) b =
     and_then (as_slice contiguous arr) (\<lambda>s. py_done (add_timestamped_samples ch ts (NvFloat s) b))"
| "try_dispatch ch ts contiguous (NaFloat64 arr) b =
     and_then (as_slice contiguous arr) (\<lambda>s. py_done (add_timestamped_samples ch ts (NvDouble s) b))"

definition py_add_timestamped_samples :: "u16 \<Rightarrow> py_object \<Rightarrow> py_object \<Rightarrow> unit py_method" where
  "py_add_timestamped_samples channel timestamps_ns values_arg =
     with_inner (\<lambda>inner.
       and_then (timestamp_slice timestamps_ns) (\<lambda>ts_slice.
         case values_arg of
           NpArray contiguous arr \<Rightarrow> try_dispatch channel ts_slice contiguous arr inner
         | _ \<Rightarrow> Inl (ValueError ''add_timestamped_samples expects a 1D numeric numpy array'')))"

definition py_add_string_samples :: "u16 \<Rightarrow> py_object \<Rightarrow> string list \<Rightarrow> unit py_method" where
  "py_add_string_samples channel timestamps_ns vs =
     with_inner (\<lambda>inner.
       and_then (timestamp_slice timestamps_ns) (\<lambda>ts_slice.
         py_done (add_string_samples channel ts_slice vs inner)))"

definition py_add_binary_samples :: "u16 \<Rightarrow> py_object \<Rightarrow> byte list list \<Rightarrow> unit py_method" where
  "py_add_binary_samples channel timestamps_ns vs =
     with_inner (\<lambda>inner.
       and_then (timestamp_slice timestamps_ns) (\<lambda>ts_slice.
         py_done (add_binary_samples channel ts_slice vs inner)))"

section \<open>Files\<close>

text \<open>The value of a successful write is the content of the file.\<close>

definition py_write_to_file :: "'n externals \<Rightarrow> string \<Rightarrow> osf_error + unit \<Rightarrow> byte list py_method" where
  "py_write_to_file ex now created w =
     (case take_inner w of
        (Inl e, w') \<Rightarrow> (Inl e, w')
      | (Inr inner, w') \<Rightarrow> (py_result (write_to_file ex now created inner), w'))"

definition py_writer_repr :: "py_writer_builder \<Rightarrow> string" where
  "py_writer_repr w =
     (case pw_inner w of
        Some inner \<Rightarrow> ''WriterBuilder(channels='' @ show_nat (writer_channel_count inner) @ '')''
      | None \<Rightarrow> ''WriterBuilder(consumed)'')"

definition py_save ::
  "'n externals \<Rightarrow> string \<Rightarrow> osf_error + unit \<Rightarrow> py_data_manager \<Rightarrow> string option \<Rightarrow> py_error + byte list"
where
  "py_save ex now created manager integrity =
     and_then (case integrity of Some s \<Rightarrow> parse_integrity_str s | None \<Rightarrow> Inr IpNone) (\<lambda>profile.
       py_result
         (if profile = IpNone then write_manager_to_file ex now created (pdm_inner manager)
          else and_then (from_manager (dm_meta (pdm_inner manager)) (dm_channels (pdm_inner manager))) (\<lambda>b.
                 write_to_file ex now created (writer_with_integrity profile b))))"

section \<open>Sessions\<close>

text \<open>
  A Python session: method calls on one builder, in any order. A program that catches exceptions goes
  on with the wrapper as the failed call left it.
\<close>

datatype py_call =
    PyCreator string
  | PyTag string
  | PyReason string
  | PyLocation f64 f64 f64
  | PyNamespaceSep string
  | PyComment string
  | PyWithIntegrity string
  | PyAddChannel channel_args
  | PyAddEquidistant u16 i64 f64 py_object
  | PyAddTimestamped u16 py_object py_object
  | PyAddStrings u16 py_object "string list"
  | PyAddBinaries u16 py_object "byte list list"
  | PyWrite string "osf_error + unit"

datatype py_reply = ReplySelf | ReplyNone | ReplyIndex u16 | ReplyFile "byte list"

fun py_step :: "'n externals \<Rightarrow> py_call \<Rightarrow> py_reply py_method" where
  "py_step ex (PyCreator v) w = apfst (map_ok (\<lambda>_. ReplySelf)) (py_creator v w)"
| "py_step ex (PyTag v) w = apfst (map_ok (\<lambda>_. ReplySelf)) (py_tag v w)"
| "py_step ex (PyReason v) w = apfst (map_ok (\<lambda>_. ReplySelf)) (py_reason v w)"
| "py_step ex (PyLocation lat lon alt) w = apfst (map_ok (\<lambda>_. ReplySelf)) (py_location lat lon alt w)"
| "py_step ex (PyNamespaceSep v) w = apfst (map_ok (\<lambda>_. ReplySelf)) (py_namespace_sep v w)"
| "py_step ex (PyComment v) w = apfst (map_ok (\<lambda>_. ReplySelf)) (py_comment v w)"
| "py_step ex (PyWithIntegrity p) w = apfst (map_ok (\<lambda>_. ReplySelf)) (py_with_integrity p w)"
| "py_step ex (PyAddChannel args) w = apfst (map_ok ReplyIndex) (py_add_channel args w)"
| "py_step ex (PyAddEquidistant ch start rate v) w =
     apfst (map_ok (\<lambda>_. ReplyNone)) (py_add_equidistant_segment ch start rate v w)"
| "py_step ex (PyAddTimestamped ch ts v) w =
     apfst (map_ok (\<lambda>_. ReplyNone)) (py_add_timestamped_samples ch ts v w)"
| "py_step ex (PyAddStrings ch ts v) w = apfst (map_ok (\<lambda>_. ReplyNone)) (py_add_string_samples ch ts v w)"
| "py_step ex (PyAddBinaries ch ts v) w = apfst (map_ok (\<lambda>_. ReplyNone)) (py_add_binary_samples ch ts v w)"
| "py_step ex (PyWrite now created) w = apfst (map_ok ReplyFile) (py_write_to_file ex now created w)"

fun py_session :: "'n externals \<Rightarrow> py_writer_builder \<Rightarrow> py_call list \<Rightarrow> py_writer_builder" where
  "py_session ex w [] = w"
| "py_session ex w (c # cs) = py_session ex (snd (py_step ex c w)) cs"

text \<open>The calls that did not raise.\<close>

fun py_accepted :: "'n externals \<Rightarrow> py_writer_builder \<Rightarrow> py_call list \<Rightarrow> py_call list" where
  "py_accepted ex w [] = []"
| "py_accepted ex w (c # cs) =
     (if isl (fst (py_step ex c w)) then [] else [c]) @ py_accepted ex (snd (py_step ex c w)) cs"

end
