(* ===== verification/PyLaws.thy ===== *)
theory PyLaws
  imports PyWriter
begin

text \<open>
  What the Python bindings promise: a builder lives exactly until it is written, calls that raise leave
  no trace, and arrays come back from the file as they went into the builder.
\<close>

section \<open>The life of a builder\<close>

fun is_write :: "py_call \<Rightarrow> bool" where
  "is_write (PyWrite _ _) = True"
| "is_write _ = False"

lemmas py_methods =
  py_creator_def py_tag_def py_reason_def py_location_def py_namespace_sep_def py_comment_def
  py_with_integrity_def py_add_channel_def py_add_equidistant_segment_def py_add_timestamped_samples_def
  py_add_string_samples_def py_add_binary_samples_def py_write_to_file_def

lemma restore_inner_inner:
  "pw_inner (snd (restore_inner f w)) = map_option f (pw_inner w)"
  by (cases "pw_inner w") (simp_all add: restore_inner_def take_inner_def)

lemma with_inner_inner:
  "pw_inner (snd (with_inner f w)) = None \<longleftrightarrow> pw_inner w = None"
  by (simp add: with_inner_def split: option.split sum.split prod.split)

lemma step_consumes:
  "pw_inner (snd (py_step ex c w)) = None \<longleftrightarrow> pw_inner w = None \<or> is_write c"
  by (cases c)
     (auto simp: py_methods restore_inner_inner with_inner_inner take_inner_def split: sum.split prod.split)

text \<open>What a consumed builder raises: an argument of a bad form is noticed first.\<close>

definition refusal_of :: "py_call \<Rightarrow> py_error \<Rightarrow> bool" where
  "refusal_of c e \<longleftrightarrow>
     e = builder_consumed
     \<or> (\<exists>msg. e = ValueError msg) \<and>
       (case c of PyWithIntegrity p \<Rightarrow> isl (parse_integrity_str p)
        | PyAddChannel args \<Rightarrow>
            isl (parse_data_type_str (ca_data_type args)) \<or> isl (parse_channel_type_str (ca_channel_type args))
        | _ \<Rightarrow> False)"

lemma parse_errors:
  "parse_integrity_str s = Inl e \<Longrightarrow> \<exists>msg. e = ValueError msg"
  "parse_data_type_str s = Inl e \<Longrightarrow> \<exists>msg. e = ValueError msg"
  "parse_channel_type_str s = Inl e \<Longrightarrow> \<exists>msg. e = ValueError msg"
  by (auto simp: parse_integrity_str_def parse_data_type_str_def parse_channel_type_str_def split: if_splits)

lemma consumed_refuses:
  assumes "pw_inner w = None"
  shows "\<exists>e. py_step ex c w = (Inl e, w) \<and> refusal_of c e"
proof -
  have w: "w\<lparr>pw_inner := None\<rparr> = w" using assms by (cases w) simp
  show ?thesis
    using assms parse_errors
    by (cases c)
       (auto simp: py_methods restore_inner_def with_inner_def take_inner_def refusal_of_def w split: sum.splits)
qed

lemma session_append:
  "py_session ex w (cs @ ds) = py_session ex (py_session ex w cs) ds"
  by (induction cs arbitrary: w) simp_all

lemma session_consumed:
  "pw_inner (py_session ex w cs) = None \<longleftrightarrow> pw_inner w = None \<or> (\<exists>c \<in> set cs. is_write c)"
  by (induction cs arbitrary: w) (auto simp: step_consumes)

text \<open>
  A Python builder lives until it is written. After any session, whatever raised in it, the builder is
  consumed exactly when the session called \<open>write_to_file\<close>, successfully or not; and then every further
  call raises, leaves the wrapper as it is, and raises the error that says so, except where an argument
  text is refused first.
\<close>

theorem consumed_builder_refuses:
  "(pw_inner (py_session ex py_builder_new calls) = None \<longleftrightarrow> (\<exists>c \<in> set calls. is_write c))
   \<and> py_writer_repr (py_session ex py_builder_new (calls @ [PyWrite now created])) = ''WriterBuilder(consumed)''
   \<and> (\<exists>e. py_step ex c (py_session ex py_builder_new (calls @ PyWrite now created # later)) =
            (Inl e, py_session ex py_builder_new (calls @ PyWrite now created # later)) \<and> refusal_of c e)"
proof -
  have life: "pw_inner (py_session ex py_builder_new calls) = None \<longleftrightarrow> (\<exists>c \<in> set calls. is_write c)" for calls
    by (simp add: session_consumed py_builder_new_def)
  have gone: "pw_inner (py_session ex py_builder_new (calls @ [PyWrite now created])) = None"
      "pw_inner (py_session ex py_builder_new (calls @ PyWrite now created # later)) = None"
    by (simp_all add: life)
  show ?thesis
    unfolding py_writer_repr_def gone(1) using life consumed_refuses [OF gone(2)] by simp
qed

section \<open>What a session has collected\<close>

text \<open>The samples the accepted calls added, read off their arguments.\<close>

fun py_log :: "py_call \<Rightarrow> writer_log \<Rightarrow> writer_log" where
  "py_log (PyAddChannel args) l = l @ [(ca_name args, projr (parse_data_type_str (ca_data_type args)), [])]"
| "py_log (PyAddEquidistant ch start rate v) l =
     append_log ch (let samples = the (py_elements v)
                    in zip (map (time_at start rate) [0..<length samples]) samples) l"
| "py_log (PyAddTimestamped ch ts v) l = append_log ch (zip (the (py_times ts)) (the (py_elements v))) l"
| "py_log (PyAddStrings ch ts vs) l = append_log ch (zip (the (py_times ts)) (map (VarSample \<circ> VrString) vs)) l"
| "py_log (PyAddBinaries ch ts vs) l = append_log ch (zip (the (py_times ts)) (map (VarSample \<circ> VrBinary) vs)) l"
| "py_log _ l = l"

text \<open>A Python \<open>str\<close> that PyO3 has turned into a \<open>String\<close> is valid UTF-8.\<close>

fun good_py_call :: "py_call \<Rightarrow> bool" where
  "good_py_call (PyAddStrings _ _ vs) = (\<forall>s \<in> set vs. rust_string s)"
| "good_py_call _ = True"

definition core_of :: "writer_builder \<Rightarrow> writer_builder" where
  "core_of = settings file_info_draft_default IpNone"

lemmas setters_def =
  set_creator_def set_tag_def set_reason_def set_location_def set_namespace_sep_def set_comment_def
  writer_with_integrity_def

lemma core_of_setters [simp]:
  "core_of (set_creator v b) = core_of b" "core_of (set_tag v b) = core_of b"
  "core_of (set_reason v b) = core_of b" "core_of (set_location lat lon alt b) = core_of b"
  "core_of (set_namespace_sep v b) = core_of b" "core_of (set_comment v b) = core_of b"
  "core_of (writer_with_integrity p b) = core_of b"
  by (simp_all add: core_of_def settings_def setters_def)

lemma setters_integrity [simp]:
  "wb_integrity (set_creator v b) = wb_integrity b" "wb_integrity (set_tag v b) = wb_integrity b"
  "wb_integrity (set_reason v b) = wb_integrity b" "wb_integrity (set_location lat lon alt b) = wb_integrity b"
  "wb_integrity (set_namespace_sep v b) = wb_integrity b" "wb_integrity (set_comment v b) = wb_integrity b"
  "wb_integrity (writer_with_integrity p b) = p"
  by (simp_all add: setters_def)

lemma parsed_integrity: "parse_integrity_str s = Inr p \<Longrightarrow> p \<noteq> IpEd25519"
  by (auto simp: parse_integrity_str_def split: if_splits)

fun storage_of :: "np_array \<Rightarrow> numeric_values" where
  "storage_of (NaBool v) = NvBool v"
| "storage_of (NaInt8 v) = NvInt8 v"
| "storage_of (NaInt16 v) = NvInt16 v"
| "storage_of (NaInt32 v) = NvInt32 v"
| "storage_of (NaInt64 v) = NvInt64 v"
| "storage_of (NaUInt8 v) = NvUInt8 v"
| "storage_of (NaUInt16 v) = NvUInt16 v"
| "storage_of (NaUInt32 v) = NvUInt32 v"
| "storage_of (NaUInt64 v) = NvUInt64 v"
| "storage_of (NaFloat32 v) = NvFloat v"
| "storage_of (NaFloat64 v) = NvDouble v"

lemma array_samples_storage: "array_samples a = map NumSample (refs_of (storage_of a))"
  by (cases a) simp_all

text \<open>The call of the core library an accepted Python call makes, if it adds anything.\<close>

fun core_calls :: "py_call \<Rightarrow> writer_call list" where
  "core_calls (PyAddChannel args) =
     [AddChannel (py_channel_def args (projr (parse_data_type_str (ca_data_type args)))
                    (projr (parse_channel_type_str (ca_channel_type args))))]"
| "core_calls (PyAddEquidistant ch start rate v) =
     (case v of
        NpArray _ (NaFloat64 arr) \<Rightarrow> [AddSegmentF64 ch start rate arr]
      | NpArray _ (NaFloat32 arr) \<Rightarrow> [AddSegmentF32 ch start rate arr]
      | _ \<Rightarrow> [])"
| "core_calls (PyAddTimestamped ch ts v) =
     (case v of NpArray _ a \<Rightarrow> [AddTimestamped ch (the (py_times ts)) (storage_of a)] | _ \<Rightarrow> [])"
| "core_calls (PyAddStrings ch ts vs) = [AddStrings ch (the (py_times ts)) vs]"
| "core_calls (PyAddBinaries ch ts vs) = [AddBinaries ch (the (py_times ts)) vs]"
| "core_calls _ = []"

lemma with_inner_Inr:
  "with_inner f w = (Inr v, w') \<longleftrightarrow>
     (\<exists>inner inner'. pw_inner w = Some inner \<and> f inner = Inr (v, inner') \<and> w' = w\<lparr>pw_inner := Some inner'\<rparr>)"
  by (auto simp: with_inner_def split: option.split sum.split prod.split)

lemma with_inner_Inl: "with_inner f w = (Inl e, w') \<Longrightarrow> w' = w"
  by (auto simp: with_inner_def split: option.splits sum.splits prod.splits)

lemma as_slice_Inr [simp]: "as_slice c v = Inr s \<longleftrightarrow> c \<and> s = v"
  by (auto simp: as_slice_def)

lemma py_done_Inr [simp]: "py_done r = Inr (u, b) \<longleftrightarrow> r = Inr b"
  by (auto simp: py_done_def)

lemma timestamp_slice_times: "timestamp_slice ts = Inr s \<Longrightarrow> py_times ts = Some s"
  by (auto simp: timestamp_slice_def split: py_object.splits np_array.splits)

lemma try_dispatch_storage:
  "try_dispatch ch ts c a b = (if c then py_done (add_timestamped_samples ch ts (storage_of a) b) else Inl NotContiguousError)"
  by (cases a) (simp_all add: as_slice_def)

text \<open>One call: it raises and changes nothing, or it is its core call and adds its samples.\<close>

lemma accepted_call:
  assumes "pw_inner w = Some b" and "\<not> is_write c" and "py_step ex c w = (Inr reply, w')"
  shows "\<exists>b' b''. pw_inner w' = Some b' \<and> exec_all writer_step b (core_calls c) = Inr b''
     \<and> core_of b' = core_of b'' \<and> (wb_integrity b' = wb_integrity b'' \<or> wb_integrity b' \<noteq> IpEd25519)
     \<and> fold call_log (core_calls c) = py_log c"
proof (cases c)
  case (PyAddChannel args)
  obtain index where "py_add_channel args w = (Inr index, w')"
    using assms(3) PyAddChannel by (cases "py_add_channel args w") auto
  then obtain dt ct b' where "parse_data_type_str (ca_data_type args) = Inr dt"
      "parse_channel_type_str (ca_channel_type args) = Inr ct"
      "add_channel (py_channel_def args dt ct) b = Inr (index, b')" "w' = w\<lparr>pw_inner := Some b'\<rparr>"
    using assms(1) by (auto simp: py_add_channel_def with_inner_Inr split: sum.splits)
  then show ?thesis
    using PyAddChannel by (auto simp: py_channel_def_def fun_eq_iff)
next
  case (PyAddEquidistant ch start rate v)
  obtain b' where b': "w' = w\<lparr>pw_inner := Some b'\<rparr>" and
    "(\<exists>a. v = NpArray True (NaFloat64 a) \<and> add_equidistant_segment_f64 ch start rate a b = Inr b')
     \<or> (\<exists>a. v = NpArray True (NaFloat32 a) \<and> add_equidistant_segment_f32 ch start rate a b = Inr b')"
    using assms PyAddEquidistant
    by (cases "py_add_equidistant_segment ch start rate v w")
       (auto simp: py_add_equidistant_segment_def with_inner_Inr and_then_eq_Inr_iff split: py_object.splits np_array.splits)
  then show ?thesis
    using PyAddEquidistant by (auto simp: fun_eq_iff segment_log_def)
next
  case (PyAddTimestamped ch ts v)
  obtain s a b' where "py_times ts = Some s" "v = NpArray True a" "add_timestamped_samples ch s (storage_of a) b = Inr b'"
      "w' = w\<lparr>pw_inner := Some b'\<rparr>"
    using assms PyAddTimestamped timestamp_slice_times
    by (cases "py_add_timestamped_samples ch ts v w"; cases v)
       (auto simp: py_add_timestamped_samples_def with_inner_Inr and_then_eq_Inr_iff try_dispatch_storage
        split: if_splits)
  then show ?thesis
    using PyAddTimestamped by (auto simp: fun_eq_iff array_samples_storage)
next
  case (PyAddStrings ch ts vs)
  obtain s b' where "py_times ts = Some s" "add_string_samples ch s vs b = Inr b'" "w' = w\<lparr>pw_inner := Some b'\<rparr>"
    using assms PyAddStrings timestamp_slice_times
    by (cases "py_add_string_samples ch ts vs w")
       (auto simp: py_add_string_samples_def with_inner_Inr and_then_eq_Inr_iff)
  then show ?thesis
    using PyAddStrings by (auto simp: fun_eq_iff)
next
  case (PyAddBinaries ch ts vs)
  obtain s b' where "py_times ts = Some s" "add_binary_samples ch s vs b = Inr b'" "w' = w\<lparr>pw_inner := Some b'\<rparr>"
    using assms PyAddBinaries timestamp_slice_times
    by (cases "py_add_binary_samples ch ts vs w")
       (auto simp: py_add_binary_samples_def with_inner_Inr and_then_eq_Inr_iff)
  then show ?thesis
    using PyAddBinaries by (auto simp: fun_eq_iff)
qed (use assms parsed_integrity in \<open>auto simp: py_methods restore_inner_def take_inner_def fun_eq_iff split: sum.splits\<close>)

lemma raised_call:
  assumes "py_step ex c w = (Inl e, w')" and "\<not> is_write c"
  shows "w' = w"
proof -
  have set: "restore_inner f w = (Inl e, w') \<Longrightarrow> w' = w" for f
    by (cases w) (auto simp: restore_inner_def take_inner_def split: sum.splits)
  show ?thesis
    using assms
    by (cases c)
       (auto simp: apfst_def map_prod_def py_methods split: prod.splits sum.splits dest: set with_inner_Inl)
qed

lemma good_core_calls: "good_py_call c \<Longrightarrow> list_all good_call (core_calls c)"
  by (cases c) (simp_all split: py_object.split np_array.split)

text \<open>A session: its accepted calls are calls of the core library, on the builder without its settings.\<close>

lemma session_core:
  assumes "pw_inner w = Some b" and "\<forall>c \<in> set calls. \<not> is_write c \<and> good_py_call c"
    and "wb_integrity b \<noteq> IpEd25519"
  shows "\<exists>b' cs. pw_inner (py_session ex w calls) = Some b' \<and> wb_integrity b' \<noteq> IpEd25519
     \<and> (\<forall>c \<in> set cs. good_call c) \<and> exec_all writer_step (core_of b) cs = Inr (core_of b')
     \<and> fold call_log cs l = fold py_log (py_accepted ex w calls) l"
  using assms
proof (induction calls arbitrary: w b l)
  case Nil
  then show ?case by (intro exI [of _ b] exI [of _ "[]"]) simp
next
  case (Cons c calls)
  obtain r w1 where step: "py_step ex c w = (r, w1)" by (cases "py_step ex c w")
  show ?case
  proof (cases r)
    case (Inl e)
    then have "w1 = w" using raised_call [of ex c w e w1] step Cons.prems(2) by simp
    then show ?thesis using Cons.IH [OF Cons.prems(1) _ Cons.prems(3), of l] Cons.prems(2) step Inl by simp
  next
    case (Inr reply)
    have ok: "\<not> is_write c" "good_py_call c" using Cons.prems(2) by simp_all
    obtain b1 b2 where b1: "pw_inner w1 = Some b1" "exec_all writer_step b (core_calls c) = Inr b2"
        "core_of b1 = core_of b2" "wb_integrity b1 = wb_integrity b2 \<or> wb_integrity b1 \<noteq> IpEd25519"
        "fold call_log (core_calls c) = py_log c"
      using accepted_call [OF Cons.prems(1) ok(1)] step Inr by blast
    have first: "exec_all writer_step (core_of b) (core_calls c) = Inr (core_of b1)"
      unfolding b1(3) unfolding core_of_def exec_calls_settings b1(2) by simp
    have good: "\<forall>cc \<in> set (core_calls c). good_call cc"
      using good_core_calls [OF ok(2)] by (simp add: list_all_iff)
    have "wb_integrity b1 \<noteq> IpEd25519" using b1(4) calls_integrity [OF b1(2)] Cons.prems(3) by auto
    from Cons.IH [OF b1(1) _ this, of "py_log c l"] Cons.prems(2)
    obtain b' cs where "pw_inner (py_session ex w1 calls) = Some b'" "wb_integrity b' \<noteq> IpEd25519"
        "\<forall>c \<in> set cs. good_call c" "exec_all writer_step (core_of b1) cs = Inr (core_of b')"
        "fold call_log cs (py_log c l) = fold py_log (py_accepted ex w1 calls) (py_log c l)"
      by auto
    then show ?thesis
      using step Inr b1(5) first good
      by (intro exI [of _ b'] exI [of _ "core_calls c @ cs"]) (auto simp: exec_all_append)
  qed
qed

section \<open>From arrays to arrays\<close>

text \<open>What Python sees of a channel.\<close>

definition py_view :: "py_channel \<Rightarrow> string \<times> string \<times> i64 list option \<times> sample list option" where
  "py_view c = (py_channel_name c, py_data_type c, py_times (py_timestamps_ns c), py_elements (py_samples c))"

lemma loaded_views:
  assumes "load_from_file ex fill s file_size = Inr m"
  shows "map (\<lambda>c. py_view \<lparr>pc_inner = c\<rparr>) (dm_channels m)
    = map (\<lambda>(name, dt, entries). (name, data_type_to_str dt, Some (map fst (projr entries)), Some (map snd (projr entries))))
        (map (\<lambda>c. (channel_name c, channel_data_type c, channel_log c)) (dm_channels m))"
proof -
  obtain st where st: "load_from_stream_with_size ex st file_size = Inr m" using file_streamed [OF assms] .
  have "py_view \<lparr>pc_inner = c\<rparr> = (channel_name c, data_type_to_str (channel_data_type c),
      Some (map fst (projr (channel_log c))), Some (map snd (projr (channel_log c))))" if "c \<in> set (dm_channels m)" for c
    using shaped_arrays [of "\<lparr>pc_inner = c\<rparr>"] streamed_shape [OF st that]
    by (auto simp: py_view_def py_channel_name_def py_data_type_def)
  then show ?thesis by simp
qed

text \<open>
  C2. Arrays survive the way through a file. Take a Python session on a new builder, whatever raised in it,
  that has not written yet, has accepted between 1 and 65534 channels, and has accepted no text or bytes
  object of \<open>2 ^ 32 - 13\<close> bytes or more (a longer one is accepted, and the write then fails); and a JSON library
  that keeps integers exact and parses the metablock it printed. Then \<open>write_to_file\<close> succeeds on an
  opened file, \<open>osf.load\<close> of that file succeeds, and the loaded channels are those of the accepted
  \<open>add_channel\<close> calls in order, with the name and datatype text given, whose \<open>timestamps_ns()\<close> and
  \<open>samples()\<close> hold exactly what the accepted \<open>add\<close> calls passed, one call after the other; a call that
  raised contributes nothing.
\<close>

theorem python_session_roundtrip:
  fixes ex :: "'n externals"
  assumes "\<forall>c \<in> set calls. \<not> is_write c \<and> good_py_call c"
    and "pw_inner (py_session ex py_builder_new calls) = Some b"
    and "wb_channels b \<noteq> []" and "length (wb_channels b) \<le> 0xFFFE"
    and "\<forall>dat \<in> set (wb_channel_data b). texts_fit dat"
    and "exact_integers (ex_serde_json ex)"
    and "\<forall>defs. autobump_size_of_length_value (wb_channels b) (wb_channel_data b) (wb_integrity b = IpCrc32c) = Inr defs
           \<longrightarrow> prints_faithfully (ex_serde_json ex) (metablock_document (ex_serde_json ex) now (wb_file_info b) defs)"
  shows "\<exists>bytes m. fst (py_step ex (PyWrite now (Inr ())) (py_session ex py_builder_new calls)) = Inr (ReplyFile bytes)
     \<and> py_load ex fill elapsed (source bytes) file_size = Inr m
     \<and> map py_view (py_dm_channels m)
       = map (\<lambda>(name, dt, entries). (name, data_type_to_str dt, Some (map fst entries), Some (map snd entries)))
           (fold py_log (py_accepted ex py_builder_new calls) [])"
proof -
  have new: "pw_inner py_builder_new = Some writer_builder_new" "core_of writer_builder_new = writer_builder_new"
    "wb_integrity writer_builder_new \<noteq> IpEd25519"
    by (simp_all add: py_builder_new_def core_of_def settings_def writer_builder_new_def)
  obtain cs where ed: "wb_integrity b \<noteq> IpEd25519" and cs: "\<forall>c \<in> set cs. good_call c" "exec_all writer_step writer_builder_new cs = Inr (core_of b)"
      "fold call_log cs [] = fold py_log (py_accepted ex py_builder_new calls) []"
    using session_core [OF new(1) assms(1) new(3), of ex "[]"] assms(2) new(2) by auto
  have profile: "wb_integrity b = IpNone \<or> wb_integrity b = IpCrc32c"
    using ed by (cases "wb_integrity b") simp_all
  have b: "core_of b\<lparr>wb_integrity := wb_integrity b, wb_file_info := wb_file_info b\<rparr> = b"
    by (simp add: core_of_def settings_def)
  have fields: "wb_channels (core_of b) = wb_channels b" "wb_channel_data (core_of b) = wb_channel_data b"
    by (simp_all add: core_of_def)
  obtain bytes m where m: "write_to (ex_serde_json ex) (ex_crc32c ex) now b = Inr bytes"
      "load_from_file ex fill (source bytes) file_size = Inr m"
      "map (\<lambda>c. (channel_name c, channel_data_type c, channel_log c)) (dm_channels m)
        = map (\<lambda>(name, dt, entries). (name, dt, Inr entries)) (fold call_log cs [])"
    using written_file_loads [OF cs(1,2) _ _ _ profile assms(6), of now "wb_file_info b" fill file_size] assms(3-5,7)
    unfolding fields b by blast
  let ?m = "\<lparr>pdm_inner = m, pdm_elapsed = elapsed\<rparr>"
  have "map py_view (py_dm_channels ?m)
      = map (\<lambda>(name, dt, entries). (name, data_type_to_str dt, Some (map fst (projr entries)), Some (map snd (projr entries))))
          (map (\<lambda>c. (channel_name c, channel_data_type c, channel_log c)) (dm_channels m))"
    using loaded_views [OF m(2)] by (simp add: py_dm_channels_def)
  also have "... = map (\<lambda>(name, dt, entries). (name, data_type_to_str dt, Some (map fst entries), Some (map snd entries)))
           (fold py_log (py_accepted ex py_builder_new calls) [])"
    unfolding m(3) cs(3) by (simp add: case_prod_unfold comp_def)
  finally show ?thesis
    using m(1,2) assms(2)
    by (intro exI [of _ bytes] exI [of _ ?m])
       (simp add: py_write_to_file_def take_inner_def write_to_file_def py_load_def)
qed

text \<open>A session with three calls that raise.\<close>

definition demo_python :: "py_call list" where
  "demo_python =
     [PyWithIntegrity ''ed25519'', PyAddChannel (channel_args_for [] ''int8'' ''scalar''),
      PyAddTimestamped 0 (NpArray True (NaInt64 [5])) (NpArray True (NaInt16 [7])),
      PyAddTimestamped 0 (NpArray True (NaInt64 [5])) (NpArray False (NaInt8 [7])),
      PyAddTimestamped 0 (NpArray True (NaInt64 [5])) (NpArray True (NaInt8 [7]))]"

lemma demo_python_run:
  "pw_inner (py_session ex py_builder_new demo_python) = Some demo_builder"
  "py_accepted ex py_builder_new demo_python
     = [PyAddChannel (channel_args_for [] ''int8'' ''scalar''),
        PyAddTimestamped 0 (NpArray True (NaInt64 [5])) (NpArray True (NaInt8 [7]))]"
  by (simp_all add: demo_python_def py_methods parse_integrity_str_def parse_data_type_str_def
      parse_channel_type_str_def channel_args_for_def with_inner_def py_builder_new_def py_channel_def_def
      add_channel_def writer_builder_new_def timestamp_slice_def as_slice_def py_done_def add_timestamped_def
      append_timestamped_numeric_def channel_def_at_def update_data_def index_at_def demo_builder_def
      demo_def_def channel_def_default_def Let_def)

theorem python_session_roundtrip_witness:
  "\<exists>bytes m. fst (py_step demo_written_externals (PyWrite ''now'' (Inr ()))
         (py_session demo_written_externals py_builder_new demo_python)) = Inr (ReplyFile bytes)
     \<and> py_load demo_written_externals 1 \<lparr>dur_secs = 0, dur_nanos = 5\<rparr> (source bytes) (Some 99) = Inr m
     \<and> map py_view (py_dm_channels m) = [([], ''int8'', Some [5], Some [NumSample (VrInt8 7)])]"
proof -
  have log: "fold py_log (py_accepted demo_written_externals py_builder_new demo_python) []
      = [([], DtInt8, [(5, NumSample (VrInt8 7))])]"
    by (simp add: demo_python_run channel_args_for_def parse_data_type_str_def append_log_def)
  obtain bytes m where m: "fst (py_step demo_written_externals (PyWrite ''now'' (Inr ()))
         (py_session demo_written_externals py_builder_new demo_python)) = Inr (ReplyFile bytes)"
      "py_load demo_written_externals 1 \<lparr>dur_secs = 0, dur_nanos = 5\<rparr> (source bytes) (Some 99) = Inr m"
      "map py_view (py_dm_channels m) = [([], ''int8'', Some [5], Some [NumSample (VrInt8 7)])]"
    using python_session_roundtrip [OF _ demo_python_run(1), where now = "''now''" and fill = 1
        and elapsed = "\<lparr>dur_secs = 0, dur_nanos = 5\<rparr>" and file_size = "Some 99" and ex = demo_written_externals] log
    by (auto simp: demo_python_def demo_conditions demo_builder_def writer_builder_new_def)
  then show ?thesis by (intro exI conjI)
qed

end
