(* ===== verification/PyExport.thy ===== *)
theory PyExport
  imports PyLaws
begin

text \<open>
  Python code that passes on what it has read: the arrays of a loaded channel given to a builder, and
  \<open>osf.save\<close> of a loaded manager.
\<close>

section \<open>Arrays read are arrays accepted\<close>

text \<open>What a builder holds after a session fits together.\<close>

lemma session_builder:
  assumes "\<forall>c \<in> set calls. \<not> is_write c \<and> good_py_call c"
    and "pw_inner (py_session ex py_builder_new calls) = Some b"
  shows "length (wb_channel_data b) = length (wb_channels b)"
proof -
  have new: "pw_inner py_builder_new = Some writer_builder_new" "core_of writer_builder_new = writer_builder_new"
      "wb_integrity writer_builder_new \<noteq> IpEd25519"
    by (simp_all add: py_builder_new_def core_of_def settings_def writer_builder_new_def)
  obtain cs where cs: "\<forall>c \<in> set cs. good_call c" "exec_all writer_step writer_builder_new cs = Inr (core_of b)"
    using session_core [OF new(1) assms(1) new(3), of ex "[]"] assms(2) new(2) by auto
  have "writer_wf (core_of b)" using exec_log [OF new_builder_wf cs] by simp
  then show ?thesis by (auto simp: writer_wf_def core_of_def dest: list_all2_lengthD)
qed

lemma data_type_texts:
  "\<not> is_unsupported dt \<Longrightarrow>
   parse_data_type_str (data_type_to_str dt) = Inr (if dt = DtByteArray then DtBinary else dt)"
  by (cases dt) (simp_all add: parse_data_type_str_def)

lemma shape_supported: "channel_shape c \<Longrightarrow> \<not> is_unsupported (channel_data_type c)"
  by (cases c; cases "channel_data_type c")
     (auto simp: channel_shape_def split: if_splits elim: nv_data_type.elims)

text \<open>A channel that has just been declared.\<close>

definition declared :: "writer_builder \<Rightarrow> data_type \<Rightarrow> writer_builder \<Rightarrow> bool" where
  "declared b dt b' \<longleftrightarrow>
     (\<exists>def. wb_channels b' = wb_channels b @ [def] \<and> cd_data_type def = dt)
     \<and> wb_channel_data b' = wb_channel_data b @ [CdEmpty]"

lemma export_declared:
  assumes "pw_inner w = Some b" and "length (wb_channels b) < 65536" and "\<not> is_unsupported dt"
  shows "\<exists>w1 b1. py_add_channel (channel_args_for name (data_type_to_str dt) ''scalar'') w
        = (Inr (of_nat (length (wb_channels b))), w1)
     \<and> pw_inner w1 = Some b1 \<and> declared b (if dt = DtByteArray then DtBinary else dt) b1"
  using assms
  by (simp add: py_add_channel_def channel_args_for_def data_type_texts parse_channel_type_str_def with_inner_def
      add_channel_def py_channel_def_def Let_def declared_def)

lemma declared_at:
  assumes "declared b dt b1" and "length (wb_channels b) < 65536"
    and "length (wb_channel_data b) = length (wb_channels b)"
  shows "\<exists>def. channel_def_at b1 (of_nat (length (wb_channels b))) = Inr def \<and> cd_data_type def = dt"
    and "update_data (of_nat (length (wb_channels b))) f b1
       = map_ok (\<lambda>dat. b1\<lparr>wb_channel_data := wb_channel_data b @ [dat]\<rparr>) (f CdEmpty)"
proof -
  have n: "unat (of_nat (length (wb_channels b)) :: u16) = length (wb_channels b)"
    using assms(2) by (simp add: unat_of_nat take_bit_nat_eq_self)
  show "\<exists>def. channel_def_at b1 (of_nat (length (wb_channels b))) = Inr def \<and> cd_data_type def = dt"
    using assms(1) by (auto simp: declared_def channel_def_at_def n)
  show "update_data (of_nat (length (wb_channels b))) f b1
       = map_ok (\<lambda>dat. b1\<lparr>wb_channel_data := wb_channel_data b @ [dat]\<rparr>) (f CdEmpty)"
    using assms(1,3) by (cases "f CdEmpty") (auto simp: declared_def update_data_def index_at_def n nth_append list_update_append)
qed

text \<open>The call that takes what \<open>samples()\<close> and \<open>timestamps_ns()\<close> gave.\<close>

definition re_add :: "u16 \<Rightarrow> py_object \<Rightarrow> py_object \<Rightarrow> unit py_method" where
  "re_add i ts v =
     (case v of
        PyStrList texts \<Rightarrow> py_add_string_samples i ts texts
      | PyBytesList blobs \<Rightarrow> py_add_binary_samples i ts blobs
      | _ \<Rightarrow> py_add_timestamped_samples i ts v)"

lemma numeric_accepted:
  assumes "declared b (nv_data_type nv) b1" and "length (wb_channels b) < 65536"
    and "length (wb_channel_data b) = length (wb_channels b)"
    and "pw_inner w1 = Some b1" and "length ts = nv_len nv"
  shows "\<exists>w2. re_add (of_nat (length (wb_channels b))) (NpArray True (NaInt64 ts)) (numeric_values_to_pyobject nv) w1
     = (if nv_data_type nv = DtGpsLocation
        then (Inl (ValueError ''add_timestamped_samples expects a 1D numeric numpy array''), w1) else (Inr (), w2))"
proof -
  obtain def where "channel_def_at b1 (of_nat (length (wb_channels b))) = Inr def" "cd_data_type def = nv_data_type nv"
    using declared_at(1) [OF assms(1-3)] by blast
  then show ?thesis
    using declared_at(2) [OF assms(1-3)] assms(4,5)
    by (cases nv)
       (simp_all add: re_add_def py_add_timestamped_samples_def with_inner_def timestamp_slice_def as_slice_def
          py_done_def add_timestamped_def append_timestamped_numeric_def)
qed

lemma texts_accepted:
  assumes "declared b dt b1" and "length (wb_channels b) < 65536"
    and "length (wb_channel_data b) = length (wb_channels b)" and "pw_inner w1 = Some b1"
  shows "dt = DtString \<Longrightarrow> length texts = length ts \<Longrightarrow>
      \<exists>w2. re_add (of_nat (length (wb_channels b))) (NpArray True (NaInt64 ts)) (PyStrList texts) w1 = (Inr (), w2)"
    and "dt = DtBinary \<Longrightarrow> length blobs = length ts \<Longrightarrow>
      \<exists>w2. re_add (of_nat (length (wb_channels b))) (NpArray True (NaInt64 ts)) (PyBytesList blobs) w1 = (Inr (), w2)"
proof -
  obtain def where "channel_def_at b1 (of_nat (length (wb_channels b))) = Inr def" "cd_data_type def = dt"
    using declared_at(1) [OF assms(1-3)] by blast
  then show
    "dt = DtString \<Longrightarrow> length texts = length ts \<Longrightarrow>
      \<exists>w2. re_add (of_nat (length (wb_channels b))) (NpArray True (NaInt64 ts)) (PyStrList texts) w1 = (Inr (), w2)"
    "dt = DtBinary \<Longrightarrow> length blobs = length ts \<Longrightarrow>
      \<exists>w2. re_add (of_nat (length (wb_channels b))) (NpArray True (NaInt64 ts)) (PyBytesList blobs) w1 = (Inr (), w2)"
    using declared_at(2) [OF assms(1-3)] assms(4)
    by (simp_all add: re_add_def py_add_string_samples_def py_add_binary_samples_def with_inner_def timestamp_slice_def
        as_slice_def py_done_def add_string_samples_def add_binary_samples_def append_variable_def insert_variable_def)
qed

text \<open>
  C12. What Python reads it can write, except positions. For every channel of every loaded manager and every
  builder a session has left with fewer than 65536 channels: \<open>add_channel\<close> accepts the channel's
  \<open>name\<close> and \<open>data_type\<close> and returns the next index; and the \<open>add\<close> method for that channel then accepts the
  objects \<open>timestamps_ns()\<close> and \<open>samples()\<close> returned. Only the two-dimensional array of a
  \<open>gpslocation\<close> channel is refused, with a \<open>ValueError\<close> that leaves the builder unchanged, although
  \<open>add_channel\<close> accepts that datatype.
\<close>

theorem exported_arrays_accepted:
  assumes "py_load source_ex fill elapsed s file_size = Inr m" and "c \<in> set (py_dm_channels m)"
    and "\<forall>c \<in> set calls. \<not> is_write c \<and> good_py_call c"
    and "pw_inner (py_session ex py_builder_new calls) = Some b" and "length (wb_channels b) < 65536"
  shows "\<exists>w1 w2. py_add_channel (channel_args_for (py_channel_name c) (py_data_type c) ''scalar'')
            (py_session ex py_builder_new calls) = (Inr (of_nat (length (wb_channels b))), w1)
     \<and> re_add (of_nat (length (wb_channels b))) (py_timestamps_ns c) (py_samples c) w1
         = (if py_data_type c = ''gpslocation''
            then (Inl (ValueError ''add_timestamped_samples expects a 1D numeric numpy array''), w1)
            else (Inr (), w2))"
proof -
  let ?c = "pc_inner c" and ?w = "py_session ex py_builder_new calls"
  have "load_from_file source_ex fill s file_size = Inr (pdm_inner m)" "?c \<in> set (dm_channels (pdm_inner m))"
    using assms(1,2) by (auto simp: py_load_def py_dm_channels_def)
  then have shape: "channel_shape ?c" using file_streamed streamed_shape by metis
  let ?dt = "if channel_data_type ?c = DtByteArray then DtBinary else channel_data_type ?c"
  obtain w1 b1 where add: "py_add_channel (channel_args_for (py_channel_name c) (py_data_type c) ''scalar'') ?w
        = (Inr (of_nat (length (wb_channels b))), w1)" and b1: "pw_inner w1 = Some b1" "declared b ?dt b1"
    using export_declared [OF assms(4,5) shape_supported [OF shape], of "py_channel_name c"]
    by (auto simp: py_data_type_def)
  have len: "length (wb_channel_data b) = length (wb_channels b)" by (rule session_builder [OF assms(3,4)])
  have gps: "py_data_type c = ''gpslocation'' \<longleftrightarrow> channel_data_type ?c = DtGpsLocation"
    by (cases "channel_data_type ?c") (simp_all add: py_data_type_def)
  have "\<exists>w2. re_add (of_nat (length (wb_channels b))) (py_timestamps_ns c) (py_samples c) w1
      = (if channel_data_type ?c = DtGpsLocation
         then (Inl (ValueError ''add_timestamped_samples expects a 1D numeric numpy array''), w1) else (Inr (), w2))"
  proof (cases ?c)
    case (Equidistant e)
    then have nv: "nv_data_type (ec_samples e) = ec_data_type e"
        and tile: "segments_tile 0 (ec_segments e) (nv_len (ec_samples e))" using shape by (simp_all add: channel_shape_def)
    have dt: "ec_data_type e \<noteq> DtByteArray" using nv [symmetric] by (cases "ec_samples e") simp_all
    show ?thesis
      using numeric_accepted [OF _ assms(5) len b1(1), of "ec_samples e" "segment_times (ec_segments e)"]
        b1(2) Equidistant nv dt segments_tile_times [OF tile]
      by (simp add: py_timestamps_ns_def py_samples_def equidistant_timestamps_segments timestamps_ns_to_pyobject_def)
  next
    case (Timestamped t)
    then have nv: "nv_data_type (tc_values t) = tc_data_type t" "length (tc_timestamps_ns t) = nv_len (tc_values t)"
      using shape by (simp_all add: channel_shape_def)
    have dt: "tc_data_type t \<noteq> DtByteArray" using nv(1) [symmetric] by (cases "tc_values t") simp_all
    show ?thesis
      using numeric_accepted [OF _ assms(5) len b1(1), of "tc_values t" "tc_timestamps_ns t"] b1(2) Timestamped nv dt
      by (simp add: py_timestamps_ns_def py_samples_def timestamps_ns_to_pyobject_def)
  next
    case (VariableChannel v)
    then show ?thesis
      using texts_accepted [OF b1(2) assms(5) len b1(1), where ts = "vc_timestamps_ns v"] shape
      by (auto simp: channel_shape_def py_timestamps_ns_def py_samples_def timestamps_ns_to_pyobject_def
          as_strings_def as_binaries_def strings_to_pylist_def binaries_to_pylist_def split: if_splits)
  qed
  with add gps show ?thesis by auto
qed

theorem exported_arrays_accepted_witness:
  "\<exists>s m c w1 w2. py_load demo_written_externals 1 \<lparr>dur_secs = 0, dur_nanos = 5\<rparr> s (Some 99) = Inr m
     \<and> c \<in> set (py_dm_channels m) \<and> channel_log (pc_inner c) = Inr [(5, NumSample (VrInt8 7))]
     \<and> py_add_channel (channel_args_for (py_channel_name c) (py_data_type c) ''scalar'') py_builder_new = (Inr 0, w1)
     \<and> re_add 0 (py_timestamps_ns c) (py_samples c) w1
         = (if py_data_type c = ''gpslocation''
            then (Inl (ValueError ''add_timestamped_samples expects a 1D numeric numpy array''), w1)
            else (Inr (), w2))"
proof -
  obtain s m where m: "py_load demo_written_externals 1 \<lparr>dur_secs = 0, dur_nanos = 5\<rparr> s (Some 99) = Inr m"
      "map (channel_log \<circ> pc_inner) (py_dm_channels m) = [Inr [(5, NumSample (VrInt8 7))]]"
    by (rule demo_python_file)
  then obtain c where c: "c \<in> set (py_dm_channels m)" "channel_log (pc_inner c) = Inr [(5, NumSample (VrInt8 7))]"
    by (cases "py_dm_channels m") auto
  have new: "pw_inner (py_session demo_written_externals py_builder_new []) = Some writer_builder_new"
      "length (wb_channels writer_builder_new) = 0"
    by (simp_all add: py_builder_new_def writer_builder_new_def)
  obtain w1 w2 where
    "py_add_channel (channel_args_for (py_channel_name c) (py_data_type c) ''scalar'') py_builder_new = (Inr 0, w1)"
    "re_add 0 (py_timestamps_ns c) (py_samples c) w1
      = (if py_data_type c = ''gpslocation''
         then (Inl (ValueError ''add_timestamped_samples expects a 1D numeric numpy array''), w1) else (Inr (), w2))"
    using exported_arrays_accepted [OF m(1) c(1) _ new(1)] unfolding new(2) by auto
  with m(1) c show ?thesis by (intro exI conjI)
qed

section \<open>\<open>osf.save\<close>\<close>



end
