(* ===== verification/TextBlocks.thy ===== *)
theory TextBlocks
  imports Payload
begin

text \<open>
  Blocks of string and binary samples in both format versions: the values of a multi-sample block have
  one length, and OSF4 adds one terminator byte to each value.
\<close>

definition text_sample :: "osf_version \<Rightarrow> byte \<Rightarrow> i64 \<times> byte list \<Rightarrow> byte list" where
  "text_sample version terminator sample =
     u64_le (fst sample) @ snd sample @ (if version = Osf4 then [terminator] else [])"

definition text_body :: "osf_version \<Rightarrow> byte \<Rightarrow> (i64 \<times> byte list) list \<Rightarrow> byte list" where
  "text_body version terminator samples = concat (map (text_sample version terminator) samples)"

lemma length_text_sample:
  "length (text_sample version terminator sample) = length (snd sample) + min_per_sample version"
  by (cases version) (simp_all add: text_sample_def min_per_sample_def)

lemma one_text_sample: "parse_one_variable (text_sample version terminator sample) version = Inr sample"
  by (cases version; cases sample)
     (simp_all add: parse_one_variable_def text_sample_def strip_osf4_terminator_def read_u64_le)

lemma text_body_length:
  "\<forall>x \<in> set samples. length (snd x) = k \<Longrightarrow>
   length (text_body version terminator samples) = length samples * (k + min_per_sample version)"
  by (induction samples) (simp_all add: text_body_def length_text_sample)

lemma text_chunks:
  "\<forall>x \<in> set samples. length (snd x) = k \<Longrightarrow>
   parse_chunks (text_body version terminator samples) (k + min_per_sample version) version (length samples)
     = Inr samples"
  by (induction samples) (simp_all add: text_body_def length_text_sample one_text_sample)

lemma variable_n_body:
  assumes "samples \<noteq> []" and "\<forall>x \<in> set samples. length (snd x) = k"
  shows "parse_variable_n (length samples) (text_body version terminator samples) dt version
     = build_string_or_binary ''bcAbsTimeStampData'' dt samples"
proof (cases "length samples = 1")
  case True
  then obtain x where "samples = [x]" by (cases samples) auto
  then show ?thesis by (simp add: parse_variable_n_def text_body_def one_text_sample)
next
  case False
  then show ?thesis
    using assms text_chunks [OF assms(2), of version terminator] text_body_length [OF assms(2), of version terminator]
    by (simp add: parse_variable_n_def Let_def)
qed

lemma decode_strings_all:
  "decode_strings samples =
     (if \<forall>x \<in> set samples. utf8_valid (snd x) then Some (map (apsnd string_of_bytes) samples) else None)"
  by (induction samples rule: decode_strings.induct) (auto simp: from_utf8_def)

text \<open>
  Text blocks of both format versions are read alike. Take any samples whose values have one length,
  written with a count and the multi-sample bit (or, for one sample, without), each value followed by
  one terminator byte in OSF4 and by nothing in OSF5: the parser gives back exactly these samples, as
  byte strings for \<open>binary\<close> and \<open>bytearray\<close> channels, and as strings for \<open>string\<close> channels when all
  values are valid UTF-8; one invalid value makes the block an error.
\<close>

theorem text_blocks_read_alike:
  assumes "samples \<noteq> []" and "length samples < 2 ^ 32" and "\<forall>x \<in> set samples. length (snd x) = k"
    and "if multi then body = u32_le (of_nat (length samples)) @ text_body version terminator samples
         else length samples = 1 \<and> body = text_body version terminator samples"
  shows "parse_abs_timestamp_data body DtBinary multi version = Inr (TpBinary samples)
    \<and> parse_abs_timestamp_data body DtByteArray multi version = Inr (TpBinary samples)
    \<and> parse_abs_timestamp_data body DtString multi version =
        (if \<forall>x \<in> set samples. utf8_valid (snd x) then Inr (TpString (map (apsnd string_of_bytes) samples))
         else Inl (InvalidBlock ''bcAbsTimeStampData string is not valid UTF-8''))"
proof -
  have n: "unat (of_nat (length samples) :: u32) = length samples"
    using assms(2) by (simp add: unat_of_nat take_bit_nat_eq_self)
  moreover have "(of_nat (length samples) :: u32) \<noteq> 0" using n assms(1) by (metis length_0_conv unat_0)
  ultimately have "parse_abs_timestamp_string_or_binary body dt multi version
      = build_string_or_binary ''bcAbsTimeStampData'' dt samples" for dt
    using assms(4) variable_n_body [OF assms(1,3), of version terminator dt]
    by (cases multi) (simp_all add: parse_abs_timestamp_string_or_binary_def read_u32_le)
  then show ?thesis
    by (simp add: parse_abs_timestamp_data_def build_string_or_binary_def decode_strings_all invalid_block_def)
qed

theorem text_blocks_read_alike_witness:
  "parse_abs_timestamp_data (u32_le 2 @ u64_le 7 @ [0x41, 0] @ u64_le 9 @ [0x42, 0]) DtString True Osf4
     = Inr (TpString [(7, ''A''), (9, ''B'')])"
  using text_blocks_read_alike [of "[(7, [0x41]), (9, [0x42])]" 1 True _ Osf4 0]
  by (simp add: text_body_def text_sample_def string_of_bytes_def char_of_def bit_Suc_0_iff)

end
