(* ===== verification/Timestamps.thy ===== *)
theory Timestamps
  imports Calendar "HOL-Library.List_Lexorder" "HOL-Library.Char_ord"
begin

text \<open>
  The \<open>created_utc\<close> texts are ordered like the instants they stand for, so that they can be compared as
  strings.
\<close>

section \<open>Numbers of fixed width\<close>

fun fixed_digits :: "nat \<Rightarrow> nat \<Rightarrow> string" where
  "fixed_digits 0 n = []"
| "fixed_digits (Suc w) n = fixed_digits w (n div 10) @ [digit_char (n mod 10)]"

lemma length_fixed_digits [simp]: "length (fixed_digits w n) = w"
  by (induction w arbitrary: n) simp_all

lemma fixed_digits_zero: "fixed_digits w 0 = replicate w (CHR ''0'')"
proof (induction w)
  case (Suc w)
  then show ?case by (simp add: digit_char_def char_of_def bit_Suc_0_iff replicate_append_same flip: replicate_Suc)
qed simp

lemma pad_left_digits: "n < 10 ^ w \<Longrightarrow> 0 < w \<Longrightarrow> pad_left w (show_nat n) = fixed_digits w n"
proof (induction w arbitrary: n)
  case (Suc w)
  show ?case
  proof (cases "n < 10")
    case True
    then show ?thesis by (simp add: show_nat.simps [of n] pad_left_def fixed_digits_zero)
  next
    case False
    then have w: "0 < w" "n div 10 < 10 ^ w" using Suc.prems by (auto intro: gr0I)
    then have "pad_left w (show_nat (n div 10)) = fixed_digits w (n div 10)" by (intro Suc.IH)
    then show ?thesis using False by (simp add: show_nat.simps [of n] pad_left_def flip: append_assoc)
  qed
qed simp

lemma append_less_append:
  "length xs = length ys \<Longrightarrow> xs @ us < ys @ vs \<longleftrightarrow> xs < ys \<or> xs = ys \<and> us < (vs :: 'a::linorder list)"
  by (induction xs ys rule: list_induct2) auto

lemma digit_char_less: "d < 10 \<Longrightarrow> e < 10 \<Longrightarrow> digit_char d < digit_char e \<longleftrightarrow> d < e"
  by (simp add: digit_char_def less_char_def)

lemma digit_char_eq: "d < 10 \<Longrightarrow> e < 10 \<Longrightarrow> digit_char d = digit_char e \<longleftrightarrow> d = e"
  by (metis digit_value_digit_char)

lemma less_by_digits: "(n::nat) < m \<longleftrightarrow> n div 10 < m div 10 \<or> n div 10 = m div 10 \<and> n mod 10 < m mod 10"
proof -
  have "(10 * q + r < 10 * q' + r') \<longleftrightarrow> q < q' \<or> q = q' \<and> r < r'" if "r < 10" "r' < 10" for q q' r r' :: nat
    using that by linarith
  from this [of "n mod 10" "m mod 10" "n div 10" "m div 10"] show ?thesis by simp
qed

lemma eq_by_digits: "(n::nat) = m \<longleftrightarrow> n div 10 = m div 10 \<and> n mod 10 = m mod 10"
  by (metis mult_div_mod_eq)

lemma fixed_digits_order:
  "n < 10 ^ w \<Longrightarrow> m < 10 ^ w \<Longrightarrow>
   (fixed_digits w n < fixed_digits w m \<longleftrightarrow> n < m) \<and> (fixed_digits w n = fixed_digits w m \<longleftrightarrow> n = m)"
proof (induction w arbitrary: n m)
  case (Suc w)
  have ih: "fixed_digits w (n div 10) < fixed_digits w (m div 10) \<longleftrightarrow> n div 10 < m div 10"
    "fixed_digits w (n div 10) = fixed_digits w (m div 10) \<longleftrightarrow> n div 10 = m div 10"
    using Suc.IH [of "n div 10" "m div 10"] Suc.prems by auto
  have digit: "digit_char (n mod 10) = digit_char (m mod 10) \<longleftrightarrow> n mod 10 = m mod 10"
    by (rule digit_char_eq) simp_all
  show ?case by (simp add: append_less_append ih digit digit_char_less less_by_digits [of n m] eq_by_digits [of n m])
qed simp

section \<open>Dates in order\<close>

definition date_ok :: "int \<times> nat \<times> nat \<Rightarrow> bool" where
  "date_ok date = (case date of (y, m, d) \<Rightarrow> 1970 \<le> y \<and> 1 \<le> m \<and> m \<le> 12 \<and> 1 \<le> d \<and> d \<le> 31)"

definition date_key :: "int \<times> nat \<times> nat \<Rightarrow> int" where
  "date_key date = (case date of (y, m, d) \<Rightarrow> 10000 * y + int (100 * m + d))"

lemma next_day_later: "date_ok date \<Longrightarrow> date_ok (next_day date) \<and> date_key date < date_key (next_day date)"
  by (cases date) (auto simp: date_ok_def date_key_def month_length_def)

lemma date_of_day:
  "int n \<le> 2932896 \<Longrightarrow> date_ok (days_from_civil (int n)) \<and> (\<forall>k < n. date_key (days_from_civil (int k)) < date_key (days_from_civil (int n)))"
proof (induction n)
  case 0
  show ?case by (simp add: civil_epoch date_ok_def)
next
  case (Suc n)
  have "days_from_civil (int (Suc n)) = next_day (days_from_civil (int n))"
    using civil_next_day [of "int n"] Suc.prems by (simp add: add.commute)
  then show ?case using Suc next_day_later [of "days_from_civil (int n)"] by (auto simp: less_Suc_eq)
qed

lemma last_date: "days_from_civil 2932896 = (9999, 12, 31)"
  by code_simp

lemma year_bound:
  assumes "int n \<le> 2932896" and "days_from_civil (int n) = (y, m, d)"
  shows "1970 \<le> y" "y \<le> 9999" "1 \<le> m" "m \<le> 12" "1 \<le> d" "d \<le> 31"
proof -
  show range: "1970 \<le> y" "1 \<le> m" "m \<le> 12" "1 \<le> d" "d \<le> 31"
    using date_of_day [OF assms(1)] assms(2) by (simp_all add: date_ok_def)
  have "date_key (y, m, d) \<le> date_key (9999, 12, 31)"
    using date_of_day [of 2932896] assms last_date by (cases "n = 2932896") (auto simp: less_le)
  then show "y \<le> 9999" using range by (simp add: date_key_def)
qed

lemma date_order:
  assumes "k < n" "int n \<le> 2932896" "days_from_civil (int k) = (y, m, d)" "days_from_civil (int n) = (y', m', d')"
  shows "y < y' \<or> y = y' \<and> (m < m' \<or> m = m' \<and> d < d')"
proof -
  have k: "int k \<le> 2932896" using assms(1,2) by simp
  have "date_key (y, m, d) < date_key (y', m', d')"
    using date_of_day [OF assms(2)] assms(1,3,4) by metis
  then show ?thesis
    using year_bound [OF k assms(3)] year_bound [OF assms(2,4)] by (simp add: date_key_def) linarith
qed

section \<open>Texts in order\<close>

definition stamp_text :: "nat \<Rightarrow> nat \<Rightarrow> nat \<Rightarrow> nat \<Rightarrow> nat \<Rightarrow> nat \<Rightarrow> string" where
  "stamp_text y mo d h m s =
     fixed_digits 4 y @ ''-'' @ fixed_digits 2 mo @ ''-'' @ fixed_digits 2 d @ ''T''
     @ fixed_digits 2 h @ '':'' @ fixed_digits 2 m @ '':'' @ fixed_digits 2 s @ ''Z''"

lemma stamp_less:
  assumes "y < 10 ^ 4" "y' < 10 ^ 4" "mo < 10 ^ 2" "mo' < 10 ^ 2" "d < 10 ^ 2" "d' < 10 ^ 2" "h < 10 ^ 2" "h' < 10 ^ 2"
    "m < 10 ^ 2" "m' < 10 ^ 2" "s < 10 ^ 2" "s' < 10 ^ 2"
  shows "stamp_text y mo d h m s < stamp_text y' mo' d' h' m' s' \<longleftrightarrow>
     y < y' \<or> y = y' \<and> (mo < mo' \<or> mo = mo' \<and> (d < d' \<or> d = d' \<and>
       (h < h' \<or> h = h' \<and> (m < m' \<or> m = m' \<and> s < s'))))"
  unfolding stamp_text_def
  by (simp only: append_less_append length_fixed_digits fixed_digits_order [OF assms(1,2)]
      fixed_digits_order [OF assms(3,4)] fixed_digits_order [OF assms(5,6)] fixed_digits_order [OF assms(7,8)]
      fixed_digits_order [OF assms(9,10)] fixed_digits_order [OF assms(11,12)])
     simp

lemma stamp_of_seconds:
  assumes "0 \<le> secs" "secs < 253402300800" "days_from_civil (secs div 86400) = (y, mo, d)"
  shows "format_unix_seconds_utc secs =
     stamp_text (nat y) mo d (nat (secs mod 86400 div 3600)) (nat (secs mod 86400 mod 3600 div 60)) (nat (secs mod 86400 mod 60))"
proof -
  have day: "int (nat (secs div 86400)) = secs div 86400" "int (nat (secs div 86400)) \<le> 2932896"
    using assms(1,2) by auto
  have "days_from_civil (int (nat (secs div 86400))) = (y, mo, d)" unfolding day(1) by (rule assms(3))
  note ranges = year_bound [OF day(2) this]
  have year: "show_year y = fixed_digits 4 (nat y)"
    using ranges(1,2) pad_left_digits [of "nat y" 4] by (simp add: show_year_def)
  have two: "n < 100 \<Longrightarrow> pad_left 2 (show_nat n) = fixed_digits 2 n" for n
    using pad_left_digits [of n 2] by simp
  have "mo < 100" "d < 100" using ranges(3-6) by simp_all
  note date = this [THEN two]
  define tod where "tod = secs mod 86400"
  have "tod div 3600 < 100" "tod mod 3600 div 60 < 100" "tod mod 60 < 100" by (auto simp: tod_def)
  then have "nat (tod div 3600) < 100" "nat (tod mod 3600 div 60) < 100" "nat (tod mod 60) < 100" by linarith+
  note time = this [THEN two]
  show ?thesis
    by (simp only: format_unix_seconds_utc_def Let_def assms(3) prod.case stamp_text_def year date time flip: tod_def)
qed

lemma split_time:
  fixes z :: int
  shows "z = 3600 * (z div 3600) + (60 * (z mod 3600 div 60) + z mod 60)"
    and "60 * (z mod 3600 div 60) + z mod 60 < 3600"
proof -
  have "z mod 3600 mod 60 = z mod 60" by (simp add: mod_mod_cancel)
  then have "60 * (z mod 3600 div 60) + z mod 60 = z mod 3600" using mult_div_mod_eq [of 60 "z mod 3600"] by simp
  then show "z = 3600 * (z div 3600) + (60 * (z mod 3600 div 60) + z mod 60)"
    "60 * (z mod 3600 div 60) + z mod 60 < 3600" by simp_all
qed

lemma time_order:
  fixes x y :: int
  assumes "0 \<le> x" "x < y"
  shows "nat (x div 3600) < nat (y div 3600) \<or> nat (x div 3600) = nat (y div 3600) \<and>
    (nat (x mod 3600 div 60) < nat (y mod 3600 div 60) \<or> nat (x mod 3600 div 60) = nat (y mod 3600 div 60)
      \<and> nat (x mod 60) < nat (y mod 60))"
proof -
  have lex: "h < h' \<or> h = h' \<and> (m < m' \<or> m = m' \<and> s < s')"
    if "3600 * h + (60 * m + s) < 3600 * h' + (60 * m' + s')" "60 * m' + s' < 3600" "0 \<le> m" "0 \<le> s" "0 \<le> s'" "s' < 60"
    for h h' m m' s s' :: int
    using that by linarith
  have "x div 3600 < y div 3600 \<or> x div 3600 = y div 3600 \<and>
      (x mod 3600 div 60 < y mod 3600 div 60 \<or> x mod 3600 div 60 = y mod 3600 div 60 \<and> x mod 60 < y mod 60)"
    by (rule lex [OF _ split_time(2)], simp only: assms(2) split_time(1) [symmetric], simp_all)
  moreover have "0 \<le> x div 3600" "0 \<le> x mod 3600 div 60" "0 \<le> x mod 60" "0 \<le> y mod 3600 div 60" "0 \<le> y div 3600"
    "0 \<le> y mod 60"
    using assms by simp_all
  ultimately show ?thesis by (simp only: nat_less_eq_zless eq_nat_nat_iff)
qed

lemma earlier_text:
  assumes "0 \<le> a" "a < b" "b < 253402300800"
  shows "format_unix_seconds_utc a < format_unix_seconds_utc b"
proof -
  let ?j = "nat (a div 86400)" and ?k = "nat (b div 86400)"
  have days: "int ?j = a div 86400" "int ?k = b div 86400" "int ?k \<le> 2932896" "int ?j \<le> 2932896" using assms by auto
  obtain y mo d y' mo' d' where date: "days_from_civil (int ?j) = (y, mo, d)" "days_from_civil (int ?k) = (y', mo', d')"
    by (metis prod_cases3)
  note r = year_bound [OF days(4) date(1)] and r' = year_bound [OF days(3) date(2)]
  have le: "a div 86400 \<le> b div 86400" using assms(2) by (simp add: zdiv_mono1)
  have time: "nat (z mod 86400 div 3600) < 10 ^ 2" "nat (z mod 86400 mod 3600 div 60) < 10 ^ 2" "nat (z mod 86400 mod 60) < 10 ^ 2" for z :: int
    by auto
  have "stamp_text (nat y) mo d (nat (a mod 86400 div 3600)) (nat (a mod 86400 mod 3600 div 60)) (nat (a mod 86400 mod 60))
    < stamp_text (nat y') mo' d' (nat (b mod 86400 div 3600)) (nat (b mod 86400 mod 3600 div 60)) (nat (b mod 86400 mod 60))"
  proof (subst stamp_less)
    show "nat y < nat y' \<or> nat y = nat y' \<and> (mo < mo' \<or> mo = mo' \<and> (d < d' \<or> d = d' \<and>
        (nat (a mod 86400 div 3600) < nat (b mod 86400 div 3600) \<or> nat (a mod 86400 div 3600) = nat (b mod 86400 div 3600)
         \<and> (nat (a mod 86400 mod 3600 div 60) < nat (b mod 86400 mod 3600 div 60)
              \<or> nat (a mod 86400 mod 3600 div 60) = nat (b mod 86400 mod 3600 div 60)
              \<and> nat (a mod 86400 mod 60) < nat (b mod 86400 mod 60)))))"
    proof (cases "?j < ?k")
      case True
      from date_order [OF this days(3) date] show ?thesis using r r' by auto
    next
      case False
      then have same: "a div 86400 = b div 86400" using le days by linarith
      then have "a mod 86400 < b mod 86400" using assms(2) by (metis add_less_cancel_left mult_div_mod_eq)
      moreover have "(y, mo, d) = (y', mo', d')" using date same days(1,2) by simp
      ultimately show ?thesis using time_order [of "a mod 86400" "b mod 86400"] by simp
    qed
  qed (use r r' time in auto)
  then show ?thesis
    using stamp_of_seconds [of a y mo d] stamp_of_seconds [of b y' mo' d'] date assms unfolding days(1,2) by simp
qed

text \<open>
  C26. The creation times sort as texts. From 1970 to the end of the year 9999, the text that
  \<open>format_unix_seconds_utc\<close> writes for one second is smaller than that of another, character by
  character, exactly when the second is earlier; in particular no two seconds share a text.
\<close>

theorem timestamps_sort_as_texts:
  assumes "0 \<le> a" and "a < 253402300800" and "0 \<le> b" and "b < 253402300800"
  shows "format_unix_seconds_utc a < format_unix_seconds_utc b \<longleftrightarrow> a < b"
  using earlier_text [of a b] earlier_text [of b a] assms by (cases a b rule: linorder_cases) auto

theorem timestamps_sort_as_texts_witness:
  "format_unix_seconds_utc 951782399 < format_unix_seconds_utc 951782400"
  using timestamps_sort_as_texts [of 951782399 951782400] by simp

end
