(* ===== verification/Spec2Isabelle.thy ===== *)
theory Spec2Isabelle
  imports CrcRefs Documents Dump FrameMachine MalformedLaws MessageLaws PyExport TextBlocks Timestamps
begin

text \<open>
  A verification development for \<open>osf-core\<close>, the Rust implementation of the OSF measurement file
  format (\<open>src/implementations/rust/osf-core/src\<close>; paths below are relative to that directory), for
  its Python bindings (\<open>src/implementations/python/src\<close>, below \<open>python\<close>) and for the programs among its
  examples (\<open>osf-core/examples\<close>).

  \<^bold>\<open>The program.\<close> An OSF file is a text line (the magic header), a metablock that declares channels
  (XML in version 4, JSON in version 5), and a data section of blocks. A block is a channel index,
  a length field of two or four bytes, a control byte and a payload. At integrity level crc a
  checksum guards the metablock and every block. The crate reads files at two levels, as a stream
  of blocks (\<open>reader.rs\<close>, \<open>lib.rs\<close>) and as typed channels in memory (\<open>manager.rs\<close>,
  \<open>data_channel.rs\<close>), and it writes version 5 (\<open>writer.rs\<close>). The data flow of a load is

    bytes, \<open>detect_and_wrap\<close>, \<open>parse_magic_header\<close>, \<open>parse_metablock\<close>, \<open>BlockReader::next\<close>,
    \<open>ChannelBuilder::apply_block\<close>, \<open>finalize\<close>, \<open>DataManager\<close>

  and of a write \<open>WriterBuilder\<close> calls, \<open>autobump_size_of_length_value\<close>,
  \<open>build_metablock_json\<close>, \<open>write_data_blocks\<close>, bytes.

  \<^bold>\<open>Conventions.\<close> Machine integers are words; signed and unsigned integers of one width share the
  word and are told apart by \<open>sint\<close> and \<open>unat\<close>. A float is its bit pattern; the arithmetic the
  code does on \<open>f64\<close> is defined on exact rationals with one rounding to nearest even
  (\<open>Float64\<close>, \<open>Report\<close>). A \<open>String\<close> is the list of its UTF-8 bytes as characters. \<open>Result\<close> is
  \<open>osf_error + 'a\<close> with \<open>Inl\<close> the error; \<open>and_then\<close> is the \<open>?\<close> operator. A panic is the
  error value \<open>Panic\<close>, so that \<open>is_panic\<close> makes the absence of panics a statement. A function
  with \<open>&mut self\<close> takes and returns the record of its state. Hash maps that are only looked up
  in are functions into options, those that are enumerated are association lists.

  \<^bold>\<open>The theories, in the order of the imports.\<close>

  \<^item> \<open>Prelude\<close>: the collections \<open>codec\<close>, \<open>frame\<close> and \<open>wf_intros\<close>, the laws of \<open>and_then\<close>,
    slices with the bounds check, and the locale \<open>invariant_step\<close>: a fallible step that keeps an
    invariant on good input and fails only with tolerated errors does so over whole sequences.
  \<^item> \<open>Types\<close>: \<open>types.rs\<close>, \<open>block.rs\<close>, \<open>error.rs\<close>, \<open>integrity.rs\<close>; the integrity levels are
    a linear order. \<open>Bytes\<close>: \<open>binary_write.rs\<close> and the little-endian readers. \<open>Text\<close>: UTF-8
    validation, splitting, decimal and hexadecimal numbers of the Rust standard library.
    \<open>Stream\<close>: \<open>R: Read\<close> as the bytes still to come and whether the source then fails or ends.
  \<^item> \<open>Codec\<close>: the locales \<open>codec\<close> and \<open>fixed_codec\<close>, the contract between the sample encoders
    of the writer and the decoders of the reader, interpreted on every sample type.
  \<^item> \<open>Header\<close>: \<open>header.rs\<close>. The first line is read up to a limit, split into identifier, length
    and tokens; the token loop, and \<open>write_magic_header\<close> of the writer. Lemmas: round trip,
    accepted levels, bounded consumption, and the downgrade by a late token.
  \<^item> \<open>Stats\<close>, \<open>Report\<close>: \<open>stats.rs\<close>, the counters and the two \<open>Display\<close> reports. \<open>Report\<close>
    shows that division by a power of two and rounding are exact on sizes, hence what is printed.
  \<^item> \<open>Meta\<close>: \<open>meta.rs\<close> and the wire spellings. \<open>Payload\<close>: the payload parsers of \<open>reader.rs\<close>;
    they fail with \<open>InvalidBlock\<close> only (collection \<open>parse_safe\<close>).
  \<^item> \<open>Reader\<close>: \<open>BlockReader\<close> and \<open>next\<close>, one definition per numbered step of the code.
    \<open>BlockStream\<close>: the inductive relation \<open>dispatched\<close> says what the control byte can lead to;
    the relation \<open>advances\<close> on the record \<open>progress\<close> bounds what one call can do, as far as termination and
    the counters need; \<open>items\<close> iterates the reader, with \<open>stream_measure\<close> as termination measure, and
    \<open>run\<close> carries the invariants by rule induction. \<open>Frames\<close>: complete, corrupt and
    truncated frames. \<open>FrameMachine\<close>: the exact machine. \<open>first_frame\<close> reads the frame at the cursor off the
    bytes left, \<open>verdict\<close> says what becomes of a whole one, and \<open>frame_contract\<close> fixes for each kind of frame the
    item, the cursor and the counters after one call; \<open>next\<close> refines it.
  \<^item> \<open>DataChannel\<close>, \<open>Float64\<close>: \<open>data_channel.rs\<close>, segments, reconstructed timestamps, iteration
    and typed access. Rounding is monotone, hence timestamps are.
  \<^item> \<open>Manager\<close>: the channel builders of \<open>manager.rs\<close>. \<open>ManagerLaws\<close>: the invariant \<open>bl_wf\<close>,
    the abstraction \<open>builder_log\<close> (a list of timed samples), the refinement of every block, and
    \<open>build_channels\<close> (interpretation \<open>block_loop\<close> of \<open>invariant_step\<close>).
  \<^item> \<open>Encoder\<close>: framing, chunking and the width bump of \<open>writer.rs\<close>. \<open>EncoderLaws\<close>,
    \<open>RoundTrip\<close>, \<open>FileRoundTrip\<close>: what is written is read, for a frame, a channel and a data
    section. \<open>EncoderTotal\<close>: every chunk fits its length field.
  \<^item> \<open>Writer\<close>: \<open>WriterBuilder\<close>, its calls and \<open>from_manager\<close>. \<open>WriterLaws\<close>: the invariant
    \<open>writer_wf\<close> and the refinement of a log (interpretation \<open>writer_calls\<close>). \<open>Pipeline\<close>: from
    calls to channels.
  \<^item> \<open>Calendar\<close>: \<open>days_from_civil\<close> and the \<open>created_utc\<close> text. \<open>MetaJson\<close>: \<open>meta_json.rs\<close>
    over JSON values. \<open>MetaWrite\<close>: \<open>build_metablock_json\<close>, and
    \<open>info_kept\<close>, the file metadata that survive a round trip. \<open>MetaXml\<close>: \<open>meta_xml.rs\<close> over XML
    events, with the collection \<open>refusal\<close> of the errors a parser may return.
  \<^item> \<open>Load\<close>: \<open>compression.rs\<close>, \<open>integrity.rs\<close>, \<open>lib.rs\<close>, the loading entry points and the
    lookups of \<open>manager.rs\<close>, and \<open>write_to\<close>. \<open>LoadLaws\<close>: whole files; its locale \<open>item_law\<close>
    carries a law of items from \<open>dispatch\<close> to everything a reader yields and is interpreted on
    the absence of panics and, in \<open>Reload\<close>, on the validity of texts. \<open>Copy\<close>: a copy is a
    sequence of builder calls. \<open>Reload\<close>: loaded files can always be iterated, and copied.
  \<^item> \<open>Access\<close>: the typed accessors of loaded channels. \<open>TextBlocks\<close>, \<open>Documents\<close>, \<open>Timestamps\<close>: the
    two text encodings and the two metablock formats read alike, the latter over documents given as trees of
    children (\<open>xml_child\<close>), and creation times sort as texts.
    \<open>Interleaved\<close>: the manager depends on the order of each channel's own blocks only, and frames
    of length zero lose nothing.
  \<^item> \<open>Bindings\<close>: \<open>channel.rs\<close>, \<open>manager.rs\<close>, \<open>numpy_convert.rs\<close>, \<open>error.rs\<close> of \<open>python\<close> on Python objects
    (numpy arrays with dtype, shape and contiguity, lists of texts and bytes). \<open>PyWriter\<close>:
    \<open>python/writer.rs\<close>; the wrapper holds the builder until it is written. A session is a list of
    calls, each of which may raise; \<open>PyLaws\<close> follows it to the file and back, and \<open>PyExport\<close> feeds
    what was read to the writer.
  \<^item> \<open>Disk\<close>: files and programs that may panic or exit. \<open>MessageRefs\<close>: the generator
    \<open>gen_message_event_refs.rs\<close>, from the bytes of its blocks to its comparison with the disk;
    \<open>MessageLaws\<close> runs the loader on its two files.
  \<^item> \<open>CopyTool\<close>: \<open>copy.rs\<close>, load, write, reload and compare on the disk. \<open>Console\<close>: characters of UTF-8
    texts, padding, shortened names and the largest entries of a table. \<open>Inspect\<close>: \<open>inspect.rs\<close>,
    compared with the loader. \<open>Tables\<close>: \<open>stats.rs\<close> and the table of \<open>dump.rs\<close>. \<open>Dump\<close>: its detail view.
  \<^item> \<open>Malformed\<close>: \<open>gen_malformed_refs.rs\<close>, two written files spliced around a frame of length zero, with the
    guards and checks of the program; \<open>MalformedLaws\<close> shows that they pass. \<open>CrcRefs\<close>:
    \<open>gen_crc_refs.rs\<close>, two files at level crc, and that they load with the values computed.

  \<^bold>\<open>What is proved.\<close> The main results compose the components: a file written from any successful
  sequence of calls, from Rust or from Python, is loaded with exactly the samples of the calls and
  clean telemetry; a loaded file survives copying, by \<open>osf.save\<close> and by the program \<open>copy\<close>; the reader refines its frame machine on arbitrary bytes, ends, and
  accounts for every byte; nothing panics except on a metablock length above \<open>isize::MAX\<close>;
  corruption of a frame or of the metablock is detected; both metablock formats agree. The
  others state the functional behaviour, bounds and error behaviour of single components. Where
  the code departs from its documentation, the theorem states what the code does:
  \<open>crc_token_after_signature_downgrades\<close>, \<open>truncated_data_area\<close>, \<open>last_channel_is_lost\<close>,
  \<open>duplicate_name_keeps_last\<close>, \<open>short_first_read_misses_compression\<close>,
  \<open>xml_without_root_accepted\<close>, \<open>loader_panics_only_on_capacity\<close>.

  \<^bold>\<open>Bounds.\<close> No definition uses fuel: the loops of the code are structural, or have a measure
  (the bytes left for \<open>items\<close> and \<open>from_utf8_lossy\<close>, the samples left for the chunking loops, the
  events left for the XML loop). Counters are natural numbers: a counter of bytes or blocks cannot
  reach \<open>2 ^ 64\<close> before the input has that many bytes. A vector length above \<open>isize::MAX\<close> is the
  panic of the allocator; shorter allocations are taken to succeed. A written data section holds at
  most 65534 channels, the indices the reader does not reserve, and no text or binary value of \<open>2 ^ 32 - 13\<close> bytes or
  more (\<open>texts_fit\<close>): the builder accepts such a value, and the write then fails.

  \<^bold>\<open>Parameters.\<close> Code outside the repository is an argument of the definitions: the checksum
  function of the crate \<open>crc\<close> (\<open>crc32c\<close>, with no hypothesis), the JSON parser and printer
  (\<open>serde_json\<close>, with \<open>exact_integers\<close> and \<open>prints_faithfully\<close> where a document is written and
  read back), the XML event reader (\<open>quick_xml\<close>, no hypothesis; what it finds in a document is
  stated by the theorems), the decoders of \<open>flate2\<close>, the number of bytes the first read delivers,
  the file size, the creation time and the elapsed time; for the examples also the sine and the
  logarithm of \<open>gen_crc_refs.rs\<close> and how \<open>dump.rs\<close> writes floats and quoted strings. The witnesses instantiate the parameters
  with concrete functions.

  \<^bold>\<open>Not modelled.\<close> Log output (the macros of the crate \<open>log\<close>), the wording of error messages beyond their
  fixed part, capacity hints of allocations, opening paths and creating files (the entry points
  are modelled on the bytes and the size of an opened file, and a sink accepts every write),
  and the measurement of the elapsed time: none of it influences a result. Verification of
  signatures is not implemented by the crate. A \<open>debug_assert\<close> of \<open>write_abs_timestamp_variable\<close> that its callers
  satisfy (texts or binary values, never both) is left out. Of the Python bindings the registration with PyO3 and
  the debug texts of \<open>__repr__\<close> are left out. Of the examples the
  diagnostics on standard error and the progress lines of the generators and of \<open>copy.rs\<close> are left out.

  \<^bold>\<open>What could come next.\<close> A specification of \<open>inflate\<close> to replace the parameter of the decoders, and one of
  the shortest decimal form of floats for the text of \<open>dump\<close>.
\<close>

end
